(* ===== verification/Prelude.thy ===== *)
theory Prelude
  imports Main
begin

text \<open>
  Shared vocabulary of the development: the exceptions of the program, programs with a state
  and exceptions, their combinators (sequencing, \<open>try/except\<close>, loops, database
  transactions), and the partial-correctness rules by which the components prove what each of
  their operations keeps.
\<close>

named_theorems prog_simps "execution equations of the program combinators"
named_theorems keeps_intros "rules for what a program keeps of an invariant"

section \<open>Exceptions\<close>

text \<open>
  One constructor for every exception class the modelled code raises, catches or lets through.
  \<open>External\<close> stands for an exception raised by code outside the repository (an RPC library,
  a web service); its argument names the call.
\<close>

datatype exn =
    ValueError
  | ValidationError
  | RuntimeError
  | TimeoutError
  | LookupError
  | KeyError
  | IndexError
  | TypeError
  | AssertionError
  | IntegrityError
  | NoResultFound
  | MultipleResultsFound
  | ZeroTransferAmountError
  | InsufficientBTCBalanceError
  | InsufficientRuneBalanceError
  | UnindexedOutput
  | CommunicationError
  | SecurityError
  | ApiException
  | HTTPNotFound
  | ZeroDivisionError
  | AttributeError
  | OrdApiError
  | OrdApiNotFound
  | TapRestError
  | JSONRPCError
  | TransactionNotFound
  | TransactionIndexingInProgress
  | External string

text \<open>Computations without a state return a sum; this is their sequencing.\<close>

definition rbind :: "exn + 'a \<Rightarrow> ('a \<Rightarrow> exn + 'b) \<Rightarrow> exn + 'b" where
  "rbind r f = (case r of Inl e \<Rightarrow> Inl e | Inr x \<Rightarrow> f x)"

lemma rbind_simps [simp]: "rbind (Inl e) f = Inl e" "rbind (Inr x) f = f x"
  by (simp_all add: rbind_def)

lemma rbind_eq_Inr: "rbind r f = Inr y \<longleftrightarrow> (\<exists>x. r = Inr x \<and> f x = Inr y)"
  by (cases r) auto

section \<open>Programs\<close>

text \<open>
  A program takes the state and returns a value or an exception, and the state it leaves.
  The state survives an exception: what was done before it was raised stays done, unless a
  surrounding transaction rolls it back.
\<close>

type_synonym ('s, 'a) prog = "'s \<Rightarrow> (exn + 'a) \<times> 's"

definition ok :: "'a \<Rightarrow> ('s, 'a) prog" where
  "ok x = (\<lambda>s. (Inr x, s))"

definition throw :: "exn \<Rightarrow> ('s, 'a) prog" where
  "throw e = (\<lambda>s. (Inl e, s))"

definition bnd :: "('s, 'a) prog \<Rightarrow> ('a \<Rightarrow> ('s, 'b) prog) \<Rightarrow> ('s, 'b) prog" where
  "bnd m f = (\<lambda>s. case m s of (Inl e, s') \<Rightarrow> (Inl e, s') | (Inr x, s') \<Rightarrow> f x s')"

definition sq :: "('s, 'a) prog \<Rightarrow> ('s, 'b) prog \<Rightarrow> ('s, 'b) prog" where
  "sq m n = bnd m (\<lambda>_. n)"

definition lift_res :: "exn + 'a \<Rightarrow> ('s, 'a) prog" where
  "lift_res r = (\<lambda>s. (r, s))"

definition reads :: "('s \<Rightarrow> 'a) \<Rightarrow> ('s, 'a) prog" where
  "reads f = (\<lambda>s. (Inr (f s), s))"

definition modify :: "('s \<Rightarrow> 's) \<Rightarrow> ('s, unit) prog" where
  "modify g = (\<lambda>s. (Inr (), g s))"

text \<open>\<open>if not b: raise e\<close>, and Python's \<open>assert b\<close>.\<close>

definition demand :: "bool \<Rightarrow> exn \<Rightarrow> ('s, unit) prog" where
  "demand b e = (if b then ok () else throw e)"

definition asserting :: "bool \<Rightarrow> ('s, unit) prog" where
  "asserting b = demand b AssertionError"

text \<open>\<open>try: m except \<dots>\<close>: the handler sees the exception and the state it left.\<close>

definition catch :: "('s, 'a) prog \<Rightarrow> (exn \<Rightarrow> ('s, 'a) prog) \<Rightarrow> ('s, 'a) prog" where
  "catch m h = (\<lambda>s. case m s of (Inl e, s') \<Rightarrow> h e s' | (Inr x, s') \<Rightarrow> (Inr x, s'))"

fun for_each :: "'a list \<Rightarrow> ('a \<Rightarrow> ('s, unit) prog) \<Rightarrow> ('s, unit) prog" where
  "for_each [] f = ok ()"
| "for_each (x # xs) f = sq (f x) (for_each xs f)"

fun collect :: "'a list \<Rightarrow> ('a \<Rightarrow> ('s, 'b) prog) \<Rightarrow> ('s, 'b list) prog" where
  "collect [] f = ok []"
| "collect (x # xs) f = bnd (f x) (\<lambda>y. bnd (collect xs f) (\<lambda>ys. ok (y # ys)))"

fun fold_prog :: "('a \<Rightarrow> 'b \<Rightarrow> ('s, 'b) prog) \<Rightarrow> 'a list \<Rightarrow> 'b \<Rightarrow> ('s, 'b) prog" where
  "fold_prog f [] b = ok b"
| "fold_prog f (x # xs) b = bnd (f x b) (fold_prog f xs)"

lemma run_ok [simp, prog_simps]: "ok x s = (Inr x, s)"
  by (simp add: ok_def)

lemma run_throw [simp, prog_simps]: "throw e s = (Inl e, s)"
  by (simp add: throw_def)

lemma run_lift_res [simp, prog_simps]: "lift_res r s = (r, s)"
  by (simp add: lift_res_def)

lemma run_reads [simp, prog_simps]: "reads f s = (Inr (f s), s)"
  by (simp add: reads_def)

lemma run_modify [simp, prog_simps]: "modify g s = (Inr (), g s)"
  by (simp add: modify_def)

lemma run_demand [prog_simps]: "demand b e s = (if b then (Inr (), s) else (Inl e, s))"
  by (simp add: demand_def)

lemma run_asserting [prog_simps]:
  "asserting b s = (if b then (Inr (), s) else (Inl AssertionError, s))"
  by (simp add: asserting_def run_demand)

lemma run_bnd [prog_simps]:
  "bnd m f s = (case m s of (Inl e, s') \<Rightarrow> (Inl e, s') | (Inr x, s') \<Rightarrow> f x s')"
  by (simp add: bnd_def)

lemma run_sq [prog_simps]:
  "sq m n s = (case m s of (Inl e, s') \<Rightarrow> (Inl e, s') | (Inr x, s') \<Rightarrow> n s')"
  by (simp add: sq_def bnd_def)

lemma run_catch [prog_simps]:
  "catch m h s = (case m s of (Inl e, s') \<Rightarrow> h e s' | (Inr x, s') \<Rightarrow> (Inr x, s'))"
  by (simp add: catch_def)

lemma bnd_eq_Inr:
  "bnd m f s = (Inr y, t) \<longleftrightarrow> (\<exists>x u. m s = (Inr x, u) \<and> f x u = (Inr y, t))"
  by (auto simp: bnd_def split: prod.splits sum.splits)

lemma sq_eq_Inr:
  "sq m n s = (Inr y, t) \<longleftrightarrow> (\<exists>x u. m s = (Inr x, u) \<and> n u = (Inr y, t))"
  by (auto simp: sq_def bnd_eq_Inr)

lemma demand_eq_Inr: "demand b e s = (Inr u, t) \<longleftrightarrow> b \<and> t = s"
  by (auto simp: run_demand)

lemma asserting_eq_Inr: "asserting b s = (Inr u, t) \<longleftrightarrow> b \<and> t = s"
  by (auto simp: run_asserting)

lemmas ran_ok = bnd_eq_Inr sq_eq_Inr demand_eq_Inr asserting_eq_Inr

section \<open>Worlds: a database and the effects sent out\<close>

text \<open>
  The state of a running node: the contents of its database, the sequences that number new
  rows (which, as PostgreSQL documents for sequences, are not rolled back) and the trace of
  effects on the outside world (messages, transactions), newest first.
\<close>

record ('db, 'eff) world =
  w_db :: 'db
  w_seqs :: "string \<Rightarrow> int"
  w_effects :: "'eff list"

definition db_get :: "('db \<Rightarrow> 'a) \<Rightarrow> (('db, 'eff) world, 'a) prog" where
  "db_get f = reads (\<lambda>w. f (w_db w))"

definition db_put :: "('db \<Rightarrow> 'db) \<Rightarrow> (('db, 'eff) world, unit) prog" where
  "db_put g = modify (\<lambda>w. w\<lparr>w_db := g (w_db w)\<rparr>)"

definition emit :: "'eff \<Rightarrow> (('db, 'eff) world, unit) prog" where
  "emit e = modify (\<lambda>w. w\<lparr>w_effects := e # w_effects w\<rparr>)"

definition next_id :: "string \<Rightarrow> (('db, 'eff) world, int) prog" where
  "next_id table = bnd (reads (\<lambda>w. w_seqs w table))
     (\<lambda>n. sq (modify (\<lambda>w. w\<lparr>w_seqs := (w_seqs w)(table := n + 1)\<rparr>)) (ok n))"

text \<open>
  \<open>with transaction_manager.transaction() as tx: m\<close>: committed when the block ends
  normally, rolled back when it raises. Effects on the outside world are not undone.
\<close>

definition in_tx :: "(('db, 'eff) world, 'a) prog \<Rightarrow> (('db, 'eff) world, 'a) prog" where
  "in_tx m = (\<lambda>w. case m w of
       (Inl e, w') \<Rightarrow> (Inl e, w'\<lparr>w_db := w_db w\<rparr>)
     | (Inr x, w') \<Rightarrow> (Inr x, w'))"

lemma run_db_get [simp, prog_simps]: "db_get f w = (Inr (f (w_db w)), w)"
  by (simp add: db_get_def)

lemma run_db_put [simp, prog_simps]: "db_put g w = (Inr (), w\<lparr>w_db := g (w_db w)\<rparr>)"
  by (simp add: db_put_def)

lemma run_emit [simp, prog_simps]: "emit e w = (Inr (), w\<lparr>w_effects := e # w_effects w\<rparr>)"
  by (simp add: emit_def)

lemma run_next_id [simp, prog_simps]:
  "next_id t w = (Inr (w_seqs w t), w\<lparr>w_seqs := (w_seqs w)(t := w_seqs w t + 1)\<rparr>)"
  by (simp add: next_id_def run_bnd run_sq)

lemma run_in_tx [prog_simps]:
  "in_tx m w = (case m w of
       (Inl e, w') \<Rightarrow> (Inl e, w'\<lparr>w_db := w_db w\<rparr>)
     | (Inr x, w') \<Rightarrow> (Inr x, w'))"
  by (simp add: in_tx_def)

lemma in_tx_eq_Inr: "in_tx m w = (Inr x, w') \<longleftrightarrow> m w = (Inr x, w')"
  by (auto simp: in_tx_def split: prod.splits sum.splits)

section \<open>Query results\<close>

text \<open>
  What the query methods \<open>one_or_none\<close>, \<open>one\<close> and \<open>first\<close> do with the rows that match.
\<close>

fun one_or_none :: "'a list \<Rightarrow> exn + 'a option" where
  "one_or_none [] = Inr None"
| "one_or_none [x] = Inr (Some x)"
| "one_or_none xs = Inl MultipleResultsFound"

fun exactly_one :: "'a list \<Rightarrow> exn + 'a" where
  "exactly_one [] = Inl NoResultFound"
| "exactly_one [x] = Inr x"
| "exactly_one xs = Inl MultipleResultsFound"

fun first_row :: "'a list \<Rightarrow> 'a option" where
  "first_row [] = None"
| "first_row (x # xs) = Some x"

lemma exactly_one_Inr: "exactly_one xs = Inr x \<longleftrightarrow> xs = [x]"
  by (cases xs rule: exactly_one.cases) auto

lemma one_or_none_Some: "one_or_none xs = Inr (Some x) \<longleftrightarrow> xs = [x]"
  by (cases xs rule: one_or_none.cases) auto

lemma one_or_none_None: "one_or_none xs = Inr None \<longleftrightarrow> xs = []"
  by (cases xs rule: one_or_none.cases) auto

lemma filter_singletonD: "filter P xs = [x] \<Longrightarrow> x \<in> set xs \<and> P x"
  using filter_eq_ConsD[of P xs x "[]"] by auto

lemma first_row_None [simp]: "first_row xs = None \<longleftrightarrow> xs = []"
  by (cases xs) auto

lemma first_row_SomeD: "first_row xs = Some x \<Longrightarrow> x \<in> set xs"
  by (cases xs) auto

section \<open>What a program keeps\<close>

text \<open>
  \<open>triple P m Q E\<close>: run from a state with \<open>P\<close>, the program ends with \<open>Q\<close> of its value
  and state, or with \<open>E\<close> of its exception and state. \<open>keeps I m\<close> is the invariant case.
\<close>

definition triple ::
  "('s \<Rightarrow> bool) \<Rightarrow> ('s, 'a) prog \<Rightarrow> ('a \<Rightarrow> 's \<Rightarrow> bool) \<Rightarrow> (exn \<Rightarrow> 's \<Rightarrow> bool) \<Rightarrow> bool" where
  "triple P m Q E \<longleftrightarrow> (\<forall>s. P s \<longrightarrow>
     (case m s of (Inl e, s') \<Rightarrow> E e s' | (Inr x, s') \<Rightarrow> Q x s'))"

definition keeps :: "('s \<Rightarrow> bool) \<Rightarrow> ('s, 'a) prog \<Rightarrow> bool" where
  "keeps I m \<longleftrightarrow> (\<forall>s. I s \<longrightarrow> I (snd (m s)))"

lemma keepsI: "(\<And>s. I s \<Longrightarrow> I (snd (m s))) \<Longrightarrow> keeps I m"
  by (simp add: keeps_def)

lemma keepsD: "keeps I m \<Longrightarrow> I s \<Longrightarrow> I (snd (m s))"
  by (simp add: keeps_def)

lemma keepsD': "keeps I m \<Longrightarrow> I s \<Longrightarrow> m s = (r, t) \<Longrightarrow> I t"
  by (auto simp: keeps_def)

lemma keeps_triple: "keeps I m \<longleftrightarrow> triple I m (\<lambda>_. I) (\<lambda>_. I)"
proof -
  have "I (snd (m s)) = (case m s of (Inl e, s') \<Rightarrow> I s' | (Inr x, s') \<Rightarrow> I s')" for s
    by (cases "m s"; cases "fst (m s)") auto
  then show ?thesis by (simp add: keeps_def triple_def)
qed

lemma keeps_ok [simp, keeps_intros]: "keeps I (ok x)"
  by (simp add: keeps_def)

lemma keeps_throw [simp, keeps_intros]: "keeps I (throw e)"
  by (simp add: keeps_def)

lemma keeps_lift_res [simp, keeps_intros]: "keeps I (lift_res r)"
  by (simp add: keeps_def)

lemma keeps_reads [simp, keeps_intros]: "keeps I (reads f)"
  by (simp add: keeps_def)

lemma keeps_db_get [simp, keeps_intros]: "keeps I (db_get f)"
  by (simp add: keeps_def)

lemma keeps_demand [simp, keeps_intros]: "keeps I (demand b e)"
  by (simp add: demand_def)

lemma keeps_asserting [simp, keeps_intros]: "keeps I (asserting b)"
  by (simp add: asserting_def)

lemma keeps_bnd [keeps_intros]: "keeps I m \<Longrightarrow> (\<And>x. keeps I (f x)) \<Longrightarrow> keeps I (bnd m f)"
  by (fastforce simp: keeps_def bnd_def split: prod.splits sum.splits)

text \<open>The rest of a program may use what its first step returned, or demanded.\<close>

lemma keeps_bnd_from:
  assumes "keeps I m" "\<And>x s. I s \<Longrightarrow> fst (m s) = Inr x \<Longrightarrow> keeps I (f x)"
  shows "keeps I (bnd m f)"
proof (rule keepsI)
  fix s assume I: "I s"
  obtain r t where m: "m s = (r, t)" by (cases "m s")
  show "I (snd (bnd m f s))"
  proof (cases r)
    case (Inr x)
    then have "keeps I (f x)" using assms(2)[OF I] m by simp
    then show ?thesis using Inr m keepsD'[OF assms(1) I m] by (simp add: run_bnd keepsD)
  qed (use keepsD'[OF assms(1) I m] m in \<open>simp add: run_bnd\<close>)
qed

lemma keeps_after_demand: "(b \<Longrightarrow> keeps I m) \<Longrightarrow> keeps I (sq (demand b e) m)"
  by (cases b) (auto simp: keeps_def run_sq run_demand)

lemma keeps_sq [keeps_intros]: "keeps I m \<Longrightarrow> keeps I n \<Longrightarrow> keeps I (sq m n)"
  by (simp add: sq_def keeps_bnd)

lemma keeps_catch [keeps_intros]: "keeps I m \<Longrightarrow> (\<And>e. keeps I (h e)) \<Longrightarrow> keeps I (catch m h)"
  by (fastforce simp: keeps_def catch_def split: prod.splits sum.splits)

lemma keeps_for_each [keeps_intros]: "(\<And>x. x \<in> set xs \<Longrightarrow> keeps I (f x)) \<Longrightarrow> keeps I (for_each xs f)"
  by (induction xs) (auto intro: keeps_sq)

lemma keeps_collect [keeps_intros]: "(\<And>x. x \<in> set xs \<Longrightarrow> keeps I (f x)) \<Longrightarrow> keeps I (collect xs f)"
  by (induction xs) (auto intro!: keeps_bnd)

lemma keeps_fold_prog [keeps_intros]:
  "(\<And>x b. x \<in> set xs \<Longrightarrow> keeps I (f x b)) \<Longrightarrow> keeps I (fold_prog f xs b)"
  by (induction xs arbitrary: b) (auto intro!: keeps_bnd)

lemma keeps_if [keeps_intros]:
  "(b \<Longrightarrow> keeps I m) \<Longrightarrow> (\<not> b \<Longrightarrow> keeps I n) \<Longrightarrow> keeps I (if b then m else n)"
  by simp

lemma keeps_option [keeps_intros]:
  "(x = None \<Longrightarrow> keeps I m) \<Longrightarrow> (\<And>y. x = Some y \<Longrightarrow> keeps I (f y)) \<Longrightarrow>
   keeps I (case x of None \<Rightarrow> m | Some y \<Rightarrow> f y)"
  by (cases x) auto

lemma keeps_sum [keeps_intros]:
  "(\<And>e. x = Inl e \<Longrightarrow> keeps I (g e)) \<Longrightarrow> (\<And>y. x = Inr y \<Longrightarrow> keeps I (f y)) \<Longrightarrow>
   keeps I (case x of Inl e \<Rightarrow> g e | Inr y \<Rightarrow> f y)"
  by (cases x) auto

lemma keeps_prod [keeps_intros]:
  "(\<And>a b. x = (a, b) \<Longrightarrow> keeps I (f a b)) \<Longrightarrow> keeps I (case x of (a, b) \<Rightarrow> f a b)"
  by (cases x) auto

lemma keeps_let [keeps_intros]: "(\<And>y. y = x \<Longrightarrow> keeps I (f y)) \<Longrightarrow> keeps I (let y = x in f y)"
  by simp

text \<open>
  A transaction keeps an invariant that the roll back cannot break: one about the database
  alone, or one that its body keeps and that survives putting the old database back.
\<close>

lemma keeps_in_tx:
  assumes "keeps I m"
    and "\<And>w w'. I w \<Longrightarrow> I w' \<Longrightarrow> I (w'\<lparr>w_db := w_db w\<rparr>)"
  shows "keeps I (in_tx m)"
proof (rule keepsI)
  fix w assume I: "I w"
  obtain r w' where m: "m w = (r, w')" by (cases "m w")
  with assms(1) I have I': "I w'" by (rule keepsD')
  show "I (snd (in_tx m w))"
    using m I' assms(2)[OF I I'] by (cases r) (simp_all add: in_tx_def)
qed

lemma pure_in_tx: "keeps (\<lambda>v. v = w) m \<Longrightarrow> keeps (\<lambda>v. v = w) (in_tx m)"
  by (rule keeps_in_tx) auto

end
