(* ===== verification/Descriptors.thy ===== *)
theory Descriptors
  imports Prelude "HOL-Library.Word"
begin

text \<open>
  Output descriptor checksums, \<^verbatim>\<open>bridge_node/bridge/common/btc/descriptors.py\<close>: the
  checksum polynomial over the integers (Python's, unbounded, with its bitwise operators), the
  expansion of characters to symbols, and creation, check and origin removal on strings.
  The lemmas show that the checksum step is linear and invertible, so that a created
  descriptor checks, and that no single replaced character goes unnoticed.
\<close>

unbundle bit_operations_syntax

section \<open>The program\<close>

definition INPUT_CHARSET :: string where
  "INPUT_CHARSET =
     ''0123456789()[],'' @ [CHR 0x27] @ ''/*abcdefgh@:$%{}'' @
     ''IJKLMNOPQRSTUVWXYZ&+-.;<=>?!^_|~'' @
     ''ijklmnopqrstuvwxyzABCDEFGH'' @ [CHR 0x60, CHR 0x23, CHR 0x22, CHR 0x5C, CHR 0x20]"

definition CHECKSUM_CHARSET :: string where
  "CHECKSUM_CHARSET = ''qpzry9x8gf2tvdw0s3jn54khce6mua7l''"

definition GENERATOR :: "int list" where
  "GENERATOR = [0xF5DEE51989, 0xA9FDCA3312, 0x1BAB10E32D, 0x3706B1677A, 0x644D626FFD]"

text \<open>One iteration of the loop of \<open>descsum_polymod\<close>.\<close>

definition polymod_step :: "int \<Rightarrow> int \<Rightarrow> int" where
  "polymod_step chk value =
     (let top = drop_bit 35 chk;
          chk = push_bit 5 (chk AND 0x7FFFFFFFF) XOR value
      in foldl (\<lambda>chk i. chk XOR (if drop_bit i top AND 1 \<noteq> 0 then GENERATOR ! i else 0)) chk [0..<5])"

definition descsum_polymod :: "int list \<Rightarrow> int" where
  "descsum_polymod symbols = foldl polymod_step 1 symbols"

text \<open>\<open>str.find\<close> of a single character; \<open>None\<close> stands for \<open>-1\<close>.\<close>

fun char_find :: "string \<Rightarrow> char \<Rightarrow> nat option" where
  "char_find [] c = None"
| "char_find (x # xs) c = (if x = c then Some 0 else map_option Suc (char_find xs c))"

fun expand_loop :: "string \<Rightarrow> int list \<Rightarrow> int list \<Rightarrow> (int list \<times> int list) option" where
  "expand_loop [] groups symbols = Some (groups, symbols)"
| "expand_loop (c # s) groups symbols =
     (case char_find INPUT_CHARSET c of
        None \<Rightarrow> None
      | Some v \<Rightarrow>
          let symbols = symbols @ [int v AND 31]; groups = groups @ [drop_bit 5 (int v)]
          in if length groups = 3
             then expand_loop s [] (symbols @ [groups ! 0 * 9 + groups ! 1 * 3 + groups ! 2])
             else expand_loop s groups symbols)"

definition descsum_expand :: "string \<Rightarrow> int list option" where
  "descsum_expand s =
     (case expand_loop s [] [] of
        None \<Rightarrow> None
      | Some (groups, symbols) \<Rightarrow>
          if length groups = 1 then Some (symbols @ [groups ! 0])
          else if length groups = 2 then Some (symbols @ [groups ! 0 * 3 + groups ! 1])
          else Some symbols)"

text \<open>Appending a list to \<open>None\<close> raises \<open>TypeError\<close> in the source.\<close>

definition checksum_chars :: "int \<Rightarrow> string" where
  "checksum_chars checksum =
     map (\<lambda>i. CHECKSUM_CHARSET ! nat (drop_bit (5 * (7 - i)) checksum AND 31)) [0..<8]"

definition descsum_create :: "string \<Rightarrow> exn + string" where
  "descsum_create s =
     (case descsum_expand s of
        None \<Rightarrow> Inl TypeError
      | Some e \<Rightarrow>
          let symbols = e @ [0, 0, 0, 0, 0, 0, 0, 0];
              checksum = descsum_polymod symbols XOR 1
          in Inr (s @ ''#'' @ checksum_chars checksum))"

text \<open>\<open>s[-9]\<close> raises \<open>IndexError\<close> on a string of fewer than nine characters.\<close>

definition find_or_minus_1 :: "string \<Rightarrow> char \<Rightarrow> int" where
  "find_or_minus_1 s c = (case char_find s c of None \<Rightarrow> -1 | Some i \<Rightarrow> int i)"

definition descsum_check :: "string \<Rightarrow> bool \<Rightarrow> exn + bool" where
  "descsum_check s require =
     (if CHR ''#'' \<notin> set s then Inr (\<not> require)
      else if length s < 9 then Inl IndexError
      else let body = take (length s - 9) s; tail = drop (length s - 8) s
      in if s ! (length s - 9) \<noteq> CHR ''#'' then Inr False
      else if \<not> (\<forall>x \<in> set tail. x \<in> set CHECKSUM_CHARSET) then Inr False
      else (case descsum_expand body of
              None \<Rightarrow> Inl TypeError
            | Some e \<Rightarrow>
                Inr (descsum_polymod (e @ map (find_or_minus_1 CHECKSUM_CHARSET) tail) = 1)))"

text \<open>
  \<open>re.sub("\\[.+?\\]", "", s)\<close>: a bracket, at least one character that is not a newline, and
  then the nearest closing bracket. \<open>close_origin\<close> looks for that bracket.
\<close>

fun close_origin :: "string \<Rightarrow> string option" where
  "close_origin [] = None"
| "close_origin (c # s) =
     (if c = CHR '']'' then Some s
      else if c = CHR 0x0A then None
      else close_origin s)"

lemma close_origin_length: "close_origin s = Some r \<Longrightarrow> length r < length s"
  by (induction s) (auto split: if_splits)

function drop_brackets :: "string \<Rightarrow> string" where
  "drop_brackets [] = []"
| "drop_brackets (c # s) =
     (if c = CHR ''['' \<and> s \<noteq> [] \<and> hd s \<noteq> CHR 0x0A then
        (case close_origin (tl s) of
           Some rest \<Rightarrow> drop_brackets rest
         | None \<Rightarrow> c # drop_brackets s)
      else c # drop_brackets s)"
  by pat_completeness auto
termination
proof (relation "measure length")
  fix c s rest
  assume "c = CHR ''['' \<and> s \<noteq> [] \<and> hd s \<noteq> CHR 0x0A" "close_origin (tl s) = Some rest"
  then show "(rest, c # s) \<in> measure length"
    using close_origin_length[of "tl s" rest] by (cases s) auto
qed auto

definition drop_origins :: "string \<Rightarrow> exn + string" where
  "drop_origins s =
     (let desc = drop_brackets s
      in if CHR ''#'' \<in> set s then
           (case char_find desc (CHR ''#'') of
              None \<Rightarrow> Inl ValueError
            | Some i \<Rightarrow> descsum_create (take i desc))
         else descsum_create desc)"

section \<open>The checksum step: bounded, linear, invertible\<close>

definition gen_xor :: "int \<Rightarrow> int" where
  "gen_xor tp =
     (if odd tp then 0xF5DEE51989 else 0) XOR
     (if odd (drop_bit 1 tp) then 0xA9FDCA3312 else 0) XOR
     (if odd (drop_bit 2 tp) then 0x1BAB10E32D else 0) XOR
     (if odd (drop_bit 3 tp) then 0x3706B1677A else 0) XOR
     (if odd (drop_bit 4 tp) then 0x644D626FFD else 0)"

lemma and_1_odd: "(x AND 1 \<noteq> 0) = odd (x::int)"
  by (simp add: and_one_eq odd_iff_mod_2_eq_one)

lemma polymod_step_eq:
  "polymod_step chk v = push_bit 5 (take_bit 35 chk) XOR v XOR gen_xor (drop_bit 35 chk)"
proof -
  have m: "chk AND 0x7FFFFFFFF = take_bit 35 chk"
    by (simp add: take_bit_eq_mask mask_eq_exp_minus_1)
  have u: "[0..<5::nat] = [0, 1, 2, 3, 4]" by (simp add: upt_rec)
  have n: "1 = Suc 0" by simp
  show ?thesis
    unfolding polymod_step_def Let_def m u gen_xor_def and_1_odd
    by (simp add: GENERATOR_def ac_simps numeral_2_eq_2 numeral_3_eq_3)
qed

lemma gen_xor_linear: "gen_xor (a XOR b) = gen_xor a XOR gen_xor b"
proof -
  have o: "odd (x XOR y) \<longleftrightarrow> odd x \<noteq> odd y" for x y :: int
    by (simp add: even_xor_iff)
  have p: "(if odd x \<noteq> odd y then g else 0) = (if odd x then g else 0) XOR (if odd y then g else (0::int))"
    for x y g :: int by simp
  show ?thesis
    unfolding gen_xor_def drop_bit_xor o p by (simp only: ac_simps)
qed

lemma polymod_step_linear:
  "polymod_step (a XOR b) (v XOR w) = polymod_step a v XOR polymod_step b w"
  by (simp add: polymod_step_eq gen_xor_linear drop_bit_xor take_bit_xor push_bit_xor ac_simps)

definition fits40 :: "int \<Rightarrow> bool" where
  "fits40 c \<longleftrightarrow> take_bit 40 c = c"

definition symbol :: "int \<Rightarrow> bool" where
  "symbol v \<longleftrightarrow> take_bit 5 v = v"

lemma symbol_iff: "symbol v \<longleftrightarrow> 0 \<le> v \<and> v < 32"
  by (auto simp: symbol_def take_bit_int_eq_self_iff)

lemma fits40_iff: "fits40 c \<longleftrightarrow> 0 \<le> c \<and> c < 2 ^ 40"
  by (auto simp: fits40_def take_bit_int_eq_self_iff)

lemma fits40_xor: "fits40 a \<Longrightarrow> fits40 b \<Longrightarrow> fits40 (a XOR b)"
  by (simp add: fits40_def take_bit_xor)

lemma symbol_fits40: "symbol v \<Longrightarrow> fits40 v"
  by (auto simp: symbol_iff fits40_iff)

lemma symbol_xor: "symbol a \<Longrightarrow> symbol b \<Longrightarrow> symbol (a XOR b)"
  by (simp add: symbol_def take_bit_xor)

lemma gen_xor_fits40: "fits40 (gen_xor tp)"
  unfolding gen_xor_def by (intro fits40_xor) (auto simp: fits40_iff)

lemma polymod_step_fits40: "symbol v \<Longrightarrow> fits40 (polymod_step c v)"
proof -
  assume "symbol v"
  have "fits40 (push_bit 5 (take_bit 35 c))"
    unfolding fits40_def by (simp add: take_bit_push_bit)
  then show ?thesis
    using symbol_fits40[OF \<open>symbol v\<close>]
    unfolding polymod_step_eq by (intro fits40_xor gen_xor_fits40)
qed

lemma polymod_step_small:
  assumes "0 \<le> c" "c < 2 ^ 35" "symbol v"
  shows "polymod_step c v = c * 32 + v"
proof -
  have "take_bit 35 c = c" using assms by (simp add: take_bit_int_eq_self_iff)
  moreover have "drop_bit 35 c = 0" using assms by (simp add: drop_bit_eq_div)
  moreover have "push_bit 5 c XOR v = push_bit 5 c + v"
  proof -
    have "push_bit 5 c AND v = 0"
    proof (rule bit_eqI)
      fix n
      have "bit v n \<Longrightarrow> n < 5"
        using assms(3) by (metis bit_take_bit_iff symbol_def)
      then show "bit (push_bit 5 c AND v) n = bit (0::int) n"
        by (auto simp: bit_simps)
    qed
    then show ?thesis by (simp add: disjunctive_xor_eq_or flip: disjunctive_add_eq_or disjunctive_add_eq_xor)
  qed
  ultimately show ?thesis
    by (simp add: polymod_step_eq gen_xor_def push_bit_eq_mult)
qed

lemma gen_xor_low_bits:
  assumes "symbol tp" "take_bit 5 (gen_xor tp) = 0"
  shows "tp = 0"
proof -
  have "tp \<in> {0..31}" using assms(1) by (auto simp: symbol_iff)
  then have "tp \<in> set [0..31]" by simp
  then have "tp \<in> set (map int [0..<32])"
    by (simp add: image_iff) (metis assms(1) atLeastLessThan_iff nat_eq_iff2 nat_less_iff of_nat_numeral symbol_iff zero_le)
  moreover have "\<forall>t \<in> set (map int [0..<32]). take_bit 5 (gen_xor t) = 0 \<longrightarrow> t = 0"
    by code_simp
  ultimately show ?thesis using assms(2) by blast
qed

lemma polymod_step_injective:
  assumes "fits40 c" "polymod_step c 0 = 0"
  shows "c = 0"
proof -
  have t: "symbol (drop_bit 35 c)"
    using assms(1) by (auto simp: symbol_iff fits40_iff drop_bit_eq_div)
  have "take_bit 5 (polymod_step c 0) = take_bit 5 (gen_xor (drop_bit 35 c))"
    by (simp add: polymod_step_eq take_bit_xor take_bit_push_bit)
  then have tp: "drop_bit 35 c = 0"
    using gen_xor_low_bits[OF t] assms(2) by simp
  then have "push_bit 5 (take_bit 35 c) = 0"
    using assms(2) by (simp add: polymod_step_eq gen_xor_def)
  then have "take_bit 35 c = 0" by (simp add: push_bit_eq_mult)
  then show ?thesis using tp bits_ident[of 35 c] by simp
qed

section \<open>Whole runs of the checksum\<close>

lemma run_linear:
  "length vs = length ws \<Longrightarrow>
   foldl polymod_step (a XOR b) (map2 (XOR) vs ws) =
   foldl polymod_step a vs XOR foldl polymod_step b ws"
  by (induction vs ws arbitrary: a b rule: list_induct2) (simp_all add: polymod_step_linear)

lemma run_fits40:
  "fits40 c \<Longrightarrow> \<forall>v \<in> set vs. symbol v \<Longrightarrow> fits40 (foldl polymod_step c vs)"
  by (induction vs arbitrary: c) (simp_all add: polymod_step_fits40)

lemma run_zeros:
  "fits40 c \<Longrightarrow> foldl polymod_step c (replicate n 0) = 0 \<Longrightarrow> c = 0"
proof (induction n arbitrary: c)
  case (Suc n)
  have "fits40 (polymod_step c 0)" by (rule polymod_step_fits40) (simp add: symbol_iff)
  with Suc have "polymod_step c 0 = 0" by simp
  with Suc.prems(1) show ?case by (rule polymod_step_injective)
qed simp

text \<open>The value of at most eight symbols read as digits to the base 32.\<close>

definition digits32 :: "int \<Rightarrow> int list \<Rightarrow> int" where
  "digits32 c vs = foldl (\<lambda>c v. c * 32 + v) c vs"

lemma run_short:
  "0 \<le> c \<Longrightarrow> length vs \<le> 8 \<Longrightarrow> c < 32 ^ (8 - length vs) \<Longrightarrow> \<forall>v \<in> set vs. symbol v \<Longrightarrow>
   foldl polymod_step c vs = digits32 c vs"
proof (induction vs arbitrary: c)
  case (Cons v vs)
  have v: "0 \<le> v" "v < 32" "symbol v" using Cons.prems by (auto simp: symbol_iff)
  have "(32::int) ^ (8 - length (v # vs)) \<le> 32 ^ 7" by (rule power_increasing) auto
  then have c: "c < 2 ^ 35" using Cons.prems by simp
  have e: "8 - length vs = Suc (8 - length (v # vs))" using Cons.prems by simp
  have "c * 32 + v < 32 ^ (8 - length vs)"
    unfolding e using Cons.prems(3) v by simp
  then have "foldl polymod_step (c * 32 + v) vs = digits32 (c * 32 + v) vs"
    using Cons v by simp
  then show ?case
    using polymod_step_small[OF Cons.prems(1) c v(3)] by (simp add: digits32_def)
qed (simp add: digits32_def)

lemma digits32_zero:
  "0 \<le> c \<Longrightarrow> \<forall>v \<in> set vs. symbol v \<Longrightarrow> digits32 c vs = 0 \<Longrightarrow> c = 0 \<and> (\<forall>v \<in> set vs. v = 0)"
proof (induction vs arbitrary: c)
  case (Cons v vs)
  have v: "0 \<le> v" using Cons.prems by (simp add: symbol_iff)
  have "digits32 (c * 32 + v) vs = 0" using Cons.prems(3) by (simp add: digits32_def)
  then have "c * 32 + v = 0 \<and> (\<forall>v \<in> set vs. v = 0)"
    using Cons.IH[of "c * 32 + v"] Cons.prems(1,2) v by simp
  then show ?case using v Cons.prems(1) by simp
qed (simp add: digits32_def)

lemma map2_xor_symbols:
  "\<forall>v \<in> set vs. symbol v \<Longrightarrow> \<forall>v \<in> set ws. symbol v \<Longrightarrow> \<forall>v \<in> set (map2 (XOR) vs ws). symbol v"
  by (auto simp: set_zip intro!: symbol_xor)

lemma xor_zero_eq: "x XOR y = (0::int) \<longleftrightarrow> x = y"
proof
  assume "x XOR y = 0"
  then have "(x XOR y) XOR y = y" by simp
  then show "x = y" by (simp add: xor.assoc)
qed simp

lemma map2_xor_zero:
  "length vs = length ws \<Longrightarrow> \<forall>v \<in> set (map2 (XOR) vs ws). v = (0::int) \<Longrightarrow> vs = ws"
  by (induction vs ws rule: list_induct2) (auto simp: xor_zero_eq)


lemma polymod_window:
  assumes len: "length w = length w'" "length w \<le> 8" and ne: "w \<noteq> w'"
    and sym: "\<forall>v \<in> set pre. symbol v" "\<forall>v \<in> set w. symbol v" "\<forall>v \<in> set w'. symbol v"
  shows "descsum_polymod (pre @ w @ post) \<noteq> descsum_polymod (pre @ w' @ post)"
proof
  assume eq: "descsum_polymod (pre @ w @ post) = descsum_polymod (pre @ w' @ post)"
  define c where "c = foldl polymod_step 1 pre"
  define d where "d = map2 (XOR) w w'"
  have d: "\<forall>v \<in> set d. symbol v" "length d \<le> 8"
    using map2_xor_symbols sym(2,3) len by (auto simp: d_def)
  have z: "map2 (XOR) post post = replicate (length post) (0::int)"
    by (induction post) auto
  have "foldl polymod_step (c XOR c) (map2 (XOR) (w @ post) (w' @ post)) = 0"
    using eq len(1) by (subst run_linear) (simp_all add: descsum_polymod_def c_def)
  then have "foldl polymod_step (foldl polymod_step 0 d) (replicate (length post) 0) = 0"
    using len(1) by (simp add: d_def z)
  then have "foldl polymod_step 0 d = 0"
    using run_zeros run_fits40[of 0 d] d(1) by (simp add: fits40_iff)
  then have "digits32 0 d = 0" using run_short[of 0 d] d by simp
  then have "\<forall>v \<in> set d. v = 0" using digits32_zero[of 0 d] d(1) by simp
  then show False using map2_xor_zero[OF len(1)] ne by (simp add: d_def)
qed

section \<open>Symbols of a checksum and of a descriptor\<close>

lemma char_find_Some: "char_find cs c = Some i \<Longrightarrow> i < length cs \<and> cs ! i = c"
  by (induction cs arbitrary: i) (auto split: if_splits)

lemma char_find_None: "char_find cs c = None \<longleftrightarrow> c \<notin> set cs"
  by (induction cs) auto

lemma char_find_inj: "char_find cs a = Some i \<Longrightarrow> char_find cs b = Some i \<Longrightarrow> a = b"
  by (auto dest!: char_find_Some)

lemma length_charsets [simp]: "length INPUT_CHARSET = 95" "length CHECKSUM_CHARSET = 32"
  by (simp_all add: INPUT_CHARSET_def CHECKSUM_CHARSET_def)

lemma symbol_upto: "symbol v \<Longrightarrow> v \<in> set (map int [0..<32])"
  by (auto simp: symbol_iff image_iff intro!: bexI[of _ "nat v"])

lemma checksum_charset_roundtrip:
  assumes "symbol v"
  shows "find_or_minus_1 CHECKSUM_CHARSET (CHECKSUM_CHARSET ! nat v) = v"
proof -
  have "\<forall>v \<in> set (map int [0..<32]). find_or_minus_1 CHECKSUM_CHARSET (CHECKSUM_CHARSET ! nat v) = v"
    by code_simp
  then show ?thesis using symbol_upto[OF assms] by blast
qed

lemma find_or_minus_1_symbol:
  "c \<in> set CHECKSUM_CHARSET \<Longrightarrow> symbol (find_or_minus_1 CHECKSUM_CHARSET c)"
  using char_find_None[of CHECKSUM_CHARSET c]
  by (auto simp: find_or_minus_1_def symbol_iff dest!: char_find_Some split: option.splits)

lemma find_or_minus_1_inj:
  assumes "c \<in> set CHECKSUM_CHARSET" "c' \<in> set CHECKSUM_CHARSET"
    and "find_or_minus_1 CHECKSUM_CHARSET c = find_or_minus_1 CHECKSUM_CHARSET c'"
  shows "c = c'"
  using assms char_find_None[of CHECKSUM_CHARSET]
  by (auto simp: find_or_minus_1_def split: option.splits dest: char_find_inj)

lemma and_31: "x AND 31 = take_bit 5 (x::int)"
  by (simp add: take_bit_eq_mask mask_eq_exp_minus_1)

lemma symbol_and_31: "symbol (x AND 31)"
  by (simp add: symbol_def and_31)

definition checksum_digits :: "int \<Rightarrow> int list" where
  "checksum_digits y = map (\<lambda>i. drop_bit (5 * (7 - i)) y AND 31) [0..<8]"

lemma checksum_digits_symbols: "\<forall>v \<in> set (checksum_digits y). symbol v"
  by (auto simp: checksum_digits_def symbol_and_31)

lemma digits32_checksum: "fits40 y \<Longrightarrow> digits32 0 (checksum_digits y) = y"
proof -
  assume "fits40 y"
  then have y: "0 \<le> y" "y < 1099511627776" by (auto simp: fits40_iff)
  have m: "x AND 31 = x mod 32" for x :: int
    by (simp add: and_31 take_bit_eq_mod)
  have st: "32 * (y div (k * 32)) + y div k mod 32 = y div k" for k :: int
  proof -
    have "y div (k * 32) = y div k div 32" by (rule zdiv_zmult2_eq) simp
    then show ?thesis using mult_div_mod_eq[of 32 "y div k"] by simp
  qed
  have u: "[0..<8::nat] = [0, 1, 2, 3, 4, 5, 6, 7]" by (simp add: upt_rec)
  have "digits32 0 (checksum_digits y) =
      34359738368 * (y div 34359738368) + 1073741824 * (y div 1073741824 mod 32) +
      33554432 * (y div 33554432 mod 32) + 1048576 * (y div 1048576 mod 32) +
      32768 * (y div 32768 mod 32) + 1024 * (y div 1024 mod 32) + 32 * (y div 32 mod 32) + y mod 32"
    unfolding checksum_digits_def u digits32_def m drop_bit_eq_div using y by simp
  moreover have "32 * (y div 32) + y mod 32 = y" by simp
  moreover have "32 * (y div 1024) + y div 32 mod 32 = y div 32" using st[of 32] by simp
  moreover have "32 * (y div 32768) + y div 1024 mod 32 = y div 1024" using st[of 1024] by simp
  moreover have "32 * (y div 1048576) + y div 32768 mod 32 = y div 32768" using st[of 32768] by simp
  moreover have "32 * (y div 33554432) + y div 1048576 mod 32 = y div 1048576" using st[of 1048576] by simp
  moreover have "32 * (y div 1073741824) + y div 33554432 mod 32 = y div 33554432" using st[of 33554432] by simp
  moreover have "32 * (y div 34359738368) + y div 1073741824 mod 32 = y div 1073741824" using st[of 1073741824] by simp
  ultimately show ?thesis by linarith
qed

lemma checksum_chars_digits:
  "map (find_or_minus_1 CHECKSUM_CHARSET) (checksum_chars y) = checksum_digits y"
proof -
  have "find_or_minus_1 CHECKSUM_CHARSET (CHECKSUM_CHARSET ! nat (drop_bit k y AND 31)) = drop_bit k y AND 31"
    for k by (rule checksum_charset_roundtrip) (rule symbol_and_31)
  then show ?thesis by (simp add: checksum_chars_def checksum_digits_def)
qed

lemma checksum_chars_charset: "set (checksum_chars y) \<subseteq> set CHECKSUM_CHARSET"
proof -
  have "nat (drop_bit k y AND 31) < length CHECKSUM_CHARSET" for k
    using symbol_and_31[of "drop_bit k y"] by (simp add: symbol_iff nat_less_iff)
  then show ?thesis by (auto simp: checksum_chars_def)
qed

text \<open>
  The polynomial of a message followed by its checksum symbols is 1: the checksum is the
  value of the message with eight zeros after it, and the step is linear.
\<close>

lemma polymod_with_checksum:
  assumes "\<forall>v \<in> set e. symbol v"
  shows "descsum_polymod (e @ checksum_digits (descsum_polymod (e @ replicate 8 0) XOR 1)) = 1"
proof -
  define c where "c = foldl polymod_step 1 e"
  define x where "x = descsum_polymod (e @ replicate 8 0)"
  define t where "t = checksum_digits (x XOR 1)"
  have len: "length t = 8" by (simp add: t_def checksum_digits_def)
  have c: "fits40 c" using run_fits40[of 1 e] assms by (simp add: c_def fits40_iff)
  have x: "x = foldl polymod_step c (replicate 8 0)" by (simp add: x_def c_def descsum_polymod_def)
  have "fits40 x" unfolding x using c by (intro run_fits40) (auto simp: symbol_iff)
  then have y: "fits40 (x XOR 1)" by (rule fits40_xor) (simp add: fits40_iff)
  have t: "\<forall>v \<in> set t. symbol v" by (simp add: t_def checksum_digits_symbols)
  have z: "map2 (XOR) (replicate 8 0) t = t"
    using len by (intro nth_equalityI) auto
  have "foldl polymod_step 0 t = digits32 0 t"
    using t len by (intro run_short) auto
  also have "\<dots> = x XOR 1" unfolding t_def by (rule digits32_checksum[OF y])
  finally have zt: "foldl polymod_step 0 t = x XOR 1" .
  have "foldl polymod_step (c XOR 0) (map2 (XOR) (replicate 8 0) t) =
      foldl polymod_step c (replicate 8 0) XOR foldl polymod_step 0 t"
    by (rule run_linear) (simp add: len)
  then have "foldl polymod_step c t = x XOR (x XOR 1)" using z zt x by simp
  then show ?thesis
    by (simp add: descsum_polymod_def c_def t_def x_def flip: xor.assoc)
qed


section \<open>The expansion by groups of three characters\<close>

text \<open>
  Reference definition: three characters become their three low parts and one symbol that
  holds the three group numbers; a last group of one or two characters is shorter.
\<close>

fun expand3 :: "string \<Rightarrow> int list option" where
  "expand3 [] = Some []"
| "expand3 [a] = (case char_find INPUT_CHARSET a of None \<Rightarrow> None
     | Some x \<Rightarrow> Some [int x mod 32, int x div 32])"
| "expand3 [a, b] = (case (char_find INPUT_CHARSET a, char_find INPUT_CHARSET b) of
       (Some x, Some y) \<Rightarrow> Some [int x mod 32, int y mod 32, int x div 32 * 3 + int y div 32]
     | _ \<Rightarrow> None)"
| "expand3 (a # b # c # s) =
     (case (char_find INPUT_CHARSET a, char_find INPUT_CHARSET b, char_find INPUT_CHARSET c) of
       (Some x, Some y, Some z) \<Rightarrow>
         map_option (\<lambda>r. [int x mod 32, int y mod 32, int z mod 32,
             int x div 32 * 9 + int y div 32 * 3 + int z div 32] @ r) (expand3 s)
     | _ \<Rightarrow> None)"

lemma expand_loop_symbols:
  "expand_loop s g (p @ q) = map_option (\<lambda>(g', r). (g', p @ r)) (expand_loop s g q)"
proof (induction s g q rule: expand_loop.induct)
  case (2 c s g q)
  show ?case
  proof (cases "char_find INPUT_CHARSET c")
    case (Some v)
    then show ?thesis
      using "2.IH"(1)[OF Some refl refl] "2.IH"(2)[OF Some refl refl]
      by (cases "length g = 2") (simp_all add: Let_def)
  qed simp
qed simp

lemma expand_loop_start:
  "expand_loop s [] p = map_option (\<lambda>(g', r). (g', p @ r)) (expand_loop s [] [])"
  using expand_loop_symbols[of s "[]" p "[]"] by simp

lemma descsum_expand_step:
  "descsum_expand (a # b # c # s) =
     (case (char_find INPUT_CHARSET a, char_find INPUT_CHARSET b, char_find INPUT_CHARSET c) of
       (Some x, Some y, Some z) \<Rightarrow>
         map_option (\<lambda>r. [int x mod 32, int y mod 32, int z mod 32,
             int x div 32 * 9 + int y div 32 * 3 + int z div 32] @ r) (descsum_expand s)
     | _ \<Rightarrow> None)"
  by (auto simp: descsum_expand_def Let_def and_31 take_bit_eq_mod drop_bit_eq_div
      expand_loop_start[of s "[_, _, _, _]"] split: option.splits)

lemma descsum_expand_eq: "descsum_expand s = expand3 s"
proof (induction s rule: expand3.induct)
  case (4 a b c s)
  then show ?case
    by (cases "char_find INPUT_CHARSET a"; cases "char_find INPUT_CHARSET b";
        cases "char_find INPUT_CHARSET c") (simp_all add: descsum_expand_step)
qed (auto simp: descsum_expand_def Let_def and_31 take_bit_eq_mod drop_bit_eq_div split: option.splits)

lemma char_find_group: "char_find INPUT_CHARSET c = Some v \<Longrightarrow> int v div 32 < 3"
  by (auto dest: char_find_Some)

lemma expand3_symbols: "expand3 s = Some e \<Longrightarrow> \<forall>v \<in> set e. symbol v"
proof (induction s arbitrary: e rule: expand3.induct)
  case (4 a b c s)
  then show ?case
    by (auto simp: symbol_iff split: option.splits dest!: char_find_group)
qed (auto simp: symbol_iff split: option.splits dest!: char_find_group)


text \<open>Two messages differ inside one window of at most eight symbols.\<close>

definition window_diff :: "int list \<Rightarrow> int list \<Rightarrow> bool" where
  "window_diff e e' \<longleftrightarrow> (\<exists>pre w w' post. e = pre @ w @ post \<and> e' = pre @ w' @ post \<and>
     length w = length w' \<and> length w \<le> 8 \<and> w \<noteq> w')"

lemma window_diff_here:
  "length w = length w' \<Longrightarrow> length w \<le> 8 \<Longrightarrow> w \<noteq> w' \<Longrightarrow> window_diff (w @ r) (w' @ r)"
  unfolding window_diff_def by (intro exI[of _ "[]"] exI[of _ w] exI[of _ w'] exI[of _ r]) simp

lemma window_diff_whole: "length w = length w' \<Longrightarrow> length w \<le> 8 \<Longrightarrow> w \<noteq> w' \<Longrightarrow> window_diff w w'"
  using window_diff_here[of w w' "[]"] by simp

lemma window_diff_prefix: "window_diff e e' \<Longrightarrow> window_diff (p @ e) (p @ e')"
  unfolding window_diff_def
proof (elim exE conjE)
  fix pre w w' post
  assume "e = pre @ w @ post" "e' = pre @ w' @ post" "length w = length w'" "length w \<le> 8" "w \<noteq> w'"
  then show "\<exists>pre w w' post. p @ e = pre @ w @ post \<and> p @ e' = pre @ w' @ post \<and>
     length w = length w' \<and> length w \<le> 8 \<and> w \<noteq> w'"
    by (intro exI[of _ "p @ pre"] exI[of _ w] exI[of _ w'] exI[of _ post]) simp
qed

lemma window_diff_suffix: "window_diff e e' \<Longrightarrow> window_diff (e @ p) (e' @ p)"
  unfolding window_diff_def
proof (elim exE conjE)
  fix pre w w' post
  assume "e = pre @ w @ post" "e' = pre @ w' @ post" "length w = length w'" "length w \<le> 8" "w \<noteq> w'"
  then show "\<exists>pre w w' post. e @ p = pre @ w @ post \<and> e' @ p = pre @ w' @ post \<and>
     length w = length w' \<and> length w \<le> 8 \<and> w \<noteq> w'"
    by (intro exI[of _ pre] exI[of _ w] exI[of _ w'] exI[of _ "post @ p"]) simp
qed

lemma polymod_window_diff:
  assumes "window_diff e e'" "\<forall>v \<in> set e. symbol v" "\<forall>v \<in> set e'. symbol v"
  shows "descsum_polymod e \<noteq> descsum_polymod e'"
proof -
  obtain pre w w' post where "e = pre @ w @ post" "e' = pre @ w' @ post"
    "length w = length w'" "length w \<le> 8" "w \<noteq> w'"
    using assms(1) unfolding window_diff_def by blast
  then show ?thesis using polymod_window[of w w' pre post] assms(2,3) by simp
qed

lemma char_parts_inj:
  "char_find cs a = Some x \<Longrightarrow> char_find cs c = Some y \<Longrightarrow>
   int x mod 32 = int y mod 32 \<Longrightarrow> int x div 32 = int y div 32 \<Longrightarrow> a = c"
proof -
  assume f: "char_find cs a = Some x" "char_find cs c = Some y"
  assume "int x mod 32 = int y mod 32" "int x div 32 = int y div 32"
  then have "int x = int y" by (metis mult_div_mod_eq)
  then show "a = c" using f char_find_inj by simp
qed

lemma expand3_update:
  "expand3 s = Some e \<Longrightarrow> expand3 (s[i := d]) = Some e' \<Longrightarrow> i < length s \<Longrightarrow> d \<noteq> s ! i \<Longrightarrow>
   window_diff e e'"
proof (induction s arbitrary: i e e' rule: expand3.induct)
  case 1
  then show ?case by simp
next
  case (2 a)
  then show ?case
    by (auto split: option.splits intro!: window_diff_whole dest: char_parts_inj)
next
  case (3 a b)
  then have "i = 0 \<or> i = 1" by auto
  with 3 show ?case
    by (auto split: option.splits intro!: window_diff_whole dest: char_parts_inj)
next
  case (4 a b c s)
  have "i = 0 \<or> i = 1 \<or> i = 2 \<or> (\<exists>j. i = Suc (Suc (Suc j)))"
    by (metis One_nat_def Suc_1 not0_implies_Suc)
  then consider "i = 0" | "i = 1" | "i = 2" | j where "i = Suc (Suc (Suc j))" by blast
  then show ?case
  proof cases
    case (4 j)
    from \<open>expand3 (a # b # c # s) = Some e\<close>
    obtain x y z r where f: "char_find INPUT_CHARSET a = Some x" "char_find INPUT_CHARSET b = Some y"
        "char_find INPUT_CHARSET c = Some z" and r: "expand3 s = Some r"
      by (auto split: option.splits)
    define p where "p = [int x mod 32, int y mod 32, int z mod 32,
        int x div 32 * 9 + int y div 32 * 3 + int z div 32]"
    have e: "e = p @ r" using \<open>expand3 (a # b # c # s) = Some e\<close> f r by (simp add: p_def)
    from \<open>expand3 ((a # b # c # s)[i := d]) = Some e'\<close>
    obtain r' where r': "expand3 (s[j := d]) = Some r'" "e' = p @ r'"
      using f 4 by (auto simp: p_def)
    have j: "j < length s" "d \<noteq> s ! j" using "4.prems" 4 by simp_all
    have "window_diff r r'" by (rule "4.IH"[OF refl f(1) refl f(2,3) r r'(1) j])
    then show ?thesis using e r'(2) by (simp only: window_diff_prefix)
  next
    case 1
    with "4.prems" obtain x y z x' r where f: "char_find INPUT_CHARSET a = Some x"
        "char_find INPUT_CHARSET b = Some y" "char_find INPUT_CHARSET c = Some z"
        "char_find INPUT_CHARSET d = Some x'" and r: "expand3 s = Some r"
      by (auto split: option.splits)
    have "d \<noteq> a" using "4.prems" 1 by simp
    then show ?thesis
      using "4.prems"(1,2) f r 1 char_parts_inj[OF f(4,1)]
      by (auto intro!: window_diff_here[of "[_, _, _, _]" "[_, _, _, _]", simplified])
  next
    case 2
    with "4.prems" obtain x y z x' r where f: "char_find INPUT_CHARSET a = Some x"
        "char_find INPUT_CHARSET b = Some y" "char_find INPUT_CHARSET c = Some z"
        "char_find INPUT_CHARSET d = Some x'" and r: "expand3 s = Some r"
      by (auto split: option.splits)
    have "d \<noteq> b" using "4.prems" 2 by simp
    then show ?thesis
      using "4.prems"(1,2) f r 2 char_parts_inj[OF f(4,2)]
      by (auto intro!: window_diff_here[of "[_, _, _, _]" "[_, _, _, _]", simplified])
  next
    case 3
    with "4.prems" obtain x y z x' r where f: "char_find INPUT_CHARSET a = Some x"
        "char_find INPUT_CHARSET b = Some y" "char_find INPUT_CHARSET c = Some z"
        "char_find INPUT_CHARSET d = Some x'" and r: "expand3 s = Some r"
      by (auto split: option.splits)
    have "d \<noteq> c" using "4.prems" 3 by simp
    then show ?thesis
      using "4.prems"(1,2) f r 3 char_parts_inj[OF f(4,3)]
      by (auto intro!: window_diff_here[of "[_, _, _, _]" "[_, _, _, _]", simplified])
  qed
qed

section \<open>Creation and check\<close>

lemma descsum_check_True_iff:
  "descsum_check d True = Inr True \<longleftrightarrow>
   (\<exists>body tail e. d = body @ CHR ''#'' # tail \<and> length tail = 8 \<and> set tail \<subseteq> set CHECKSUM_CHARSET \<and>
      descsum_expand body = Some e \<and>
      descsum_polymod (e @ map (find_or_minus_1 CHECKSUM_CHARSET) tail) = 1)" (is "?l \<longleftrightarrow> ?r")
proof
  assume l: ?l
  then have len: "9 \<le> length d" and h: "d ! (length d - 9) = CHR ''#''"
    by (auto simp: descsum_check_def Let_def split: if_splits)
  define body where "body = take (length d - 9) d"
  define tail where "tail = drop (length d - 8) d"
  have "drop (length d - 9) d = d ! (length d - 9) # drop (Suc (length d - 9)) d"
    using len by (intro Cons_nth_drop_Suc[symmetric]) simp
  moreover have "Suc (length d - 9) = length d - 8" using len by simp
  ultimately have d: "d = body @ CHR ''#'' # tail"
    using h append_take_drop_id[of "length d - 9" d] by (simp add: body_def tail_def)
  moreover have "length tail = 8" using len by (simp add: tail_def)
  ultimately show ?r using l len h
    by (auto simp: descsum_check_def Let_def body_def[symmetric] tail_def[symmetric]
        split: if_splits option.splits)
next
  assume ?r
  then obtain body tail e where d: "d = body @ CHR ''#'' # tail" "length tail = 8"
      "set tail \<subseteq> set CHECKSUM_CHARSET" "descsum_expand body = Some e"
      "descsum_polymod (e @ map (find_or_minus_1 CHECKSUM_CHARSET) tail) = 1" by blast
  then show ?l by (auto simp: descsum_check_def Let_def)
qed

lemma create_InrE:
  assumes "descsum_create s = Inr d"
  obtains e where "descsum_expand s = Some e"
    "d = s @ CHR ''#'' # checksum_chars (descsum_polymod (e @ replicate 8 0) XOR 1)"
proof -
  have z: "replicate 8 0 = [0, 0, 0, 0, 0, 0, 0, 0::int]" by (simp add: numeral_eq_Suc)
  show thesis
    using assms that by (auto simp: descsum_create_def Let_def z split: option.splits)
qed

lemma created_checks:
  "descsum_create s = Inr d \<Longrightarrow> descsum_check d r = Inr True"
proof -
  assume "descsum_create s = Inr d"
  then obtain e where e: "descsum_expand s = Some e"
    "d = s @ CHR ''#'' # checksum_chars (descsum_polymod (e @ replicate 8 0) XOR 1)"
    by (rule create_InrE)
  have "\<forall>v \<in> set e. symbol v" using expand3_symbols e(1) by (simp add: descsum_expand_eq)
  then have "descsum_check d True = Inr True"
    unfolding descsum_check_True_iff
    using e checksum_chars_charset
    by (intro exI[of _ s] exI[of _ "checksum_chars (descsum_polymod (e @ replicate 8 0) XOR 1)"] exI[of _ e])
      (simp add: checksum_chars_digits polymod_with_checksum, simp add: checksum_chars_def)
  then show ?thesis
    using e(2) by (auto simp: descsum_check_def Let_def split: if_splits option.splits)
qed

text \<open>
  C35. A descriptor to which \<open>descsum_create\<close> has added a checksum passes
  \<open>descsum_check\<close>, whatever its \<open>require\<close> argument.
\<close>

theorem descsum_create_checks:
  "descsum_create s = Inr d \<Longrightarrow> descsum_check d r = Inr True"
  by (rule created_checks)

theorem descsum_create_checks_witness:
  "\<exists>d. descsum_create ''wsh(multi(1,[7f3e784c/0]02557f))'' = Inr d \<and> descsum_check d True = Inr True"
proof -
  obtain e where "descsum_expand ''wsh(multi(1,[7f3e784c/0]02557f))'' = Some e"
    by (simp add: descsum_expand_def INPUT_CHARSET_def Let_def)
  then obtain d where "descsum_create ''wsh(multi(1,[7f3e784c/0]02557f))'' = Inr d"
    by (simp add: descsum_create_def Let_def)
  then show ?thesis using descsum_create_checks by blast
qed

text \<open>
  C36. No single wrong character goes unnoticed: a string that passes the check with a required
  checksum fails it (or the check raises) after any one character, of the descriptor, of the
  separator or of the checksum, is replaced by a different one.
\<close>

theorem single_character_error_detected:
  assumes ok: "descsum_check d True = Inr True"
    and i: "i < length d" and c: "c \<noteq> d ! i"
  shows "descsum_check (d[i := c]) True \<noteq> Inr True"
proof
  assume "descsum_check (d[i := c]) True = Inr True"
  then obtain body' tail' e' where d': "d[i := c] = body' @ CHR ''#'' # tail'" "length tail' = 8"
      "set tail' \<subseteq> set CHECKSUM_CHARSET" "expand3 body' = Some e'"
      "descsum_polymod (e' @ map (find_or_minus_1 CHECKSUM_CHARSET) tail') = 1"
    unfolding descsum_check_True_iff descsum_expand_eq by blast
  from ok obtain body tail e where d: "d = body @ CHR ''#'' # tail" "length tail = 8"
      "set tail \<subseteq> set CHECKSUM_CHARSET" "expand3 body = Some e"
      "descsum_polymod (e @ map (find_or_minus_1 CHECKSUM_CHARSET) tail) = 1"
    unfolding descsum_check_True_iff descsum_expand_eq by blast
  let ?f = "map (find_or_minus_1 CHECKSUM_CHARSET)"
  have sym: "\<forall>v \<in> set (e @ ?f tail). symbol v" "\<forall>v \<in> set (e' @ ?f tail'). symbol v"
    using expand3_symbols[OF d(4)] expand3_symbols[OF d'(4)] d(3) d'(3)
    by (auto intro!: find_or_minus_1_symbol)
  have lb: "length body' = length body"
    using arg_cong[OF d'(1), of length] arg_cong[OF d(1), of length] d(2) d'(2) by simp
  consider "i < length body" | "i = length body" | "length body < i" by linarith
  then have "window_diff (e @ ?f tail) (e' @ ?f tail')"
  proof cases
    case 1
    then have "body[i := c] @ CHR ''#'' # tail = body' @ CHR ''#'' # tail'"
      using d(1) d'(1) by (simp add: list_update_append)
    then have "body' = body[i := c]" "tail' = tail" using lb by simp_all
    then have "window_diff e e'"
      using expand3_update[OF d(4), of i c e'] d'(4) 1 c by (simp add: d(1) nth_append)
    then show ?thesis using \<open>tail' = tail\<close> by (simp add: window_diff_suffix)
  next
    case 2
    then have "body @ c # tail = body' @ CHR ''#'' # tail'"
      using d(1) d'(1) by (simp add: list_update_append)
    then have "c = CHR ''#''" using lb by simp
    then show ?thesis using c 2 by (simp add: d(1) nth_append)
  next
    case 3
    define j where "j = i - Suc (length body)"
    have ij: "i = length body + Suc j" using 3 by (simp add: j_def)
    have "body @ CHR ''#'' # tail[j := c] = body' @ CHR ''#'' # tail'"
      using d(1) d'(1) ij by (simp add: list_update_append)
    then have bt: "body' = body" "tail' = tail[j := c]" using lb by simp_all
    have j: "j < length tail" "c \<noteq> tail ! j" using i c ij by (simp_all add: d(1) nth_append)
    have cc: "c \<in> set CHECKSUM_CHARSET" "tail ! j \<in> set CHECKSUM_CHARSET"
      using d'(3) d(3) bt(2) j set_update_memI[of j tail c] by auto
    have "?f tail ! j \<noteq> ?f tail' ! j"
      using find_or_minus_1_inj[OF cc] j bt(2) by auto
    then have "?f tail \<noteq> ?f tail'" by auto
    then have "window_diff (?f tail) (?f tail')"
      using d(2) d'(2) by (intro window_diff_whole) auto
    then show ?thesis using d(4) d'(4) bt(1) by (simp add: window_diff_prefix)
  qed
  then show False using polymod_window_diff sym d(5) d'(5) by metis
qed

theorem single_character_error_detected_witness:
  "\<exists>d. descsum_create ''raw(00)'' = Inr d \<and> descsum_check (d[4 := CHR ''1'']) True \<noteq> Inr True"
proof -
  obtain e where "descsum_expand ''raw(00)'' = Some e"
    by (simp add: descsum_expand_def INPUT_CHARSET_def Let_def)
  then obtain d where d: "descsum_create ''raw(00)'' = Inr d"
    by (simp add: descsum_create_def Let_def)
  then obtain t where "d = ''raw(00)'' @ t" by (rule create_InrE)
  then have "4 < length d" "CHR ''1'' \<noteq> d ! 4" by simp_all
  from single_character_error_detected[OF created_checks[OF d] this] d show ?thesis by blast
qed

end
