(* ===== verification/Key_Value_Store.thy ===== *)
theory Key_Value_Store
  imports Prelude
begin

text \<open>
  The key/value table in which the scanners keep their position:
  \<^verbatim>\<open>bridge_node/bridge/common/services/key_value_store.py\<close> over the model of
  \<^verbatim>\<open>bridge_node/bridge/common/models/key_value_store.py\<close>. The operations are given on the
  table and lifted to worlds whose database contains one. The interface the scanners rely on is
  the locale \<open>position_store\<close>.
\<close>

section \<open>The table and its operations\<close>

text \<open>The JSON values the program stores; \<open>JNone\<close> is Python's \<open>None\<close>.\<close>

datatype jval = JNone | JInt int | JStr string

type_synonym kv_table = "string \<Rightarrow> jval option"

text \<open>The default is \<open>None\<close> when the argument was not given (\<open>_unset\<close>).\<close>

definition get_value :: "kv_table \<Rightarrow> string \<Rightarrow> jval option \<Rightarrow> exn + jval" where
  "get_value table key default_value =
     (case table key of
        Some value \<Rightarrow> Inr value
      | None \<Rightarrow> (case default_value of Some d \<Rightarrow> Inr d | None \<Rightarrow> Inl LookupError))"

definition set_value :: "kv_table \<Rightarrow> string \<Rightarrow> jval \<Rightarrow> kv_table" where
  "set_value table key value = table(key \<mapsto> value)"

definition get_or_create_value :: "kv_table \<Rightarrow> string \<Rightarrow> jval \<Rightarrow> jval \<times> kv_table" where
  "get_or_create_value table key default_value =
     (case table key of
        None \<Rightarrow> (default_value, table(key \<mapsto> default_value))
      | Some value \<Rightarrow> (value, table))"

section \<open>The operations in a transaction\<close>

definition kv_get ::
  "('db \<Rightarrow> kv_table) \<Rightarrow> string \<Rightarrow> jval option \<Rightarrow> (('db, 'eff) world, jval) prog" where
  "kv_get table_of key default_value =
     bnd (db_get table_of) (\<lambda>t. lift_res (get_value t key default_value))"

definition kv_set ::
  "('db \<Rightarrow> kv_table) \<Rightarrow> (kv_table \<Rightarrow> 'db \<Rightarrow> 'db) \<Rightarrow> string \<Rightarrow> jval \<Rightarrow> (('db, 'eff) world, unit) prog" where
  "kv_set table_of put_table key value =
     db_put (\<lambda>db. put_table (set_value (table_of db) key value) db)"

lemma run_kv_get [prog_simps]: "kv_get f k d w = (get_value (f (w_db w)) k d, w)"
  by (simp add: kv_get_def run_bnd)

lemma run_kv_set [prog_simps]:
  "kv_set f p k v w = (Inr (), w\<lparr>w_db := p (set_value (f (w_db w)) k v) (w_db w)\<rparr>)"
  by (simp add: kv_set_def)

lemma keeps_kv_get [simp, keeps_intros]: "keeps I (kv_get f k d)"
  by (simp add: keeps_def run_kv_get)

section \<open>The interface of the scanners\<close>

text \<open>
  A scanner keeps its position under one key: after writing it, reading gives it back, and
  other keys are not affected; without a position it starts from its default.
\<close>

locale position_store =
  fixes get :: "'t \<Rightarrow> string \<Rightarrow> jval option \<Rightarrow> exn + jval"
    and put :: "'t \<Rightarrow> string \<Rightarrow> jval \<Rightarrow> 't"
    and empty :: 't
  assumes get_put: "get (put t k v) k d = Inr v"
    and get_put_other: "k \<noteq> k' \<Longrightarrow> get (put t k v) k' d = get t k' d"
    and get_empty: "get empty k (Some v) = Inr v"
begin

text \<open>Positions written one after the other: the last one is read, on any key order.\<close>

lemma get_last_put: "vs \<noteq> [] \<Longrightarrow> get (foldl (\<lambda>t v. put t k v) t vs) k d = Inr (last vs)"
  by (induction vs arbitrary: t rule: rev_induct) (simp_all add: get_put)

lemma get_other_puts: "k' \<notin> fst ` set kvs \<Longrightarrow> get (foldl (\<lambda>t (k, v). put t k v) t kvs) k' d = get t k' d"
proof (induction kvs arbitrary: t)
  case (Cons kv kvs)
  obtain k v where [simp]: "kv = (k, v)" by (cases kv)
  show ?case using Cons by (auto simp: get_put_other)
qed simp

lemma put_commute:
  "k \<noteq> k' \<Longrightarrow> get (put (put t k v) k' v') j d = get (put (put t k' v') k v) j d"
  by (cases "j = k"; cases "j = k'") (simp_all add: get_put get_put_other)

end

interpretation kv: position_store get_value set_value Map.empty
  by unfold_locales (simp_all add: get_value_def set_value_def)

text \<open>
  The key/value table: what was stored last under a key is what is read from it, however
  many other keys were written in between; \<open>get_or_create_value\<close> returns what a read after
  it returns, and keeps a value that was there.
\<close>

theorem key_value_store_laws:
  "get_value (foldl (\<lambda>t v. set_value t k v) t (vs @ [v])) k d = Inr v \<and>
   get_value (set_value t (k @ [c]) v) k d = get_value t k d \<and>
   (case get_or_create_value t k v of (r, t') \<Rightarrow>
      get_value t' k d = Inr r \<and> get_or_create_value t' k v' = (r, t'))"
proof (intro conjI)
  show "get_value (foldl (\<lambda>t v. set_value t k v) t (vs @ [v])) k d = Inr v"
    using kv.get_last_put[of "vs @ [v]" k t d] by simp
  show "get_value (set_value t (k @ [c]) v) k d = get_value t k d"
    by (rule kv.get_put_other) simp
  show "case get_or_create_value t k v of (r, t') \<Rightarrow>
      get_value t' k d = Inr r \<and> get_or_create_value t' k v' = (r, t')"
    by (auto simp: get_or_create_value_def get_value_def split: option.splits)
qed

end
