(* ===== verification/Evm_Events.thy ===== *)
theory Evm_Events
  imports Key_Value_Store "HOL-Library.Product_Lexorder" "HOL-Library.Multiset"
begin

text \<open>
  Reading events from an EVM chain: the batched, retried queries of
  \<^verbatim>\<open>bridge_node/bridge/common/evm/utils.py\<close> and the scanner of
  \<^verbatim>\<open>bridge_node/bridge/common/evm/scanner.py\<close>, which hands every event of the new blocks to
  a callback and stores how far it got. The node that answers \<open>get_logs\<close> is a parameter: the
  answer to a query may depend on the attempt, and may be an exception.
\<close>

section \<open>Events and queries\<close>

record 'a event =
  ev_name :: string
  ev_block :: int
  ev_tx_index :: int
  ev_log_index :: int
  ev_tx_hash :: string
  ev_args :: 'a

text \<open>\<open>get_logs from to n\<close>: the node's answer to the \<open>n\<close>-th attempt to query a range.\<close>

type_synonym 'a log_source = "int \<Rightarrow> int \<Rightarrow> nat \<Rightarrow> exn + 'a event list"

fun get_event_batch_with_retries ::
  "'a log_source \<Rightarrow> int \<Rightarrow> int \<Rightarrow> nat \<Rightarrow> nat \<Rightarrow> exn + 'a event list" where
  "get_event_batch_with_retries get_logs from_block to_block attempt retries =
     (case get_logs from_block to_block attempt of
        Inr events \<Rightarrow> Inr events
      | Inl e \<Rightarrow>
          (case retries of
             0 \<Rightarrow> Inl e
           | Suc retries \<Rightarrow>
               get_event_batch_with_retries get_logs from_block to_block (Suc attempt) retries))"

declare get_event_batch_with_retries.simps [simp del]

function get_events_loop :: "'a log_source \<Rightarrow> int \<Rightarrow> int \<Rightarrow> nat \<Rightarrow> exn + 'a event list" where
  "get_events_loop get_logs batch_from_block to_block batch_size =
     (if batch_from_block \<le> to_block then
        let batch_to_block = min (batch_from_block + int batch_size) to_block
        in rbind (get_event_batch_with_retries get_logs batch_from_block batch_to_block 0 10) (\<lambda>events.
           rbind (get_events_loop get_logs (batch_to_block + 1) to_block batch_size) (\<lambda>rest.
           Inr (events @ rest)))
      else Inr [])"
  by pat_completeness auto
termination
  by (relation "measure (\<lambda>(_, from_block, to_block, _). nat (to_block + 1 - from_block))") auto

declare get_events_loop.simps [simp del]

definition get_events :: "'a log_source \<Rightarrow> int \<Rightarrow> int \<Rightarrow> exn + 'a event list" where
  "get_events get_logs from_block to_block =
     (if to_block < from_block then Inl ValueError
      else get_events_loop get_logs from_block to_block 100)"

section \<open>The scanner\<close>

record scanner_config =
  sc_block_safety_margin :: int
  sc_default_start_block :: int
  sc_last_scanned_block_key :: string

definition event_position :: "'a event \<Rightarrow> int \<times> int \<times> int" where
  "event_position e = (ev_block e, ev_tx_index e, ev_log_index e)"

fun collect_logs :: "'a log_source list \<Rightarrow> int \<Rightarrow> int \<Rightarrow> exn + 'a event list" where
  "collect_logs [] from_block to_block = Inr []"
| "collect_logs (event # events) from_block to_block =
     rbind (get_events event from_block to_block) (\<lambda>batch.
     rbind (collect_logs events from_block to_block) (\<lambda>rest. Inr (batch @ rest)))"

definition scan_new_events ::
  "scanner_config \<Rightarrow> ('db \<Rightarrow> kv_table) \<Rightarrow> (kv_table \<Rightarrow> 'db \<Rightarrow> 'db) \<Rightarrow>
   'a log_source list \<Rightarrow> int \<Rightarrow> ('a event list \<Rightarrow> (('db, 'eff) world, unit) prog) \<Rightarrow>
   (('db, 'eff) world, unit) prog" where
  "scan_new_events cfg table_of put_table events current_block callback =
     bnd (kv_get table_of (sc_last_scanned_block_key cfg) (Some (JInt (sc_default_start_block cfg))))
       (\<lambda>value. case value of
          JInt last_scanned_block \<Rightarrow>
            let from_block = last_scanned_block + 1;
                to_block = current_block - sc_block_safety_margin cfg
            in if to_block < from_block then ok ()
               else bnd (lift_res (collect_logs events from_block to_block)) (\<lambda>all_event_logs.
                    sq (callback (sort_key event_position all_event_logs))
                       (kv_set table_of put_table (sc_last_scanned_block_key cfg) (JInt to_block)))
        | _ \<Rightarrow> throw TypeError)"

section \<open>Retries and batches\<close>

text \<open>At most eleven attempts; the first answer that is not an exception is the result.\<close>

lemma batch_retries_Inr:
  "get_event_batch_with_retries src f t a r = Inr es \<longleftrightarrow>
   (\<exists>n \<le> r. src f t (a + n) = Inr es \<and> (\<forall>m < n. \<exists>e. src f t (a + m) = Inl e))"
proof (induction r arbitrary: a)
  case 0
  show ?case by (subst get_event_batch_with_retries.simps) (auto split: sum.splits)
next
  case (Suc r)
  show ?case
  proof (cases "src f t a")
    case (Inr x)
    have "n = 0" if "\<forall>m < n. \<exists>e. src f t (a + m) = Inl e" for n
      using that Inr by (cases n) force+
    then have "(\<exists>n \<le> Suc r. src f t (a + n) = Inr es \<and> (\<forall>m < n. \<exists>e. src f t (a + m) = Inl e)) \<longleftrightarrow>
        src f t a = Inr es" by fastforce
    then show ?thesis using Inr by (subst get_event_batch_with_retries.simps) simp
  next
    case (Inl e)
    have "get_event_batch_with_retries src f t a (Suc r) = get_event_batch_with_retries src f t (Suc a) r"
      using Inl by (subst get_event_batch_with_retries.simps) simp
    also have "\<dots> = Inr es \<longleftrightarrow>
      (\<exists>n \<le> r. src f t (a + Suc n) = Inr es \<and> (\<forall>m < n. \<exists>e. src f t (a + Suc m) = Inl e))"
      by (simp add: Suc)
    also have "\<dots> \<longleftrightarrow>
      (\<exists>n \<le> Suc r. src f t (a + n) = Inr es \<and> (\<forall>m < n. \<exists>e. src f t (a + m) = Inl e))"
      (is "?L = ?R")
    proof
      assume ?L
      then obtain n where "n \<le> r" "src f t (a + Suc n) = Inr es"
        "\<forall>m < n. \<exists>e. src f t (a + Suc m) = Inl e" by blast
      then show ?R using Inl by (intro exI[of _ "Suc n"]) (auto simp: less_Suc_eq_0_disj)
    next
      assume ?R
      then obtain n where n: "n \<le> Suc r" "src f t (a + n) = Inr es"
        "\<forall>m < n. \<exists>e. src f t (a + m) = Inl e" by blast
      with Inl obtain k where "n = Suc k" by (cases n) auto
      with n show ?L by (intro exI[of _ k]) auto
    qed
    finally show ?thesis .
  qed
qed

lemma batch_retries_Inl:
  "get_event_batch_with_retries src f t a r = Inl e \<Longrightarrow> \<forall>n \<le> r. \<exists>e. src f t (a + n) = Inl e"
proof (induction r arbitrary: a)
  case 0
  then show ?case by (subst (asm) get_event_batch_with_retries.simps) (auto split: sum.splits)
next
  case (Suc r)
  from Suc.prems obtain e' where e': "src f t a = Inl e'"
    by (subst (asm) get_event_batch_with_retries.simps) (auto split: sum.splits)
  with Suc.prems have "get_event_batch_with_retries src f t (Suc a) r = Inl e"
    by (subst (asm) get_event_batch_with_retries.simps) simp
  from Suc.IH[OF this] e' show ?case by (metis Suc_le_mono add_Suc_shift add_0_right not0_implies_Suc)
qed

text \<open>
  \<open>serves chain src u\<close>: asked for a range of blocks up to \<open>u\<close>, the source answers with exactly
  the events of the chain in the range, in order, or with an exception.
\<close>

definition in_blocks :: "int \<Rightarrow> int \<Rightarrow> 'a event \<Rightarrow> bool" where
  "in_blocks f t e \<longleftrightarrow> f \<le> ev_block e \<and> ev_block e \<le> t"

definition serves :: "'a event list \<Rightarrow> 'a log_source \<Rightarrow> int \<Rightarrow> bool" where
  "serves chain src u \<longleftrightarrow>
     (\<forall>f t n es. t \<le> u \<longrightarrow> src f t n = Inr es \<longrightarrow> es = filter (in_blocks f t) chain)"

lemma serves_batch:
  "serves chain src u \<Longrightarrow> t \<le> u \<Longrightarrow> get_event_batch_with_retries src f t a r = Inr es \<Longrightarrow>
   es = filter (in_blocks f t) chain"
  unfolding batch_retries_Inr serves_def by blast

lemma filter_blocks_append:
  assumes "sorted (map ev_block chain)" "f \<le> m + 1" "m \<le> t"
  shows "filter (in_blocks f m) chain @ filter (in_blocks (m + 1) t) chain = filter (in_blocks f t) chain"
  using assms(1)
proof (induction chain)
  case (Cons e chain)
  then have IH: "filter (in_blocks f m) chain @ filter (in_blocks (m + 1) t) chain = filter (in_blocks f t) chain"
    and le: "\<forall>x \<in> set chain. ev_block e \<le> ev_block x" by auto
  show ?case
  proof (cases "ev_block e \<le> m")
    case True
    then show ?thesis using IH[unfolded in_blocks_def] assms(2,3) by (auto simp: in_blocks_def)
  next
    case False
    then have "filter (in_blocks f m) (e # chain) = []"
      using le by (force simp: in_blocks_def filter_empty_conv)
    moreover have "filter (in_blocks (m + 1) t) (e # chain) = filter (in_blocks f t) (e # chain)"
      using le False assms(2) by (intro filter_cong) (auto simp: in_blocks_def)
    ultimately show ?thesis by simp
  qed
qed simp

lemma get_events_loop_served:
  "serves chain src u \<Longrightarrow> t \<le> u \<Longrightarrow> sorted (map ev_block chain) \<Longrightarrow>
   get_events_loop src f t n = Inr es \<Longrightarrow> es = filter (in_blocks f t) chain"
proof (induction src f t n arbitrary: es rule: get_events_loop.induct)
  case (1 src f t n)
  show ?case
  proof (cases "f \<le> t")
    case True
    define m where "m = min (f + int n) t"
    have m: "f \<le> m" "m \<le> t" using True by (auto simp: m_def)
    from "1.prems"(4) True obtain a b where
      a: "get_event_batch_with_retries src f m 0 10 = Inr a" and
      b: "get_events_loop src (m + 1) t n = Inr b" and es: "es = a @ b"
      by (subst (asm) get_events_loop.simps) (auto simp: Let_def m_def rbind_eq_Inr)
    have "a = filter (in_blocks f m) chain"
      using serves_batch[OF "1.prems"(1) _ a] m "1.prems"(2) by simp
    moreover have "b = filter (in_blocks (m + 1) t) chain"
      using "1.IH"[OF True m_def "1.prems"(1-3) b] .
    ultimately show ?thesis using es filter_blocks_append[OF "1.prems"(3)] m by simp
  next
    case False
    then have "filter (in_blocks f t) chain = []" by (auto simp: in_blocks_def)
    then show ?thesis using "1.prems"(4) False by (subst (asm) get_events_loop.simps) simp
  qed
qed

lemma get_events_loop_ok:
  "(\<And>f t. \<exists>n \<le> 10. \<exists>es. src f t n = Inr es) \<Longrightarrow> \<exists>es. get_events_loop src f t n = Inr es"
proof (induction src f t n rule: get_events_loop.induct)
  case (1 src f t n)
  show ?case
  proof (cases "f \<le> t")
    case True
    define m where "m = min (f + int n) t"
    obtain a where a: "get_event_batch_with_retries src f m 0 10 = Inr a"
    proof (cases "get_event_batch_with_retries src f m 0 10")
      case (Inl e)
      then show ?thesis using batch_retries_Inl[OF Inl] 1(2)[of f m] by auto
    qed
    then obtain b where "get_events_loop src (m + 1) t n = Inr b"
      using 1(1)[OF True m_def] 1(2) by blast
    with a True show ?thesis by (subst get_events_loop.simps) (simp add: Let_def m_def)
  next
    case False
    then show ?thesis by (subst get_events_loop.simps) simp
  qed
qed

text \<open>
  The batched query reads every event exactly once: if the node answers each range with the
  events of the chain in it, within eleven attempts, then \<open>get_events\<close> returns exactly the
  events of the whole range in chain order, with no gap and no overlap between the batches; and
  an empty range is a \<open>ValueError\<close>.
\<close>

theorem get_events_complete:
  assumes "serves chain src to_block" "sorted (map ev_block chain)"
    and "\<And>f t. \<exists>n \<le> 10. \<exists>es. src f t n = Inr es"
  shows "get_events src from_block to_block =
    (if to_block < from_block then Inl ValueError else Inr (filter (in_blocks from_block to_block) chain))"
proof (cases "to_block < from_block")
  case False
  obtain es where "get_events_loop src from_block to_block 100 = Inr es"
    using get_events_loop_ok[of src from_block to_block 100] assms(3) by blast
  with get_events_loop_served[OF assms(1) order_refl assms(2) this] False show ?thesis
    by (simp add: get_events_def)
qed (simp add: get_events_def)

definition example_event :: "int \<Rightarrow> nat event" where
  "example_event n = \<lparr>ev_name = ''Transfer'', ev_block = n, ev_tx_index = 0, ev_log_index = 0,
     ev_tx_hash = ''aa'', ev_args = 7\<rparr>"

theorem get_events_complete_witness:
  "get_events (\<lambda>f t n. if n = 0 then Inl (External ''get_logs'')
       else Inr (filter (in_blocks f t) [example_event 5, example_event 150])) 1 200 =
   Inr [example_event 5, example_event 150]"
proof -
  let ?chain = "[example_event 5, example_event 150]"
  let ?src = "\<lambda>f t (n::nat). if n = 0 then Inl (External ''get_logs'') else Inr (filter (in_blocks f t) ?chain)"
  have 1: "serves ?chain ?src 200" by (auto simp: serves_def)
  have 2: "sorted (map ev_block ?chain)" by (simp add: example_event_def)
  have 3: "\<exists>n \<le> 10. \<exists>es. ?src f t n = Inr es" for f t by (rule exI[of _ 1]) simp
  have 4: "filter (in_blocks 1 200) ?chain = ?chain" by (simp add: in_blocks_def example_event_def)
  show ?thesis using get_events_complete[OF 1 2 3, of 1] 4 by simp
qed

section \<open>Scanning exactly once\<close>

text \<open>Iterations of the bridge: every one scans with the head block of its time, in a transaction.\<close>

fun run_scans ::
  "scanner_config \<Rightarrow> ('db \<Rightarrow> kv_table) \<Rightarrow> (kv_table \<Rightarrow> 'db \<Rightarrow> 'db) \<Rightarrow>
   ('a event list \<Rightarrow> (('db, 'eff) world, unit) prog) \<Rightarrow> (int \<times> 'a log_source list) list \<Rightarrow>
   ('db, 'eff) world \<Rightarrow> ('db, 'eff) world" where
  "run_scans cfg table_of put_table callback [] w = w"
| "run_scans cfg table_of put_table callback ((current_block, events) # rest) w =
     run_scans cfg table_of put_table callback rest
       (snd (in_tx (scan_new_events cfg table_of put_table events current_block callback) w))"

text \<open>The position from which the next scan starts.\<close>

definition position :: "scanner_config \<Rightarrow> kv_table \<Rightarrow> exn + jval" where
  "position cfg t = get_value t (sc_last_scanned_block_key cfg) (Some (JInt (sc_default_start_block cfg)))"

definition serves_all :: "'a event list list \<Rightarrow> 'a log_source list \<Rightarrow> int \<Rightarrow> bool" where
  "serves_all histories sources u \<longleftrightarrow> list_all2 (\<lambda>chain src. serves chain src u) histories sources"

lemma collect_logs_served:
  "list_all2 (\<lambda>chain src. serves chain src t) histories srcs \<Longrightarrow> \<forall>c \<in> set histories. sorted (map ev_block c) \<Longrightarrow>
   collect_logs srcs f t = Inr es \<Longrightarrow> es = concat (map (filter (in_blocks f t)) histories)"
proof (induction histories srcs arbitrary: es rule: list_all2_induct)
  case (Cons c cs s ss)
  then obtain a b where a: "get_events s f t = Inr a" and b: "collect_logs ss f t = Inr b"
    and es: "es = a @ b" by (auto simp: rbind_eq_Inr)
  from a have "get_events_loop s f t 100 = Inr a" by (simp add: get_events_def split: if_splits)
  with Cons have "a = filter (in_blocks f t) c" by (intro get_events_loop_served) auto
  with Cons b es show ?case by simp
qed simp

lemma filter_in_blocks_split:
  assumes "l \<le> m" "m \<le> n"
  shows "filter_mset (in_blocks (l + 1) m) M + filter_mset (in_blocks (m + 1) n) M =
    filter_mset (in_blocks (l + 1) n) M"
  by (induction M) (use assms in \<open>auto simp: in_blocks_def\<close>)

lemma mset_concat_filter: "mset (concat (map (filter P) xss)) = filter_mset P (mset (concat xss))"
  by (induction xss) simp_all

text \<open>
  What a callback promises: when it succeeds it has handled the events it was given and left the
  positions alone. When it fails the transaction undoes what it did.
\<close>

definition records_events ::
  "('db \<Rightarrow> kv_table) \<Rightarrow> ('db \<Rightarrow> 'a event list) \<Rightarrow>
   ('a event list \<Rightarrow> (('db, 'eff) world, unit) prog) \<Rightarrow> bool" where
  "records_events table_of handled callback \<longleftrightarrow> (\<forall>es w w'. callback es w = (Inr (), w') \<longrightarrow>
     handled (w_db w') = handled (w_db w) @ es \<and> table_of (w_db w') = table_of (w_db w))"

definition table_lens ::
  "('db \<Rightarrow> kv_table) \<Rightarrow> (kv_table \<Rightarrow> 'db \<Rightarrow> 'db) \<Rightarrow> ('db \<Rightarrow> 'h) \<Rightarrow> bool" where
  "table_lens table_of put_table handled \<longleftrightarrow>
     (\<forall>t db. table_of (put_table t db) = t \<and> handled (put_table t db) = handled db)"

lemma scan_once:
  assumes cb: "records_events table_of handled callback" and lens: "table_lens table_of put_table handled"
    and srcs: "serves_all histories srcs (b - sc_block_safety_margin cfg)"
    and sorted: "\<forall>c \<in> set histories. sorted (map ev_block c)"
    and pos: "position cfg (table_of (w_db w)) = Inr (JInt l)"
    and run: "w' = snd (in_tx (scan_new_events cfg table_of put_table srcs b callback) w)"
  shows "\<exists>l' \<ge> l. position cfg (table_of (w_db w')) = Inr (JInt l') \<and>
    mset (handled (w_db w')) = mset (handled (w_db w)) +
      filter_mset (in_blocks (l + 1) l') (mset (concat histories))"
proof -
  let ?m = "scan_new_events cfg table_of put_table srcs b callback"
  let ?t = "b - sc_block_safety_margin cfg"
  have none: "\<not> in_blocks (l + 1) l e" for e :: "'b event" by (simp add: in_blocks_def)
  obtain r v where m: "?m w = (r, v)" by (cases "?m w")
  have get: "get_value (table_of (w_db w)) (sc_last_scanned_block_key cfg)
      (Some (JInt (sc_default_start_block cfg))) = Inr (JInt l)" using pos by (simp add: position_def)
  show ?thesis
  proof (cases r)
    case (Inl e)
    then have "w_db w' = w_db w" using run m by (simp add: in_tx_def)
    then show ?thesis using pos none by (intro exI[of _ l]) (simp flip: mset_concat)
  next
    case (Inr u)
    then have w': "w' = v" using run m by (simp add: in_tx_def)
    show ?thesis
    proof (cases "?t < l + 1")
      case True
      then have "v = w" using m get Inr by (simp add: scan_new_events_def run_bnd run_kv_get)
      then show ?thesis using w' pos none by (intro exI[of _ l]) (simp flip: mset_concat)
    next
      case False
      obtain es where es: "collect_logs srcs (l + 1) ?t = Inr es"
        using m get Inr False
        by (cases "collect_logs srcs (l + 1) ?t") (simp_all add: scan_new_events_def run_bnd run_kv_get)
      obtain x where x: "callback (sort_key event_position es) w = (Inr (), x)"
        and v: "v = x\<lparr>w_db := put_table (set_value (table_of (w_db x)) (sc_last_scanned_block_key cfg) (JInt ?t)) (w_db x)\<rparr>"
        using m get Inr False es
        by (auto simp: scan_new_events_def run_bnd run_kv_get run_sq run_kv_set split: prod.splits sum.splits)
      have h: "handled (w_db x) = handled (w_db w) @ sort_key event_position es"
        using cb x by (auto simp: records_events_def)
      have "mset es = filter_mset (in_blocks (l + 1) ?t) (mset (concat histories))"
        using collect_logs_served[OF srcs[unfolded serves_all_def] sorted es] mset_concat_filter by metis
      then have "mset (handled (w_db v)) = mset (handled (w_db w)) +
          filter_mset (in_blocks (l + 1) ?t) (mset (concat histories))"
        using v h lens by (simp add: table_lens_def flip: mset_concat)
      moreover have "position cfg (table_of (w_db v)) = Inr (JInt ?t)"
        using v lens by (simp add: position_def table_lens_def kv.get_put)
      ultimately show ?thesis using False w' by (intro exI[of _ ?t]) simp
    qed
  qed
qed

text \<open>
  C16. No event is missed and none is handled twice: whatever iterations fail (a node that does not
  answer, a callback that raises), after any number of scans the events handled are, as a multiset,
  exactly those in the blocks after the starting position and up to the stored one.
\<close>

theorem scan_exactly_once:
  assumes "records_events table_of handled callback" "table_lens table_of put_table handled"
    and "\<forall>(b, srcs) \<in> set its. serves_all histories srcs (b - sc_block_safety_margin cfg)"
    and "\<forall>c \<in> set histories. sorted (map ev_block c)"
    and "position cfg (table_of (w_db w)) = Inr (JInt start)"
  shows "\<exists>l \<ge> start.
    position cfg (table_of (w_db (run_scans cfg table_of put_table callback its w))) = Inr (JInt l) \<and>
    mset (handled (w_db (run_scans cfg table_of put_table callback its w))) =
      mset (handled (w_db w)) + filter_mset (in_blocks (start + 1) l) (mset (concat histories))"
  using assms(3,5)
proof (induction its arbitrary: w start)
  case Nil
  have "filter_mset (in_blocks (start + 1) start) (mset (concat histories)) = {#}"
    by (auto simp: filter_mset_eq_conv in_blocks_def)
  with Nil show ?case by (intro exI[of _ start]) (simp flip: mset_concat)
next
  case (Cons it its)
  obtain b srcs where it: "it = (b, srcs)" by (cases it)
  define w' where "w' = snd (in_tx (scan_new_events cfg table_of put_table srcs b callback) w)"
  have srcs: "serves_all histories srcs (b - sc_block_safety_margin cfg)" using Cons.prems(1) it by simp
  obtain l where l: "start \<le> l" "position cfg (table_of (w_db w')) = Inr (JInt l)"
    "mset (handled (w_db w')) = mset (handled (w_db w)) +
       filter_mset (in_blocks (start + 1) l) (mset (concat histories))"
    using scan_once[OF assms(1,2) srcs assms(4) Cons.prems(2) w'_def] by blast
  have run: "run_scans cfg table_of put_table callback (it # its) w =
      run_scans cfg table_of put_table callback its w'" by (simp add: it w'_def)
  have "\<forall>(b, srcs) \<in> set its. serves_all histories srcs (b - sc_block_safety_margin cfg)"
    using Cons.prems(1) by simp
  from Cons.IH[OF this l(2)] obtain l' where "l \<le> l'"
    "position cfg (table_of (w_db (run_scans cfg table_of put_table callback its w'))) = Inr (JInt l')"
    "mset (handled (w_db (run_scans cfg table_of put_table callback its w'))) =
       mset (handled (w_db w')) + filter_mset (in_blocks (l + 1) l') (mset (concat histories))"
    by blast
  with l filter_in_blocks_split[OF l(1), of l' "mset (concat histories)"] run show ?case
    by (intro exI[of _ l']) (simp add: add.assoc del: mset_concat)
qed

definition example_table :: "kv_table \<times> nat event list \<Rightarrow> kv_table" where
  "example_table = fst"

definition example_callback :: "nat event list \<Rightarrow> ((kv_table \<times> nat event list, unit) world, unit) prog" where
  "example_callback es = db_put (\<lambda>(t, h). (t, h @ es))"

theorem scan_exactly_once_witness:
  "let cfg = \<lparr>sc_block_safety_margin = 5, sc_default_start_block = 0, sc_last_scanned_block_key = ''k''\<rparr>;
       chain = [example_event 5, example_event 150];
       src = (\<lambda>f t n. Inr (filter (in_blocks f t) chain));
       w = \<lparr>w_db = (Map.empty, []), w_seqs = (\<lambda>_. 1), w_effects = []\<rparr>;
       w' = run_scans cfg example_table (\<lambda>t (_, h). (t, h)) example_callback [(100, [src]), (160, [src])] w
   in \<exists>l \<ge> 0. position cfg (example_table (w_db w')) = Inr (JInt l) \<and>
        mset (snd (w_db w')) = mset [] + filter_mset (in_blocks (0 + 1) l) (mset (concat [chain]))"
proof -
  let ?cfg = "\<lparr>sc_block_safety_margin = 5, sc_default_start_block = 0, sc_last_scanned_block_key = ''k''\<rparr>"
  let ?chain = "[example_event 5, example_event 150]"
  let ?src = "\<lambda>f t (n::nat). Inr (filter (in_blocks f t) ?chain)"
  let ?w = "\<lparr>w_db = (Map.empty, []), w_seqs = (\<lambda>_. 1), w_effects = []\<rparr> :: (kv_table \<times> nat event list, unit) world"
  have 1: "records_events example_table snd example_callback"
    by (auto simp: records_events_def example_table_def example_callback_def split: prod.splits)
  have 2: "table_lens example_table (\<lambda>t (_, h). (t, h)) snd"
    by (auto simp: table_lens_def example_table_def)
  have 3: "\<forall>(b, srcs) \<in> set [(100, [?src]), (160, [?src])].
      serves_all [?chain] srcs (b - sc_block_safety_margin ?cfg)"
    by (simp add: serves_all_def serves_def)
  have 4: "\<forall>c \<in> set [?chain]. sorted (map ev_block c)" by (simp add: example_event_def)
  have 5: "position ?cfg (example_table (w_db ?w)) = Inr (JInt 0)"
    by (simp add: position_def example_table_def get_value_def)
  from scan_exactly_once[OF 1 2 3 4 5] show ?thesis by (simp add: Let_def)
qed

end
