(* ===== verification/Ord_Types.thy ===== *)
theory Ord_Types
  imports Prelude
begin

text \<open>
  Runes and their outputs as the ord indexer reports them:
  \<^verbatim>\<open>bridge_node/bridge/common/ord/\<close> (\<^verbatim>\<open>types.py\<close>, \<^verbatim>\<open>client.py\<close>, \<^verbatim>\<open>utxos.py\<close>) and the
  \<open>functools.lru_cache\<close> that \<^verbatim>\<open>utxos.py\<close> and the Rune service wrap their lookups in.
  Rune names contain the bullet U+2022, so they are lists of code points. The package
  \<open>pyord\<close>, the Unicode tables and the HTTP server are parameters.
\<close>

section \<open>Names of runes\<close>

type_synonym pystr = "nat list"

text \<open>An ASCII literal as a list of code points.\<close>

definition pys :: "string \<Rightarrow> pystr" where
  "pys s = map (\<lambda>c. of_char c) s"

text \<open>The character predicates of the Unicode database that \<open>isalpha\<close> and \<open>isupper\<close> consult.\<close>

record unicode =
  uc_alpha :: "nat \<Rightarrow> bool"
  uc_upper :: "nat \<Rightarrow> bool"
  uc_lower_or_title :: "nat \<Rightarrow> bool"

definition str_isalpha :: "unicode \<Rightarrow> pystr \<Rightarrow> bool" where
  "str_isalpha uc s \<longleftrightarrow> s \<noteq> [] \<and> list_all (uc_alpha uc) s"

definition str_isupper :: "unicode \<Rightarrow> pystr \<Rightarrow> bool" where
  "str_isupper uc s \<longleftrightarrow> list_ex (uc_upper uc) s \<and> list_all (\<lambda>c. \<not> uc_lower_or_title uc c) s"

text \<open>\<open>.\<close> and \<open>\<bullet>\<close> are the spacers.\<close>

definition is_spacer :: "nat \<Rightarrow> bool" where
  "is_spacer c \<longleftrightarrow> c = 46 \<or> c = 8226"

definition remove_spacers :: "unicode \<Rightarrow> pystr \<Rightarrow> exn + pystr" where
  "remove_spacers uc rune =
     (let ret = filter (\<lambda>c. \<not> is_spacer c) rune
      in if \<not> str_isalpha uc ret then Inl ValueError
         else if \<not> str_isupper uc ret then Inl ValueError
         else Inr ret)"

text \<open>
  \<open>pyord.Rune\<close> is represented by its number; \<open>py_from_str\<close> and \<open>py_name\<close> are
  \<open>pyord.Rune.from_str(s).n\<close> and \<open>pyord.Rune(n).name\<close>.
\<close>

record pyord =
  py_unicode :: unicode
  py_from_str :: "pystr \<Rightarrow> exn + int"
  py_name :: "int \<Rightarrow> pystr"

definition rune_from_str :: "pyord \<Rightarrow> pystr \<Rightarrow> exn + int" where
  "rune_from_str py s = rbind (remove_spacers (py_unicode py) s) (py_from_str py)"

text \<open>What the program accepts as a rune: a name, a number or a \<open>pyord.Rune\<close>.\<close>

datatype runish = RuneInt int | RuneStr pystr | RuneObj int

fun coerce_rune :: "pyord \<Rightarrow> runish \<Rightarrow> exn + int" where
  "coerce_rune py (RuneInt n) = Inr n"
| "coerce_rune py (RuneStr s) = rune_from_str py s"
| "coerce_rune py (RuneObj n) = Inr n"

definition get_normalized_rune_name :: "pyord \<Rightarrow> runish \<Rightarrow> exn + pystr" where
  "get_normalized_rune_name py rune = rbind (coerce_rune py rune) (\<lambda>n. Inr (py_name py n))"

text \<open>The documented law of \<open>pyord\<close>: a parsed name is the name of the number it was parsed to.\<close>

definition pyord_law :: "pyord \<Rightarrow> bool" where
  "pyord_law py \<longleftrightarrow> (\<forall>s n. py_from_str py s = Inr n \<longrightarrow> py_name py n = s)"

lemma remove_spacers_Inr:
  "remove_spacers uc s = Inr t \<Longrightarrow> t = filter (\<lambda>c. \<not> is_spacer c) s"
  by (auto simp: remove_spacers_def Let_def split: if_splits)

lemma normalized_name:
  assumes "pyord_law py" "get_normalized_rune_name py (RuneStr s) = Inr t"
  shows "t = filter (\<lambda>c. \<not> is_spacer c) s"
  using assms
  by (auto simp: get_normalized_rune_name_def rune_from_str_def rbind_eq_Inr pyord_law_def
      dest!: remove_spacers_Inr)

text \<open>Spacers never change which rune a name stands for.\<close>

lemma rune_from_str_spacers:
  "filter (\<lambda>c. \<not> is_spacer c) s = filter (\<lambda>c. \<not> is_spacer c) t \<Longrightarrow> rune_from_str py s = rune_from_str py t"
  by (simp add: rune_from_str_def remove_spacers_def Let_def)

lemma normalized_name_stable:
  assumes "pyord_law py" "get_normalized_rune_name py (RuneStr s) = Inr t"
  shows "get_normalized_rune_name py (RuneStr t) = Inr t"
proof -
  have "filter (\<lambda>c. \<not> is_spacer c) t = filter (\<lambda>c. \<not> is_spacer c) s"
    using normalized_name[OF assms] by simp
  then show ?thesis
    using assms(2) rune_from_str_spacers[of t s py] by (simp add: get_normalized_rune_name_def)
qed

section \<open>The client of the ord server\<close>

record rune_balance_entry =
  rb_amount :: int
  rb_divisibility :: nat

record output_response =
  or_indexed :: bool
  or_spent :: bool
  or_transaction :: string
  or_value :: int
  or_runes :: "(pystr \<times> rune_balance_entry) list"
  or_inscriptions :: "string list"

record rune_entry =
  re_spaced_rune :: pystr
  re_symbol :: pystr
  re_divisibility :: nat
  re_turbo :: bool

record rune_response =
  rr_entry :: rune_entry
  rr_id :: string

text \<open>An HTTP answer: the status code and the decoded JSON body.\<close>

record 'a http_response =
  hr_status_code :: int
  hr_json :: "exn + 'a"

definition http_ok :: "'a http_response \<Rightarrow> bool" where
  "http_ok resp \<longleftrightarrow> hr_status_code resp < 400"

definition ord_request :: "exn + 'a http_response \<Rightarrow> exn + 'a" where
  "ord_request answer = rbind answer (\<lambda>resp.
     if \<not> http_ok resp then
       (if hr_status_code resp = 404 then Inl OrdApiNotFound else Inl OrdApiError)
     else hr_json resp)"

text \<open>
  The server's answers to \<open>/rune/...\<close>, \<open>/output/txid:vout\<close> and \<open>/blockcount\<close>; the last two
  depend on how often they have been asked, since the caller waits for the index.
\<close>

record ord_server =
  os_rune :: "pystr \<Rightarrow> exn + rune_response http_response"
  os_output :: "string \<Rightarrow> int \<Rightarrow> nat \<Rightarrow> exn + output_response http_response"
  os_blockcount :: "nat \<Rightarrow> exn + int http_response"

definition get_rune :: "ord_server \<Rightarrow> pystr \<Rightarrow> exn + rune_response option" where
  "get_rune ord rune_name =
     (case ord_request (os_rune ord rune_name) of
        Inr response \<Rightarrow> Inr (Some response)
      | Inl e \<Rightarrow> if e = OrdApiNotFound then Inr None else Inl e)"

definition get_output :: "ord_server \<Rightarrow> string \<Rightarrow> int \<Rightarrow> nat \<Rightarrow> exn + output_response" where
  "get_output ord txid vout attempt =
     (case ord_request (os_output ord txid vout attempt) of
        Inr response \<Rightarrow> Inr response
      | Inl e \<Rightarrow> if e = OrdApiNotFound then Inl LookupError else Inl e)"

section \<open>Outputs with their balances\<close>

record ord_output =
  oo_txid :: string
  oo_vout :: int
  oo_amount_satoshi :: int
  oo_rune_balances :: "(pystr \<times> int) list"
  oo_inscriptions :: "string list"

definition output_rune_balance :: "ord_output \<Rightarrow> pystr \<Rightarrow> int" where
  "output_rune_balance out name =
     (case map_of (oo_rune_balances out) name of Some amount \<Rightarrow> amount | None \<Rightarrow> 0)"

definition get_rune_balance :: "pyord \<Rightarrow> ord_output \<Rightarrow> runish \<Rightarrow> exn + int" where
  "get_rune_balance py out rune =
     rbind (get_normalized_rune_name py rune) (\<lambda>name. Inr (output_rune_balance out name))"

definition has_rune_balances :: "ord_output \<Rightarrow> bool" where
  "has_rune_balances out \<longleftrightarrow> oo_rune_balances out \<noteq> []"

definition has_ord_balances :: "ord_output \<Rightarrow> bool" where
  "has_ord_balances out \<longleftrightarrow> oo_rune_balances out \<noteq> [] \<or> oo_inscriptions out \<noteq> []"

text \<open>The loop that collects the balances, asserting that no name comes twice.\<close>

fun collect_rune_balances ::
  "pyord \<Rightarrow> (pystr \<times> rune_balance_entry) list \<Rightarrow> (pystr \<times> int) list \<Rightarrow> exn + (pystr \<times> int) list" where
  "collect_rune_balances py [] balances = Inr balances"
| "collect_rune_balances py ((rune_name, entry) # runes) balances =
     rbind (get_normalized_rune_name py (RuneStr rune_name)) (\<lambda>normalized_name.
       if normalized_name \<in> fst ` set balances then Inl AssertionError
       else collect_rune_balances py runes (balances @ [(normalized_name, rb_amount entry)]))"

text \<open>What the cached function computes when it is asked for the \<open>attempt\<close>-th time.\<close>

definition get_ord_output :: "pyord \<Rightarrow> ord_server \<Rightarrow> nat \<Rightarrow> string \<Rightarrow> int \<Rightarrow> exn + ord_output" where
  "get_ord_output py ord attempt txid vout =
     rbind (get_output ord txid vout attempt) (\<lambda>output_response.
       if \<not> or_indexed output_response then Inl UnindexedOutput
       else if or_transaction output_response \<noteq> txid then Inl AssertionError
       else rbind (collect_rune_balances py (or_runes output_response) []) (\<lambda>rune_balances.
         Inr \<lparr>oo_txid = txid, oo_vout = vout, oo_amount_satoshi = or_value output_response,
              oo_rune_balances = rune_balances, oo_inscriptions = or_inscriptions output_response\<rparr>))"

lemma collect_rune_balances_Inr:
  "collect_rune_balances py runes acc = Inr bs \<Longrightarrow> distinct (map fst acc) \<Longrightarrow>
   distinct (map fst bs) \<and>
   (\<exists>new. bs = acc @ new \<and>
     list_all2 (\<lambda>(spaced, entry) (name, amount). get_normalized_rune_name py (RuneStr spaced) = Inr name \<and>
       amount = rb_amount entry) runes new)"
proof (induction py runes acc arbitrary: bs rule: collect_rune_balances.induct)
  case (2 py rune_name entry runes acc)
  from "2.prems"(1) obtain name where n: "get_normalized_rune_name py (RuneStr rune_name) = Inr name"
    and fresh: "name \<notin> fst ` set acc"
    and rec: "collect_rune_balances py runes (acc @ [(name, rb_amount entry)]) = Inr bs"
    by (auto simp: rbind_eq_Inr split: if_splits)
  from "2.IH"[OF fresh rec] "2.prems"(2) fresh n show ?case by auto
qed simp

text \<open>What an output is worth in a rune is what the indexer reports for it, under the unspaced name.\<close>

lemma get_ord_output_balances:
  assumes "get_ord_output py ord attempt txid vout = Inr out"
  shows "oo_txid out = txid \<and> oo_vout out = vout \<and> distinct (map fst (oo_rune_balances out)) \<and>
    (\<exists>r. get_output ord txid vout attempt = Inr r \<and> or_indexed r \<and>
      list_all2 (\<lambda>(spaced, entry) (name, amount). get_normalized_rune_name py (RuneStr spaced) = Inr name \<and>
        amount = rb_amount entry) (or_runes r) (oo_rune_balances out))"
  using assms
  by (auto simp: get_ord_output_def rbind_eq_Inr split: if_splits
      dest!: collect_rune_balances_Inr)

end
