(* ===== verification/Decimal.thy ===== *)
theory Decimal
  imports Prelude Complex_Main
begin

text \<open>
  The decimal arithmetic the program computes amounts with: finite values of Python's
  \<open>decimal.Decimal\<close> as a coefficient and an exponent, with the context of
  \<^verbatim>\<open>bridge_node/bridge/decimalcontext.py\<close> (80 digits, rounding half to even), and the two
  conversions of \<^verbatim>\<open>bridge_node/bridge/common/utils/__init__.py\<close>. Exponent limits of the
  context (a million digits away) are not modelled, nor is the sign of a zero.
  The lemmas show when an operation is exact, so that the rest of the development can reason
  over the rationals.
\<close>

section \<open>Python's finite decimals\<close>

datatype decimal = Dec (coeff: int) (expo: int)

definition dec_of_int :: "int \<Rightarrow> decimal" where
  "dec_of_int n = Dec n 0"

text \<open>The number of digits of a coefficient, \<open>len(self._int)\<close>.\<close>

fun ndigits :: "nat \<Rightarrow> nat" where
  "ndigits n = (if n < 10 then 1 else Suc (ndigits (n div 10)))"

declare ndigits.simps [simp del]

text \<open>Rounding a result to the precision of the context, half to even.\<close>

definition dec_fix :: "nat \<Rightarrow> decimal \<Rightarrow> decimal" where
  "dec_fix prec d =
     (let c = \<bar>coeff d\<bar>; n = ndigits (nat c)
      in if n \<le> prec then d
         else let k = n - prec;
                  q = c div 10 ^ k;
                  r = c mod 10 ^ k;
                  q' = (if 2 * r > 10 ^ k \<or> (2 * r = 10 ^ k \<and> odd q) then q + 1 else q)
              in if q' = 10 ^ prec then Dec (sgn (coeff d) * (q' div 10)) (expo d + int k + 1)
                 else Dec (sgn (coeff d) * q') (expo d + int k))"

definition dec_mul :: "nat \<Rightarrow> decimal \<Rightarrow> decimal \<Rightarrow> decimal" where
  "dec_mul prec a b = dec_fix prec (Dec (coeff a * coeff b) (expo a + expo b))"

definition dec_align :: "decimal \<Rightarrow> int \<Rightarrow> int" where
  "dec_align d e = coeff d * 10 ^ nat (expo d - e)"

definition dec_add :: "nat \<Rightarrow> decimal \<Rightarrow> decimal \<Rightarrow> decimal" where
  "dec_add prec a b =
     (let e = min (expo a) (expo b) in dec_fix prec (Dec (dec_align a e + dec_align b e) e))"

definition dec_sub :: "nat \<Rightarrow> decimal \<Rightarrow> decimal \<Rightarrow> decimal" where
  "dec_sub prec a b = dec_add prec a (Dec (- coeff b) (expo b))"

text \<open>Exact quotients are brought as close as possible to the ideal exponent.\<close>

function dec_strip :: "int \<Rightarrow> int \<Rightarrow> int \<Rightarrow> decimal" where
  "dec_strip c e ideal =
     (if e < ideal \<and> c mod 10 = 0 then dec_strip (c div 10) (e + 1) ideal else Dec c e)"
  by pat_completeness auto
termination
  by (relation "measure (\<lambda>(c, e, ideal). nat (ideal - e))") auto

declare dec_strip.simps [simp del]

definition dec_div :: "nat \<Rightarrow> decimal \<Rightarrow> decimal \<Rightarrow> exn + decimal" where
  "dec_div prec a b =
     (if coeff b = 0 then Inl ZeroDivisionError
      else if coeff a = 0 then Inr (Dec 0 (expo a - expo b))
      else let s = sgn (coeff a) * sgn (coeff b);
               shift = int (ndigits (nat \<bar>coeff b\<bar>)) - int (ndigits (nat \<bar>coeff a\<bar>)) + int prec + 1;
               e = expo a - expo b - shift;
               num = (if shift \<ge> 0 then \<bar>coeff a\<bar> * 10 ^ nat shift else \<bar>coeff a\<bar>);
               den = (if shift \<ge> 0 then \<bar>coeff b\<bar> else \<bar>coeff b\<bar> * 10 ^ nat (- shift));
               q = num div den;
               d = (if num mod den \<noteq> 0 then Dec (if q mod 5 = 0 then q + 1 else q) e
                    else dec_strip q e (expo a - expo b))
           in Inr (dec_fix prec (Dec (s * coeff d) (expo d))))"

text \<open>\<open>int(d)\<close> truncates towards zero.\<close>

definition dec_int :: "decimal \<Rightarrow> int" where
  "dec_int d =
     (if expo d \<ge> 0 then coeff d * 10 ^ nat (expo d)
      else sgn (coeff d) * (\<bar>coeff d\<bar> div 10 ^ nat (- expo d)))"

section \<open>The program's context and conversions\<close>

definition PRECISION :: nat where
  "PRECISION = 80"

definition to_decimal :: "int \<Rightarrow> nat \<Rightarrow> exn + decimal" where
  "to_decimal amount decimals = dec_div PRECISION (dec_of_int amount) (dec_of_int (10 ^ decimals))"

definition to_base_units :: "decimal \<Rightarrow> nat \<Rightarrow> int" where
  "to_base_units amount decimals = dec_int (dec_mul PRECISION amount (dec_of_int (10 ^ decimals)))"

section \<open>Values and exactness\<close>

lemma dec_div_Inr: "coeff b \<noteq> 0 \<Longrightarrow> \<exists>d. dec_div prec a b = Inr d"
  by (simp add: dec_div_def Let_def)

definition dec_val :: "decimal \<Rightarrow> rat" where
  "dec_val d = of_int (coeff d) * 10 powi (expo d)"

text \<open>A rational is representable when it is a coefficient within the precision times a power of ten.\<close>

definition representable :: "nat \<Rightarrow> rat \<Rightarrow> bool" where
  "representable prec v \<longleftrightarrow> (\<exists>q x. v = of_int q * 10 powi x \<and> \<bar>q\<bar> < 10 ^ prec)"

lemma representableI: "v = of_int q * 10 powi x \<Longrightarrow> \<bar>q\<bar> < 10 ^ prec \<Longrightarrow> representable prec v"
  unfolding representable_def by blast

lemma dec_val_of_int [simp]: "dec_val (dec_of_int n) = of_int n"
  by (simp add: dec_val_def dec_of_int_def)

lemma ndigits_bounds: "10 ^ (ndigits n - 1) \<le> (if n = 0 then 1 else n) \<and> n < 10 ^ ndigits n \<and> 0 < ndigits n"
proof (induction n rule: ndigits.induct)
  case (1 n)
  show ?case
  proof (cases "n < 10")
    case True
    then show ?thesis by (simp add: ndigits.simps[of n])
  next
    case False
    define m where "m = n div 10"
    have IH: "10 ^ (ndigits m - 1) \<le> m" "m < 10 ^ ndigits m" "0 < ndigits m"
      using 1[OF False] False unfolding m_def by (auto split: if_splits)
    have nd: "ndigits n = Suc (ndigits m)" using False by (simp add: ndigits.simps[of n] m_def)
    have "10 ^ ndigits m = 10 * (10::nat) ^ (ndigits m - 1)"
      using IH(3) by (cases "ndigits m") auto
    moreover have "10 * m \<le> n" "n < 10 * m + 10" by (auto simp: m_def)
    ultimately show ?thesis using IH False unfolding nd by auto
  qed
qed

lemma ndigits_le_iff: "0 < p \<Longrightarrow> ndigits n \<le> p \<longleftrightarrow> n < 10 ^ p"
proof
  assume "ndigits n \<le> p"
  then have "(10::nat) ^ ndigits n \<le> 10 ^ p" by (simp add: power_increasing)
  then show "n < 10 ^ p" using ndigits_bounds[of n] by linarith
next
  assume p: "0 < p" "n < 10 ^ p"
  show "ndigits n \<le> p"
  proof (rule ccontr)
    assume "\<not> ndigits n \<le> p"
    then have "(10::nat) ^ p \<le> 10 ^ (ndigits n - 1)" by (intro power_increasing) auto
    moreover have "n \<noteq> 0"
      using \<open>\<not> ndigits n \<le> p\<close> p by (cases "n = 0") (auto simp: ndigits.simps[of 0])
    moreover have "10 ^ (ndigits n - 1) \<le> n"
      using ndigits_bounds[of n] \<open>n \<noteq> 0\<close> by (auto split: if_splits)
    ultimately show False using p(2) by linarith
  qed
qed

lemma powi_shift: "x \<ge> e \<Longrightarrow> (10::rat) powi x = 10 powi e * of_int (10 ^ nat (x - e))"
proof -
  assume "x \<ge> e"
  have "(10::rat) powi x = 10 powi (e + (x - e))" by simp
  also have "\<dots> = 10 powi e * 10 powi (x - e)" by (rule power_int_add) simp
  finally show ?thesis using \<open>x \<ge> e\<close> by (simp add: power_int_def)
qed

lemma scaled_eq:
  assumes "(of_int c :: rat) * 10 powi e = of_int q * 10 powi x" "e \<le> x"
  shows "c = q * 10 ^ nat (x - e)"
proof -
  have "(of_int c :: rat) * 10 powi e = of_int (q * 10 ^ nat (x - e)) * 10 powi e"
    using assms powi_shift[of e x] by (simp add: ac_simps)
  then have "(of_int c :: rat) = of_int (q * 10 ^ nat (x - e))" by simp
  then show ?thesis by (simp only: of_int_eq_iff)
qed

lemma scaled_dvd:
  assumes eq: "(of_int c :: rat) * 10 powi e = of_int q * 10 powi x" and q: "\<bar>q\<bar> < 10 ^ prec"
    and n: "10 ^ (prec + k - 1) \<le> \<bar>c\<bar>" "0 < k"
  shows "10 ^ k dvd c"
proof (cases "e + int k \<le> x")
  case True
  then have "c = q * 10 ^ nat (x - e)" using scaled_eq[OF eq] by simp
  moreover have "(10::int) ^ k dvd 10 ^ nat (x - e)" using True by (intro le_imp_power_dvd) linarith
  ultimately show ?thesis by simp
next
  case False
  have "\<bar>c\<bar> < 10 ^ (prec + k - 1)"
  proof (cases "e \<le> x")
    case True
    then have "\<bar>c\<bar> = \<bar>q\<bar> * 10 ^ nat (x - e)" using scaled_eq[OF eq] by (simp add: abs_mult)
    also have "\<dots> < 10 ^ prec * 10 ^ nat (x - e)" using q by simp
    also have "\<dots> \<le> 10 ^ (prec + k - 1)"
      using False True by (subst power_add[symmetric]) (intro power_increasing, auto)
    finally show ?thesis .
  next
    case False
    then have "q = c * 10 ^ nat (e - x)" using scaled_eq[OF eq[symmetric]] by simp
    then have "\<bar>c\<bar> \<le> \<bar>q\<bar>" by (simp add: abs_mult mult_le_cancel_left1)
    also have "\<dots> < 10 ^ prec" by (rule q)
    also have "(10::int) ^ prec \<le> 10 ^ (prec + k - 1)" using n(2) by (intro power_increasing) auto
    finally show ?thesis .
  qed
  then show ?thesis using n(1) by linarith
qed

lemma dec_fix_exact:
  assumes p: "0 < prec" and r: "representable prec (dec_val d)"
  shows "dec_val (dec_fix prec d) = dec_val d"
proof (cases "ndigits (nat \<bar>coeff d\<bar>) \<le> prec")
  case True
  then show ?thesis by (simp add: dec_fix_def Let_def)
next
  case False
  define c where "c = coeff d"
  define k where "k = ndigits (nat \<bar>c\<bar>) - prec"
  have k: "0 < k" "ndigits (nat \<bar>c\<bar>) = prec + k" using False by (auto simp: k_def c_def)
  have "c \<noteq> 0" using False p by (auto simp: c_def ndigits.simps[of 0])
  then have "10 ^ (prec + k - 1) \<le> nat \<bar>c\<bar>" "nat \<bar>c\<bar> < 10 ^ (prec + k)"
    using ndigits_bounds[of "nat \<bar>c\<bar>"] k(2) by auto
  then have b: "10 ^ (prec + k - 1) \<le> \<bar>c\<bar>" "\<bar>c\<bar> < 10 ^ (prec + k)"
    by (simp_all add: nat_less_iff le_nat_iff)
  obtain q x where q: "dec_val d = of_int q * 10 powi x" "\<bar>q\<bar> < 10 ^ prec"
    using r unfolding representable_def by blast
  have "10 ^ k dvd c"
    using q b(1) k(1) by (intro scaled_dvd[of c "expo d" q x prec k]) (simp_all add: dec_val_def c_def)
  then obtain m where m: "c = 10 ^ k * m" by (auto elim: dvdE)
  have m': "\<bar>c\<bar> = \<bar>m\<bar> * 10 ^ k" using m by (simp add: abs_mult)
  then have mb: "\<bar>m\<bar> < 10 ^ prec" using b(2) by (simp add: power_add)
  have f: "dec_fix prec d = Dec (sgn c * \<bar>m\<bar>) (expo d + int k)"
    using False mb m' unfolding dec_fix_def Let_def c_def[symmetric] k_def[symmetric] by simp
  have "sgn c * \<bar>m\<bar> = m" using m \<open>c \<noteq> 0\<close> by (simp add: sgn_mult sgn_mult_abs)
  then have "dec_val (dec_fix prec d) = of_int m * (10 powi (expo d) * of_int (10 ^ k))"
    using powi_shift[of "expo d" "expo d + int k"] unfolding f by (simp add: dec_val_def)
  also have "\<dots> = dec_val d" using m by (simp add: dec_val_def c_def)
  finally show ?thesis .
qed

lemma dec_mul_exact:
  assumes "0 < prec" "representable prec (dec_val a * dec_val b)"
  shows "dec_val (dec_mul prec a b) = dec_val a * dec_val b"
proof -
  have "dec_val (Dec (coeff a * coeff b) (expo a + expo b)) = dec_val a * dec_val b"
    by (simp add: dec_val_def power_int_add ac_simps)
  then show ?thesis using assms by (simp add: dec_mul_def dec_fix_exact)
qed

lemma dec_align_val: "e \<le> expo d \<Longrightarrow> of_int (dec_align d e) * 10 powi e = dec_val d"
  using powi_shift[of e "expo d"] by (simp add: dec_align_def dec_val_def ac_simps)

lemma dec_add_exact:
  assumes "0 < prec" "representable prec (dec_val a + dec_val b)"
  shows "dec_val (dec_add prec a b) = dec_val a + dec_val b"
proof -
  define e where "e = min (expo a) (expo b)"
  have "dec_val (Dec (dec_align a e + dec_align b e) e) = dec_val a + dec_val b"
    using dec_align_val[of e a] dec_align_val[of e b]
    by (simp add: dec_val_def[of "Dec _ _"] e_def algebra_simps)
  then show ?thesis using assms by (simp add: dec_add_def Let_def e_def[symmetric] dec_fix_exact)
qed

lemma dec_val_neg: "dec_val (Dec (- coeff b) (expo b)) = - dec_val b"
  by (simp add: dec_val_def)

lemma dec_sub_exact:
  assumes "0 < prec" "representable prec (dec_val a - dec_val b)"
  shows "dec_val (dec_sub prec a b) = dec_val a - dec_val b"
  using assms dec_add_exact[of prec a "Dec (- coeff b) (expo b)"]
  by (simp add: dec_sub_def dec_val_neg)

lemma dec_strip_val: "dec_val (dec_strip c e ideal) = of_int c * 10 powi e"
proof (induction c e ideal rule: dec_strip.induct)
  case (1 c e ideal)
  show ?case
  proof (cases "e < ideal \<and> c mod 10 = 0")
    case True
    then have "c = 10 * (c div 10)" by auto
    then have "(of_int c :: rat) = of_int (10 * (c div 10))" by (rule arg_cong)
    then have "(of_int c :: rat) = of_int (c div 10) * 10"
      by (simp only: of_int_mult of_int_numeral mult.commute)
    then have "of_int c * 10 powi e = (of_int (c div 10) * (10 * 10 powi e) :: rat)"
      by (simp only: mult.assoc)
    also have "10 * 10 powi e = (10::rat) powi (e + 1)" by (simp add: power_int_add_1')
    finally show ?thesis using 1 True by (simp add: dec_strip.simps[of c e ideal])
  next
    case False
    then have "dec_strip c e ideal = Dec c e" by (subst dec_strip.simps) auto
    then show ?thesis by (simp add: dec_val_def)
  qed
qed


lemma ndigits_rat:
  assumes "c \<noteq> 0"
  shows "(10::rat) powi (int (ndigits (nat \<bar>c\<bar>)) - 1) \<le> of_int \<bar>c\<bar>"
    and "of_int \<bar>c\<bar> < (10::rat) powi (int (ndigits (nat \<bar>c\<bar>)))"
proof -
  define n where "n = ndigits (nat \<bar>c\<bar>)"
  have b: "10 ^ (n - 1) \<le> nat \<bar>c\<bar>" "nat \<bar>c\<bar> < 10 ^ n" "0 < n"
    using ndigits_bounds[of "nat \<bar>c\<bar>"] assms by (auto simp: n_def)
  then have i: "10 ^ (n - 1) \<le> \<bar>c\<bar>" "\<bar>c\<bar> < 10 ^ n" by (simp_all add: nat_less_iff le_nat_iff)
  have "of_int (10 ^ (n - 1)) \<le> (of_int \<bar>c\<bar> :: rat)" using i(1) by (simp only: of_int_le_iff)
  moreover have "(10::rat) powi (int n - 1) = of_int (10 ^ (n - 1))"
    using b(3) by (simp add: power_int_def nat_diff_distrib)
  ultimately show "(10::rat) powi (int (ndigits (nat \<bar>c\<bar>)) - 1) \<le> of_int \<bar>c\<bar>"
    by (simp add: n_def)
  have "(of_int \<bar>c\<bar> :: rat) < of_int (10 ^ n)" using i(2) by (simp only: of_int_less_iff)
  then show "of_int \<bar>c\<bar> < (10::rat) powi (int (ndigits (nat \<bar>c\<bar>)))"
    by (simp add: n_def)
qed

lemma quotient_shift:
  assumes eq: "(of_int \<bar>a\<bar> :: rat) = of_int \<bar>b\<bar> * of_int \<bar>q\<bar> * 10 powi y"
    and nz: "a \<noteq> 0" "b \<noteq> 0" "q \<noteq> 0" and q: "\<bar>q\<bar> < 10 ^ prec"
  shows "0 \<le> y + (int (ndigits (nat \<bar>b\<bar>)) - int (ndigits (nat \<bar>a\<bar>)) + int prec + 1)"
proof (rule ccontr)
  define la lb where "la = int (ndigits (nat \<bar>a\<bar>))" and "lb = int (ndigits (nat \<bar>b\<bar>))"
  assume "\<not> ?thesis"
  then have y: "lb + int prec + y \<le> la - 1" by (simp add: la_def lb_def)
  have pos: "0 < (10::rat) powi y" by simp
  have q': "of_int \<bar>q\<bar> < (10::rat) powi (int prec)"
    using q of_int_less_iff[of "\<bar>q\<bar>" "10 ^ prec", where ?'a = rat] by simp
  have "of_int \<bar>b\<bar> * of_int \<bar>q\<bar> < (10::rat) powi lb * 10 powi (int prec)"
    using ndigits_rat(2)[OF nz(2)] q' nz by (intro mult_strict_mono) (auto simp: lb_def)
  then have "of_int \<bar>a\<bar> < (10::rat) powi lb * 10 powi (int prec) * 10 powi y"
    unfolding eq by (intro mult_strict_right_mono pos)
  also have "\<dots> = 10 powi (lb + int prec + y)" by (simp add: power_int_add)
  also have "\<dots> \<le> 10 powi (la - 1)" using y by (intro power_int_increasing) auto
  also have "\<dots> \<le> of_int \<bar>a\<bar>" using ndigits_rat(1)[OF nz(1)] by (simp add: la_def)
  finally show False by simp
qed

lemma dec_div_exact:
  assumes p: "0 < prec" and b: "coeff b \<noteq> 0" and q: "\<bar>q\<bar> < 10 ^ prec"
    and eq: "dec_val a = dec_val b * (of_int q * 10 powi x)"
  shows "\<exists>d. dec_div prec a b = Inr d \<and> dec_val d = of_int q * 10 powi x"
proof (cases "coeff a = 0")
  case True
  then have "dec_val a = 0" by (simp add: dec_val_def)
  with eq b have "q = 0" by (auto simp: dec_val_def)
  with True b show ?thesis by (simp add: dec_div_def dec_val_def)
next
  case a: False
  define y where "y = x + expo b - expo a"
  have "(of_int (coeff a) :: rat) * 10 powi expo a =
      of_int (coeff b) * of_int q * (10 powi (expo b + x))"
    using eq by (simp add: dec_val_def power_int_add ac_simps)
  also have "10 powi (expo b + x) = (10::rat) powi expo a * 10 powi y"
    by (simp add: y_def add.commute flip: power_int_add)
  finally have ab: "(of_int (coeff a) :: rat) = of_int (coeff b) * of_int q * 10 powi y" by simp
  then have "q \<noteq> 0" using a by auto
  have abs: "(of_int \<bar>coeff a\<bar> :: rat) = of_int \<bar>coeff b\<bar> * of_int \<bar>q\<bar> * 10 powi y"
    using arg_cong[OF ab, of abs] by (simp add: abs_mult)
  define shift where "shift = int (ndigits (nat \<bar>coeff b\<bar>)) - int (ndigits (nat \<bar>coeff a\<bar>)) + int prec + 1"
  have sh: "0 \<le> y + shift" using quotient_shift[OF abs a b \<open>q \<noteq> 0\<close> q] by (simp add: shift_def)
  define num where "num = (if shift \<ge> 0 then \<bar>coeff a\<bar> * 10 ^ nat shift else \<bar>coeff a\<bar>)"
  define den where "den = (if shift \<ge> 0 then \<bar>coeff b\<bar> else \<bar>coeff b\<bar> * 10 ^ nat (- shift))"
  define m where "m = \<bar>q\<bar> * 10 ^ nat (y + shift)"
  have pw: "(10::rat) powi (y + shift) = 10 powi y * 10 powi shift" by (simp add: power_int_add)
  have m: "(of_int m :: rat) = of_int \<bar>q\<bar> * (10 powi y * 10 powi shift)"
    using sh unfolding m_def pw[symmetric] by (simp add: power_int_def)
  have "(of_int num :: rat) = of_int den * of_int m"
  proof (cases "shift \<ge> 0")
    case True
    then have "(10::rat) powi shift = 10 ^ nat shift" by (simp add: power_int_def)
    then show ?thesis using True abs unfolding m by (simp add: num_def den_def ac_simps)
  next
    case False
    then have "(10::rat) powi shift * 10 ^ nat (- shift) = 1"
      by (simp add: power_int_def power_inverse[symmetric] field_simps)
    then show ?thesis using False abs unfolding m by (simp add: num_def den_def ac_simps)
  qed
  then have nd: "num = den * m" by (simp only: of_int_eq_iff flip: of_int_mult)
  have den: "den \<noteq> 0" using b by (simp add: den_def)
  define s where "s = sgn (coeff a) * sgn (coeff b)"
  have "sgn (of_int (coeff a) :: rat) = sgn (of_int (coeff b)) * sgn (of_int q)"
    unfolding ab by (simp add: sgn_mult)
  then have "(of_int (sgn (coeff a)) :: rat) = of_int (sgn (coeff b) * sgn q)"
    by (simp add: sgn_if split: if_splits)
  then have "sgn (coeff a) = sgn (coeff b) * sgn q" by (simp only: of_int_eq_iff)
  moreover have "sgn (coeff b) * sgn (coeff b) = 1" using b by (cases "coeff b > 0") auto
  ultimately have s: "s = sgn q" by (simp add: s_def)
  define d where "d = dec_strip m (expo a - expo b - shift) (expo a - expo b)"
  have dv: "dec_div prec a b = Inr (dec_fix prec (Dec (s * coeff d) (expo d)))"
    using a b den nd
    unfolding dec_div_def Let_def shift_def[symmetric] num_def[symmetric] den_def[symmetric]
      s_def[symmetric] d_def by simp
  have "dec_val (Dec (s * coeff d) (expo d)) = of_int s * dec_val d" by (simp add: dec_val_def)
  also have "dec_val d = of_int m * 10 powi (expo a - expo b - shift)"
    unfolding d_def by (rule dec_strip_val)
  also have "\<dots> = of_int \<bar>q\<bar> * 10 powi (y + shift + (expo a - expo b - shift))"
    unfolding m pw[symmetric] by (simp add: power_int_add[symmetric] mult.assoc)
  also have "y + shift + (expo a - expo b - shift) = x" by (simp add: y_def)
  finally have v: "dec_val (Dec (s * coeff d) (expo d)) = of_int s * (of_int \<bar>q\<bar> * 10 powi x)" .
  have "(of_int s * of_int \<bar>q\<bar> :: rat) = of_int q" by (simp add: s sgn_if)
  then have v: "dec_val (Dec (s * coeff d) (expo d)) = of_int q * 10 powi x"
    unfolding v by (simp only: flip: mult.assoc)
  have "dec_val (dec_fix prec (Dec (s * coeff d) (expo d))) = of_int q * 10 powi x"
    using dec_fix_exact[OF p] representableI[OF v q] v by simp
  then show ?thesis using dv by blast
qed

lemma dec_int_floor:
  assumes "0 \<le> dec_val d"
  shows "dec_int d = \<lfloor>dec_val d\<rfloor>"
proof -
  have c: "0 \<le> coeff d"
  proof (rule ccontr)
    assume "\<not> 0 \<le> coeff d"
    then have "dec_val d < 0" unfolding dec_val_def by (intro mult_neg_pos) simp_all
    with assms show False by simp
  qed
  show ?thesis
  proof (cases "expo d \<ge> 0")
    case True
    then have "dec_val d = of_int (coeff d * 10 ^ nat (expo d))"
      by (simp add: dec_val_def power_int_def)
    then show ?thesis using True by (simp only: floor_of_int dec_int_def if_True)
  next
    case False
    then have "dec_val d = of_int (coeff d) / of_int (10 ^ nat (- expo d))"
      by (simp add: dec_val_def power_int_def field_simps power_inverse)
    then have "\<lfloor>dec_val d\<rfloor> = coeff d div 10 ^ nat (- expo d)"
      by (simp only: floor_divide_of_int_eq)
    then show ?thesis using False c by (cases "coeff d = 0") (simp_all add: dec_int_def)
  qed
qed

lemma dec_int_val: "dec_val d = of_int n \<Longrightarrow> 0 \<le> n \<Longrightarrow> dec_int d = n"
  using dec_int_floor[of d] by simp

end
