(* ===== verification/Py_Show.thy ===== *)
theory Py_Show
  imports Decimal
begin

text \<open>
  Python's \<open>str\<close> of the integers and finite decimals that the program puts into keys, messages
  and API answers. Equal strings mean equal integers.
\<close>

definition digit_char :: "nat \<Rightarrow> char" where
  "digit_char n = char_of (48 + n)"

fun show_nat :: "nat \<Rightarrow> string" where
  "show_nat n = (if n < 10 then [digit_char n] else show_nat (n div 10) @ [digit_char (n mod 10)])"

declare show_nat.simps [simp del]

definition show_int :: "int \<Rightarrow> string" where
  "show_int n = (if n < 0 then CHR ''-'' # show_nat (nat (- n)) else show_nat (nat n))"

text \<open>\<open>Decimal.__str__\<close>: plain notation unless the exponent is positive or far below zero.\<close>

definition dec_str :: "decimal \<Rightarrow> string" where
  "dec_str d =
     (let digits = show_nat (nat \<bar>coeff d\<bar>);
          leftdigits = expo d + int (length digits);
          dotplace = (if expo d \<le> 0 \<and> leftdigits > -6 then leftdigits else 1);
          intpart = (if dotplace \<le> 0 then ''0''
                     else if dotplace \<ge> int (length digits)
                     then digits @ replicate (nat (dotplace - int (length digits))) (CHR ''0'')
                     else take (nat dotplace) digits);
          fracpart = (if dotplace \<le> 0 then ''.'' @ replicate (nat (- dotplace)) (CHR ''0'') @ digits
                      else if dotplace \<ge> int (length digits) then ''''
                      else ''.'' @ drop (nat dotplace) digits);
          exponent = (if leftdigits = dotplace then ''''
                      else ''E'' @ (if leftdigits - dotplace < 0 then '''' else ''+'') @
                           show_int (leftdigits - dotplace))
      in (if coeff d < 0 then ''-'' else '''') @ intpart @ fracpart @ exponent)"

text \<open>Reading digits back.\<close>

definition digit_value :: "char \<Rightarrow> nat" where
  "digit_value c = of_char c - 48"

definition read_nat :: "string \<Rightarrow> nat" where
  "read_nat s = foldl (\<lambda>n c. 10 * n + digit_value c) 0 s"

lemma digit_value [simp]: "n < 10 \<Longrightarrow> digit_value (digit_char n) = n"
  by (simp add: digit_value_def digit_char_def)

lemma read_show_nat [simp]: "read_nat (show_nat n) = n"
proof (induction n rule: show_nat.induct)
  case (1 n)
  then show ?case by (subst show_nat.simps) (simp add: read_nat_def)
qed

lemma show_nat_inj [simp]: "show_nat m = show_nat n \<longleftrightarrow> m = n"
  using read_show_nat by metis

lemma show_nat_not_minus: "show_nat n \<noteq> CHR ''-'' # s"
proof (induction n arbitrary: s rule: show_nat.induct)
  case (1 n)
  have d: "digit_char k \<noteq> CHR ''-''" if "k < 10" for k
  proof
    assume "digit_char k = CHR ''-''"
    then have "(of_char (digit_char k) :: nat) = of_char (CHR ''-'')" by simp
    then show False using that by (simp add: digit_char_def)
  qed
  show ?case
  proof (cases "n < 10")
    case False
    then have "show_nat n = show_nat (n div 10) @ [digit_char (n mod 10)]" by (subst show_nat.simps) simp
    moreover have "show_nat (n div 10) \<noteq> []" by (subst show_nat.simps) simp
    ultimately show ?thesis using 1 False by (cases "show_nat (n div 10)") auto
  qed (use d in \<open>subst show_nat.simps, simp\<close>)
qed

lemma show_int_inj [simp]: "show_int m = show_int n \<longleftrightarrow> m = n"
  using show_nat_not_minus show_nat_not_minus[symmetric] by (auto simp: show_int_def)

text \<open>\<open>s.split(sep)\<close> for a separator of one character.\<close>

fun split_on :: "char \<Rightarrow> string \<Rightarrow> string list" where
  "split_on sep [] = [[]]"
| "split_on sep (c # s) =
     (if c = sep then [] # split_on sep s
      else case split_on sep s of part # parts \<Rightarrow> (c # part) # parts | [] \<Rightarrow> [[c]])"

end
