(* ===== verification/Tables.thy ===== *)
theory Tables
  imports Prelude
begin

text \<open>
  Database tables: a table is the list of its rows in order of insertion. Queries, relationships,
  inserting a row with its unique constraint and writing back attributes, as the components use
  them; and what it takes for the rows to keep their primary keys and unique constraints, stated once
  for any database.
\<close>

section \<open>Queries\<close>

text \<open>
  \<open>query(\<dots>).filter_by(\<dots>)\<close>, and the relationships, which load a row by its primary key (an
  attribute access on a missing row is an \<open>AttributeError\<close>).
\<close>

definition rows_where :: "('db \<Rightarrow> 'r list) \<Rightarrow> ('r \<Rightarrow> bool) \<Rightarrow> (('db, 'eff) world, 'r list) prog" where
  "rows_where rows_of p = db_get (\<lambda>db. filter p (rows_of db))"

definition related :: "('db \<Rightarrow> 'r list) \<Rightarrow> ('r \<Rightarrow> bool) \<Rightarrow> (('db, 'eff) world, 'r) prog" where
  "related rows_of p = bnd (rows_where rows_of p) (\<lambda>rows.
     case rows of [] \<Rightarrow> throw AttributeError | r # _ \<Rightarrow> ok r)"

definition query_one :: "('db \<Rightarrow> 'r list) \<Rightarrow> ('r \<Rightarrow> bool) \<Rightarrow> (('db, 'eff) world, 'r) prog" where
  "query_one rows_of p = bnd (rows_where rows_of p) (\<lambda>rows. lift_res (exactly_one rows))"

definition query_one_or_none :: "('db \<Rightarrow> 'r list) \<Rightarrow> ('r \<Rightarrow> bool) \<Rightarrow> (('db, 'eff) world, 'r option) prog" where
  "query_one_or_none rows_of p = bnd (rows_where rows_of p) (\<lambda>rows. lift_res (one_or_none rows))"

definition query_first :: "('db \<Rightarrow> 'r list) \<Rightarrow> ('r \<Rightarrow> bool) \<Rightarrow> (('db, 'eff) world, 'r option) prog" where
  "query_first rows_of p = bnd (rows_where rows_of p) (\<lambda>rows. ok (first_row rows))"

section \<open>Inserting and updating rows\<close>

definition insert_row ::
  "('db \<Rightarrow> 'r list) \<Rightarrow> (('r list \<Rightarrow> 'r list) \<Rightarrow> 'db \<Rightarrow> 'db) \<Rightarrow> ('r \<Rightarrow> 'k) \<Rightarrow> 'r \<Rightarrow>
   (('db, 'eff) world, 'r) prog" where
  "insert_row rows_of update_rows key row =
     bnd (db_get rows_of) (\<lambda>rows.
     sq (demand (key row \<notin> key ` set rows) IntegrityError)
    (sq (db_put (update_rows (\<lambda>rs. rs @ [row]))) (ok row)))"

text \<open>Writing back the attributes of a loaded row, at a flush.\<close>

definition update_where :: "('r \<Rightarrow> bool) \<Rightarrow> ('r \<Rightarrow> 'r) \<Rightarrow> 'r list \<Rightarrow> 'r list" where
  "update_where p f rows = map (\<lambda>r. if p r then f r else r) rows"

section \<open>Their execution\<close>

lemma run_rows_where [prog_simps]: "rows_where rows_of p w = (Inr (filter p (rows_of (w_db w))), w)"
  by (simp add: rows_where_def)

lemma run_query_one [prog_simps]:
  "query_one rows_of p w = (exactly_one (filter p (rows_of (w_db w))), w)"
  by (simp add: query_one_def run_bnd run_rows_where)

lemma run_query_one_or_none [prog_simps]:
  "query_one_or_none rows_of p w = (one_or_none (filter p (rows_of (w_db w))), w)"
  by (simp add: query_one_or_none_def run_bnd run_rows_where)

lemma run_query_first [prog_simps]:
  "query_first rows_of p w = (Inr (first_row (filter p (rows_of (w_db w)))), w)"
  by (simp add: query_first_def run_bnd run_rows_where)

lemma run_related [prog_simps]:
  "related rows_of p w =
     (case filter p (rows_of (w_db w)) of [] \<Rightarrow> (Inl AttributeError, w) | r # _ \<Rightarrow> (Inr r, w))"
  by (simp add: related_def run_bnd run_rows_where split: list.splits)

lemma related_pure: "snd (related rows_of p w) = w"
  by (simp add: run_related split: list.splits)

lemma related_eq_Inr:
  "related rows_of p w = (Inr r, w') \<longleftrightarrow> w' = w \<and> first_row (filter p (rows_of (w_db w))) = Some r"
  by (auto simp: run_related split: list.splits)

lemma keeps_queries [simp, keeps_intros]:
  "keeps I (rows_where f p)" "keeps I (query_one f p)" "keeps I (query_one_or_none f p)"
  "keeps I (query_first f p)" "keeps I (related f p)"
  by (auto simp: keeps_def run_rows_where run_query_one run_query_one_or_none run_query_first related_pure)

lemma run_insert_row [prog_simps]:
  "insert_row rows_of upd key row w =
     (if key row \<in> key ` set (rows_of (w_db w)) then (Inl IntegrityError, w)
      else (Inr row, w\<lparr>w_db := upd (\<lambda>rs. rs @ [row]) (w_db w)\<rparr>))"
  by (simp add: insert_row_def prog_simps)

lemma update_where_map: "(\<And>r. g (f r) = g r) \<Longrightarrow> map g (update_where p f rows) = map g rows"
  by (simp add: update_where_def)

lemma set_update_where: "r \<in> set (update_where p f rows) \<longleftrightarrow> (\<exists>x \<in> set rows. r = (if p x then f x else x))"
  by (auto simp: update_where_def)

section \<open>Keys and constraints are kept\<close>

definition table_ok :: "('r \<Rightarrow> int) \<Rightarrow> ('r \<Rightarrow> 'k) \<Rightarrow> int \<Rightarrow> 'r list \<Rightarrow> bool" where
  "table_ok ident key n rows \<longleftrightarrow>
     distinct (map ident rows) \<and> distinct (map key rows) \<and> (\<forall>r \<in> set rows. ident r < n)"

lemma table_ok_mono: "table_ok i k n rows \<Longrightarrow> n \<le> m \<Longrightarrow> table_ok i k m rows"
  by (auto simp: table_ok_def)

lemma table_ok_insert:
  "table_ok i k n rows \<Longrightarrow> i r = n \<Longrightarrow> k r \<notin> k ` set rows \<Longrightarrow> table_ok i k (n + 1) (rows @ [r])"
  by (fastforce simp: table_ok_def)

lemma table_ok_update:
  assumes "table_ok i k n rows" "\<And>r. i (f r) = i r" "\<And>r. k (f r) = k r"
  shows "table_ok i k n (update_where p f rows)"
  using assms(1) unfolding table_ok_def
  by (auto simp: update_where_map[of i f, OF assms(2)] update_where_map[of k f, OF assms(3)]
      set_update_where assms(2))

text \<open>
  The interface of a database's constraints: they do not mind sequences that have grown, because a roll
  back does not return numbers to a sequence. The form that survives a roll back speaks of the
  sequences as they were at the start.
\<close>

locale table_laws =
  fixes tables_ok :: "('db, 'eff) world \<Rightarrow> bool"
  assumes tables_ok_seqs: "tables_ok w \<Longrightarrow> (\<And>t. w_seqs w t \<le> w_seqs v t) \<Longrightarrow> w_db v = w_db w \<Longrightarrow> tables_ok v"
begin

definition tables_since :: "(string \<Rightarrow> int) \<Rightarrow> ('db, 'eff) world \<Rightarrow> bool" where
  "tables_since n w \<longleftrightarrow> tables_ok w \<and> (\<forall>t. n t \<le> w_seqs w t)"

definition keeps_tables :: "(('db, 'eff) world, 'a) prog \<Rightarrow> bool" where
  "keeps_tables m \<longleftrightarrow> (\<forall>n. keeps (tables_since n) m)"

lemma keeps_tablesI: "(\<And>n. keeps (tables_since n) m) \<Longrightarrow> keeps_tables m"
  by (simp add: keeps_tables_def)

lemma keeps_tablesD: "keeps_tables m \<Longrightarrow> keeps (tables_since n) m"
  by (simp add: keeps_tables_def)

lemma keeps_tables_ok: "keeps_tables m \<Longrightarrow> tables_ok w \<Longrightarrow> tables_ok (snd (m w))"
  using keepsD[of "tables_since (w_seqs w)" m w]
  by (auto simp: keeps_tables_def tables_since_def)

lemma keeps_tables_in_tx: "keeps_tables m \<Longrightarrow> keeps_tables (in_tx m)"
proof (rule keeps_tablesI, rule keepsI)
  fix n w assume m: "keeps_tables m" and w: "tables_since n w"
  obtain r v where run: "m w = (r, v)" by (cases "m w")
  have "tables_since (w_seqs w) w" using w by (simp add: tables_since_def)
  then have "tables_since (w_seqs w) v" by (rule keepsD'[OF keeps_tablesD[OF m] _ run])
  then have v: "tables_ok v" "\<And>t. w_seqs w t \<le> w_seqs v t"
    unfolding tables_since_def by blast+
  have nv: "n t \<le> w_seqs v t" for t
    using w order_trans[OF _ v(2)[of t], of "n t"] unfolding tables_since_def by blast
  have old: "tables_ok (v\<lparr>w_db := w_db w\<rparr>)"
  proof (rule tables_ok_seqs)
    show "tables_ok w" using w unfolding tables_since_def by blast
  qed (simp_all add: v(2))
  show "tables_since n (snd (in_tx m w))"
  proof (cases r)
    case (Inl e)
    then show ?thesis unfolding tables_since_def using run old nv by (simp add: in_tx_def)
  next
    case (Inr x)
    then show ?thesis unfolding tables_since_def using run v(1) nv by (simp add: in_tx_def)
  qed
qed

text \<open>The combinators, in the same form.\<close>

lemma keeps_tables_bnd: "keeps_tables m \<Longrightarrow> (\<And>x. keeps_tables (f x)) \<Longrightarrow> keeps_tables (bnd m f)"
  by (simp add: keeps_tables_def keeps_bnd)

lemma keeps_tables_sq: "keeps_tables m \<Longrightarrow> keeps_tables p \<Longrightarrow> keeps_tables (sq m p)"
  by (simp add: keeps_tables_def keeps_sq)

lemma keeps_tables_catch: "keeps_tables m \<Longrightarrow> (\<And>e. keeps_tables (h e)) \<Longrightarrow> keeps_tables (catch m h)"
  by (simp add: keeps_tables_def keeps_catch)

lemma keeps_tables_for_each: "(\<And>x. x \<in> set xs \<Longrightarrow> keeps_tables (f x)) \<Longrightarrow> keeps_tables (for_each xs f)"
  by (simp add: keeps_tables_def keeps_for_each)

lemma keeps_tables_fold_prog: "(\<And>x b. keeps_tables (f x b)) \<Longrightarrow> keeps_tables (fold_prog f xs b)"
  by (simp add: keeps_tables_def keeps_fold_prog)

lemma keeps_tables_collect: "(\<And>x. x \<in> set xs \<Longrightarrow> keeps_tables (f x)) \<Longrightarrow> keeps_tables (collect xs f)"
  by (simp add: keeps_tables_def keeps_collect)

lemma keeps_tables_base:
  "keeps_tables (ok x)" "keeps_tables (throw e)" "keeps_tables (lift_res r)" "keeps_tables (reads f)"
  "keeps_tables (db_get g)" "keeps_tables (demand b e)" "keeps_tables (asserting b)"
  "keeps_tables (rows_where rows p)" "keeps_tables (query_one rows p)"
  "keeps_tables (query_one_or_none rows p)" "keeps_tables (query_first rows p)"
  "keeps_tables (related rows p)"
  by (simp_all add: keeps_tables_def)

lemma keeps_tables_cases:
  "(b \<Longrightarrow> keeps_tables m) \<Longrightarrow> (\<not> b \<Longrightarrow> keeps_tables p) \<Longrightarrow> keeps_tables (if b then m else p)"
  "(x = None \<Longrightarrow> keeps_tables m) \<Longrightarrow> (\<And>y. x = Some y \<Longrightarrow> keeps_tables (f y)) \<Longrightarrow>
     keeps_tables (case x of None \<Rightarrow> m | Some y \<Rightarrow> f y)"
  "(\<And>e. r = Inl e \<Longrightarrow> keeps_tables (g e)) \<Longrightarrow> (\<And>y. r = Inr y \<Longrightarrow> keeps_tables (f' y)) \<Longrightarrow>
     keeps_tables (case r of Inl e \<Rightarrow> g e | Inr y \<Rightarrow> f' y)"
  "(\<And>a c. z = (a, c) \<Longrightarrow> keeps_tables (k a c)) \<Longrightarrow> keeps_tables (case z of (a, c) \<Rightarrow> k a c)"
  "(\<And>y. y = v \<Longrightarrow> keeps_tables (l y)) \<Longrightarrow> keeps_tables (let y = v in l y)"
  by (auto split: option.splits sum.splits prod.splits)

lemmas keeps_tables_rules = keeps_tables_base keeps_tables_in_tx keeps_tables_bnd keeps_tables_sq keeps_tables_catch
  keeps_tables_for_each keeps_tables_fold_prog keeps_tables_collect keeps_tables_cases

end

end
