(* ===== verification/Rune_Models.thy ===== *)
theory Rune_Models
  imports Key_Value_Store Ord_Types Py_Show Tables
begin

text \<open>
  The database of the Rune bridge: the tables of
  \<^verbatim>\<open>bridge_node/bridge/bridges/runes/models.py\<close>, the column types of
  \<^verbatim>\<open>bridge_node/bridge/common/models/types.py\<close> and the messages of
  \<^verbatim>\<open>bridge_node/bridge/bridges/runes/messages.py\<close>. A table is the list of its rows in order of
  insertion; \<open>created_at\<close> columns are left out. Inserting a row takes its primary key from the
  table's sequence and checks the unique constraints; the last section shows that every
  operation keeps keys and constraints.
\<close>

section \<open>Column types\<close>

text \<open>What is bound to a \<open>Uint\<close> column: an integer or a \<open>Decimal\<close>.\<close>

datatype py_number = PyInt int | PyDecimal decimal

definition uint_max :: "nat \<Rightarrow> int" where
  "uint_max bits = 2 ^ bits - 1"

text \<open>The range error is raised as a string, which is itself a \<open>TypeError\<close>.\<close>

definition coerce_and_validate_uint :: "nat \<Rightarrow> int \<Rightarrow> exn + int" where
  "coerce_and_validate_uint bits value =
     (if value < 0 \<or> value > uint_max bits then Inl TypeError else Inr value)"

definition uint_process_bind_param :: "nat \<Rightarrow> py_number \<Rightarrow> exn + int" where
  "uint_process_bind_param bits value =
     (case value of
        PyDecimal d \<Rightarrow> coerce_and_validate_uint bits (dec_int d)
      | PyInt n \<Rightarrow> Inr n)"

definition uint_process_result_value :: "nat \<Rightarrow> decimal option \<Rightarrow> exn + int option" where
  "uint_process_result_value bits value =
     (case value of
        None \<Rightarrow> Inr None
      | Some d \<Rightarrow> rbind (coerce_and_validate_uint bits (dec_int d)) (\<lambda>n. Inr (Some n)))"

text \<open>The functions of \<open>eth_utils\<close> that the address columns and the services use.\<close>

record eth_utils =
  eu_is_canonical_address :: "nat list \<Rightarrow> bool"
  eu_is_checksum_address :: "string \<Rightarrow> bool"
  eu_to_canonical_address :: "string \<Rightarrow> exn + nat list"
  eu_to_checksum_address :: "string \<Rightarrow> exn + string"
  eu_checksum_of_canonical :: "nat list \<Rightarrow> string"

datatype py_address = AddrNone | AddrBytes "nat list" | AddrStr string | AddrOther

definition evm_address_bind :: "eth_utils \<Rightarrow> py_address \<Rightarrow> exn + nat list option" where
  "evm_address_bind eu value =
     (case value of
        AddrNone \<Rightarrow> Inr None
      | AddrBytes b \<Rightarrow> if \<not> eu_is_canonical_address eu b then Inl ValueError else Inr (Some b)
      | AddrStr s \<Rightarrow> if \<not> eu_is_checksum_address eu s then Inl ValueError
                    else rbind (eu_to_canonical_address eu s) (\<lambda>b. Inr (Some b))
      | AddrOther \<Rightarrow> Inl TypeError)"

definition evm_address_result :: "eth_utils \<Rightarrow> nat list option \<Rightarrow> string option" where
  "evm_address_result eu value = map_option (eu_checksum_of_canonical eu) value"

section \<open>Statuses\<close>

datatype incoming_btc_tx_status = TX_DETECTED | TX_ACCEPTED

fun btc_tx_code :: "incoming_btc_tx_status \<Rightarrow> int" where
  "btc_tx_code TX_DETECTED = 1"
| "btc_tx_code TX_ACCEPTED = 2"

datatype rune_deposit_status =
    RD_DETECTED | RD_ACCEPTED | SENDING_TO_EVM | SENT_TO_EVM | CONFIRMED_IN_EVM
  | RD_REJECTED | SENDING_TO_EVM_FAILED | EVM_TRANSACTION_FAILED

fun rd_code :: "rune_deposit_status \<Rightarrow> int" where
  "rd_code RD_DETECTED = 10"
| "rd_code RD_ACCEPTED = 20"
| "rd_code SENDING_TO_EVM = 30"
| "rd_code SENT_TO_EVM = 40"
| "rd_code CONFIRMED_IN_EVM = 50"
| "rd_code RD_REJECTED = -1"
| "rd_code SENDING_TO_EVM_FAILED = -2"
| "rd_code EVM_TRANSACTION_FAILED = -3"

datatype rune_token_deposit_status =
    RT_DETECTED | RT_ACCEPTED | SENDING_TO_BTC | SENT_TO_BTC | MINED_IN_BTC
  | RT_REJECTED | SENDING_TO_BTC_FAILED

fun rt_code :: "rune_token_deposit_status \<Rightarrow> int" where
  "rt_code RT_DETECTED = 10"
| "rt_code RT_ACCEPTED = 20"
| "rt_code SENDING_TO_BTC = 30"
| "rt_code SENT_TO_BTC = 40"
| "rt_code MINED_IN_BTC = 50"
| "rt_code RT_REJECTED = -1"
| "rt_code SENDING_TO_BTC_FAILED = -2"

lemma rd_code_eq [simp]: "rd_code a = rd_code b \<longleftrightarrow> a = b"
  by (cases a; cases b) simp_all

lemma rt_code_eq [simp]: "rt_code a = rt_code b \<longleftrightarrow> a = b"
  by (cases a; cases b) simp_all

lemma btc_tx_code_eq [simp]: "btc_tx_code a = btc_tx_code b \<longleftrightarrow> a = b"
  by (cases a; cases b) simp_all

section \<open>Rows\<close>

record bridge =
  br_id :: int
  br_name :: string

record user =
  us_id :: int
  us_bridge_id :: int
  us_evm_address :: string

record deposit_address =
  da_user_id :: int
  da_btc_address :: string

record incoming_btc_tx =
  it_id :: int
  it_bridge_id :: int
  it_tx_id :: string
  it_vout :: int
  it_block_number :: "int option"
  it_time :: int
  it_address :: string
  it_amount_sat :: int
  it_user_id :: "int option"
  it_status :: int

record rune =
  ru_id :: int
  ru_bridge_id :: int
  ru_n :: int
  ru_name :: pystr
  ru_spaced_name :: pystr
  ru_symbol :: pystr
  ru_divisibility :: nat
  ru_turbo :: bool

record rune_deposit =
  rd_id :: int
  rd_bridge_id :: int
  rd_tx_id :: string
  rd_vout :: int
  rd_block_number :: int
  rd_rune_number :: int
  rd_rune_id :: int
  rd_user_id :: int
  rd_incoming_btc_tx_id :: int
  rd_postage :: int
  rd_transfer_amount_raw :: int
  rd_net_amount_raw :: int
  rd_evm_tx_hash :: "string option"
  rd_accept_transfer_message_hash :: "string option"
  rd_accept_transfer_signatures :: "string list"
  rd_accept_transfer_signers :: "string list"
  rd_status :: int

record rune_token_deposit =
  rt_id :: int
  rt_bridge_id :: int
  rt_evm_block_number :: int
  rt_evm_tx_hash :: string
  rt_evm_log_index :: int
  rt_receiver_btc_address :: string
  rt_transferred_token_amount :: int
  rt_net_rune_amount_raw :: int
  rt_token_address :: string
  rt_rune_id :: int
  rt_btc_tx_id :: "string option"
  rt_finalized_psbt :: "string option"
  rt_status :: int

definition decimal_amount :: "rune \<Rightarrow> int \<Rightarrow> exn + decimal" where
  "decimal_amount r amount = dec_div PRECISION (dec_of_int amount) (dec_of_int (10 ^ ru_divisibility r))"

definition deposit_fee_raw :: "rune_deposit \<Rightarrow> int" where
  "deposit_fee_raw d = rd_transfer_amount_raw d - rd_net_amount_raw d"

definition rune_deposit_status_repr :: "rune_deposit \<Rightarrow> string" where
  "rune_deposit_status_repr d =
     (if rd_status d = 10 then ''DETECTED''
      else if rd_status d = 20 then ''ACCEPTED''
      else if rd_status d = 30 then ''SENDING_TO_EVM''
      else if rd_status d = 40 then ''SENT_TO_EVM''
      else if rd_status d = 50 then ''CONFIRMED_IN_EVM''
      else if rd_status d = -1 then ''REJECTED''
      else if rd_status d = -2 then ''SENDING_TO_EVM_FAILED''
      else if rd_status d = -3 then ''EVM_TRANSACTION_FAILED''
      else ''Unknown: '' @ show_int (rd_status d))"

definition get_status_for_ui :: "rune_deposit \<Rightarrow> string" where
  "get_status_for_ui d =
     (if rd_status d = rd_code RD_DETECTED then ''detected''
      else if rd_status d = rd_code RD_ACCEPTED then ''seen''
      else if rd_status d = rd_code SENDING_TO_EVM then ''seen''
      else if rd_status d = rd_code SENT_TO_EVM then ''sent_to_evm''
      else if rd_status d = rd_code CONFIRMED_IN_EVM then ''confirmed''
      else ''Processing'')"

definition rune_token_deposit_status_repr :: "rune_token_deposit \<Rightarrow> string" where
  "rune_token_deposit_status_repr d =
     (if rt_status d = 10 then ''DETECTED''
      else if rt_status d = 20 then ''ACCEPTED''
      else if rt_status d = 30 then ''SENDING_TO_BTC''
      else if rt_status d = 40 then ''SENT_TO_BTC''
      else if rt_status d = 50 then ''MINED_IN_BTC''
      else if rt_status d = -1 then ''REJECTED''
      else if rt_status d = -2 then ''SENDING_TO_BTC_FAILED''
      else ''Unknown: '' @ show_int (rt_status d))"

section \<open>Messages between the nodes\<close>

record rune_to_evm_transfer =
  te_evm_address :: string
  te_amount_raw :: int
  te_amount_decimal :: decimal
  te_net_amount_raw :: int
  te_txid :: string
  te_vout :: int
  te_rune_name :: pystr
  te_rune_number :: int

record rune_token_to_btc_transfer =
  tb_receiver_address :: string
  tb_net_rune_amount :: int
  tb_token_address :: string
  tb_rune_name :: pystr
  tb_rune_number :: int
  tb_event_tx_hash :: string
  tb_event_log_index :: int

record sign_rune_to_evm_transfer_answer =
  an_signature :: string
  an_signer :: string
  an_message_hash :: string

record sign_rune_token_to_btc_transfer_question =
  tq_transfer :: rune_token_to_btc_transfer
  tq_unsigned_psbt_serialized :: string
  tq_fee_rate_sats_per_vb :: int

record sign_rune_token_to_btc_transfer_answer =
  ta_signed_psbt_serialized :: string
  ta_signer_xpub :: string

section \<open>The database and the effects of a node\<close>

record rune_db =
  db_kv :: kv_table
  db_bridges :: "bridge list"
  db_users :: "user list"
  db_deposit_addresses :: "deposit_address list"
  db_incoming_btc_txs :: "incoming_btc_tx list"
  db_runes :: "rune list"
  db_rune_deposits :: "rune_deposit list"
  db_rune_token_deposits :: "rune_token_deposit list"

text \<open>The arguments of the contract call \<open>acceptTransferFromBtc\<close> and of its transaction.\<close>

record accept_transfer_call =
  ac_evm_address :: string
  ac_rune_number :: int
  ac_net_rune_amount :: int
  ac_btc_txid :: string
  ac_btc_vout :: int
  ac_signatures :: "string list"
  ac_gas :: int
  ac_nonce :: int

text \<open>
  What leaves the node: a notice of the messenger (its title and whether it is an alert; the
  body text is left out), a transaction given to the EVM node, a raw transaction given to
  the Bitcoin node, a question asked to the other nodes.
\<close>

datatype rune_effect =
    Notice string bool
  | Transact accept_transfer_call
  | SendRawTransaction string
  | AskSignToEvm rune_to_evm_transfer
  | AskSignToBtc sign_rune_token_to_btc_transfer_question

type_synonym rune_world = "(rune_db, rune_effect) world"
type_synonym 'a rune_prog = "(rune_world, 'a) prog"

definition rune_kv_get :: "string \<Rightarrow> jval option \<Rightarrow> jval rune_prog" where
  "rune_kv_get key default_value = kv_get db_kv key default_value"

definition rune_kv_set :: "string \<Rightarrow> jval \<Rightarrow> unit rune_prog" where
  "rune_kv_set key value = kv_set db_kv (\<lambda>t db. db\<lparr>db_kv := t\<rparr>) key value"

section \<open>Inserting and updating rows\<close>

text \<open>The unique constraints of the tables.\<close>

definition bridge_key :: "bridge \<Rightarrow> string" where "bridge_key = br_name"

definition user_key :: "user \<Rightarrow> int \<times> string" where
  "user_key u = (us_bridge_id u, us_evm_address u)"

definition incoming_btc_tx_key :: "incoming_btc_tx \<Rightarrow> int \<times> string \<times> int" where
  "incoming_btc_tx_key t = (it_bridge_id t, it_tx_id t, it_vout t)"

definition rune_key :: "rune \<Rightarrow> int \<times> int" where
  "rune_key r = (ru_bridge_id r, ru_n r)"

definition rune_deposit_key :: "rune_deposit \<Rightarrow> int \<times> string \<times> int \<times> int" where
  "rune_deposit_key d = (rd_bridge_id d, rd_tx_id d, rd_vout d, rd_rune_number d)"

definition rune_token_deposit_key :: "rune_token_deposit \<Rightarrow> string \<times> int" where
  "rune_token_deposit_key d = (rt_evm_tx_hash d, rt_evm_log_index d)"

definition insert_bridge :: "string \<Rightarrow> bridge rune_prog" where
  "insert_bridge name = bnd (next_id ''bridge'') (\<lambda>i.
     insert_row db_bridges db_bridges_update bridge_key \<lparr>br_id = i, br_name = name\<rparr>)"

definition insert_user :: "int \<Rightarrow> string \<Rightarrow> user rune_prog" where
  "insert_user bridge evm_address = bnd (next_id ''user'') (\<lambda>i.
     insert_row db_users db_users_update user_key
       \<lparr>us_id = i, us_bridge_id = bridge, us_evm_address = evm_address\<rparr>)"

text \<open>The primary key of a deposit address is its user; its address is unique as well.\<close>

definition insert_deposit_address :: "int \<Rightarrow> string \<Rightarrow> deposit_address rune_prog" where
  "insert_deposit_address user_id btc_address =
     bnd (db_get db_deposit_addresses) (\<lambda>rows.
     sq (demand (user_id \<notin> da_user_id ` set rows) IntegrityError)
       (insert_row db_deposit_addresses db_deposit_addresses_update da_btc_address
          \<lparr>da_user_id = user_id, da_btc_address = btc_address\<rparr>))"

definition insert_incoming_btc_tx :: "incoming_btc_tx \<Rightarrow> incoming_btc_tx rune_prog" where
  "insert_incoming_btc_tx t = bnd (next_id ''incoming_btc_tx'') (\<lambda>i.
     insert_row db_incoming_btc_txs db_incoming_btc_txs_update incoming_btc_tx_key (t\<lparr>it_id := i\<rparr>))"

definition insert_rune :: "rune \<Rightarrow> rune rune_prog" where
  "insert_rune r = bnd (next_id ''rune'') (\<lambda>i.
     insert_row db_runes db_runes_update rune_key (r\<lparr>ru_id := i\<rparr>))"

definition insert_rune_deposit :: "rune_deposit \<Rightarrow> rune_deposit rune_prog" where
  "insert_rune_deposit d = bnd (next_id ''rune_deposit'') (\<lambda>i.
     insert_row db_rune_deposits db_rune_deposits_update rune_deposit_key (d\<lparr>rd_id := i\<rparr>))"

definition insert_rune_token_deposit :: "rune_token_deposit \<Rightarrow> rune_token_deposit rune_prog" where
  "insert_rune_token_deposit d = bnd (next_id ''rune_token_deposit'') (\<lambda>i.
     insert_row db_rune_token_deposits db_rune_token_deposits_update rune_token_deposit_key (d\<lparr>rt_id := i\<rparr>))"

definition update_incoming_btc_tx :: "int \<Rightarrow> (incoming_btc_tx \<Rightarrow> incoming_btc_tx) \<Rightarrow> unit rune_prog" where
  "update_incoming_btc_tx i f = db_put (db_incoming_btc_txs_update (update_where (\<lambda>t. it_id t = i) f))"

definition update_rune_deposit :: "int \<Rightarrow> (rune_deposit \<Rightarrow> rune_deposit) \<Rightarrow> unit rune_prog" where
  "update_rune_deposit i f = db_put (db_rune_deposits_update (update_where (\<lambda>d. rd_id d = i) f))"

definition update_rune_token_deposit :: "int \<Rightarrow> (rune_token_deposit \<Rightarrow> rune_token_deposit) \<Rightarrow> unit rune_prog" where
  "update_rune_token_deposit i f =
     db_put (db_rune_token_deposits_update (update_where (\<lambda>d. rt_id d = i) f))"

definition deposit_user :: "rune_deposit \<Rightarrow> user rune_prog" where
  "deposit_user d = related db_users (\<lambda>u. us_id u = rd_user_id d)"

definition deposit_rune :: "rune_deposit \<Rightarrow> rune rune_prog" where
  "deposit_rune d = related db_runes (\<lambda>r. ru_id r = rd_rune_id d)"

definition token_deposit_rune :: "rune_token_deposit \<Rightarrow> rune rune_prog" where
  "token_deposit_rune d = related db_runes (\<lambda>r. ru_id r = rt_rune_id d)"

lemma run_rune_kv_get [prog_simps]: "rune_kv_get k d w = (get_value (db_kv (w_db w)) k d, w)"
  by (simp add: rune_kv_get_def run_kv_get)

lemma run_rune_kv_set [prog_simps]:
  "rune_kv_set k v w = (Inr (), w\<lparr>w_db := (w_db w)\<lparr>db_kv := set_value (db_kv (w_db w)) k v\<rparr>\<rparr>)"
  by (simp add: rune_kv_set_def run_kv_set)

lemma keeps_rune_queries [simp, keeps_intros]:
  "keeps I (rune_kv_get k d)" "keeps I (deposit_user dep)" "keeps I (deposit_rune dep)"
  "keeps I (token_deposit_rune tdep)"
  by (auto simp: keeps_def related_pure run_rune_kv_get deposit_user_def deposit_rune_def token_deposit_rune_def)

section \<open>Keys and constraints are kept\<close>

definition rune_tables_ok :: "rune_world \<Rightarrow> bool" where
  "rune_tables_ok w \<longleftrightarrow> (let db = w_db w; n = w_seqs w in
     table_ok br_id bridge_key (n ''bridge'') (db_bridges db) \<and>
     table_ok us_id user_key (n ''user'') (db_users db) \<and>
     distinct (map da_user_id (db_deposit_addresses db)) \<and>
     distinct (map da_btc_address (db_deposit_addresses db)) \<and>
     table_ok it_id incoming_btc_tx_key (n ''incoming_btc_tx'') (db_incoming_btc_txs db) \<and>
     table_ok ru_id rune_key (n ''rune'') (db_runes db) \<and>
     table_ok rd_id rune_deposit_key (n ''rune_deposit'') (db_rune_deposits db) \<and>
     table_ok rt_id rune_token_deposit_key (n ''rune_token_deposit'') (db_rune_token_deposits db))"

lemma rune_tables_ok_seqs:
  assumes "rune_tables_ok w" "\<And>t. w_seqs w t \<le> w_seqs v t" "w_db v = w_db w"
  shows "rune_tables_ok v"
  using assms(1,3) unfolding rune_tables_ok_def Let_def
  by (auto elim!: table_ok_mono simp: assms(2))

interpretation rune: table_laws rune_tables_ok
  by unfold_locales (rule rune_tables_ok_seqs)

abbreviation rune_tables_since :: "(string \<Rightarrow> int) \<Rightarrow> rune_world \<Rightarrow> bool" where
  "rune_tables_since \<equiv> rune.tables_since"

abbreviation keeps_tables :: "'a rune_prog \<Rightarrow> bool" where
  "keeps_tables \<equiv> rune.keeps_tables"

lemmas rune_tables_since_def = rune.tables_since_def
lemmas keeps_tables_def = rune.keeps_tables_def
lemmas keeps_tablesI = rune.keeps_tablesI
lemmas keeps_tables_ok = rune.keeps_tables_ok
lemmas keeps_tables_base = rune.keeps_tables_base
lemmas keeps_tables_in_tx = rune.keeps_tables_in_tx
lemmas keeps_tables_bnd = rune.keeps_tables_bnd
lemmas keeps_tables_cases = rune.keeps_tables_cases

lemma keeps_tables_reads:
  "keeps_tables (rune_kv_get k d)" "keeps_tables (deposit_user dep)" "keeps_tables (deposit_rune dep)"
  "keeps_tables (token_deposit_rune tdep)"
  by (simp_all add: keeps_tables_def)

lemma keeps_tables_emit: "keeps_tables (emit e)"
  by (auto simp: keeps_tables_def keeps_def rune_tables_since_def rune_tables_ok_def)

lemma keeps_tables_kv_set: "keeps_tables (rune_kv_set k v)"
  by (auto simp: keeps_tables_def keeps_def rune_tables_since_def rune_tables_ok_def run_rune_kv_set Let_def)

lemma keeps_tables_inserts:
  "keeps_tables (insert_bridge name)" "keeps_tables (insert_user b a)"
  "keeps_tables (insert_incoming_btc_tx t)" "keeps_tables (insert_rune r)"
  "keeps_tables (insert_rune_deposit d)" "keeps_tables (insert_rune_token_deposit td)"
  by (auto simp: keeps_tables_def keeps_def insert_bridge_def insert_user_def insert_incoming_btc_tx_def
      insert_rune_def insert_rune_deposit_def insert_rune_token_deposit_def run_bnd run_insert_row
      rune_tables_since_def rune_tables_ok_def Let_def table_ok_insert elim!: table_ok_mono
      intro: order_trans)

lemma keeps_tables_insert_deposit_address: "keeps_tables (insert_deposit_address u a)"
  by (auto simp: keeps_tables_def keeps_def insert_deposit_address_def run_bnd run_sq run_demand run_insert_row
      rune_tables_since_def rune_tables_ok_def Let_def)

lemma keeps_tables_updates:
  "(\<And>t. it_id (f t) = it_id t) \<Longrightarrow> (\<And>t. incoming_btc_tx_key (f t) = incoming_btc_tx_key t) \<Longrightarrow>
     keeps_tables (update_incoming_btc_tx i f)"
  "(\<And>d. rd_id (g d) = rd_id d) \<Longrightarrow> (\<And>d. rune_deposit_key (g d) = rune_deposit_key d) \<Longrightarrow>
     keeps_tables (update_rune_deposit i g)"
  "(\<And>d. rt_id (h d) = rt_id d) \<Longrightarrow> (\<And>d. rune_token_deposit_key (h d) = rune_token_deposit_key d) \<Longrightarrow>
     keeps_tables (update_rune_token_deposit i h)"
  by (auto simp: keeps_tables_def keeps_def update_incoming_btc_tx_def update_rune_deposit_def
      update_rune_token_deposit_def rune_tables_since_def rune_tables_ok_def Let_def table_ok_update)

lemmas keeps_tables_intros = rune.keeps_tables_rules keeps_tables_reads keeps_tables_emit keeps_tables_kv_set
  keeps_tables_inserts keeps_tables_insert_deposit_address

end
