(* ===== verification/Rune_Amounts.thy ===== *)
theory Rune_Amounts
  imports Decimal
begin

text \<open>
  The amounts of a Rune-to-EVM transfer, \<open>_calculate_rune_to_evm_transfer_amounts\<close> of
  \<^verbatim>\<open>bridge_node/bridge/bridges/runes/service.py\<close>: what is minted to the user and what the
  bridge keeps as its fee, computed in decimals and truncated to raw units. The theorem shows
  that within the ranges of the protocol (amounts of 128 bits, at most 38 decimals) no rounding
  takes place before the truncation.
\<close>

record transfer_amounts =
  amount_decimal :: decimal
  amount_raw :: int
  fee_decimal :: decimal
  fee_raw :: int
  net_amount_decimal :: decimal
  net_amount_raw :: int

definition calculate_rune_to_evm_transfer_amounts ::
  "decimal \<Rightarrow> int \<Rightarrow> nat \<Rightarrow> exn + transfer_amounts" where
  "calculate_rune_to_evm_transfer_amounts fee_percentage amount divisibility =
     (let divisor = dec_of_int (10 ^ divisibility)
      in rbind (dec_div PRECISION (dec_of_int amount) divisor) (\<lambda>amount_dec.
         rbind (dec_div PRECISION (dec_mul PRECISION amount_dec fee_percentage) (dec_of_int 100)) (\<lambda>fee_dec.
         let net_dec = dec_sub PRECISION amount_dec fee_dec;
             net = dec_int (dec_mul PRECISION net_dec divisor)
         in Inr \<lparr>amount_decimal = amount_dec, amount_raw = amount,
                 fee_decimal = fee_dec, fee_raw = amount - net,
                 net_amount_decimal = net_dec, net_amount_raw = net\<rparr>)))"

lemma pow_128: "(2::int) ^ 128 < 10 ^ 39"
  by simp

text \<open>
  The exact values of every intermediate result, for an amount of 128 bits and a percentage
  of \<open>f / 10 ^ k\<close>.
\<close>

lemma transfer_amounts_exact:
  fixes amount f :: int
  assumes amount: "0 \<le> amount" "amount < 2 ^ 128" and d: "d \<le> 38"
    and f: "0 \<le> f" "f \<le> 10 ^ (k + 2)" and k: "k \<le> 36"
  shows "\<exists>t. calculate_rune_to_evm_transfer_amounts (Dec f (- int k)) amount d = Inr t \<and>
    dec_val (amount_decimal t) = of_int amount * 10 powi (- int d) \<and>
    dec_val (fee_decimal t) = of_int (amount * f) * 10 powi (- int (d + k + 2)) \<and>
    dec_val (net_amount_decimal t) = of_int (amount * (10 ^ (k + 2) - f)) * 10 powi (- int (d + k + 2)) \<and>
    amount_raw t = amount \<and>
    net_amount_raw t = amount * (10 ^ (k + 2) - f) div 10 ^ (k + 2) \<and>
    fee_raw t = amount - net_amount_raw t"
proof -
  define q where "q = amount * (10 ^ (k + 2) - f)"
  have P: "0 < PRECISION" by (simp add: PRECISION_def)
  have a39: "amount < 10 ^ 39" using amount pow_128 by linarith
  have pk: "(10::int) ^ (k + 2) \<le> 10 ^ 38" using k by (intro power_increasing) auto
  have a: "\<bar>amount\<bar> < 10 ^ PRECISION"
    using amount a39 power_strict_increasing[of 39 80 "10::int"] by (simp add: PRECISION_def)
  have "amount * f \<le> 10 ^ 39 * 10 ^ 38" using amount a39 f pk by (intro mult_mono) auto
  then have af: "\<bar>amount * f\<bar> < 10 ^ PRECISION"
    using amount f by (simp add: PRECISION_def abs_mult)
  have q0: "0 \<le> q" using amount f by (simp add: q_def)
  have "q \<le> 10 ^ 39 * 10 ^ 38" unfolding q_def using amount a39 f pk by (intro mult_mono) auto
  then have q: "\<bar>q\<bar> < 10 ^ PRECISION" using q0 by (simp add: PRECISION_def)
  have ten: "(10::rat) powi (int d) * 10 powi (- int (d + k + 2)) = 10 powi (- int (k + 2))"
  proof -
    have "(10::rat) powi (int d + - int (d + k + 2)) = 10 powi (int d) * 10 powi (- int (d + k + 2))"
      by (rule power_int_add) simp
    moreover have "int d + - int (d + k + 2) = - int (k + 2)" by simp
    ultimately show ?thesis by (simp only:)
  qed
  obtain A where A: "dec_div PRECISION (dec_of_int amount) (dec_of_int (10 ^ d)) = Inr A"
      "dec_val A = of_int amount * 10 powi (- int d)"
    using dec_div_exact[OF P _ a, of "dec_of_int (10 ^ d)" "dec_of_int amount" "- int d"]
    by (auto simp: dec_of_int_def dec_val_def power_int_minus)
  define B where "B = dec_mul PRECISION A (Dec f (- int k))"
  have AF: "dec_val A * dec_val (Dec f (- int k)) = of_int (amount * f) * 10 powi (- int (d + k))"
    unfolding A(2) by (simp add: dec_val_def power_int_add power_int_diff power_int_minus field_simps)
  have B: "dec_val B = of_int (amount * f) * 10 powi (- int (d + k))"
    unfolding B_def AF[symmetric] by (rule dec_mul_exact[OF P]) (rule representableI[OF AF af])
  have "(10::rat) powi (- int (d + k)) = 100 * 10 powi (- int (d + k + 2))"
  proof -
    have "(10::rat) powi (2 + - int (d + k + 2)) = 10 powi 2 * 10 powi (- int (d + k + 2))"
      by (rule power_int_add) simp
    then show ?thesis by simp
  qed
  then obtain C where C: "dec_div PRECISION B (dec_of_int 100) = Inr C"
      "dec_val C = of_int (amount * f) * 10 powi (- int (d + k + 2))"
    using dec_div_exact[OF P _ af, of "dec_of_int 100" B "- int (d + k + 2)"] B
    by (auto simp: dec_of_int_def dec_val_def[of "Dec 100 0"])
  define D where "D = dec_sub PRECISION A C"
  have "(10::rat) powi (- int d) = of_int (10 ^ (k + 2)) * 10 powi (- int (d + k + 2))"
    using powi_shift[of "- int (d + k + 2)" "- int d"]
    by (simp add: nat_add_distrib mult.commute)
  then have AC: "dec_val A - dec_val C = of_int q * 10 powi (- int (d + k + 2))"
    unfolding A(2) C(2) q_def by (simp add: algebra_simps)
  have D: "dec_val D = of_int q * 10 powi (- int (d + k + 2))"
    unfolding D_def AC[symmetric] by (rule dec_sub_exact[OF P]) (rule representableI[OF AC q])
  define N where "N = dec_mul PRECISION D (dec_of_int (10 ^ d))"
  have DN: "dec_val D * dec_val (dec_of_int (10 ^ d)) = of_int q * 10 powi (- int (k + 2))"
    unfolding D ten[symmetric] by simp
  have N: "dec_val N = of_int q * 10 powi (- int (k + 2))"
    unfolding N_def DN[symmetric] by (rule dec_mul_exact[OF P]) (rule representableI[OF DN q])
  have "dec_val N = of_int q / of_int (10 ^ (k + 2))"
    unfolding N power_int_minus power_int_of_nat by (simp add: divide_inverse del: power_Suc)
  then have fl: "\<lfloor>dec_val N\<rfloor> = q div 10 ^ (k + 2)" by (simp only: floor_divide_of_int_eq)
  have "0 \<le> dec_val N" unfolding N using q0 by simp
  then have n: "dec_int N = q div 10 ^ (k + 2)" using dec_int_floor fl by simp
  show ?thesis
    using A C D n
    by (simp add: calculate_rune_to_evm_transfer_amounts_def Let_def B_def[symmetric] D_def[symmetric]
        N_def[symmetric] q_def)
qed

text \<open>
  C17. The amounts of a Rune-to-EVM transfer. For any deposit of 128 bits, any divisibility up
  to 38 and any fee percentage \<open>f / 10 ^ k\<close> between 0 and 100 with at most 36 decimals, the
  user receives exactly the deposit less the percentage, rounded down to a raw unit, whatever
  the divisibility of the rune; the fee is the rest, the percentage rounded up; and both are
  between zero and the deposit, so nothing is created or lost.
\<close>

theorem rune_to_evm_amounts:
  fixes amount f :: int
  assumes "0 \<le> amount" "amount < 2 ^ 128" "d \<le> 38" "0 \<le> f" "f \<le> 10 ^ (k + 2)" "k \<le> 36"
  shows "\<exists>t. calculate_rune_to_evm_transfer_amounts (Dec f (- int k)) amount d = Inr t \<and>
    net_amount_raw t = amount * (10 ^ (k + 2) - f) div 10 ^ (k + 2) \<and>
    fee_raw t = - (- (amount * f) div 10 ^ (k + 2)) \<and>
    net_amount_raw t + fee_raw t = amount \<and>
    0 \<le> net_amount_raw t \<and> 0 \<le> fee_raw t"
proof -
  define p where "p = (10::int) ^ (k + 2)"
  have p: "0 < p" by (simp add: p_def)
  obtain t where t: "calculate_rune_to_evm_transfer_amounts (Dec f (- int k)) amount d = Inr t"
      "net_amount_raw t = amount * (p - f) div p" "fee_raw t = amount - net_amount_raw t"
    using transfer_amounts_exact[OF assms] by (auto simp: p_def)
  have "amount * (p - f) = - (amount * f) + amount * p" by (simp add: algebra_simps)
  then have "net_amount_raw t = (- (amount * f) + amount * p) div p" by (simp only: t(2))
  also have "\<dots> = amount + - (amount * f) div p" using p by (intro div_mult_self1) simp
  finally have n: "net_amount_raw t = - (amount * f) div p + amount" by simp
  have "0 \<le> amount * (p - f)" using assms p by (simp add: p_def)
  then have "0 \<le> net_amount_raw t" using t(2) p by (simp add: pos_imp_zdiv_nonneg_iff)
  moreover have "- (amount * f) div p \<le> 0"
    using assms p by (simp add: div_nonpos_pos_le0)
  ultimately show ?thesis using t n by (simp add: p_def)
qed

theorem rune_to_evm_amounts_witness:
  "\<exists>t. calculate_rune_to_evm_transfer_amounts (Dec 4 (- int 1)) 1000 18 = Inr t \<and>
     net_amount_raw t = 996 \<and> fee_raw t = 4"
proof -
  obtain t where "calculate_rune_to_evm_transfer_amounts (Dec 4 (- int 1)) 1000 18 = Inr t"
    "net_amount_raw t = 1000 * (10 ^ (1 + 2) - 4) div 10 ^ (1 + 2)" "net_amount_raw t + fee_raw t = 1000"
    using rune_to_evm_amounts[of 1000 18 4 1] by auto
  then show ?thesis by (intro exI[of _ t]) simp
qed

end
