(* ===== verification/Lru_Cache.thy ===== *)
theory Lru_Cache
  imports Prelude
begin

text \<open>
  \<open>functools.lru_cache\<close>, which \<^verbatim>\<open>bridge_node/bridge/common/ord/utxos.py\<close> wraps
  \<open>get_ord_output\<close> in (1024 entries) and \<^verbatim>\<open>bridge_node/bridge/bridges/runes/service.py\<close> its
  block lookups (256 entries): the most recently used entry first, exceptions are not cached.
\<close>

type_synonym ('k, 'v) lru = "('k \<times> 'v) list"

definition lru_call :: "nat \<Rightarrow> ('k \<Rightarrow> exn + 'v) \<Rightarrow> 'k \<Rightarrow> (('k, 'v) lru, 'v) prog" where
  "lru_call maxsize f k = (\<lambda>c.
     case map_of c k of
       Some v \<Rightarrow> (Inr v, (k, v) # filter (\<lambda>e. fst e \<noteq> k) c)
     | None \<Rightarrow> (case f k of
           Inl e \<Rightarrow> (Inl e, c)
         | Inr v \<Rightarrow> (Inr v, take maxsize ((k, v) # c))))"

text \<open>A cache of a function: no key twice, within its size, every entry a result of the function.\<close>

definition lru_of :: "nat \<Rightarrow> ('k \<Rightarrow> exn + 'v) \<Rightarrow> ('k, 'v) lru \<Rightarrow> bool" where
  "lru_of maxsize f c \<longleftrightarrow>
     distinct (map fst c) \<and> length c \<le> maxsize \<and> (\<forall>(k, v) \<in> set c. f k = Inr v)"

lemma lru_of_empty [simp]: "lru_of n f []"
  by (simp add: lru_of_def)

lemma map_of_filter_other: "length (filter (\<lambda>e. fst e \<noteq> k) c) < length c" if "map_of c k = Some v"
  using that by (intro length_filter_less[of "(k, v)"]) (auto dest: map_of_SomeD)

text \<open>Calling the cached function is calling the function, and the cache stays a cache of it.\<close>

lemma lru_call_value:
  assumes "lru_of n f c"
  shows "fst (lru_call n f k c) = f k"
  using assms by (auto simp: lru_call_def lru_of_def split: option.splits sum.splits dest!: map_of_SomeD)

lemma lru_call_keeps:
  assumes "lru_of n f c"
  shows "lru_of n f (snd (lru_call n f k c))"
proof (cases "map_of c k")
  case None
  then have k: "k \<notin> fst ` set c" by (simp add: map_of_eq_None_iff)
  have d: "distinct (map fst (take n ((k, v) # c)))" for v
  proof -
    have "distinct (take n (map fst ((k, v) # c)))" using assms k by (intro distinct_take) (simp add: lru_of_def)
    then show ?thesis by (simp only: take_map)
  qed
  show ?thesis
  proof (cases "f k")
    case (Inr v)
    have "\<forall>(k, v) \<in> set (take n ((k, v) # c)). f k = Inr v"
      using assms Inr by (auto simp: lru_of_def dest!: in_set_takeD)
    then show ?thesis using None Inr d by (simp add: lru_call_def lru_of_def)
  qed (use None assms in \<open>simp add: lru_call_def\<close>)
next
  case (Some v)
  have "distinct (map fst (filter (\<lambda>e. fst e \<noteq> k) c))"
    using assms by (simp add: lru_of_def distinct_map_filter)
  moreover have "Suc (length (filter (\<lambda>e. fst e \<noteq> k) c)) \<le> n"
    using map_of_filter_other[OF Some] assms by (simp add: lru_of_def)
  ultimately show ?thesis
    using Some assms map_of_SomeD[OF Some] by (auto simp: lru_call_def lru_of_def)
qed

lemma keeps_lru_call: "keeps (lru_of n f) (lru_call n f k)"
  by (rule keepsI) (rule lru_call_keeps)

lemma run_lru_call:
  "lru_of n f c \<Longrightarrow> \<exists>c'. lru_call n f k c = (f k, c') \<and> lru_of n f c'"
  using lru_call_value[of n f c k] lru_call_keeps[of n f c k]
  by (metis prod.collapse)

end
