(* ===== verification/Ord_Sync.thy ===== *)
theory Ord_Sync
  imports Complex_Main Ord_Types
begin

text \<open>
  The loop in which the Rune service and the simple wallet wait until ord has indexed what the
  Bitcoin node has: \<^verbatim>\<open>_sync_ord_with_bitcoind\<close> of \<^verbatim>\<open>bridge_node/bridge/bridges/runes/service.py\<close> and
  \<^verbatim>\<open>_wait_for_ord_sync\<close> of \<^verbatim>\<open>bridge_node/bridge/common/ord/simple_wallet.py\<close>. It ends if every sleep takes its second.
\<close>

text \<open>
  Waiting for ord to index up to the node's head. \<open>clock 0\<close> is the start, \<open>clock (k + 1)\<close> the
  reading at the \<open>k\<close>-th test of the loop. The fuel of 61 tests suffices when every sleep
  takes its second; without fuel left the clock itself is at fault.
\<close>

fun sync_loop :: "ord_server \<Rightarrow> (nat \<Rightarrow> rat) \<Rightarrow> rat \<Rightarrow> int \<Rightarrow> nat \<Rightarrow> nat \<Rightarrow> exn + unit" where
  "sync_loop ord clock timeout bitcoind_block_count k 0 = Inl (External ''clock'')"
| "sync_loop ord clock timeout bitcoind_block_count k (Suc fuel) =
     (if clock (k + 1) - clock 0 < timeout then
        rbind (ord_request (os_blockcount ord k)) (\<lambda>ord_block_count.
          if ord_block_count \<ge> bitcoind_block_count then Inr ()
          else sync_loop ord clock timeout bitcoind_block_count (k + 1) fuel)
      else Inl TimeoutError)"

lemma sync_loop_ends:
  assumes "\<And>j. clock (j + 1) + 1 \<le> clock (j + 2)" "clock 0 \<le> clock 1" "k + fuel = 61" "0 < fuel"
  shows "\<exists>j \<ge> k. j \<le> 60 \<and>
    (\<forall>i. k \<le> i \<and> i < j \<longrightarrow> clock (i + 1) - clock 0 < 60 \<and> (\<exists>c < n. ord_request (os_blockcount ord i) = Inr c)) \<and>
    (60 \<le> clock (j + 1) - clock 0 \<and> sync_loop ord clock 60 n k fuel = Inl TimeoutError \<or>
     clock (j + 1) - clock 0 < 60 \<and> (\<exists>c \<ge> n. ord_request (os_blockcount ord j) = Inr c) \<and> sync_loop ord clock 60 n k fuel = Inr () \<or>
     clock (j + 1) - clock 0 < 60 \<and>
       (\<exists>e. ord_request (os_blockcount ord j) = Inl e \<and> sync_loop ord clock 60 n k fuel = Inl e))"
  using assms(3,4)
proof (induction fuel arbitrary: k)
  case (Suc fuel)
  let ?loop = "sync_loop ord clock 60 n k (Suc fuel)"
  let ?ask = "\<lambda>i. ord_request (os_blockcount ord i)"
  have c: "clock 0 + of_nat j \<le> clock (j + 1)" for j
  proof (induction j)
    case (Suc j)
    then show ?case using assms(1)[of j] by simp
  qed (use assms(2) in simp)
  have here: ?case if "60 \<le> clock (k + 1) - clock 0 \<and> ?loop = Inl TimeoutError \<or>
      clock (k + 1) - clock 0 < 60 \<and> (\<exists>c \<ge> n. ?ask k = Inr c) \<and> ?loop = Inr () \<or>
      clock (k + 1) - clock 0 < 60 \<and> (\<exists>e. ?ask k = Inl e \<and> ?loop = Inl e)"
    using that Suc.prems by (intro exI[of _ k]) auto
  show ?case
  proof (cases "clock (k + 1) - clock 0 < 60")
    case False
    then show ?thesis by (intro here) simp
  next
    case time: True
    show ?thesis
    proof (cases "\<exists>c < n. ?ask k = Inr c")
      case False
      then show ?thesis using time by (intro here) (cases "?ask k"; auto simp: not_less)
    next
      case True
      have "fuel \<noteq> 0"
      proof
        assume "fuel = 0"
        then show False using Suc.prems c[of 60] time by simp
      qed
      then obtain j where j: "k + 1 \<le> j" "j \<le> 60"
        "\<forall>i. k + 1 \<le> i \<and> i < j \<longrightarrow> clock (i + 1) - clock 0 < 60 \<and> (\<exists>c < n. ?ask i = Inr c)"
        "60 \<le> clock (j + 1) - clock 0 \<and> sync_loop ord clock 60 n (k + 1) fuel = Inl TimeoutError \<or>
         clock (j + 1) - clock 0 < 60 \<and> (\<exists>c \<ge> n. ?ask j = Inr c) \<and> sync_loop ord clock 60 n (k + 1) fuel = Inr () \<or>
         clock (j + 1) - clock 0 < 60 \<and> (\<exists>e. ?ask j = Inl e \<and> sync_loop ord clock 60 n (k + 1) fuel = Inl e)"
        using Suc.IH[of "k + 1"] Suc.prems by auto
      have "?loop = sync_loop ord clock 60 n (k + 1) fuel" using True time by (auto simp: not_le)
      moreover have "clock (i + 1) - clock 0 < 60 \<and> (\<exists>c < n. ?ask i = Inr c)" if "k \<le> i \<and> i < j" for i
        using j(3) True time that by (cases "i = k") auto
      ultimately show ?thesis using j by (intro exI[of _ j]) simp
    qed
  qed
qed simp

end
