(* ===== verification/Deposit_Scan.thy ===== *)
theory Deposit_Scan
  imports Rune_Models Rune_Amounts Lru_Cache Ord_Sync
begin

text \<open>
  Detecting Rune deposits on Bitcoin, from \<^verbatim>\<open>bridge_node/bridge/bridges/runes/service.py\<close>:
  initialisation, deposit addresses, \<open>scan_rune_deposits\<close> with its two phases (querying the
  Bitcoin node and ord; storing what they answered in one transaction), and the queries of the
  API. The Bitcoin node, ord, the clock and the derivation of addresses are parameters.
\<close>

section \<open>The service\<close>

record rune_config =
  rc_bridge_id :: string
  rc_evm_block_safety_margin :: int
  rc_evm_default_start_block :: int
  rc_runes_to_evm_fee_percentage_decimal :: decimal
  rc_btc_min_confirmations :: int
  rc_btc_min_postage_sat :: int
  rc_btc_listsinceblock_buffer :: int
  rc_btc_network :: string
  rc_btc_max_fee_rate_sats_per_vbyte :: int

record rune_service =
  sv_config :: rune_config
  sv_bridge_id :: "int option"

definition bridge_name :: "rune_service \<Rightarrow> string" where
  "bridge_name sv = rc_bridge_id (sv_config sv)"

definition bridge_id :: "rune_service \<Rightarrow> exn + int" where
  "bridge_id sv = (case sv_bridge_id sv of None \<Rightarrow> Inl ValueError | Some i \<Rightarrow> Inr i)"

definition service_init :: "rune_service \<Rightarrow> rune_service rune_prog" where
  "service_init sv = in_tx
     (bnd (query_one_or_none db_bridges (\<lambda>b. br_name b = bridge_name sv)) (\<lambda>found.
      bnd (case found of Some b \<Rightarrow> ok b | None \<Rightarrow> insert_bridge (bridge_name sv)) (\<lambda>b.
      ok (sv\<lparr>sv_bridge_id := Some (br_id b)\<rparr>))))"

text \<open>
  \<open>self._messenger.send_message\<close>. It returns whatever the services of the messengers do: the code catches their exceptions
  (theory \<open>Messengers\<close>, where this is proved).
\<close>

definition notice :: "rune_service \<Rightarrow> string \<Rightarrow> bool \<Rightarrow> unit rune_prog" where
  "notice sv title alert = emit (Notice (''['' @ bridge_name sv @ ''] '' @ title) alert)"

section \<open>Deposit addresses\<close>

definition generate_deposit_address ::
  "rune_service \<Rightarrow> eth_utils \<Rightarrow> (int \<Rightarrow> string) \<Rightarrow> string \<Rightarrow> string rune_prog" where
  "generate_deposit_address sv eu derive_address address =
     (case eu_to_checksum_address eu address of
        Inl e \<Rightarrow> throw ValueError
      | Inr evm_address \<Rightarrow>
          bnd (lift_res (bridge_id sv)) (\<lambda>bid.
          bnd (query_first db_users (\<lambda>u. us_bridge_id u = bid \<and> us_evm_address u = evm_address)) (\<lambda>found.
          bnd (case found of Some u \<Rightarrow> ok u | None \<Rightarrow> insert_user bid evm_address) (\<lambda>u.
          bnd (query_first db_deposit_addresses (\<lambda>a. da_user_id a = us_id u)) (\<lambda>found_address.
          bnd (case found_address of
                 Some a \<Rightarrow> ok a
               | None \<Rightarrow> insert_deposit_address (us_id u) (derive_address (us_id u))) (\<lambda>a.
          ok (da_btc_address a)))))))"

definition get_user_by_deposit_address :: "rune_service \<Rightarrow> string \<Rightarrow> user option rune_prog" where
  "get_user_by_deposit_address sv address = in_tx
     (bnd (lift_res (bridge_id sv)) (\<lambda>bid.
      bnd (db_get (\<lambda>db. concat (map (\<lambda>a. map (Pair a)
            (filter (\<lambda>u. us_id u = da_user_id a \<and> us_bridge_id u = bid \<and> da_btc_address a = address)
              (db_users db))) (db_deposit_addresses db)))) (\<lambda>rows.
      bnd (lift_res (one_or_none rows)) (\<lambda>obj. ok (map_option snd obj)))))"

section \<open>The Bitcoin node\<close>

record listed_tx =
  lt_category :: string
  lt_address :: "string option"
  lt_txid :: string
  lt_vout :: int
  lt_confirmations :: int
  lt_blockheight :: "int option"
  lt_time :: int
  lt_amount :: decimal

record listsinceblock_response =
  ls_lastblock :: string
  ls_transactions :: "listed_tx list"

record block_info =
  bi_time :: int
  bi_height :: int

record deposit_node =
  dn_listsinceblock :: "string \<Rightarrow> int \<Rightarrow> exn + listsinceblock_response"
  dn_getblockcount :: "exn + int"
  dn_getblock :: "string \<Rightarrow> exn + block_info"

definition sync_ord_with_bitcoind :: "ord_server \<Rightarrow> (nat \<Rightarrow> rat) \<Rightarrow> deposit_node \<Rightarrow> exn + unit" where
  "sync_ord_with_bitcoind ord clock node =
     rbind (dn_getblockcount node) (\<lambda>bitcoind_block_count.
       sync_loop ord clock 60 bitcoind_block_count 0 61)"

section \<open>Scanning: the queries\<close>

text \<open>
  Waiting until ord has indexed an output: the last response seen, and the one that is kept
  with the transaction (none for a spent output that is not indexed).
\<close>

fun await_output ::
  "(nat \<Rightarrow> exn + output_response) \<Rightarrow> nat \<Rightarrow> nat \<Rightarrow> exn + output_response \<times> output_response option" where
  "await_output get i 0 = Inl RuntimeError"
| "await_output get i (Suc retries) =
     rbind (get i) (\<lambda>response.
       if or_indexed response then Inr (response, Some response)
       else if or_spent response then Inr (response, None)
       else await_output get (i + 1) retries)"

definition add_names :: "output_response \<Rightarrow> pystr list \<Rightarrow> pystr list" where
  "add_names response names =
     foldl (\<lambda>ns (spaced_rune_name, entry). if spaced_rune_name \<in> set ns then ns else ns @ [spaced_rune_name])
       names (or_runes response)"

fun fetch_transactions ::
  "ord_server \<Rightarrow> string \<Rightarrow> listed_tx list \<Rightarrow> pystr list \<Rightarrow>
   exn + (listed_tx \<times> output_response option) list \<times> pystr list" where
  "fetch_transactions ord change_address [] names = Inr ([], names)"
| "fetch_transactions ord change_address (tx # txs) names =
     (if lt_category tx \<noteq> ''receive'' then fetch_transactions ord change_address txs names
      else if lt_address tx = None \<or> lt_address tx = Some '''' then fetch_transactions ord change_address txs names
      else if lt_address tx = Some change_address then fetch_transactions ord change_address txs names
      else rbind (if lt_confirmations tx > 0
                  then rbind (await_output (get_output ord (lt_txid tx) (lt_vout tx)) 0 10)
                         (\<lambda>(response, kept). Inr (kept, add_names response names))
                  else Inr (None, names)) (\<lambda>(kept, names').
           rbind (fetch_transactions ord change_address txs names') (\<lambda>(rest, names'').
           Inr ((tx, kept) # rest, names''))))"

fun fetch_rune_entries :: "ord_server \<Rightarrow> pystr list \<Rightarrow> exn + rune_entry list" where
  "fetch_rune_entries ord [] = Inr []"
| "fetch_rune_entries ord (rune_name # names) =
     rbind (get_rune ord rune_name) (\<lambda>rune_response.
       case rune_response of
         None \<Rightarrow> Inl RuntimeError
       | Some response \<Rightarrow> rbind (fetch_rune_entries ord names) (\<lambda>entries. Inr (rr_entry response # entries)))"

section \<open>Scanning: the transaction\<close>

definition index_rune :: "rune_service \<Rightarrow> pyord \<Rightarrow> rune_entry \<Rightarrow> unit rune_prog" where
  "index_rune sv py entry =
     bnd (lift_res (rune_from_str py (re_spaced_rune entry))) (\<lambda>n.
     bnd (lift_res (bridge_id sv)) (\<lambda>bid.
     bnd (query_one_or_none db_runes (\<lambda>r. ru_bridge_id r = bid \<and> ru_n r = n)) (\<lambda>found.
     case found of
       Some r \<Rightarrow> ok ()
     | None \<Rightarrow> sq (insert_rune \<lparr>ru_id = 0, ru_bridge_id = bid, ru_n = n, ru_name = py_name py n,
                    ru_spaced_name = re_spaced_rune entry, ru_symbol = re_symbol entry,
                    ru_divisibility = re_divisibility entry, ru_turbo = re_turbo entry\<rparr>) (ok ()))))"

text \<open>The transaction's output as a row; the status only ever goes from detected to accepted.\<close>

definition accept_btc_tx :: "bool \<Rightarrow> int \<Rightarrow> int" where
  "accept_btc_tx confirmed status =
     (if confirmed \<and> status = btc_tx_code TX_DETECTED then btc_tx_code TX_ACCEPTED else status)"

definition accept_rune_deposit :: "bool \<Rightarrow> int \<Rightarrow> int" where
  "accept_rune_deposit confirmed status =
     (if confirmed \<and> status = rd_code RD_DETECTED then rd_code RD_ACCEPTED else status)"

definition store_btc_tx ::
  "rune_service \<Rightarrow> listed_tx \<Rightarrow> string \<Rightarrow> incoming_btc_tx rune_prog" where
  "store_btc_tx sv tx btc_address =
     bnd (lift_res (bridge_id sv)) (\<lambda>bid.
     bnd (query_one_or_none db_incoming_btc_txs
            (\<lambda>t. it_bridge_id t = bid \<and> it_tx_id t = lt_txid tx \<and> it_vout t = lt_vout tx)) (\<lambda>found.
     let confirmed = (lt_confirmations tx \<ge> rc_btc_min_confirmations (sv_config sv));
         amount_sat = dec_int (dec_mul PRECISION (lt_amount tx) (dec_of_int 100000000));
         set_fields = (\<lambda>t. t\<lparr>it_status := accept_btc_tx confirmed (it_status t),
                             it_block_number := lt_blockheight tx, it_time := lt_time tx,
                             it_amount_sat := amount_sat, it_address := btc_address\<rparr>)
     in case found of
          Some t \<Rightarrow> sq (update_incoming_btc_tx (it_id t) set_fields) (ok (set_fields t))
        | None \<Rightarrow> sq (notice sv ''New incoming BTC transaction'' False)
            (insert_incoming_btc_tx (set_fields
               \<lparr>it_id = 0, it_bridge_id = bid, it_tx_id = lt_txid tx, it_vout = lt_vout tx,
                it_block_number = None, it_time = 0, it_address = btc_address, it_amount_sat = 0,
                it_user_id = None, it_status = btc_tx_code TX_DETECTED\<rparr>))))"

definition set_deposit_fields ::
  "bool \<Rightarrow> int \<Rightarrow> int \<Rightarrow> int \<Rightarrow> output_response \<Rightarrow> rune_balance_entry \<Rightarrow> transfer_amounts \<Rightarrow> rune \<Rightarrow>
   rune_deposit \<Rightarrow> rune_deposit" where
  "set_deposit_fields confirmed btc_tx_id blockheight user_id out balance_entry amounts rune d =
     d\<lparr>rd_incoming_btc_tx_id := btc_tx_id, rd_block_number := blockheight,
       rd_user_id := user_id, rd_postage := or_value out,
       rd_transfer_amount_raw := rb_amount balance_entry,
       rd_net_amount_raw := net_amount_raw amounts, rd_rune_id := ru_id rune,
       rd_status := accept_rune_deposit confirmed (rd_status d)\<rparr>"

lemma set_deposit_fields_simps [simp]:
  "rd_id (set_deposit_fields c b h u out e am rune d) = rd_id d"
  "rune_deposit_key (set_deposit_fields c b h u out e am rune d) = rune_deposit_key d"
  "rd_tx_id (set_deposit_fields c b h u out e am rune d) = rd_tx_id d"
  "rd_vout (set_deposit_fields c b h u out e am rune d) = rd_vout d"
  "rd_bridge_id (set_deposit_fields c b h u out e am rune d) = rd_bridge_id d"
  "rd_rune_number (set_deposit_fields c b h u out e am rune d) = rd_rune_number d"
  "rd_user_id (set_deposit_fields c b h u out e am rune d) = u"
  "rd_transfer_amount_raw (set_deposit_fields c b h u out e am rune d) = rb_amount e"
  "rd_net_amount_raw (set_deposit_fields c b h u out e am rune d) = net_amount_raw am"
  "rd_evm_tx_hash (set_deposit_fields c b h u out e am rune d) = rd_evm_tx_hash d"
  "rd_accept_transfer_signatures (set_deposit_fields c b h u out e am rune d) = rd_accept_transfer_signatures d"
  "rd_accept_transfer_signers (set_deposit_fields c b h u out e am rune d) = rd_accept_transfer_signers d"
  "rd_status (set_deposit_fields c b h u out e am rune d) = accept_rune_deposit c (rd_status d)"
  by (simp_all add: set_deposit_fields_def rune_deposit_key_def)

definition store_rune_deposit ::
  "rune_service \<Rightarrow> pyord \<Rightarrow> listed_tx \<Rightarrow> output_response \<Rightarrow> int \<Rightarrow> int \<Rightarrow> pystr \<times> rune_balance_entry \<Rightarrow>
   unit rune_prog" where
  "store_rune_deposit sv py tx out btc_tx_id user_id balance =
     (let spaced_rune_name = fst balance; balance_entry = snd balance;
          confirmed = (lt_confirmations tx \<ge> rc_btc_min_confirmations (sv_config sv)) in
      bnd (lift_res (rune_from_str py spaced_rune_name)) (\<lambda>n.
      bnd (lift_res (bridge_id sv)) (\<lambda>bid.
      bnd (query_one db_runes (\<lambda>r. ru_bridge_id r = bid \<and> ru_n r = n)) (\<lambda>rune.
      bnd (lift_res (calculate_rune_to_evm_transfer_amounts
            (rc_runes_to_evm_fee_percentage_decimal (sv_config sv))
            (rb_amount balance_entry) (rb_divisibility balance_entry))) (\<lambda>amounts.
      bnd (query_one_or_none db_rune_deposits (\<lambda>d. rd_bridge_id d = bid \<and> rd_tx_id d = lt_txid tx \<and>
             rd_vout d = lt_vout tx \<and> rd_rune_number d = ru_n rune)) (\<lambda>found.
      sq (case found of Some d \<Rightarrow> ok () | None \<Rightarrow> notice sv ''New Rune deposit'' False)
     (bnd (lift_res (case lt_blockheight tx of None \<Rightarrow> Inl KeyError | Some h \<Rightarrow> Inr h)) (\<lambda>blockheight.
      let set_fields = set_deposit_fields confirmed btc_tx_id blockheight user_id out balance_entry amounts rune
      in case found of
           Some d \<Rightarrow> update_rune_deposit (rd_id d) set_fields
         | None \<Rightarrow> sq (insert_rune_deposit (set_fields
             \<lparr>rd_id = 0, rd_bridge_id = bid, rd_tx_id = lt_txid tx, rd_vout = lt_vout tx,
              rd_block_number = blockheight, rd_rune_number = ru_n rune, rd_rune_id = ru_id rune,
              rd_user_id = user_id, rd_incoming_btc_tx_id = btc_tx_id, rd_postage = or_value out,
              rd_transfer_amount_raw = rb_amount balance_entry, rd_net_amount_raw = net_amount_raw amounts,
              rd_evm_tx_hash = None, rd_accept_transfer_message_hash = None,
              rd_accept_transfer_signatures = [], rd_accept_transfer_signers = [],
              rd_status = rd_code RD_DETECTED\<rparr>)) (ok ())))))))))"

text \<open>One transaction of the response; the number of Rune transfers in it.\<close>

definition store_transaction ::
  "rune_service \<Rightarrow> pyord \<Rightarrow> listed_tx \<times> output_response option \<Rightarrow> int rune_prog" where
  "store_transaction sv py entry =
     (let tx = fst entry; ord_output = snd entry in
      bnd (lift_res (case lt_address tx of None \<Rightarrow> Inl KeyError | Some a \<Rightarrow> Inr a)) (\<lambda>btc_address.
      sq (demand (case ord_output of Some out \<Rightarrow> or_indexed out | None \<Rightarrow> True) AssertionError)
     (bnd (store_btc_tx sv tx btc_address) (\<lambda>btc_tx.
      bnd (query_one_or_none db_deposit_addresses (\<lambda>a. da_btc_address a = btc_address)) (\<lambda>found.
      case found of
        None \<Rightarrow> ok 0
      | Some deposit_address \<Rightarrow>
          sq (update_incoming_btc_tx (it_id btc_tx) (\<lambda>t. t\<lparr>it_user_id := Some (da_user_id deposit_address)\<rparr>))
         (bnd (related db_users (\<lambda>u. us_id u = da_user_id deposit_address)) (\<lambda>user.
          case ord_output of
            None \<Rightarrow> ok 0
          | Some out \<Rightarrow>
              sq (for_each (or_runes out)
                    (store_rune_deposit sv py tx out (it_id btc_tx) (da_user_id deposit_address)))
                 (ok (int (length (or_runes out)))))))))))"

definition last_block_key :: "rune_service \<Rightarrow> string" where
  "last_block_key sv = bridge_name sv @ '':btc:deposits:last_scanned_block''"

definition store_scan ::
  "rune_service \<Rightarrow> pyord \<Rightarrow> rune_entry list \<Rightarrow> (listed_tx \<times> output_response option) list \<Rightarrow> jval \<Rightarrow> string \<Rightarrow>
   int rune_prog" where
  "store_scan sv py rune_entries transactions last_bitcoin_block new_last_block = in_tx
     (sq (for_each rune_entries (index_rune sv py))
     (bnd (collect transactions (store_transaction sv py)) (\<lambda>counts.
      bnd (rune_kv_get (last_block_key sv) (Some JNone)) (\<lambda>check.
      sq (demand (check = last_bitcoin_block) RuntimeError)
     (sq (rune_kv_set (last_block_key sv) (JStr new_last_block))
         (ok (sum_list counts)))))))"

text \<open>Python's truth value of a stored value.\<close>

definition jval_true :: "jval \<Rightarrow> bool" where
  "jval_true v = (case v of JNone \<Rightarrow> False | JInt n \<Rightarrow> n \<noteq> 0 | JStr s \<Rightarrow> s \<noteq> '''')"

definition scan_rune_deposits ::
  "rune_service \<Rightarrow> pyord \<Rightarrow> ord_server \<Rightarrow> (nat \<Rightarrow> rat) \<Rightarrow> deposit_node \<Rightarrow> string \<Rightarrow> int rune_prog" where
  "scan_rune_deposits sv py ord clock node change_address =
     (let buffer = rc_btc_listsinceblock_buffer (sv_config sv) in
      bnd (in_tx (rune_kv_get (last_block_key sv) (Some JNone))) (\<lambda>last_bitcoin_block.
      sq (demand (\<not> buffer < rc_btc_min_confirmations (sv_config sv)) ValueError)
     (bnd (if \<not> jval_true last_bitcoin_block then lift_res (dn_listsinceblock node '''' buffer)
           else case last_bitcoin_block of
                  JStr b \<Rightarrow> lift_res (dn_listsinceblock node b buffer)
                | _ \<Rightarrow> throw (External ''listsinceblock'')) (\<lambda>resp.
      sq (lift_res (sync_ord_with_bitcoind ord clock node))
     (bnd (lift_res (fetch_transactions ord change_address (ls_transactions resp) [])) (\<lambda>(transactions, rune_names).
      bnd (lift_res (fetch_rune_entries ord rune_names)) (\<lambda>rune_entries.
      store_scan sv py rune_entries transactions last_bitcoin_block (ls_lastblock resp))))))))"

section \<open>Queries of the API\<close>

text \<open>\<open>val.value if val else None\<close>.\<close>

definition get_last_scanned_bitcoin_block :: "rune_service \<Rightarrow> jval rune_prog" where
  "get_last_scanned_bitcoin_block sv =
     db_get (\<lambda>db. case db_kv db (last_block_key sv) of Some v \<Rightarrow> v | None \<Rightarrow> JNone)"

definition get_block_time_by_hash :: "deposit_node \<Rightarrow> string \<Rightarrow> exn + int option" where
  "get_block_time_by_hash node block_hash =
     (case dn_getblock node block_hash of Inr block \<Rightarrow> Inr (Some (bi_time block)) | Inl e \<Rightarrow> Inr None)"

definition get_block_number_by_hash :: "deposit_node \<Rightarrow> string \<Rightarrow> exn + int option" where
  "get_block_number_by_hash node block_hash =
     (case dn_getblock node block_hash of Inr block \<Rightarrow> Inr (Some (bi_height block)) | Inl e \<Rightarrow> Inr None)"

text \<open>The two caches of the service, \<open>functools.lru_cache(256)\<close>.\<close>

record block_caches =
  bc_time :: "(string, int option) lru"
  bc_number :: "(string, int option) lru"

definition cached_block_time :: "deposit_node \<Rightarrow> string \<Rightarrow> (block_caches, int option) prog" where
  "cached_block_time node h = (\<lambda>c.
     let (r, c') = lru_call 256 (get_block_time_by_hash node) h (bc_time c) in (r, c\<lparr>bc_time := c'\<rparr>))"

definition cached_block_number :: "deposit_node \<Rightarrow> string \<Rightarrow> (block_caches, int option) prog" where
  "cached_block_number node h = (\<lambda>c.
     let (r, c') = lru_call 256 (get_block_number_by_hash node) h (bc_number c) in (r, c\<lparr>bc_number := c'\<rparr>))"

text \<open>An answer of the API: a dictionary as an association list.\<close>

datatype api_value = ANull | AInt int | AStr pystr

type_synonym api_dict = "(string \<times> api_value) list"

definition a_str :: "string \<Rightarrow> api_value" where
  "a_str s = AStr (pys s)"

definition detected_entry :: "incoming_btc_tx \<Rightarrow> api_dict" where
  "detected_entry tx =
     [(''btc_deposit_txid'', a_str (it_tx_id tx)), (''btc_deposit_vout'', AInt (it_vout tx)),
      (''rune_name'', a_str ''''), (''rune_symbol'', a_str ''''),
      (''amount_decimal'', a_str ''0''), (''fee_amount_decimal'', a_str ''0''),
      (''receive_amount_decimal'', a_str ''0''), (''status'', a_str ''detected''),
      (''evm_transfer_tx_hash'', ANull)]"

definition powa_rangers_go :: pystr where
  "powa_rangers_go = pys ''POWA'' @ [8226] @ pys ''RANGERS'' @ [8226] @ pys ''GO''"

definition deposit_entry :: "rune_db \<Rightarrow> rune_deposit \<Rightarrow> exn + api_dict" where
  "deposit_entry db d =
     (case filter (\<lambda>r. ru_id r = rd_rune_id d) (db_runes db) of
        [] \<Rightarrow> Inl AttributeError
      | rune # _ \<Rightarrow>
          let symbol = (if ru_spaced_name rune = powa_rangers_go then pys ''POWA'' else ru_symbol rune) in
          rbind (decimal_amount rune (rd_transfer_amount_raw d)) (\<lambda>amount.
          rbind (decimal_amount rune (deposit_fee_raw d)) (\<lambda>fee.
          rbind (decimal_amount rune (rd_net_amount_raw d)) (\<lambda>net.
          Inr [(''btc_deposit_txid'', a_str (rd_tx_id d)), (''btc_deposit_vout'', AInt (rd_vout d)),
               (''rune_name'', AStr (ru_spaced_name rune)), (''rune_symbol'', AStr symbol),
               (''amount_decimal'', a_str (dec_str amount)), (''fee_decimal'', a_str (dec_str fee)),
               (''receive_amount_decimal'', a_str (dec_str net)), (''status'', a_str (get_status_for_ui d)),
               (''evm_transfer_tx_hash'', case rd_evm_tx_hash d of None \<Rightarrow> ANull | Some h \<Rightarrow> a_str h)]))))"

fun all_entries :: "('a \<Rightarrow> exn + 'b list) \<Rightarrow> 'a list \<Rightarrow> exn + 'b list" where
  "all_entries f [] = Inr []"
| "all_entries f (x # xs) = rbind (f x) (\<lambda>ys. rbind (all_entries f xs) (\<lambda>zs. Inr (ys @ zs)))"

definition pending_entries :: "rune_db \<Rightarrow> incoming_btc_tx \<Rightarrow> exn + api_dict list" where
  "pending_entries db tx =
     (let rune_deposits = filter (\<lambda>d. rd_incoming_btc_tx_id d = it_id tx) (db_rune_deposits db)
      in if it_status tx = btc_tx_code TX_DETECTED \<and> rune_deposits = [] then Inr [detected_entry tx]
         else all_entries (\<lambda>d. rbind (deposit_entry db d) (\<lambda>e. Inr [e])) rune_deposits)"

definition get_pending_deposits_for_evm_address ::
  "rune_service \<Rightarrow> eth_utils \<Rightarrow> deposit_node \<Rightarrow> string \<Rightarrow> string \<Rightarrow> rune_db \<Rightarrow>
   (block_caches, api_dict list) prog" where
  "get_pending_deposits_for_evm_address sv eu node address last_block db =
     bnd (lift_res (eu_to_checksum_address eu address)) (\<lambda>evm_address.
     bnd (lift_res (bridge_id sv)) (\<lambda>bid.
     bnd (lift_res (one_or_none (filter (\<lambda>u. us_evm_address u = evm_address \<and> us_bridge_id u = bid) (db_users db))))
       (\<lambda>found. case found of None \<Rightarrow> ok [] | Some user \<Rightarrow>
     if length last_block \<noteq> 64 then ok [] else
     bnd (cached_block_time node last_block) (\<lambda>block_time.
     case block_time of None \<Rightarrow> ok [] | Some time \<Rightarrow> if time = 0 then ok [] else
     bnd (cached_block_number node last_block) (\<lambda>number.
     case number of None \<Rightarrow> throw TypeError | Some n \<Rightarrow>
     let block_number = n + rc_btc_listsinceblock_buffer (sv_config sv) in
     if filter (\<lambda>a. da_user_id a = us_id user) (db_deposit_addresses db) = [] then ok [] else
     let own = filter (\<lambda>t. it_bridge_id t = bid \<and> it_user_id t = Some (us_id user)) (db_incoming_btc_txs db);
         pending = sort_key it_time
           (filter (\<lambda>t. it_status t = btc_tx_code TX_DETECTED \<and> it_time t \<ge> time) own);
         accepted = sort_key (\<lambda>t. the (it_block_number t))
           (filter (\<lambda>t. it_status t = btc_tx_code TX_ACCEPTED \<and>
              (case it_block_number t of None \<Rightarrow> False | Some b \<Rightarrow> b \<ge> block_number)) own)
     in lift_res (all_entries (pending_entries db) (pending @ accepted)))))))"

section \<open>Waiting ends\<close>

text \<open>
  C32. The wait for ord ends: if every sleep takes at least its second, the loop stops at one of its
  first 61 tests, whatever the node and ord answer. It stops with a timeout when a minute has passed,
  returns when ord has the node's block count, or hands on the error of a request; at every earlier
  test the minute had not passed and ord was behind.
\<close>

theorem sync_ord_with_bitcoind_ends:
  assumes "\<And>j. clock (j + 1) + 1 \<le> clock (j + 2)" "clock 0 \<le> clock 1" "dn_getblockcount node = Inr n"
  shows "\<exists>j \<le> 60.
    (\<forall>i < j. clock (i + 1) - clock 0 < 60 \<and> (\<exists>c < n. ord_request (os_blockcount ord i) = Inr c)) \<and>
    (60 \<le> clock (j + 1) - clock 0 \<and> sync_ord_with_bitcoind ord clock node = Inl TimeoutError \<or>
     clock (j + 1) - clock 0 < 60 \<and> (\<exists>c \<ge> n. ord_request (os_blockcount ord j) = Inr c) \<and>
       sync_ord_with_bitcoind ord clock node = Inr () \<or>
     clock (j + 1) - clock 0 < 60 \<and>
       (\<exists>e. ord_request (os_blockcount ord j) = Inl e \<and> sync_ord_with_bitcoind ord clock node = Inl e))"
  using sync_loop_ends[OF assms(1,2), of 0 61 n ord] assms(3) unfolding sync_ord_with_bitcoind_def by auto

text \<open>
  What the queries hand over: an output that is kept is indexed, and every transaction is one
  that received coins on an address other than the change address.
\<close>

lemma await_output_indexed: "await_output get i n = Inr (r, Some out) \<Longrightarrow> or_indexed out \<and> r = out"
  by (induction get i n rule: await_output.induct) (auto simp: rbind_eq_Inr split: if_splits)

lemma await_output_retries: "await_output get i n = Inr (r, kept) \<Longrightarrow> \<exists>j < n. get (i + j) = Inr r"
proof (induction get i n rule: await_output.induct)
  case (2 get i n)
  from "2.prems" obtain x where x: "get i = Inr x" by (auto simp: rbind_eq_Inr)
  show ?case
  proof (cases "or_indexed x \<or> or_spent x")
    case True
    then show ?thesis using "2.prems" x by (intro exI[of _ 0]) (auto split: if_splits)
  next
    case False
    then have "await_output get (i + 1) n = Inr (r, kept)" using "2.prems" x by simp
    then obtain j where "j < n" "get (i + 1 + j) = Inr r" using "2.IH" False x by auto
    then show ?thesis by (intro exI[of _ "Suc j"]) simp
  qed
qed simp

definition fetched_entry :: "string \<Rightarrow> listed_tx list \<Rightarrow> listed_tx \<times> output_response option \<Rightarrow> bool" where
  "fetched_entry change_address txs entry \<longleftrightarrow> fst entry \<in> set txs \<and>
     lt_category (fst entry) = ''receive'' \<and>
     (\<exists>a. lt_address (fst entry) = Some a \<and> a \<noteq> '''' \<and> a \<noteq> change_address) \<and>
     (\<forall>out. snd entry = Some out \<longrightarrow> or_indexed out \<and> lt_confirmations (fst entry) > 0)"

lemma fetch_transactions_entries:
  "fetch_transactions ord ca txs names = Inr (entries, names') \<Longrightarrow> \<forall>e \<in> set entries. fetched_entry ca txs e"
proof (induction txs arbitrary: names entries names')
  case (Cons tx txs)
  have mono: "fetched_entry ca txs e \<Longrightarrow> fetched_entry ca (tx # txs) e" for e
    by (auto simp: fetched_entry_def)
  show ?case
  proof (cases "lt_category tx \<noteq> ''receive'' \<or> lt_address tx = None \<or> lt_address tx = Some '''' \<or>
      lt_address tx = Some ca")
    case True
    then have "fetch_transactions ord ca txs names = Inr (entries, names')"
      using Cons.prems by (auto split: if_splits)
    from Cons.IH[OF this] mono show ?thesis by blast
  next
    case False
    then obtain kept n1 rest where
      k: "(if lt_confirmations tx > 0
           then rbind (await_output (get_output ord (lt_txid tx) (lt_vout tx)) 0 10)
                  (\<lambda>(response, kept). Inr (kept, add_names response names))
           else Inr (None, names)) = Inr (kept, n1)"
      and r: "fetch_transactions ord ca txs n1 = Inr (rest, names')" and e: "entries = (tx, kept) # rest"
      using Cons.prems by (auto simp: rbind_eq_Inr)
    have "fetched_entry ca (tx # txs) (tx, kept)"
      using False k by (auto simp: fetched_entry_def rbind_eq_Inr split: if_splits dest: await_output_indexed)
    then show ?thesis using Cons.IH[OF r] mono e by auto
  qed
qed simp

section \<open>Keys and constraints\<close>

lemma keeps_tables_notice: "keeps_tables (notice sv t a)"
  by (simp add: notice_def keeps_tables_emit)

lemma keeps_tables_index_rune: "keeps_tables (index_rune sv py entry)"
  unfolding index_rune_def by (intro keeps_tables_intros)

lemma keeps_tables_store_btc_tx: "keeps_tables (store_btc_tx sv tx a)"
  unfolding store_btc_tx_def
  by (intro keeps_tables_intros keeps_tables_updates keeps_tables_notice)
     (simp_all add: incoming_btc_tx_key_def)

lemma keeps_tables_store_rune_deposit: "keeps_tables (store_rune_deposit sv py tx out b u balance)"
  unfolding store_rune_deposit_def
  by (intro keeps_tables_intros keeps_tables_updates keeps_tables_notice)
     (simp_all add: rune_deposit_key_def)

lemma keeps_tables_store_transaction: "keeps_tables (store_transaction sv py entry)"
  unfolding store_transaction_def
  by (intro keeps_tables_intros keeps_tables_updates keeps_tables_store_btc_tx keeps_tables_store_rune_deposit)
     (simp_all add: incoming_btc_tx_key_def)

lemma keeps_tables_store_scan: "keeps_tables (store_scan sv py entries txs old new_block)"
  unfolding store_scan_def
  by (intro keeps_tables_intros keeps_tables_index_rune keeps_tables_store_transaction)

lemma keeps_tables_scan: "keeps_tables (scan_rune_deposits sv py ord clock node ca)"
  unfolding scan_rune_deposits_def
  by (intro keeps_tables_intros keeps_tables_store_scan) (auto intro!: keeps_tables_intros split: jval.splits)

lemma keeps_tables_generate: "keeps_tables (generate_deposit_address sv eu derive a)"
  unfolding generate_deposit_address_def by (intro keeps_tables_intros)

lemma keeps_tables_init: "keeps_tables (service_init sv)"
  unfolding service_init_def by (intro keeps_tables_intros)

lemma filter_one:
  "distinct (map k xs) \<Longrightarrow> x \<in> set xs \<Longrightarrow> P x \<Longrightarrow> (\<And>y. y \<in> set xs \<Longrightarrow> P y \<Longrightarrow> k y = k x) \<Longrightarrow> filter P xs = [x]"
proof (induction xs)
  case (Cons y ys)
  show ?case
  proof (cases "x = y")
    case True
    have "\<not> P z" if z: "z \<in> set ys" for z
    proof
      assume "P z"
      then have "k z = k y" using Cons.prems(4)[of z] z True by simp
      then have "k y \<in> k ` set ys" using z by (metis imageI)
      then show False using Cons.prems(1) by simp
    qed
    then show ?thesis using True Cons.prems(3) by (simp add: filter_empty_conv)
  next
    case False
    then have x: "x \<in> set ys" using Cons.prems(2) by simp
    have "filter P ys = [x]"
    proof (rule Cons.IH[OF _ x Cons.prems(3)])
      show "distinct (map k ys)" using Cons.prems(1) by simp
      show "k z = k x" if "z \<in> set ys" "P z" for z using that by (intro Cons.prems(4)) simp_all
    qed
    moreover have "\<not> P y"
    proof
      assume "P y"
      then have "k y \<in> k ` set ys" using Cons.prems(4)[of y] x by (metis imageI list.set_intros(1))
      then show False using Cons.prems(1) by simp
    qed
    ultimately show ?thesis by simp
  qed
qed simp

text \<open>The join of the two tables has one row for an address in use.\<close>

lemma joined_row:
  assumes d: "distinct (map da_btc_address das)" "distinct (map us_id users)"
    and u: "u \<in> set users" "us_bridge_id u = b" "us_evm_address u = c"
    and r: "r \<in> set das" "da_user_id r = us_id u" "da_btc_address r = a"
  shows "concat (map (\<lambda>x. map (Pair x)
      (filter (\<lambda>u. us_id u = da_user_id x \<and> us_bridge_id u = b \<and> da_btc_address x = a) users)) das) = [(r, u)]"
proof -
  have f: "filter (\<lambda>u. us_id u = da_user_id r \<and> us_bridge_id u = b \<and> da_btc_address r = a) users = [u]"
    using d(2) u(1) by (rule filter_one) (simp_all add: u r)
  obtain xs ys where das: "das = xs @ r # ys" using r(1) by (meson split_list)
  have "a \<notin> da_btc_address ` (set xs \<union> set ys)"
    using d(1) r(3) by (auto simp: das)
  then have "da_btc_address x \<noteq> a" if "x \<in> set xs \<union> set ys" for x
    using that by (metis imageI)
  then have none: "concat (map (\<lambda>x. map (Pair x)
      (filter (\<lambda>u. us_id u = da_user_id x \<and> us_bridge_id u = b \<and> da_btc_address x = a) users)) zs) = []"
    if "set zs \<subseteq> set xs \<union> set ys" for zs using that by (induction zs) auto
  show ?thesis
    unfolding das map_append concat_append list.map concat.simps f
    using none[of xs] none[of ys] by (simp only: append.simps list.map Un_upper1 Un_upper2 simp_thms append_Nil2)
qed

text \<open>
  C37. Deposit addresses are stable and lead back to their owner: asking again for the address of
  the same account, in any spelling, gives the same address and writes nothing, and looking the
  address up gives the user with that account.
\<close>

theorem deposit_address_roundtrip:
  assumes "rune_tables_ok w" "sv_bridge_id sv = Some b"
    and gen: "generate_deposit_address sv eu derive address w = (Inr a, w')"
  shows "(eu_to_checksum_address eu address' = eu_to_checksum_address eu address \<longrightarrow>
      generate_deposit_address sv eu derive' address' w' = (Inr a, w')) \<and>
    (\<exists>u. get_user_by_deposit_address sv a w' = (Inr (Some u), w') \<and>
       eu_to_checksum_address eu address = Inr (us_evm_address u) \<and> us_bridge_id u = b)"
proof -
  have bid: "bridge_id sv = Inr b" using assms(2) by (simp add: bridge_id_def)
  have ok: "rune_tables_ok w'" using keeps_tables_ok[OF keeps_tables_generate assms(1)] gen by (metis snd_conv)
  obtain c where c: "eu_to_checksum_address eu address = Inr c"
    using gen by (cases "eu_to_checksum_address eu address") (auto simp: generate_deposit_address_def)
  let ?us = "\<lambda>u. us_bridge_id u = b \<and> us_evm_address u = c"
  from gen c bid obtain u w1 where
    u: "(case first_row (filter ?us (db_users (w_db w))) of Some u \<Rightarrow> ok u | None \<Rightarrow> insert_user b c) w = (Inr u, w1)"
    and da: "bnd (query_first db_deposit_addresses (\<lambda>a. da_user_id a = us_id u)) (\<lambda>found_address.
          bnd (case found_address of
                 Some a \<Rightarrow> ok a
               | None \<Rightarrow> insert_deposit_address (us_id u) (derive (us_id u))) (\<lambda>a.
          ok (da_btc_address a))) w1 = (Inr a, w')"
    by (auto simp: generate_deposit_address_def run_bnd run_query_first split: prod.splits sum.splits)
  have u1: "first_row (filter ?us (db_users (w_db w1))) = Some u"
    using u by (cases "first_row (filter ?us (db_users (w_db w)))")
      (auto simp: insert_user_def run_bnd run_insert_row filter_empty_conv split: if_splits)
  have "db_users (w_db w') = db_users (w_db w1) \<and>
      (\<exists>r. first_row (filter (\<lambda>a. da_user_id a = us_id u) (db_deposit_addresses (w_db w'))) = Some r \<and>
           da_btc_address r = a)"
    using da by (cases "first_row (filter (\<lambda>a. da_user_id a = us_id u) (db_deposit_addresses (w_db w1)))")
      (auto simp: insert_deposit_address_def run_bnd run_sq run_demand run_query_first run_insert_row
        filter_empty_conv split: if_splits)
  then obtain r where us: "first_row (filter ?us (db_users (w_db w'))) = Some u"
    and r: "first_row (filter (\<lambda>a. da_user_id a = us_id u) (db_deposit_addresses (w_db w'))) = Some r"
      "da_btc_address r = a"
    using u1 by auto
  have again: "generate_deposit_address sv eu derive' address' w' = (Inr a, w')"
    if "eu_to_checksum_address eu address' = eu_to_checksum_address eu address"
    using that c bid us r by (simp add: generate_deposit_address_def run_bnd run_query_first)
  have u_in: "u \<in> set (db_users (w_db w'))" "us_bridge_id u = b" "us_evm_address u = c"
    using first_row_SomeD[OF us] by auto
  have r_in: "r \<in> set (db_deposit_addresses (w_db w'))" "da_user_id r = us_id u"
    using first_row_SomeD[OF r(1)] by auto
  define rows where "rows = concat (map (\<lambda>x. map (Pair x)
      (filter (\<lambda>u. us_id u = da_user_id x \<and> us_bridge_id u = b \<and> da_btc_address x = a)
        (db_users (w_db w')))) (db_deposit_addresses (w_db w')))"
  have "distinct (map da_btc_address (db_deposit_addresses (w_db w')))" "distinct (map us_id (db_users (w_db w')))"
    using ok by (auto simp: rune_tables_ok_def table_ok_def Let_def)
  then have "rows = [(r, u)]"
    unfolding rows_def using u_in r_in r(2) by (rule joined_row)
  then have "get_user_by_deposit_address sv a w' = (Inr (Some u), w')"
    using bid by (simp add: get_user_by_deposit_address_def run_in_tx run_bnd rows_def[symmetric])
  with again c u_in show ?thesis by blast
qed

section \<open>What a scan stores\<close>

text \<open>
  The evidence for a deposit: an indexed output of the response, paid to a deposit address of
  its user, that carries the amount of the rune; the net amount is the one calculated from it.
\<close>

definition scan_evidence ::
  "rune_service \<Rightarrow> pyord \<Rightarrow> (listed_tx \<times> output_response option) list \<Rightarrow> deposit_address list \<Rightarrow>
   rune_deposit \<Rightarrow> bool" where
  "scan_evidence sv py entries das d \<longleftrightarrow> (\<exists>tx out spaced entry am da.
     (tx, Some out) \<in> set entries \<and> or_indexed out \<and> (spaced, entry) \<in> set (or_runes out) \<and>
     lt_txid tx = rd_tx_id d \<and> lt_vout tx = rd_vout d \<and>
     rune_from_str py spaced = Inr (rd_rune_number d) \<and>
     rd_transfer_amount_raw d = rb_amount entry \<and>
     calculate_rune_to_evm_transfer_amounts (rc_runes_to_evm_fee_percentage_decimal (sv_config sv))
       (rb_amount entry) (rb_divisibility entry) = Inr am \<and>
     rd_net_amount_raw d = net_amount_raw am \<and>
     da \<in> set das \<and> lt_address tx = Some (da_btc_address da) \<and> rd_user_id d = da_user_id da)"

definition scan_confirmed ::
  "rune_service \<Rightarrow> (listed_tx \<times> output_response option) list \<Rightarrow> rune_deposit \<Rightarrow> bool" where
  "scan_confirmed sv entries d \<longleftrightarrow> (\<exists>tx out. (tx, out) \<in> set entries \<and>
     lt_txid tx = rd_tx_id d \<and> lt_vout tx = rd_vout d \<and>
     lt_confirmations tx \<ge> rc_btc_min_confirmations (sv_config sv))"

text \<open>
  What may have happened to a row in a scan: nothing; or there is evidence for it, and it is a
  row of before whose status is the same or went from detected to accepted, or a new one.
\<close>

definition scanned ::
  "rune_service \<Rightarrow> pyord \<Rightarrow> (listed_tx \<times> output_response option) list \<Rightarrow> deposit_address list \<Rightarrow>
   rune_deposit list \<Rightarrow> rune_deposit \<Rightarrow> bool" where
  "scanned sv py entries das old d' \<longleftrightarrow> d' \<in> set old \<or>
     (scan_evidence sv py entries das d' \<and>
      ((\<exists>d \<in> set old. rd_id d = rd_id d' \<and> rune_deposit_key d = rune_deposit_key d' \<and>
          rd_evm_tx_hash d = rd_evm_tx_hash d' \<and>
          rd_accept_transfer_signatures d = rd_accept_transfer_signatures d' \<and>
          rd_accept_transfer_signers d = rd_accept_transfer_signers d' \<and>
          (rd_status d' = rd_status d \<or>
           rd_status d = rd_code RD_DETECTED \<and> rd_status d' = rd_code RD_ACCEPTED \<and> scan_confirmed sv entries d')) \<or>
       (rune_deposit_key d' \<notin> rune_deposit_key ` set old \<and>
        rd_evm_tx_hash d' = None \<and> rd_accept_transfer_signatures d' = [] \<and> rd_accept_transfer_signers d' = [] \<and>
        (rd_status d' = rd_code RD_DETECTED \<or>
         rd_status d' = rd_code RD_ACCEPTED \<and> scan_confirmed sv entries d'))))"

definition scan_invariant ::
  "rune_service \<Rightarrow> pyord \<Rightarrow> (listed_tx \<times> output_response option) list \<Rightarrow> deposit_address list \<Rightarrow>
   rune_deposit list \<Rightarrow> rune_world \<Rightarrow> bool" where
  "scan_invariant sv py entries das old w \<longleftrightarrow>
     db_deposit_addresses (w_db w) = das \<and>
     rune_deposit_key ` set old \<subseteq> rune_deposit_key ` set (db_rune_deposits (w_db w)) \<and>
     (\<forall>d \<in> set (db_rune_deposits (w_db w)). scanned sv py entries das old d)"

lemma scan_invariantI:
  "scan_invariant sv py entries das old w \<Longrightarrow> db_deposit_addresses (w_db v) = db_deposit_addresses (w_db w) \<Longrightarrow>
   db_rune_deposits (w_db v) = db_rune_deposits (w_db w) \<Longrightarrow> scan_invariant sv py entries das old v"
  by (simp add: scan_invariant_def)

text \<open>Every outcome of storing one balance.\<close>

lemma store_rune_deposit_outcome:
  fixes sv py tx out b u spaced entry w
  defines "w' \<equiv> snd (store_rune_deposit sv py tx out b u (spaced, entry) w)"
  defines "confirmed \<equiv> lt_confirmations tx \<ge> rc_btc_min_confirmations (sv_config sv)"
  shows "w_db w' = w_db w \<or>
    (\<exists>n bid rune am h.
       rune_from_str py spaced = Inr n \<and> bridge_id sv = Inr bid \<and> ru_n rune = n \<and>
       calculate_rune_to_evm_transfer_amounts (rc_runes_to_evm_fee_percentage_decimal (sv_config sv))
         (rb_amount entry) (rb_divisibility entry) = Inr am \<and>

       ((\<exists>d. d \<in> set (db_rune_deposits (w_db w)) \<and> rune_deposit_key d = (bid, lt_txid tx, lt_vout tx, n) \<and>
          w_db w' = db_rune_deposits_update (update_where (\<lambda>e. rd_id e = rd_id d)
            (set_deposit_fields confirmed b h u out entry am rune)) (w_db w)) \<or>
        (\<exists>d. (bid, lt_txid tx, lt_vout tx, n) \<notin> rune_deposit_key ` set (db_rune_deposits (w_db w)) \<and>
          rune_deposit_key d = (bid, lt_txid tx, lt_vout tx, n) \<and> rd_status d = rd_code RD_DETECTED \<and>
          rd_evm_tx_hash d = None \<and> rd_accept_transfer_signatures d = [] \<and> rd_accept_transfer_signers d = [] \<and>
          w_db w' = db_rune_deposits_update
            (\<lambda>ds. ds @ [set_deposit_fields confirmed b h u out entry am rune d]) (w_db w))))"
proof -
  let ?f = "\<lambda>am h rune. set_deposit_fields confirmed b h u out entry am rune"
  note defs = store_rune_deposit_def Let_def prog_simps notice_def insert_rune_deposit_def update_rune_deposit_def
  show ?thesis
  proof (cases "rune_from_str py spaced")
    case (Inr n)
    note n = this
    show ?thesis
    proof (cases "bridge_id sv")
      case (Inr bid)
      note bid = this
      show ?thesis
      proof (cases "exactly_one (filter (\<lambda>r. ru_bridge_id r = bid \<and> ru_n r = n) (db_runes (w_db w)))")
        case (Inr rune)
        note rune = this
        then have rn: "ru_n rune = n" by (simp add: exactly_one_Inr) (metis (mono_tags, lifting) filter_singletonD)
        show ?thesis
        proof (cases "calculate_rune_to_evm_transfer_amounts (rc_runes_to_evm_fee_percentage_decimal (sv_config sv))
             (rb_amount entry) (rb_divisibility entry)")
          case (Inr am)
          note am = this
          let ?p = "\<lambda>d. rd_bridge_id d = bid \<and> rd_tx_id d = lt_txid tx \<and> rd_vout d = lt_vout tx \<and> rd_rune_number d = n"
          show ?thesis
          proof (cases "one_or_none (filter ?p (db_rune_deposits (w_db w)))")
            case (Inr found)
            note found = this
            show ?thesis
            proof (cases "lt_blockheight tx")
              case (Some h)
              show ?thesis
              proof (cases found)
                case (Some d)
                then have "filter ?p (db_rune_deposits (w_db w)) = [d]" using found by (simp add: one_or_none_Some)
                then have "d \<in> set (db_rune_deposits (w_db w)) \<and> ?p d" by (rule filter_singletonD)
                then have d: "d \<in> set (db_rune_deposits (w_db w))" "rune_deposit_key d = (bid, lt_txid tx, lt_vout tx, n)"
                  by (auto simp: rune_deposit_key_def)
                have "w_db w' = db_rune_deposits_update (update_where (\<lambda>e. rd_id e = rd_id d) (?f am h rune)) (w_db w)"
                  using n bid rune rn am found Some \<open>lt_blockheight tx = Some h\<close>
                  by (simp add: w'_def confirmed_def defs)
                with n bid rn am d show ?thesis by blast
              next
                case None
                then have "filter ?p (db_rune_deposits (w_db w)) = []" using found by (simp add: one_or_none_None)
                then have nk: "(bid, lt_txid tx, lt_vout tx, n) \<notin> rune_deposit_key ` set (db_rune_deposits (w_db w))"
                  by (auto simp: filter_empty_conv rune_deposit_key_def)
                let ?d = "\<lparr>rd_id = w_seqs w ''rune_deposit'', rd_bridge_id = bid, rd_tx_id = lt_txid tx, rd_vout = lt_vout tx,
                  rd_block_number = h, rd_rune_number = n, rd_rune_id = ru_id rune,
                  rd_user_id = u, rd_incoming_btc_tx_id = b, rd_postage = or_value out,
                  rd_transfer_amount_raw = rb_amount entry, rd_net_amount_raw = net_amount_raw am,
                  rd_evm_tx_hash = None, rd_accept_transfer_message_hash = None,
                  rd_accept_transfer_signatures = [], rd_accept_transfer_signers = [],
                  rd_status = rd_code RD_DETECTED\<rparr>"
                have d: "rune_deposit_key ?d = (bid, lt_txid tx, lt_vout tx, n)" "rd_status ?d = rd_code RD_DETECTED"
                  "rd_evm_tx_hash ?d = None" "rd_accept_transfer_signatures ?d = []" "rd_accept_transfer_signers ?d = []"
                  by (simp_all add: rune_deposit_key_def)
                have "w_db w' = db_rune_deposits_update (\<lambda>ds. ds @ [?f am h rune ?d]) (w_db w)"
                  using n bid rune rn am found None nk \<open>lt_blockheight tx = Some h\<close>
                  by (simp add: w'_def confirmed_def defs rune_deposit_key_def set_deposit_fields_def)
                with n bid rn am nk d show ?thesis by blast
              qed
            qed (use n bid rune rn am found in \<open>simp add: w'_def defs split: option.splits\<close>)
          qed (use n bid rune rn am in \<open>simp add: w'_def defs\<close>)
        qed (use n bid rune in \<open>simp add: w'_def defs\<close>)
      qed (use n bid in \<open>simp add: w'_def defs\<close>)
    qed (use n in \<open>simp add: w'_def defs\<close>)
  qed (simp add: w'_def defs)
qed

lemma scanned_update:
  assumes d: "scanned sv py entries das old d"
    and ev: "scan_evidence sv py entries das (set_deposit_fields c b h u out entry am rune d)"
    and conf: "c \<Longrightarrow> scan_confirmed sv entries (set_deposit_fields c b h u out entry am rune d)"
  shows "scanned sv py entries das old (set_deposit_fields c b h u out entry am rune d)"
proof -
  let ?d = "set_deposit_fields c b h u out entry am rune d"
  have keep: "scan_confirmed sv entries ?d" if "scan_confirmed sv entries d"
    using that by (simp add: scan_confirmed_def)
  show ?thesis
  proof (cases "d \<in> set old")
    case True
    have "rd_status ?d = rd_status d \<or>
      rd_status d = rd_code RD_DETECTED \<and> rd_status ?d = rd_code RD_ACCEPTED \<and> scan_confirmed sv entries ?d"
      using conf by (cases c) (auto simp: accept_rune_deposit_def)
    then show ?thesis unfolding scanned_def
      by - (rule disjI2, rule conjI[OF ev], rule disjI1, rule bexI[OF _ True], simp)
  next
    case False
    have st: "rd_status ?d = rd_status d \<or>
      rd_status d = rd_code RD_DETECTED \<and> rd_status ?d = rd_code RD_ACCEPTED \<and> scan_confirmed sv entries ?d"
      using conf by (cases c) (auto simp: accept_rune_deposit_def)
    from d False consider
      (old) d0 where "d0 \<in> set old" "rd_id d0 = rd_id d" "rune_deposit_key d0 = rune_deposit_key d"
        "rd_evm_tx_hash d0 = rd_evm_tx_hash d"
        "rd_accept_transfer_signatures d0 = rd_accept_transfer_signatures d"
        "rd_accept_transfer_signers d0 = rd_accept_transfer_signers d"
        "rd_status d = rd_status d0 \<or>
         rd_status d0 = rd_code RD_DETECTED \<and> rd_status d = rd_code RD_ACCEPTED \<and> scan_confirmed sv entries d"
    | (new) "rune_deposit_key d \<notin> rune_deposit_key ` set old"
        "rd_evm_tx_hash d = None \<and> rd_accept_transfer_signatures d = [] \<and> rd_accept_transfer_signers d = []"
        "rd_status d = rd_code RD_DETECTED \<or> rd_status d = rd_code RD_ACCEPTED \<and> scan_confirmed sv entries d"
      unfolding scanned_def by blast
    then show ?thesis
    proof cases
      case old
      have "rd_status ?d = rd_status d0 \<or>
         rd_status d0 = rd_code RD_DETECTED \<and> rd_status ?d = rd_code RD_ACCEPTED \<and> scan_confirmed sv entries ?d"
        using old(7) st keep by auto
      then show ?thesis using old(2-6) unfolding scanned_def
        by - (rule disjI2, rule conjI[OF ev], rule disjI1, rule bexI[OF _ old(1)], simp)
    next
      case new
      have "rd_status ?d = rd_code RD_DETECTED \<or> rd_status ?d = rd_code RD_ACCEPTED \<and> scan_confirmed sv entries ?d"
        using new(3) st keep by auto
      then show ?thesis using new(1,2) unfolding scanned_def
        by - (rule disjI2, rule conjI[OF ev], rule disjI2, simp)
    qed
  qed
qed

lemma store_rune_deposit_invariant:
  assumes ok: "rune_tables_ok w" and inv: "scan_invariant sv py entries das old w"
    and tx: "(tx, Some out) \<in> set entries" "or_indexed out" "(spaced, entry) \<in> set (or_runes out)"
    and da: "da \<in> set das" "lt_address tx = Some (da_btc_address da)" "u = da_user_id da"
  shows "scan_invariant sv py entries das old (snd (store_rune_deposit sv py tx out b u (spaced, entry) w))"
    (is "scan_invariant _ _ _ _ _ ?w'")
proof -
  define c where "c \<longleftrightarrow> lt_confirmations tx \<ge> rc_btc_min_confirmations (sv_config sv)"
  have ev: "scan_evidence sv py entries das (set_deposit_fields c b h u out entry am rune d)"
    if "rune_from_str py spaced = Inr n" "rune_deposit_key d = (bid, lt_txid tx, lt_vout tx, n)"
      "calculate_rune_to_evm_transfer_amounts (rc_runes_to_evm_fee_percentage_decimal (sv_config sv))
         (rb_amount entry) (rb_divisibility entry) = Inr am" for n bid am rune h d
    unfolding scan_evidence_def
    by (rule exI[of _ tx], rule exI[of _ out], rule exI[of _ spaced], rule exI[of _ entry], rule exI[of _ am],
        rule exI[of _ da]) (use that tx da in \<open>auto simp: rune_deposit_key_def\<close>)
  have conf: "scan_confirmed sv entries (set_deposit_fields c b h u out entry am rune d)"
    if "c" "rune_deposit_key d = (bid, lt_txid tx, lt_vout tx, n)" for n bid am rune h d
    using that tx(1) by (auto simp: scan_confirmed_def c_def rune_deposit_key_def)
  from store_rune_deposit_outcome[of sv py tx out b u spaced entry w, folded c_def]
  consider (same) "w_db ?w' = w_db w"
    | (upd) n bid rune am h d where "rune_from_str py spaced = Inr n"
        "calculate_rune_to_evm_transfer_amounts (rc_runes_to_evm_fee_percentage_decimal (sv_config sv))
         (rb_amount entry) (rb_divisibility entry) = Inr am"
        "d \<in> set (db_rune_deposits (w_db w))" "rune_deposit_key d = (bid, lt_txid tx, lt_vout tx, n)"
        "w_db ?w' = db_rune_deposits_update (update_where (\<lambda>e. rd_id e = rd_id d)
            (set_deposit_fields c b h u out entry am rune)) (w_db w)"
    | (ins) n bid rune am h d where "rune_from_str py spaced = Inr n"
        "calculate_rune_to_evm_transfer_amounts (rc_runes_to_evm_fee_percentage_decimal (sv_config sv))
         (rb_amount entry) (rb_divisibility entry) = Inr am"
        "(bid, lt_txid tx, lt_vout tx, n) \<notin> rune_deposit_key ` set (db_rune_deposits (w_db w))"
        "rune_deposit_key d = (bid, lt_txid tx, lt_vout tx, n)" "rd_status d = rd_code RD_DETECTED"
        "rd_evm_tx_hash d = None" "rd_accept_transfer_signatures d = []" "rd_accept_transfer_signers d = []"
        "w_db ?w' = db_rune_deposits_update
            (\<lambda>ds. ds @ [set_deposit_fields c b h u out entry am rune d]) (w_db w)"
    by blast
  then show ?thesis
  proof cases
    case same
    then show ?thesis using inv by (simp add: scan_invariant_def)
  next
    case upd
    let ?f = "set_deposit_fields c b h u out entry am rune"
    have ids: "distinct (map rd_id (db_rune_deposits (w_db w)))"
      using ok by (simp add: rune_tables_ok_def table_ok_def Let_def)
    have "scanned sv py entries das old e'"
      if e': "e' \<in> set (update_where (\<lambda>e. rd_id e = rd_id d) ?f (db_rune_deposits (w_db w)))" for e'
    proof -
      obtain e where e: "e \<in> set (db_rune_deposits (w_db w))" "e' = (if rd_id e = rd_id d then ?f e else e)"
        using e' by (auto simp: set_update_where)
      have se: "scanned sv py entries das old e" using inv e(1) by (simp add: scan_invariant_def)
      show ?thesis
      proof (cases "rd_id e = rd_id d")
        case True
        then have "e = d" using ids e(1) upd(3) by (auto simp: distinct_map dest: inj_onD)
        then show ?thesis
          using scanned_update[OF se, of c b h u out entry am rune] ev[OF upd(1,4,2)] conf[OF _ upd(4)] e(2)
          by simp
      qed (use se e(2) in simp)
    qed
    moreover have "rune_deposit_key ` set (update_where (\<lambda>e. rd_id e = rd_id d) ?f (db_rune_deposits (w_db w))) =
        rune_deposit_key ` set (db_rune_deposits (w_db w))"
      by (metis set_map set_deposit_fields_simps(2) update_where_map)
    ultimately show ?thesis using inv upd(5) by (auto simp: scan_invariant_def)
  next
    case ins
    let ?d = "set_deposit_fields c b h u out entry am rune d"
    have "rune_deposit_key d \<notin> rune_deposit_key ` set old"
      using ins(3,4) inv by (auto simp: scan_invariant_def)
    moreover have "rd_status ?d = rd_code RD_DETECTED \<or>
        rd_status ?d = rd_code RD_ACCEPTED \<and> scan_confirmed sv entries ?d"
      using conf[OF _ ins(4)] ins(5) by (cases c) (auto simp: accept_rune_deposit_def)
    ultimately have "scanned sv py entries das old ?d"
      unfolding scanned_def using ins(6-8)
      by - (rule disjI2, rule conjI[OF ev[OF ins(1,4,2)]], rule disjI2, simp)
    then show ?thesis using inv ins(9) by (auto simp: scan_invariant_def)
  qed
qed

text \<open>The whole store keeps the invariant.\<close>

definition scan_state ::
  "rune_service \<Rightarrow> pyord \<Rightarrow> (listed_tx \<times> output_response option) list \<Rightarrow> deposit_address list \<Rightarrow>
   rune_deposit list \<Rightarrow> rune_world \<Rightarrow> bool" where
  "scan_state sv py entries das old w \<longleftrightarrow> rune_tables_ok w \<and> scan_invariant sv py entries das old w"

lemma keeps_scan_stateI:
  assumes "keeps_tables m"
    and "\<And>w. db_deposit_addresses (w_db (snd (m w))) = db_deposit_addresses (w_db w) \<and>
              db_rune_deposits (w_db (snd (m w))) = db_rune_deposits (w_db w)"
  shows "keeps (scan_state sv py entries das old) m"
proof (rule keepsI)
  fix w assume "scan_state sv py entries das old w"
  then show "scan_state sv py entries das old (snd (m w))"
    using keeps_tables_ok[OF assms(1)] scan_invariantI assms(2) by (auto simp: scan_state_def)
qed

lemma keeps_scan_state_index_rune: "keeps (scan_state sv py entries das old) (index_rune sv py e)"
  by (rule keeps_scan_stateI[OF keeps_tables_index_rune])
    (auto simp: index_rune_def insert_rune_def prog_simps split: sum.splits option.splits)

lemma keeps_scan_state_store_btc_tx: "keeps (scan_state sv py entries das old) (store_btc_tx sv tx a)"
  by (rule keeps_scan_stateI[OF keeps_tables_store_btc_tx])
    (auto simp: store_btc_tx_def notice_def insert_incoming_btc_tx_def update_incoming_btc_tx_def
      Let_def prog_simps split: sum.splits option.splits)

lemma keeps_scan_state_store_rune_deposit:
  assumes "(tx, Some out) \<in> set entries" "or_indexed out" "balance \<in> set (or_runes out)"
    "da \<in> set das" "lt_address tx = Some (da_btc_address da)" "u = da_user_id da"
  shows "keeps (scan_state sv py entries das old) (store_rune_deposit sv py tx out b u balance)"
proof (rule keepsI)
  fix w assume w: "scan_state sv py entries das old w"
  obtain spaced entry where b: "balance = (spaced, entry)" by (cases balance)
  show "scan_state sv py entries das old (snd (store_rune_deposit sv py tx out b u balance w))"
    using w keeps_tables_ok[OF keeps_tables_store_rune_deposit]
      store_rune_deposit_invariant[OF _ _ assms(1,2) assms(3)[unfolded b] assms(4-6)]
    unfolding scan_state_def b by blast
qed

lemma keeps_scan_state_store_transaction:
  assumes "entry \<in> set entries"
  shows "keeps (scan_state sv py entries das old) (store_transaction sv py entry)"
proof -
  obtain tx out where e: "entry = (tx, out)" by (cases entry)
  let ?I = "scan_state sv py entries das old"
  have upd: "keeps ?I (update_incoming_btc_tx i (\<lambda>t. t\<lparr>it_user_id := x\<rparr>))" for i x
    by (rule keeps_scan_stateI, rule keeps_tables_updates(1))
      (simp_all add: update_incoming_btc_tx_def incoming_btc_tx_key_def)
  have rest: "keeps ?I (case out of None \<Rightarrow> ok 0
      | Some out \<Rightarrow> sq (for_each (or_runes out) (store_rune_deposit sv py tx out i (da_user_id da)))
                 (ok (int (length (or_runes out)))))"
    if "case out of Some out \<Rightarrow> or_indexed out | None \<Rightarrow> True" "da \<in> set das"
      "lt_address tx = Some (da_btc_address da)" for da i
    using that assms
    by (auto simp: e split: option.splits
        intro!: keeps_intros keeps_scan_state_store_rune_deposit)
  show ?thesis
    unfolding store_transaction_def e Let_def fst_conv snd_conv
  proof (rule keeps_bnd_from)
    fix a s
    assume "fst (lift_res (case lt_address tx of None \<Rightarrow> Inl KeyError | Some a \<Rightarrow> Inr a) (s :: rune_world)) = Inr a"
    then have a: "lt_address tx = Some a" by (auto split: option.splits)
    show "keeps ?I (sq (demand (case out of Some out \<Rightarrow> or_indexed out | None \<Rightarrow> True) AssertionError)
     (bnd (store_btc_tx sv tx a) (\<lambda>btc_tx.
      bnd (query_one_or_none db_deposit_addresses (\<lambda>x. da_btc_address x = a)) (\<lambda>found.
      case found of
        None \<Rightarrow> ok 0
      | Some deposit_address \<Rightarrow>
          sq (update_incoming_btc_tx (it_id btc_tx) (\<lambda>t. t\<lparr>it_user_id := Some (da_user_id deposit_address)\<rparr>))
         (bnd (related db_users (\<lambda>u. us_id u = da_user_id deposit_address)) (\<lambda>user.
          case out of None \<Rightarrow> ok 0
          | Some out \<Rightarrow>
              sq (for_each (or_runes out)
                    (store_rune_deposit sv py tx out (it_id btc_tx) (da_user_id deposit_address)))
                 (ok (int (length (or_runes out))))))))))"
    proof (rule keeps_after_demand, rule keeps_bnd, rule keeps_scan_state_store_btc_tx, rule keeps_bnd_from)
      fix btc_tx found s
      assume ix: "case out of Some out \<Rightarrow> or_indexed out | None \<Rightarrow> True" and s: "?I s"
        and f: "fst (query_one_or_none db_deposit_addresses (\<lambda>x. da_btc_address x = a) s) = Inr found"
      show "keeps ?I (case found of None \<Rightarrow> ok 0
        | Some deposit_address \<Rightarrow>
          sq (update_incoming_btc_tx (it_id btc_tx) (\<lambda>t. t\<lparr>it_user_id := Some (da_user_id deposit_address)\<rparr>))
         (bnd (related db_users (\<lambda>u. us_id u = da_user_id deposit_address)) (\<lambda>user.
          case out of None \<Rightarrow> ok 0
          | Some out \<Rightarrow>
              sq (for_each (or_runes out)
                    (store_rune_deposit sv py tx out (it_id btc_tx) (da_user_id deposit_address)))
                 (ok (int (length (or_runes out)))))))"
      proof (cases found)
        case (Some da)
        then have "filter (\<lambda>x. da_btc_address x = a) (db_deposit_addresses (w_db s)) = [da]"
          using f by (simp add: run_query_one_or_none one_or_none_Some)
        then have "da \<in> set das" "lt_address tx = Some (da_btc_address da)"
          using s a filter_singletonD by (fastforce simp: scan_state_def scan_invariant_def)+
        then show ?thesis using Some upd rest[OF ix] by (auto intro!: keeps_sq keeps_bnd)
      qed simp
    qed simp
  qed simp
qed

lemma store_scan_state:
  assumes "scan_state sv py entries (db_deposit_addresses (w_db w)) (db_rune_deposits (w_db w)) w"
  shows "scan_state sv py entries (db_deposit_addresses (w_db w)) (db_rune_deposits (w_db w))
    (snd (store_scan sv py res entries check new_block w))"
proof -
  let ?I = "scan_state sv py entries (db_deposit_addresses (w_db w)) (db_rune_deposits (w_db w))"
  have set: "keeps ?I (rune_kv_set k v)" for k v
    by (rule keeps_scan_stateI[OF keeps_tables_kv_set]) (simp add: run_rune_kv_set)
  let ?m = "sq (for_each res (index_rune sv py))
     (bnd (collect entries (store_transaction sv py)) (\<lambda>counts.
      bnd (rune_kv_get (last_block_key sv) (Some JNone)) (\<lambda>got.
      sq (demand (got = check) RuntimeError)
     (sq (rune_kv_set (last_block_key sv) (JStr new_block)) (ok (sum_list counts))))))"
  have m: "keeps ?I ?m"
    by (intro keeps_sq keeps_bnd keeps_for_each keeps_collect keeps_scan_state_index_rune
        keeps_scan_state_store_transaction keeps_queries keeps_rune_queries keeps_demand keeps_ok set)
  have t: "rune_tables_ok (snd (in_tx ?m w))"
    using keeps_tables_ok[OF keeps_tables_store_scan, of w sv py res entries check new_block] assms
    by (simp add: store_scan_def scan_state_def)
  obtain r v where run: "?m w = (r, v)" by (cases "?m w")
  show ?thesis
  proof (cases r)
    case (Inl e)
    then have "w_db (snd (in_tx ?m w)) = w_db w" using run by (simp add: in_tx_def)
    then have "scan_invariant sv py entries (db_deposit_addresses (w_db w)) (db_rune_deposits (w_db w)) (snd (in_tx ?m w))"
      using assms scan_invariantI[of _ _ _ _ _ w] by (simp add: scan_state_def)
    with t show ?thesis by (simp add: scan_state_def store_scan_def)
  next
    case (Inr x)
    then have "snd (in_tx ?m w) = v" using run by (simp add: in_tx_def)
    then show ?thesis using keepsD'[OF m assms run] by (simp add: store_scan_def)
  qed
qed

lemma scan_outcome:
  assumes "rune_tables_ok w" and run: "scan_rune_deposits sv py ord clock node ca w = (Inr n, w')"
  shows "\<exists>resp b entries names. dn_listsinceblock node b (rc_btc_listsinceblock_buffer (sv_config sv)) = Inr resp \<and>
    fetch_transactions ord ca (ls_transactions resp) [] = Inr (entries, names) \<and>
    (\<forall>e \<in> set entries. fetched_entry ca (ls_transactions resp) e) \<and>
    (\<forall>d \<in> set (db_rune_deposits (w_db w')).
       scanned sv py entries (db_deposit_addresses (w_db w)) (db_rune_deposits (w_db w)) d) \<and>
    rune_deposit_key ` set (db_rune_deposits (w_db w)) \<subseteq> rune_deposit_key ` set (db_rune_deposits (w_db w')) \<and>
    distinct (map rune_deposit_key (db_rune_deposits (w_db w'))) \<and>
    get_value (db_kv (w_db w')) (last_block_key sv) None = Inr (JStr (ls_lastblock resp))"
proof -
  obtain last_bitcoin_block where last: "get_value (db_kv (w_db w)) (last_block_key sv) (Some JNone) = Inr last_bitcoin_block"
    using run by (cases "get_value (db_kv (w_db w)) (last_block_key sv) (Some JNone)")
      (auto simp: scan_rune_deposits_def Let_def prog_simps)
  obtain b resp where resp: "dn_listsinceblock node b (rc_btc_listsinceblock_buffer (sv_config sv)) = Inr resp"
    and rest: "sq (lift_res (sync_ord_with_bitcoind ord clock node))
     (bnd (lift_res (fetch_transactions ord ca (ls_transactions resp) [])) (\<lambda>(transactions, rune_names).
      bnd (lift_res (fetch_rune_entries ord rune_names)) (\<lambda>rune_entries.
      store_scan sv py rune_entries transactions last_bitcoin_block (ls_lastblock resp)))) w = (Inr n, w')"
    using run last by (auto simp: scan_rune_deposits_def Let_def prog_simps jval_true_def
        split: if_splits sum.splits jval.splits)
  obtain entries names res where f: "fetch_transactions ord ca (ls_transactions resp) [] = Inr (entries, names)"
    and st: "store_scan sv py res entries last_bitcoin_block (ls_lastblock resp) w = (Inr n, w')"
    using rest by (auto simp: prog_simps split: sum.splits prod.splits)
  have "scan_state sv py entries (db_deposit_addresses (w_db w)) (db_rune_deposits (w_db w)) w"
    using assms(1) by (simp add: scan_state_def scan_invariant_def scanned_def)
  from store_scan_state[OF this, of res last_bitcoin_block "ls_lastblock resp"] st
  have s: "scan_state sv py entries (db_deposit_addresses (w_db w)) (db_rune_deposits (w_db w)) w'" by simp
  have kv: "get_value (db_kv (w_db w')) (last_block_key sv) None = Inr (JStr (ls_lastblock resp))"
    using st by (auto simp: store_scan_def in_tx_eq_Inr ran_ok run_rune_kv_set kv.get_put)
  have keys: "distinct (map rune_deposit_key (db_rune_deposits (w_db w')))"
    using s by (simp add: scan_state_def rune_tables_ok_def table_ok_def Let_def)
  show ?thesis
    using s resp f kv keys fetch_transactions_entries[OF f]
    unfolding scan_state_def scan_invariant_def by blast
qed

lemma scan_failure:
  assumes "scan_rune_deposits sv py ord clock node ca w = (Inl e, w')"
  shows "w_db w' = w_db w"
proof -
  have store: "w_db v' = w_db v" if "store_scan sv py res entries check new_block v = (Inl e, v')"
    for res entries check new_block v v'
    using that by (auto simp: store_scan_def run_in_tx split: prod.splits sum.splits)
  show ?thesis
    using assms
    by (auto simp: scan_rune_deposits_def Let_def prog_simps dest!: store
        split: sum.splits prod.splits if_splits jval.splits)
qed

text \<open>
  C7. What a scan stores is backed by Bitcoin and ord. After a successful scan, every deposit row is
  one of before, untouched, or there is an indexed output of the node's response that pays a deposit
  address of the row's user and carries exactly the row's amount of the row's rune, and the net amount
  is the one calculated from it; its status only went from detected to accepted, and only with the
  required confirmations; transaction hash and signatures are not touched; no deposit is lost, no
  key is duplicated, and the position is the last block of the response.
\<close>

theorem scan_rune_deposits_sound:
  assumes "rune_tables_ok w" and run: "scan_rune_deposits sv py ord clock node ca w = (Inr n, w')"
  shows "\<exists>resp b entries names. dn_listsinceblock node b (rc_btc_listsinceblock_buffer (sv_config sv)) = Inr resp \<and>
    fetch_transactions ord ca (ls_transactions resp) [] = Inr (entries, names) \<and>
    (\<forall>e \<in> set entries. fetched_entry ca (ls_transactions resp) e) \<and>
    (\<forall>d \<in> set (db_rune_deposits (w_db w')).
       scanned sv py entries (db_deposit_addresses (w_db w)) (db_rune_deposits (w_db w)) d) \<and>
    rune_deposit_key ` set (db_rune_deposits (w_db w)) \<subseteq> rune_deposit_key ` set (db_rune_deposits (w_db w')) \<and>
    distinct (map rune_deposit_key (db_rune_deposits (w_db w'))) \<and>
    get_value (db_kv (w_db w')) (last_block_key sv) None = Inr (JStr (ls_lastblock resp))"
  using assms by (rule scan_outcome)

text \<open>
  A scan is atomic: one that fails, whatever the node, ord or the database answered, leaves the
  database as it was, so the next one starts from the same position.
\<close>

theorem scan_rune_deposits_atomic:
  assumes "scan_rune_deposits sv py ord clock node ca w = (Inl e, w')"
  shows "w_db w' = w_db w"
  using assms by (rule scan_failure)

section \<open>An example\<close>

definition example_unicode :: unicode where
  "example_unicode = \<lparr>uc_alpha = (\<lambda>c. 65 \<le> c \<and> c \<le> 90), uc_upper = (\<lambda>c. 65 \<le> c \<and> c \<le> 90),
     uc_lower_or_title = (\<lambda>c. 97 \<le> c \<and> c \<le> 122)\<rparr>"

text \<open>Two runes, named A (number 0) and B (number 1).\<close>

definition example_pyord :: pyord where
  "example_pyord = \<lparr>py_unicode = example_unicode,
     py_from_str = (\<lambda>s. if s = [65] then Inr 0 else if s = [66] then Inr 1 else Inl ValueError),
     py_name = (\<lambda>n. if n = 0 then [65] else [66])\<rparr>"

definition example_config :: rune_config where
  "example_config = \<lparr>rc_bridge_id = ''runes'', rc_evm_block_safety_margin = 0, rc_evm_default_start_block = 1,
     rc_runes_to_evm_fee_percentage_decimal = Dec 4 (-1), rc_btc_min_confirmations = 1,
     rc_btc_min_postage_sat = 10000, rc_btc_listsinceblock_buffer = 6, rc_btc_network = ''regtest'',
     rc_btc_max_fee_rate_sats_per_vbyte = 300\<rparr>"

definition example_service :: rune_service where
  "example_service = \<lparr>sv_config = example_config, sv_bridge_id = Some 1\<rparr>"

definition example_db :: rune_db where
  "example_db = \<lparr>db_kv = Map.empty, db_bridges = [\<lparr>br_id = 1, br_name = ''runes''\<rparr>],
     db_users = [\<lparr>us_id = 1, us_bridge_id = 1, us_evm_address = ''0xAA''\<rparr>],
     db_deposit_addresses = [\<lparr>da_user_id = 1, da_btc_address = ''bc1''\<rparr>],
     db_incoming_btc_txs = [], db_runes = [], db_rune_deposits = [], db_rune_token_deposits = []\<rparr>"

definition example_world :: rune_world where
  "example_world = \<lparr>w_db = example_db, w_seqs = (\<lambda>_. 2), w_effects = []\<rparr>"

definition example_ord :: ord_server where
  "example_ord = \<lparr>os_rune = (\<lambda>_. Inr \<lparr>hr_status_code = 200, hr_json = Inr \<lparr>rr_entry =
       \<lparr>re_spaced_rune = [65], re_symbol = [65], re_divisibility = 2, re_turbo = False\<rparr>, rr_id = ''1:1''\<rparr>\<rparr>),
     os_output = (\<lambda>txid vout _. Inr \<lparr>hr_status_code = 200, hr_json = Inr
       \<lparr>or_indexed = True, or_spent = False, or_transaction = txid, or_value = 10000,
        or_runes = [([65], \<lparr>rb_amount = 1000, rb_divisibility = 2\<rparr>)], or_inscriptions = []\<rparr>\<rparr>),
     os_blockcount = (\<lambda>_. Inr \<lparr>hr_status_code = 200, hr_json = Inr 7\<rparr>)\<rparr>"

definition example_node :: deposit_node where
  "example_node = \<lparr>dn_listsinceblock = (\<lambda>_ _. Inr \<lparr>ls_lastblock = ''00ff'', ls_transactions =
       [\<lparr>lt_category = ''receive'', lt_address = Some ''bc1'', lt_txid = ''ab'', lt_vout = 1, lt_confirmations = 2,
         lt_blockheight = Some 6, lt_time = 100, lt_amount = Dec 10000 (-8)\<rparr>]\<rparr>),
     dn_getblockcount = Inr 7, dn_getblock = (\<lambda>_. Inr \<lparr>bi_time = 90, bi_height = 1\<rparr>)\<rparr>"

lemma example_tables_ok: "rune_tables_ok example_world"
  by (simp add: rune_tables_ok_def example_world_def example_db_def table_ok_def Let_def)

lemmas example_defs = example_unicode_def example_pyord_def example_config_def example_service_def
  example_db_def example_world_def example_ord_def example_node_def

lemma example_remove_spacers: "remove_spacers example_unicode [65] = Inr [65]"
  by (simp add: remove_spacers_def example_unicode_def str_isalpha_def str_isupper_def is_spacer_def)

lemma example_rune: "rune_from_str example_pyord [65] = Inr 0"
  using example_remove_spacers by (simp add: rune_from_str_def example_pyord_def)

definition example_entry :: rune_entry where
  "example_entry = \<lparr>re_spaced_rune = [65], re_symbol = [65], re_divisibility = 2, re_turbo = False\<rparr>"

definition example_rune_row :: rune where
  "example_rune_row = \<lparr>ru_id = 2, ru_bridge_id = 1, ru_n = 0, ru_name = [65], ru_spaced_name = [65],
     ru_symbol = [65], ru_divisibility = 2, ru_turbo = False\<rparr>"

definition example_tx :: listed_tx where
  "example_tx = hd (ls_transactions (projr (dn_listsinceblock example_node '''' 6)))"

definition example_out :: output_response where
  "example_out = projr (get_output example_ord ''ab'' 1 0)"

lemma example_facts:
  "bridge_id example_service = Inr 1" "sv_config example_service = example_config"
  "py_name example_pyord 0 = [65]"
  "lt_address example_tx = Some ''bc1''" "lt_txid example_tx = ''ab''" "lt_vout example_tx = 1"
  "lt_confirmations example_tx = 2" "lt_blockheight example_tx = Some 6"
  "or_indexed example_out" "or_runes example_out = [([65], \<lparr>rb_amount = 1000, rb_divisibility = 2\<rparr>)]"
  "dn_listsinceblock example_node '''' 6 = Inr \<lparr>ls_lastblock = ''00ff'', ls_transactions = [example_tx]\<rparr>"
  by (simp_all add: bridge_id_def example_service_def example_pyord_def example_tx_def example_node_def
      example_out_def get_output_def ord_request_def http_ok_def example_ord_def)

lemma example_fetch:
  "fetch_transactions example_ord ''bcc'' [example_tx] [] = Inr ([(example_tx, Some example_out)], [[65]])"
  "sync_ord_with_bitcoind example_ord (\<lambda>k. of_nat k) example_node = Inr ()"
  "fetch_rune_entries example_ord [[65]] = Inr [example_entry]"
  by (simp_all add: example_node_def example_ord_def numeral_eq_Suc get_output_def ord_request_def http_ok_def
      add_names_def example_tx_def example_out_def sync_ord_with_bitcoind_def get_rune_def example_entry_def)

text \<open>With ord as far as the node, the wait is over at the first test.\<close>

theorem sync_ord_with_bitcoind_ends_witness:
  "sync_ord_with_bitcoind example_ord (\<lambda>k. of_nat k) example_node = Inr () \<and>
   (\<exists>j \<le> 60. \<exists>c. ord_request (os_blockcount example_ord j) = Inr c)"
proof -
  have "dn_getblockcount example_node = Inr 7" by (simp add: example_node_def)
  from sync_ord_with_bitcoind_ends[of "\<lambda>k. of_nat k" example_node 7 example_ord, OF _ _ this] example_fetch(2)
  show ?thesis by auto
qed

text \<open>The first scan, step by step: the rune and the deposit are stored.\<close>

lemma example_index:
  "\<exists>w1. index_rune example_service example_pyord example_entry example_world = (Inr (), w1) \<and>
     w_db w1 = example_db\<lparr>db_runes := [example_rune_row]\<rparr>"
  by (simp add: index_rune_def example_entry_def example_rune prog_simps insert_rune_def example_facts
      example_world_def example_db_def example_rune_row_def)

lemma example_store_btc_tx:
  assumes "w_db w = example_db\<lparr>db_runes := rs\<rparr>"
  shows "\<exists>t w'. store_btc_tx example_service example_tx ''bc1'' w = (Inr t, w') \<and>
    db_deposit_addresses (w_db w') = db_deposit_addresses example_db \<and> db_users (w_db w') = db_users example_db \<and>
    db_runes (w_db w') = rs \<and> db_rune_deposits (w_db w') = [] \<and> db_kv (w_db w') = Map.empty"
  using assms
  by (simp add: store_btc_tx_def Let_def prog_simps example_facts example_db_def notice_def insert_incoming_btc_tx_def)

lemma example_store_rune_deposit:
  assumes "db_runes (w_db w) = [example_rune_row]" "db_rune_deposits (w_db w) = []" "db_kv (w_db w) = Map.empty"
  shows "\<exists>w'. store_rune_deposit example_service example_pyord example_tx example_out i u
      ([65], \<lparr>rb_amount = 1000, rb_divisibility = 2\<rparr>) w = (Inr (), w') \<and> db_kv (w_db w') = Map.empty"
proof -
  obtain am where "calculate_rune_to_evm_transfer_amounts (Dec 4 (-1)) 1000 2 = Inr am"
    using transfer_amounts_exact[of 1000 2 4 1] by auto
  with assms show ?thesis
    by (simp add: store_rune_deposit_def Let_def prog_simps example_facts example_rune notice_def
        insert_rune_deposit_def example_config_def example_rune_row_def)
qed

lemma example_store:
  "\<exists>w'. store_scan example_service example_pyord [example_entry] [(example_tx, Some example_out)] JNone b
     example_world = (Inr 1, w')"
proof -
  obtain w1 where w1: "index_rune example_service example_pyord example_entry example_world = (Inr (), w1)"
    "w_db w1 = example_db\<lparr>db_runes := [example_rune_row]\<rparr>" using example_index by blast
  obtain t w2 where w2: "store_btc_tx example_service example_tx ''bc1'' w1 = (Inr t, w2)"
    "db_deposit_addresses (w_db w2) = db_deposit_addresses example_db" "db_users (w_db w2) = db_users example_db"
    "db_runes (w_db w2) = [example_rune_row]" "db_rune_deposits (w_db w2) = []" "db_kv (w_db w2) = Map.empty"
    using example_store_btc_tx[OF w1(2)] by blast
  define w3 where "w3 = snd (update_incoming_btc_tx (it_id t) (\<lambda>t. t\<lparr>it_user_id := Some 1\<rparr>) w2)"
  have w3: "update_incoming_btc_tx (it_id t) (\<lambda>t. t\<lparr>it_user_id := Some 1\<rparr>) w2 = (Inr (), w3)"
    "db_users (w_db w3) = db_users example_db" "db_runes (w_db w3) = [example_rune_row]"
    "db_rune_deposits (w_db w3) = []" "db_kv (w_db w3) = Map.empty"
    using w2 by (simp_all add: w3_def update_incoming_btc_tx_def)
  obtain w4 where w4: "store_rune_deposit example_service example_pyord example_tx example_out (it_id t) 1
      ([65], \<lparr>rb_amount = 1000, rb_divisibility = 2\<rparr>) w3 = (Inr (), w4)" "db_kv (w_db w4) = Map.empty"
    using example_store_rune_deposit[OF w3(3-5)] by blast
  have a: "db_deposit_addresses example_db = [\<lparr>da_user_id = 1, da_btc_address = ''bc1''\<rparr>]"
    "db_users example_db = [\<lparr>us_id = 1, us_bridge_id = 1, us_evm_address = ''0xAA''\<rparr>]"
    by (simp_all add: example_db_def)
  have "store_transaction example_service example_pyord (example_tx, Some example_out) w1 = (Inr 1, w4)"
    using w2(2) w3 w4 by (simp add: store_transaction_def Let_def prog_simps example_facts w2(1) a)
  then show ?thesis by (simp add: store_scan_def run_in_tx prog_simps w1(1) w4(2) get_value_def)
qed

lemma example_scan:
  "\<exists>w'. scan_rune_deposits example_service example_pyord example_ord (\<lambda>k. of_nat k) example_node ''bcc''
     example_world = (Inr 1, w')"
proof -
  obtain w' where "store_scan example_service example_pyord [example_entry] [(example_tx, Some example_out)]
      JNone ''00ff'' example_world = (Inr 1, w')" using example_store by blast
  moreover have "get_value (db_kv (w_db example_world)) k (Some v) = Inr v" for k v
    by (simp add: example_world_def example_db_def get_value_def)
  ultimately show ?thesis
    by (simp add: scan_rune_deposits_def Let_def prog_simps example_fetch jval_true_def example_facts
        example_config_def del: fetch_transactions.simps fetch_rune_entries.simps)
qed

theorem scan_rune_deposits_sound_witness:
  "\<exists>(w' :: rune_world) entries names. fetch_transactions example_ord ''bcc'' [example_tx] [] = Inr (entries, names) \<and>
    (\<forall>d \<in> set (db_rune_deposits (w_db w')). scanned example_service example_pyord entries
       (db_deposit_addresses (w_db example_world)) (db_rune_deposits (w_db example_world)) d) \<and>
    get_value (db_kv (w_db w')) (last_block_key example_service) None = Inr (JStr ''00ff'')"
proof -
  obtain w' where run: "scan_rune_deposits example_service example_pyord example_ord (\<lambda>k. of_nat k) example_node ''bcc''
     example_world = (Inr 1, w')" using example_scan by blast
  have node: "dn_listsinceblock example_node b i = Inr \<lparr>ls_lastblock = ''00ff'', ls_transactions = [example_tx]\<rparr>" for b i
    by (simp add: example_tx_def example_node_def)
  obtain entries names where
    "fetch_transactions example_ord ''bcc'' [example_tx] [] = Inr (entries, names)"
    "\<forall>d \<in> set (db_rune_deposits (w_db w')). scanned example_service example_pyord entries
       (db_deposit_addresses (w_db example_world)) (db_rune_deposits (w_db example_world)) d"
    "get_value (db_kv (w_db w')) (last_block_key example_service) None = Inr (JStr ''00ff'')"
    using scan_rune_deposits_sound[OF example_tables_ok run]
    by (auto simp: node simp del: fetch_transactions.simps)
  then show ?thesis by blast
qed

theorem scan_rune_deposits_atomic_witness:
  "w_db (snd (scan_rune_deposits (example_service\<lparr>sv_bridge_id := None\<rparr>) example_pyord example_ord (\<lambda>k. of_nat k)
     example_node ''bcc'' example_world)) = example_db"
proof -
  let ?sv = "example_service\<lparr>sv_bridge_id := None\<rparr>"
  have c: "sv_config ?sv = example_config" "bridge_id ?sv = Inl ValueError" by (simp_all add: example_facts bridge_id_def)
  have g: "get_value (db_kv (w_db example_world)) k (Some v) = Inr v" for k v
    by (simp add: example_world_def example_db_def get_value_def)
  have run: "scan_rune_deposits ?sv example_pyord example_ord (\<lambda>k. of_nat k) example_node ''bcc''
     example_world = (Inl ValueError, example_world)"
    by (simp add: scan_rune_deposits_def Let_def prog_simps example_fetch jval_true_def example_facts g c
        example_config_def store_scan_def index_rune_def example_entry_def example_rune run_in_tx
        del: fetch_transactions.simps fetch_rune_entries.simps)
  from scan_rune_deposits_atomic[OF run] run show ?thesis by (simp add: example_world_def)
qed

definition example_eu :: eth_utils where
  "example_eu = \<lparr>eu_is_canonical_address = (\<lambda>b. length b = 20), eu_is_checksum_address = (\<lambda>_. True),
     eu_to_canonical_address = (\<lambda>_. Inl ValueError), eu_to_checksum_address = Inr,
     eu_checksum_of_canonical = (\<lambda>_. '''')\<rparr>"

theorem deposit_address_roundtrip_witness:
  "\<exists>u. fst (get_user_by_deposit_address example_service ''bc1'' example_world) = Inr (Some u) \<and>
     us_evm_address u = ''0xAA''"
proof -
  have gen: "generate_deposit_address example_service example_eu (\<lambda>_. ''bc9'') ''0xAA'' example_world =
      (Inr ''bc1'', example_world)"
    by (simp add: generate_deposit_address_def prog_simps example_facts example_eu_def)
      (simp add: example_world_def example_db_def prog_simps)
  have "sv_bridge_id example_service = Some 1" by (simp add: example_service_def)
  from deposit_address_roundtrip[OF example_tables_ok this gen, of "''0xAA''" "\<lambda>_. ''bc9''"]
  show ?thesis by (auto simp: example_eu_def)
qed

end
