(* ===== verification/Py_Float.thy ===== *)
theory Py_Float
  imports Prelude Complex_Main
begin

text \<open>
  Python's floats as the rationals they denote: the result of an operation is the exact result
  rounded to 53 significant bits, half to even, as IEEE 754 prescribes for doubles. The
  exponent range (overflow, subnormals), infinities and NaN are not modelled; the program
  computes fees, fee rates and gas costs with these operations, all far from those limits.
  The lemmas give the relative error of one rounding and the integers that are exact.
\<close>

fun nbits :: "nat \<Rightarrow> nat" where
  "nbits n = (if n = 0 then 0 else Suc (nbits (n div 2)))"

declare nbits.simps [simp del]

definition round_half_even :: "rat \<Rightarrow> int" where
  "round_half_even x =
     (let f = \<lfloor>x\<rfloor>; r = x - of_int f
      in if r > 1/2 \<or> (r = 1/2 \<and> odd f) then f + 1 else f)"

text \<open>The exponent that scales \<open>\<bar>q\<bar>\<close> into \<open>[2 ^ 52, 2 ^ 53)\<close>.\<close>

definition double_exponent :: "rat \<Rightarrow> int" where
  "double_exponent q =
     (let (a, b) = quotient_of \<bar>q\<bar>;
          e = int (nbits (nat a)) - int (nbits (nat b)) - 53
      in if \<bar>q\<bar> * 2 powi (- e) \<ge> 2 ^ 53 then e + 1 else e)"

definition round_double :: "rat \<Rightarrow> rat" where
  "round_double q =
     (if q = 0 then 0
      else let e = double_exponent q
           in sgn q * of_int (round_half_even (\<bar>q\<bar> * 2 powi (- e))) * 2 powi e)"

definition f_of_int :: "int \<Rightarrow> rat" where
  "f_of_int n = round_double (of_int n)"

definition f_mul :: "rat \<Rightarrow> rat \<Rightarrow> rat" where
  "f_mul x y = round_double (x * y)"

definition f_div :: "rat \<Rightarrow> rat \<Rightarrow> rat" where
  "f_div x y = round_double (x / y)"

text \<open>\<open>int(x)\<close> truncates; \<open>math.ceil(x)\<close> is the ceiling.\<close>

definition f_int :: "rat \<Rightarrow> int" where
  "f_int x = (if x \<ge> 0 then \<lfloor>x\<rfloor> else \<lceil>x\<rceil>)"

section \<open>Error and exactness\<close>

lemma nbits_bounds: "0 < n \<Longrightarrow> 2 ^ (nbits n - 1) \<le> n \<and> n < 2 ^ nbits n \<and> 0 < nbits n"
proof (induction n rule: nbits.induct)
  case (1 n)
  show ?case
  proof (cases "n = 1")
    case True
    then show ?thesis using nbits.simps[of 1] nbits.simps[of 0] by simp
  next
    case False
    define m where "m = n div 2"
    have m: "0 < m" using 1 False by (simp add: m_def div_greater_zero_iff)
    have IH: "2 ^ (nbits m - 1) \<le> m" "m < 2 ^ nbits m" "0 < nbits m"
      using 1 m unfolding m_def by auto
    have nd: "nbits n = Suc (nbits m)" using 1 by (simp add: nbits.simps[of n] m_def)
    have "2 ^ nbits m = 2 * (2::nat) ^ (nbits m - 1)" using IH(3) by (cases "nbits m") auto
    moreover have "2 * m \<le> n" "n < 2 * m + 2" by (auto simp: m_def)
    ultimately show ?thesis using IH unfolding nd by auto
  qed
qed

lemma round_half_even_error: "\<bar>of_int (round_half_even x) - x\<bar> \<le> 1/2"
proof -
  have "of_int \<lfloor>x\<rfloor> \<le> x" "x < of_int \<lfloor>x\<rfloor> + 1" using floor_correct[of x] by simp_all
  moreover have "round_half_even x = (if x - of_int \<lfloor>x\<rfloor> > 1/2 \<or> (x - of_int \<lfloor>x\<rfloor> = 1/2 \<and> odd \<lfloor>x\<rfloor>)
      then \<lfloor>x\<rfloor> + 1 else \<lfloor>x\<rfloor>)"
    by (simp add: round_half_even_def Let_def)
  ultimately show ?thesis unfolding abs_le_iff
    by (cases "x - of_int \<lfloor>x\<rfloor> > 1/2 \<or> (x - of_int \<lfloor>x\<rfloor> = 1/2 \<and> odd \<lfloor>x\<rfloor>)") (simp_all, linarith+)
qed

lemma round_half_even_int [simp]: "round_half_even (of_int n) = n"
  by (simp add: round_half_even_def)

lemma nbits_rat:
  assumes "0 < a"
  shows "(2::rat) powi (int (nbits (nat a)) - 1) \<le> of_int a" "of_int a < (2::rat) powi (int (nbits (nat a)))"
proof -
  define n where "n = nbits (nat a)"
  have b: "2 ^ (n - 1) \<le> nat a" "nat a < 2 ^ n" "0 < n"
    using nbits_bounds[of "nat a"] assms by (auto simp: n_def)
  then have i: "2 ^ (n - 1) \<le> a" "a < 2 ^ n" using assms by (simp_all add: nat_less_iff le_nat_iff)
  have "(2::rat) powi (int n - 1) = of_int (2 ^ (n - 1))"
    using b(3) by (simp add: power_int_def nat_diff_distrib)
  moreover have "of_int (2 ^ (n - 1)) \<le> (of_int a :: rat)" using i(1) by (simp only: of_int_le_iff)
  ultimately show "(2::rat) powi (int (nbits (nat a)) - 1) \<le> of_int a" by (simp add: n_def)
  have "(of_int a :: rat) < of_int (2 ^ n)" using i(2) by (simp only: of_int_less_iff)
  then show "of_int a < (2::rat) powi (int (nbits (nat a)))" by (simp add: n_def)
qed

lemma double_exponent_range:
  assumes "q \<noteq> 0"
  shows "2 ^ 52 \<le> \<bar>q\<bar> * 2 powi (- double_exponent q)" "\<bar>q\<bar> * 2 powi (- double_exponent q) < 2 ^ 53"
proof -
  obtain a b where ab: "quotient_of \<bar>q\<bar> = (a, b)" by (cases "quotient_of \<bar>q\<bar>")
  then have q: "\<bar>q\<bar> = of_int a / of_int b" and b: "0 < b"
    by (simp_all add: quotient_of_div quotient_of_denom_pos)
  have "0 < \<bar>q\<bar>" using assms by simp
  then have a: "0 < a" using q b by (simp add: zero_less_divide_iff)
  define na nb e where "na = int (nbits (nat a))" and "nb = int (nbits (nat b))" and "e = na - nb - 53"
  define s where "s = \<bar>q\<bar> * (2::rat) powi (- e)"
  have pw: "(2::rat) powi x * 2 powi y = 2 powi (x + y)" for x y by (simp add: power_int_add)
  have p: "(2::rat) powi (na - 1) * 2 powi (- e) = 2 powi 52 * 2 powi nb"
       "(2::rat) powi na * 2 powi (- e) = 2 powi 54 * 2 powi (nb - 1)"
    unfolding pw e_def by (simp_all add: algebra_simps)
  have "2 powi 52 * of_int b \<le> (2::rat) powi 52 * 2 powi nb"
    using nbits_rat(2)[OF b] by (simp add: nb_def)
  also have "\<dots> \<le> of_int a * 2 powi (- e)"
    using nbits_rat(1)[OF a] unfolding p(1)[symmetric] by (simp add: na_def)
  finally have lo: "2 ^ 52 \<le> s" using b by (simp add: s_def q field_simps)
  have "of_int a * 2 powi (- e) < (2::rat) powi na * 2 powi (- e)"
    using nbits_rat(2)[OF a] by (simp add: na_def)
  also have "\<dots> \<le> 2 powi 54 * of_int b"
    using nbits_rat(1)[OF b] unfolding p(2) by (simp add: nb_def)
  finally have hi: "s < 2 ^ 54" using b by (simp add: s_def q field_simps)
  have d: "double_exponent q = (if s \<ge> 2 ^ 53 then e + 1 else e)"
    by (simp add: double_exponent_def ab Let_def s_def e_def na_def nb_def)
  have half: "(2::rat) powi (- (e + 1)) = 2 powi (- e) / 2"
    using power_int_diff[of "2::rat" "- e" 1] by simp
  have half2: "\<bar>q\<bar> * 2 powi (- (e + 1)) = s / 2" by (simp only: half s_def times_divide_eq_right)
  have "\<bar>q\<bar> * 2 powi (- double_exponent q) = (if s \<ge> 2 ^ 53 then s / 2 else s)"
    unfolding d by (simp only: half2 s_def[symmetric] if_distrib[of uminus] split: if_splits) (simp add: s_def)
  with lo hi show "2 ^ 52 \<le> \<bar>q\<bar> * 2 powi (- double_exponent q)"
    and "\<bar>q\<bar> * 2 powi (- double_exponent q) < 2 ^ 53" by (simp_all split: if_splits)
qed

text \<open>One rounding changes a value by at most \<open>2 ^ -53\<close> of it.\<close>

lemma round_double_error: "\<bar>round_double q - q\<bar> \<le> \<bar>q\<bar> / 2 ^ 53"
proof (cases "q = 0")
  case False
  define e where "e = double_exponent q"
  define m where "m = \<bar>q\<bar> * 2 powi (- e)"
  have m: "2 ^ 52 \<le> m" using double_exponent_range(1)[OF False] by (simp add: m_def e_def)
  have qm: "\<bar>q\<bar> = m * 2 powi e" by (simp add: m_def power_int_minus)
  have q: "q = sgn q * (m * 2 powi e)" unfolding qm[symmetric] by (simp add: sgn_mult_abs)
  have r: "round_double q = sgn q * (of_int (round_half_even m) * 2 powi e)"
    using False by (simp add: round_double_def Let_def e_def[symmetric] m_def)
  have "round_double q - q = sgn q * ((of_int (round_half_even m) - m) * 2 powi e)"
    unfolding r by (subst (2) q) (simp add: algebra_simps)
  then have "\<bar>round_double q - q\<bar> = \<bar>of_int (round_half_even m) - m\<bar> * 2 powi e"
    using False by (simp add: abs_mult abs_sgn_eq)
  also have "\<dots> \<le> 1/2 * 2 powi e" by (intro mult_right_mono round_half_even_error) simp
  also have "\<dots> \<le> (m / 2 ^ 53) * 2 powi e" using m by (intro mult_right_mono) simp_all
  finally show ?thesis by (simp add: qm)
qed (simp add: round_double_def)

lemma round_double_nonneg: "0 \<le> q \<Longrightarrow> 0 \<le> round_double q"
proof -
  assume q: "0 \<le> q"
  then have "q - round_double q \<le> q / 2 ^ 53" using round_double_error[of q] by linarith
  moreover have "q / 2 ^ 53 \<le> q" using q by simp
  ultimately show ?thesis by linarith
qed

lemma f_of_int_exact:
  assumes "\<bar>n\<bar> < 2 ^ 53"
  shows "f_of_int n = of_int n"
proof (cases "n = 0")
  case False
  define q where "q = (of_int n :: rat)"
  define e where "e = double_exponent q"
  have q: "q \<noteq> 0" using False by (simp add: q_def)
  have lo: "2 ^ 52 \<le> \<bar>q\<bar> * 2 powi (- e)" using double_exponent_range(1)[OF q] by (simp add: e_def)
  have e: "e \<le> 0"
  proof (rule ccontr)
    assume "\<not> e \<le> 0"
    then have "(2::rat) powi (- e) \<le> 2 powi (- 1)" by (intro power_int_increasing) auto
    then have "\<bar>q\<bar> * 2 powi (- e) \<le> \<bar>q\<bar> * (1 / 2)" by (intro mult_left_mono) auto
    moreover have "\<bar>q\<bar> < 2 ^ 53" using assms of_int_less_iff[of "\<bar>n\<bar>" "2 ^ 53", where ?'a = rat]
      by (simp add: q_def)
    ultimately show False using lo by simp
  qed
  have "\<bar>q\<bar> * 2 powi (- e) = of_int (\<bar>n\<bar> * 2 ^ nat (- e))"
    using e by (simp add: q_def power_int_def)
  then have "of_int (round_half_even (\<bar>q\<bar> * 2 powi (- e))) = \<bar>q\<bar> * 2 powi (- e)"
    by (simp only: round_half_even_int)
  then have "round_double q = sgn q * (\<bar>q\<bar> * 2 powi (- e)) * 2 powi e"
    using q by (simp only: round_double_def Let_def e_def[symmetric] if_False)
  also have "\<dots> = sgn q * \<bar>q\<bar>" by (simp add: power_int_minus)
  finally have "round_double q = q" by (simp add: sgn_mult_abs)
  then show ?thesis by (simp add: f_of_int_def q_def)
qed (simp add: f_of_int_def round_double_def)

lemma round_double_near:
  assumes "0 \<le> q" "q \<le> c"
  shows "q - c / 2 ^ 53 \<le> round_double q" "round_double q \<le> q + c / 2 ^ 53"
proof -
  have "\<bar>round_double q - q\<bar> \<le> c / 2 ^ 53"
    using round_double_error[of q] assms by (simp add: field_simps)
  then show "q - c / 2 ^ 53 \<le> round_double q" "round_double q \<le> q + c / 2 ^ 53" by linarith+
qed

end
