(* ===== verification/Deposit_Send.thy ===== *)
theory Deposit_Send
  imports Deposit_Scan Py_Float
begin

text \<open>
  From an accepted Rune deposit to its transfer on the EVM chain, from
  \<^verbatim>\<open>bridge_node/bridge/bridges/runes/service.py\<close>: the question asked to the other nodes and
  its answer, the collection of signatures, the sending of \<open>acceptTransferFromBtc\<close> and its
  confirmation. The contract, the EVM node, the node's key and signature recovery are
  parameters. A transaction given to the EVM node is recorded as an effect before the node
  answers, so that a call whose answer is an exception counts as sent.
\<close>

section \<open>The EVM side\<close>

record evm_node =
  en_address :: string
  en_frozen :: "exn + bool"
  en_num_required_federators :: "exn + nat"
  en_is_rune_registered :: "int \<Rightarrow> exn + bool"
  en_is_rune_paused :: "int \<Rightarrow> exn + bool"
  en_is_federator :: "string \<Rightarrow> exn + bool"
  en_message_hash :: "string \<Rightarrow> int \<Rightarrow> int \<Rightarrow> string \<Rightarrow> int \<Rightarrow> exn + string"
  en_gas_price :: "exn + int"
  en_balance_pending :: "exn + int"
  en_nonce_pending :: "exn + int"
  en_nonce_latest :: "exn + int"
  en_transact :: "accept_transfer_call \<Rightarrow> exn + string"
  en_receipt :: "string option \<Rightarrow> exn + int option"
  en_add_0x_prefix :: "string \<Rightarrow> string"
  en_sign :: "string \<Rightarrow> exn + string"
  en_recover :: "string \<Rightarrow> string \<Rightarrow> exn + string"

definition get_deposit :: "int \<Rightarrow> rune_deposit rune_prog" where
  "get_deposit i = related db_rune_deposits (\<lambda>d. rd_id d = i)"

definition query_deposit :: "rune_service \<Rightarrow> int \<Rightarrow> rune_deposit rune_prog" where
  "query_deposit sv i = bnd (lift_res (bridge_id sv)) (\<lambda>bid.
     query_one db_rune_deposits (\<lambda>d. rd_bridge_id d = bid \<and> rd_id d = i))"

text \<open>\<open>repr(deposit)\<close> reads the related rows; its text is not modelled.\<close>

definition deposit_repr :: "rune_deposit \<Rightarrow> unit rune_prog" where
  "deposit_repr d = bnd (deposit_rune d) (\<lambda>rune.
     bnd (lift_res (decimal_amount rune (rd_net_amount_raw d))) (\<lambda>net.
     bnd (deposit_user d) (\<lambda>user. ok ())))"

definition set_deposit_status :: "int \<Rightarrow> rune_deposit_status \<Rightarrow> unit rune_prog" where
  "set_deposit_status i s = update_rune_deposit i (\<lambda>d. d\<lparr>rd_status := rd_code s\<rparr>)"

definition get_accepted_rune_deposit_ids :: "rune_service \<Rightarrow> int list rune_prog" where
  "get_accepted_rune_deposit_ids sv = in_tx
     (bnd (lift_res (bridge_id sv)) (\<lambda>bid.
      bnd (rows_where db_rune_deposits (\<lambda>d. rd_bridge_id d = bid \<and> rd_status d = rd_code RD_ACCEPTED)) (\<lambda>deposits.
      ok (map rd_id (sort_key rd_id deposits)))))"

section \<open>Question and answer\<close>

definition get_sign_rune_to_evm_transfer_question ::
  "rune_service \<Rightarrow> int \<Rightarrow> rune_to_evm_transfer rune_prog" where
  "get_sign_rune_to_evm_transfer_question sv deposit_id = in_tx
     (bnd (query_deposit sv deposit_id) (\<lambda>deposit.
      sq (demand (rd_status deposit = rd_code RD_ACCEPTED) ValidationError)
     (bnd (deposit_user deposit) (\<lambda>user.
      bnd (deposit_rune deposit) (\<lambda>rune.
      bnd (lift_res (decimal_amount rune (rd_transfer_amount_raw deposit))) (\<lambda>amount.
      ok \<lparr>te_evm_address = us_evm_address user, te_amount_raw = rd_transfer_amount_raw deposit,
          te_amount_decimal = amount, te_net_amount_raw = rd_net_amount_raw deposit,
          te_txid = rd_tx_id deposit, te_vout = rd_vout deposit,
          te_rune_name = ru_name rune, te_rune_number = ru_n rune\<rparr>))))))"

definition validate_rune_deposit_for_sending :: "rune_service \<Rightarrow> evm_node \<Rightarrow> int \<Rightarrow> bool rune_prog" where
  "validate_rune_deposit_for_sending sv evm deposit_id =
     bnd (in_tx (bnd (query_deposit sv deposit_id) (\<lambda>deposit.
            sq (deposit_repr deposit)
           (if rd_status deposit \<noteq> rd_code RD_ACCEPTED then ok None
            else bnd (deposit_rune deposit) (\<lambda>rune. ok (Some (ru_n rune, rd_postage deposit)))))))
       (\<lambda>found. case found of None \<Rightarrow> ok False | Some (rune_number, postage) \<Rightarrow>
     bnd (lift_res (en_is_rune_registered evm rune_number)) (\<lambda>registered.
     if \<not> registered then ok False else
     bnd (lift_res (en_is_rune_paused evm rune_number)) (\<lambda>paused.
     if paused then ok False
     else if postage < rc_btc_min_postage_sat (sv_config sv) then ok False
     else ok True)))"

text \<open>
  The answer of a node. \<open>balance_at\<close> is \<open>ord_multisig.get_rune_balance_at_output\<close>.
\<close>

definition answer_sign_rune_to_evm_transfer_question ::
  "rune_service \<Rightarrow> pyord \<Rightarrow> ord_server \<Rightarrow> evm_node \<Rightarrow> (string \<Rightarrow> int \<Rightarrow> pystr \<Rightarrow> exn + int) \<Rightarrow>
   rune_to_evm_transfer \<Rightarrow> exn + sign_rune_to_evm_transfer_answer" where
  "answer_sign_rune_to_evm_transfer_question sv py ord evm balance_at transfer =
     rbind (get_rune ord (te_rune_name transfer)) (\<lambda>rune_response.
     case rune_response of None \<Rightarrow> Inl ValidationError | Some response \<Rightarrow>
     rbind (rune_from_str py (te_rune_name transfer)) (\<lambda>n.
     if n \<noteq> te_rune_number transfer then Inl ValidationError else
     rbind (en_is_rune_registered evm n) (\<lambda>registered.
     if \<not> registered then Inl ValidationError else
     rbind (en_is_rune_paused evm n) (\<lambda>paused.
     if paused then Inl ValidationError else
     rbind (calculate_rune_to_evm_transfer_amounts (rc_runes_to_evm_fee_percentage_decimal (sv_config sv))
              (te_amount_raw transfer) (re_divisibility (rr_entry response))) (\<lambda>calculated.
     if te_amount_raw transfer \<noteq> amount_raw calculated then Inl ValidationError
     else if te_net_amount_raw transfer \<noteq> net_amount_raw calculated then Inl ValidationError
     else if te_net_amount_raw transfer = 0 then Inl ValidationError else
     rbind (balance_at (te_txid transfer) (te_vout transfer) (te_rune_name transfer)) (\<lambda>balance_at_output.
     if balance_at_output \<noteq> te_amount_raw transfer then Inl ValidationError else
     rbind (en_message_hash evm (te_evm_address transfer) n (te_net_amount_raw transfer)
              (en_add_0x_prefix evm (te_txid transfer)) (te_vout transfer)) (\<lambda>message_hash.
     rbind (en_sign evm message_hash) (\<lambda>signature.
     Inr \<lparr>an_signature = signature, an_signer = en_address evm, an_message_hash = message_hash\<rparr>))))))))"

section \<open>Signatures\<close>

definition validate_sign_rune_to_evm_transfer_answer ::
  "evm_node \<Rightarrow> string \<Rightarrow> sign_rune_to_evm_transfer_answer \<Rightarrow> exn + unit" where
  "validate_sign_rune_to_evm_transfer_answer evm message_hash answer =
     rbind (en_is_federator evm (an_signer answer)) (\<lambda>is_federator.
     if \<not> is_federator then Inl ValidationError else
     rbind (en_recover evm message_hash (an_signature answer)) (\<lambda>recovered.
     if recovered \<noteq> an_signer answer then Inl ValidationError else Inr ()))"

fun prune_invalid_answers ::
  "evm_node \<Rightarrow> string \<Rightarrow> sign_rune_to_evm_transfer_answer list \<Rightarrow> string list \<Rightarrow>
   exn + sign_rune_to_evm_transfer_answer list" where
  "prune_invalid_answers evm message_hash [] signers = Inr []"
| "prune_invalid_answers evm message_hash (answer # answers) signers =
     (if an_signer answer \<in> set signers then prune_invalid_answers evm message_hash answers signers
      else case validate_sign_rune_to_evm_transfer_answer evm message_hash answer of
             Inl e \<Rightarrow> if e = ValidationError then prune_invalid_answers evm message_hash answers signers else Inl e
           | Inr _ \<Rightarrow> rbind (prune_invalid_answers evm message_hash answers (an_signer answer # signers))
                        (\<lambda>rest. Inr (answer # rest)))"

text \<open>The loop that adds the answers of new signers to the two columns.\<close>

fun add_signatures ::
  "sign_rune_to_evm_transfer_answer list \<Rightarrow> string list \<times> string list \<Rightarrow> string list \<times> string list" where
  "add_signatures [] acc = acc"
| "add_signatures (answer # answers) (signers, signatures) =
     (if an_signer answer \<notin> set signers
      then add_signatures answers (signers @ [an_signer answer], signatures @ [an_signature answer])
      else add_signatures answers (signers, signatures))"

definition update_rune_deposit_signatures ::
  "rune_service \<Rightarrow> evm_node \<Rightarrow> int \<Rightarrow> string \<Rightarrow> sign_rune_to_evm_transfer_answer list \<Rightarrow> bool rune_prog" where
  "update_rune_deposit_signatures sv evm deposit_id message_hash answers = in_tx
     (bnd (query_deposit sv deposit_id) (\<lambda>deposit.
      sq (demand (rd_status deposit = rd_code RD_ACCEPTED) ValidationError)
     (bnd (lift_res (prune_invalid_answers evm message_hash answers [])) (\<lambda>pruned.
      let added = add_signatures pruned
            (rd_accept_transfer_signers deposit, rd_accept_transfer_signatures deposit) in
      sq (update_rune_deposit (rd_id deposit) (\<lambda>d. d\<lparr>rd_accept_transfer_message_hash := Some message_hash,
            rd_accept_transfer_signers := fst added, rd_accept_transfer_signatures := snd added\<rparr>))
     (bnd (lift_res (en_num_required_federators evm)) (\<lambda>num_required.
      ok (length (snd added) \<ge> num_required)))))))"

section \<open>Sending\<close>

text \<open>
  The first transaction of \<open>send_rune_deposit_to_evm\<close>: nothing when signatures are missing,
  otherwise the deposit is marked as being sent and the arguments of the call are read.
\<close>

definition claim_rune_deposit ::
  "rune_service \<Rightarrow> evm_node \<Rightarrow> nat \<Rightarrow> int \<Rightarrow> (rune_deposit \<times> string \<times> string list) option rune_prog" where
  "claim_rune_deposit sv evm num_required_signers deposit_id = in_tx
     (bnd (query_deposit sv deposit_id) (\<lambda>deposit.
      sq (demand (rd_status deposit = rd_code RD_ACCEPTED) ValidationError)
     (let signatures = rd_accept_transfer_signatures deposit in
      if length signatures < num_required_signers then ok None else
      sq (set_deposit_status (rd_id deposit) SENDING_TO_EVM)
     (bnd (deposit_user deposit) (\<lambda>user.
      bnd (deposit_rune deposit) (\<lambda>rune.
      bnd (lift_res (decimal_amount rune (rd_net_amount_raw deposit))) (\<lambda>net_amount.
      ok (Some (deposit, us_evm_address user, take num_required_signers signatures)))))))))"

definition tx_gas_limit :: int where
  "tx_gas_limit = 250000"

definition min_balance_wei :: "int \<Rightarrow> int" where
  "min_balance_wei tx_gas_price =
     f_int (f_mul (f_mul (round_double (12/10)) (f_of_int tx_gas_limit)) (f_of_int tx_gas_price))"

definition check_gas :: "evm_node \<Rightarrow> exn + int" where
  "check_gas evm =
     rbind (en_gas_price evm) (\<lambda>tx_gas_price.
     rbind (en_balance_pending evm) (\<lambda>balance_wei.
     if balance_wei < min_balance_wei tx_gas_price then Inl RuntimeError else
     rbind (en_nonce_pending evm) (\<lambda>nonce.
     rbind (en_nonce_latest evm) (\<lambda>latest.
     if nonce - latest \<ge> 4 then Inl RuntimeError else Inr nonce))))"

definition confirm_sent_rune_deposit :: "rune_service \<Rightarrow> evm_node \<Rightarrow> int \<Rightarrow> unit rune_prog" where
  "confirm_sent_rune_deposit sv evm deposit_id =
     bnd (in_tx (bnd (get_deposit deposit_id) (\<lambda>deposit.
            bnd (lift_res (bridge_id sv)) (\<lambda>bid.
            sq (asserting (rd_bridge_id deposit = bid))
           (sq (deposit_repr deposit) (ok (rd_status deposit, rd_evm_tx_hash deposit)))))))
       (\<lambda>(existing_status, evm_tx_hash).
     bnd (if existing_status = rd_code SENT_TO_EVM then
            bnd (lift_res (case en_receipt evm evm_tx_hash of
                   Inr receipt \<Rightarrow> Inr receipt
                 | Inl e \<Rightarrow> if e \<in> {TransactionNotFound, TransactionIndexingInProgress} then Inr None else Inl e))
              (\<lambda>receipt. case receipt of
                   None \<Rightarrow> ok None
                 | Some status \<Rightarrow>
                     if status \<noteq> 0
                     then sq (notice sv ''Rune-to-EVM transfer confirmed in EVM'' False) (ok (Some CONFIRMED_IN_EVM))
                     else sq (notice sv ''Rune-to-EVM transfer in EVM failed!'' True) (ok (Some EVM_TRANSACTION_FAILED)))
          else ok None)
       (\<lambda>updated_status. case updated_status of
            None \<Rightarrow> ok ()
          | Some status \<Rightarrow>
              in_tx (bnd (get_deposit deposit_id) (\<lambda>deposit.
                sq (asserting (rd_status deposit = rd_code SENT_TO_EVM))
                   (set_deposit_status deposit_id status)))))"

definition confirm_sent_rune_deposits :: "rune_service \<Rightarrow> evm_node \<Rightarrow> unit rune_prog" where
  "confirm_sent_rune_deposits sv evm =
     bnd (in_tx (bnd (lift_res (bridge_id sv)) (\<lambda>bid.
            bnd (rows_where db_rune_deposits (\<lambda>d. rd_bridge_id d = bid \<and> rd_status d = rd_code SENT_TO_EVM))
              (\<lambda>deposits. ok (map rd_id deposits)))))
       (\<lambda>ids. for_each ids (confirm_sent_rune_deposit sv evm))"

text \<open>The call, and the recording of its outcome.\<close>

definition transact_rune_deposit ::
  "rune_service \<Rightarrow> evm_node \<Rightarrow> int \<Rightarrow> accept_transfer_call \<Rightarrow> unit rune_prog" where
  "transact_rune_deposit sv evm deposit_id call =
     sq (emit (Transact call))
    (case en_transact evm call of
       Inr tx_hash \<Rightarrow>
         sq (notice sv ''Rune-to-EVM transfer sent to EVM'' False)
            (in_tx (bnd (get_deposit deposit_id) (\<lambda>deposit.
               bnd (lift_res (bridge_id sv)) (\<lambda>bid.
               sq (asserting (rd_bridge_id deposit = bid))
                  (update_rune_deposit deposit_id
                     (\<lambda>d. d\<lparr>rd_status := rd_code SENT_TO_EVM, rd_evm_tx_hash := Some tx_hash\<rparr>))))))
     | Inl e \<Rightarrow>
         sq (in_tx (bnd (get_deposit deposit_id) (\<lambda>deposit.
               bnd (lift_res (bridge_id sv)) (\<lambda>bid.
               sq (asserting (rd_bridge_id deposit = bid))
                  (set_deposit_status deposit_id SENDING_TO_EVM_FAILED)))))
        (sq (notice sv ''Sending Rune-to-EVM transfer to EVM failed!'' True)
            (throw e)))"

definition send_rune_deposit_to_evm :: "rune_service \<Rightarrow> evm_node \<Rightarrow> int \<Rightarrow> unit rune_prog" where
  "send_rune_deposit_to_evm sv evm deposit_id =
     bnd (lift_res (en_frozen evm)) (\<lambda>frozen.
     if frozen then ok () else
     bnd (lift_res (en_num_required_federators evm)) (\<lambda>num_required_signers.
     bnd (claim_rune_deposit sv evm num_required_signers deposit_id) (\<lambda>claimed.
     case claimed of None \<Rightarrow> ok () | Some (deposit, evm_address, signatures) \<Rightarrow>
     bnd (lift_res (check_gas evm)) (\<lambda>nonce.
     sq (transact_rune_deposit sv evm deposit_id
           \<lparr>ac_evm_address = evm_address, ac_rune_number = rd_rune_number deposit,
            ac_net_rune_amount = rd_net_amount_raw deposit,
            ac_btc_txid = en_add_0x_prefix evm (rd_tx_id deposit), ac_btc_vout = rd_vout deposit,
            ac_signatures = signatures, ac_gas = tx_gas_limit, ac_nonce = nonce\<rparr>)
        (confirm_sent_rune_deposit sv evm deposit_id)))))"

section \<open>The life of a deposit\<close>

text \<open>The edges of the state machine of a deposit.\<close>

inductive status_edge :: "rune_deposit_status \<Rightarrow> rune_deposit_status \<Rightarrow> bool" where
  confirmed: "status_edge RD_DETECTED RD_ACCEPTED"
| claimed: "status_edge RD_ACCEPTED SENDING_TO_EVM"
| sent: "status_edge SENDING_TO_EVM SENT_TO_EVM"
| refused: "status_edge SENDING_TO_EVM SENDING_TO_EVM_FAILED"
| mined: "status_edge SENT_TO_EVM CONFIRMED_IN_EVM"
| reverted: "status_edge SENT_TO_EVM EVM_TRANSACTION_FAILED"

code_pred status_edge .

inductive_cases status_edge_from_sending: "status_edge SENDING_TO_EVM s"
inductive_simps status_edge_simps:
  "status_edge RD_DETECTED s" "status_edge RD_ACCEPTED s" "status_edge SENDING_TO_EVM s"
  "status_edge SENT_TO_EVM s" "status_edge CONFIRMED_IN_EVM s" "status_edge RD_REJECTED s"
  "status_edge SENDING_TO_EVM_FAILED s" "status_edge EVM_TRANSACTION_FAILED s"

definition status_step :: "int \<Rightarrow> int \<Rightarrow> bool" where
  "status_step a b \<longleftrightarrow> (\<exists>s t. a = rd_code s \<and> b = rd_code t \<and> status_edge s t)"

definition waiting :: "int \<Rightarrow> bool" where
  "waiting s \<longleftrightarrow> s = rd_code RD_DETECTED \<or> s = rd_code RD_ACCEPTED"

lemma status_step_codes:
  "status_step 10 20" "status_step 20 30" "status_step 30 40" "status_step 30 (-2)"
  "status_step 40 50" "status_step 40 (-3)"
proof -
  have e: "status_edge s t \<Longrightarrow> status_step (rd_code s) (rd_code t)" for s t
    by (auto simp: status_step_def)
  show "status_step 10 20" "status_step 20 30" "status_step 30 40" "status_step 30 (-2)"
    "status_step 40 50" "status_step 40 (-3)"
    using e[OF confirmed] e[OF claimed] e[OF sent] e[OF refused] e[OF mined] e[OF reverted] by simp_all
qed

lemma not_waiting_step: "status_step a b \<Longrightarrow> \<not> waiting a \<Longrightarrow> \<not> waiting b"
  by (auto simp: status_step_def waiting_def elim!: status_edge.cases)

lemma not_waiting_steps: "status_step\<^sup>*\<^sup>* a b \<Longrightarrow> \<not> waiting a \<Longrightarrow> \<not> waiting b"
  by (induction rule: rtranclp_induct) (auto dest: not_waiting_step)

text \<open>Every deposit of before is still there, further along the machine or where it was.\<close>

definition progress :: "rune_world \<Rightarrow> rune_world \<Rightarrow> bool" where
  "progress w w' \<longleftrightarrow> (\<forall>d \<in> set (db_rune_deposits (w_db w)). \<exists>d' \<in> set (db_rune_deposits (w_db w')).
     rd_id d' = rd_id d \<and> rune_deposit_key d' = rune_deposit_key d \<and>
     status_step\<^sup>*\<^sup>* (rd_status d) (rd_status d'))"

lemma progress_same: "db_rune_deposits (w_db w') = db_rune_deposits (w_db w) \<Longrightarrow> progress w w'"
  by (auto simp: progress_def)

lemma progress_trans:
  assumes "progress u v" "progress v w"
  shows "progress u w"
  unfolding progress_def
proof
  fix d assume "d \<in> set (db_rune_deposits (w_db u))"
  then obtain d1 where d1: "d1 \<in> set (db_rune_deposits (w_db v))" "rd_id d1 = rd_id d"
    "rune_deposit_key d1 = rune_deposit_key d" "status_step\<^sup>*\<^sup>* (rd_status d) (rd_status d1)"
    using assms(1) by (auto simp: progress_def)
  then obtain d2 where "d2 \<in> set (db_rune_deposits (w_db w))" "rd_id d2 = rd_id d1"
    "rune_deposit_key d2 = rune_deposit_key d1" "status_step\<^sup>*\<^sup>* (rd_status d1) (rd_status d2)"
    using assms(2) by (auto simp: progress_def)
  with d1 show "\<exists>d' \<in> set (db_rune_deposits (w_db w)). rd_id d' = rd_id d \<and>
     rune_deposit_key d' = rune_deposit_key d \<and> status_step\<^sup>*\<^sup>* (rd_status d) (rd_status d')"
    by (intro bexI[of _ d2]) (auto intro: rtranclp_trans)
qed

lemma progress_update:
  assumes "\<And>d. rd_id (f d) = rd_id d" "\<And>d. rune_deposit_key (f d) = rune_deposit_key d"
    and "\<And>d. d \<in> set (db_rune_deposits (w_db w)) \<Longrightarrow> rd_id d = i \<Longrightarrow> status_step\<^sup>*\<^sup>* (rd_status d) (rd_status (f d))"
    and "db_rune_deposits (w_db w') = update_where (\<lambda>d. rd_id d = i) f (db_rune_deposits (w_db w))"
  shows "progress w w'"
  unfolding progress_def
proof
  fix d assume d: "d \<in> set (db_rune_deposits (w_db w))"
  then have "(if rd_id d = i then f d else d) \<in> set (db_rune_deposits (w_db w'))"
    unfolding assms(4) update_where_def by auto
  then show "\<exists>d' \<in> set (db_rune_deposits (w_db w')). rd_id d' = rd_id d \<and>
     rune_deposit_key d' = rune_deposit_key d \<and> status_step\<^sup>*\<^sup>* (rd_status d) (rd_status d')"
    using assms(1,2) assms(3)[OF d] by (intro bexI[of _ "if rd_id d = i then f d else d"]) auto
qed

text \<open>The calls among the effects.\<close>

fun transacts :: "rune_effect list \<Rightarrow> accept_transfer_call list" where
  "transacts [] = []"
| "transacts (Transact c # es) = c # transacts es"
| "transacts (_ # es) = transacts es"

definition same_calls :: "rune_world \<Rightarrow> rune_world \<Rightarrow> bool" where
  "same_calls w w' \<longleftrightarrow> transacts (w_effects w') = transacts (w_effects w)"

lemma same_calls_refl [simp]: "same_calls w w"
  by (simp add: same_calls_def)

lemma same_calls_trans: "same_calls u v \<Longrightarrow> same_calls v w \<Longrightarrow> same_calls u w"
  by (simp add: same_calls_def)

section \<open>The steps\<close>

lemma update_rune_deposit_ok:
  "update_rune_deposit i f w =
     (Inr (), w\<lparr>w_db := db_rune_deposits_update (update_where (\<lambda>d. rd_id d = i) f) (w_db w)\<rparr>)"
  by (simp add: update_rune_deposit_def)

lemma deposit_repr_pure: "snd (deposit_repr d w) = w"
  by (auto simp: deposit_repr_def deposit_rune_def deposit_user_def run_bnd run_related
      split: sum.splits list.splits)

lemma get_deposit_Inr:
  "get_deposit i w = (Inr d, w') \<Longrightarrow> w' = w \<and> d \<in> set (db_rune_deposits (w_db w)) \<and> rd_id d = i"
  by (auto simp: get_deposit_def related_eq_Inr dest!: first_row_SomeD)

lemma query_deposit_Inr:
  assumes "query_deposit sv i w = (Inr d, w')"
  shows "w' = w \<and> d \<in> set (db_rune_deposits (w_db w)) \<and> rd_id d = i \<and> bridge_id sv = Inr (rd_bridge_id d)"
proof -
  obtain bid where b: "bridge_id sv = Inr bid"
    using assms by (cases "bridge_id sv") (simp_all add: query_deposit_def run_bnd)
  then have e: "query_deposit sv i w =
      (exactly_one (filter (\<lambda>d. rd_bridge_id d = bid \<and> rd_id d = i) (db_rune_deposits (w_db w))), w)"
    by (simp add: query_deposit_def run_bnd run_query_one)
  from assms have q: "exactly_one (filter (\<lambda>d. rd_bridge_id d = bid \<and> rd_id d = i) (db_rune_deposits (w_db w))) = Inr d"
    and w: "w' = w" unfolding e prod.inject by blast+
  show ?thesis using filter_singletonD[OF q[unfolded exactly_one_Inr]] b w by simp
qed

lemma rows_with_id:
  assumes "rune_tables_ok w" "d \<in> set (db_rune_deposits (w_db w))" "e \<in> set (db_rune_deposits (w_db w))"
    "rd_id e = rd_id d"
  shows "e = d"
  using assms by (auto simp: rune_tables_ok_def table_ok_def Let_def distinct_map dest: inj_onD)

lemma rows_with_key:
  assumes "rune_tables_ok w" "d \<in> set (db_rune_deposits (w_db w))" "e \<in> set (db_rune_deposits (w_db w))"
    "rune_deposit_key e = rune_deposit_key d"
  shows "e = d"
  using assms by (auto simp: rune_tables_ok_def table_ok_def Let_def distinct_map dest: inj_onD)

lemma update_where_hit: "x \<in> set rows \<Longrightarrow> p x \<Longrightarrow> f x \<in> set (update_where p f rows)"
  by (auto simp: update_where_def)

lemma update_where_cases: "e \<in> set (update_where p f rows) \<Longrightarrow> \<exists>x \<in> set rows. e = (if p x then f x else x)"
  by (simp add: set_update_where)

lemma keeps_tables_get_deposit: "keeps_tables (get_deposit i)"
  unfolding get_deposit_def by (intro keeps_tables_intros)

lemma keeps_tables_query_deposit: "keeps_tables (query_deposit sv i)"
  unfolding query_deposit_def by (intro keeps_tables_intros)

lemma keeps_tables_set_deposit_status: "keeps_tables (set_deposit_status i s)"
  unfolding set_deposit_status_def by (rule keeps_tables_updates) (simp_all add: rune_deposit_key_def)

lemma keeps_tables_deposit_repr: "keeps_tables (deposit_repr d)"
  unfolding deposit_repr_def by (intro keeps_tables_intros)

lemmas keeps_tables_send_intros = keeps_tables_intros keeps_tables_get_deposit keeps_tables_query_deposit
  keeps_tables_set_deposit_status keeps_tables_deposit_repr keeps_tables_notice

lemma keeps_tables_claim: "keeps_tables (claim_rune_deposit sv evm n i)"
  unfolding claim_rune_deposit_def by (intro keeps_tables_send_intros)

lemma keeps_tables_confirm: "keeps_tables (confirm_sent_rune_deposit sv evm i)"
  unfolding confirm_sent_rune_deposit_def by (intro keeps_tables_send_intros)

lemma keeps_tables_confirm_all: "keeps_tables (confirm_sent_rune_deposits sv evm)"
  unfolding confirm_sent_rune_deposits_def by (intro keeps_tables_send_intros keeps_tables_confirm)

lemma keeps_tables_transact: "keeps_tables (transact_rune_deposit sv evm i call)"
  unfolding transact_rune_deposit_def
  by (intro keeps_tables_send_intros keeps_tables_updates) (simp_all add: rune_deposit_key_def)

lemma keeps_tables_send: "keeps_tables (send_rune_deposit_to_evm sv evm i)"
  unfolding send_rune_deposit_to_evm_def
  by (intro keeps_tables_send_intros keeps_tables_claim keeps_tables_transact keeps_tables_confirm)

lemma keeps_tables_update_signatures: "keeps_tables (update_rune_deposit_signatures sv evm i h answers)"
  unfolding update_rune_deposit_signatures_def
  by (intro keeps_tables_send_intros keeps_tables_updates) (simp_all add: rune_deposit_key_def)

text \<open>Programs that only read, or only send notices, and what they leave alone.\<close>

definition quiet :: "'a rune_prog \<Rightarrow> bool" where
  "quiet m \<longleftrightarrow> (\<forall>w. w_db (snd (m w)) = w_db w \<and> transacts (w_effects (snd (m w))) = transacts (w_effects w))"

lemma quietD: "quiet m \<Longrightarrow> m w = (r, w') \<Longrightarrow> w_db w' = w_db w \<and> same_calls w w'"
  by (auto simp: quiet_def same_calls_def dest: spec[of _ w])

lemma quiet_bnd: "quiet m \<Longrightarrow> (\<And>x. quiet (f x)) \<Longrightarrow> quiet (bnd m f)"
  unfolding quiet_def
proof
  fix w
  assume m: "\<forall>w. w_db (snd (m w)) = w_db w \<and> transacts (w_effects (snd (m w))) = transacts (w_effects w)"
    and f: "\<And>x. \<forall>w. w_db (snd (f x w)) = w_db w \<and> transacts (w_effects (snd (f x w))) = transacts (w_effects w)"
  obtain r v where "m w = (r, v)" by (cases "m w")
  with m[rule_format, of w] f[rule_format, of _ v]
  show "w_db (snd (bnd m f w)) = w_db w \<and> transacts (w_effects (snd (bnd m f w))) = transacts (w_effects w)"
    by (cases r) (simp_all add: run_bnd)
qed

lemma quiet_sq: "quiet m \<Longrightarrow> quiet n \<Longrightarrow> quiet (sq m n)"
  by (simp add: sq_def quiet_bnd)

lemma quiet_in_tx: "quiet m \<Longrightarrow> quiet (in_tx m)"
  unfolding quiet_def
proof
  fix w
  assume m: "\<forall>w. w_db (snd (m w)) = w_db w \<and> transacts (w_effects (snd (m w))) = transacts (w_effects w)"
  obtain r v where "m w = (r, v)" by (cases "m w")
  with m[rule_format, of w]
  show "w_db (snd (in_tx m w)) = w_db w \<and> transacts (w_effects (snd (in_tx m w))) = transacts (w_effects w)"
    by (cases r) (simp_all add: in_tx_def)
qed

lemma quiet_related: "quiet (related rows p)"
  by (simp add: quiet_def related_pure)

lemma quiet_base:
  "quiet (ok x)" "quiet (throw e)" "quiet (lift_res r)" "quiet (db_get f)" "quiet (demand b e)"
  "quiet (asserting b)" "quiet (rows_where rows p)" "quiet (query_one rows p)" "quiet (related rows p)"
  "quiet (deposit_repr d)" "quiet (get_deposit i)" "quiet (notice sv t a)" "quiet (deposit_user d)"
  "quiet (deposit_rune d)" "quiet (query_deposit sv i)"
proof -
  show q: "quiet (ok x)" "quiet (throw e)" "quiet (lift_res r)" "quiet (db_get f)" "quiet (demand b e)"
    "quiet (asserting b)" "quiet (rows_where rows p)" "quiet (query_one rows p)" "quiet (notice sv t a)"
    by (auto simp: quiet_def run_demand run_asserting run_rows_where run_query_one notice_def)
  show "quiet (related rows p)" "quiet (get_deposit i)" "quiet (deposit_user d)" "quiet (deposit_rune d)"
    by (simp_all add: quiet_related get_deposit_def deposit_user_def deposit_rune_def)
  show "quiet (deposit_repr d)" by (simp add: quiet_def deposit_repr_pure)
  show "quiet (query_deposit sv i)" unfolding query_deposit_def
    by (intro quiet_bnd) (auto simp: quiet_def run_query_one)
qed

lemma quiet_cases:
  "(b \<Longrightarrow> quiet m) \<Longrightarrow> (\<not> b \<Longrightarrow> quiet p) \<Longrightarrow> quiet (if b then m else p)"
  "(x = None \<Longrightarrow> quiet m) \<Longrightarrow> (\<And>y. x = Some y \<Longrightarrow> quiet (f y)) \<Longrightarrow>
     quiet (case x of None \<Rightarrow> m | Some y \<Rightarrow> f y)"
  "(\<And>a c. z = (a, c) \<Longrightarrow> quiet (k a c)) \<Longrightarrow> quiet (case z of (a, c) \<Rightarrow> k a c)"
  by (auto split: option.splits prod.splits)

lemmas quiet_intros = quiet_bnd quiet_sq quiet_in_tx quiet_base quiet_cases

text \<open>Claiming: either nothing is written, or the accepted deposit is marked as being sent.\<close>

lemma claim_outcome:
  assumes run: "claim_rune_deposit sv evm n i w = (r, w')"
  shows "w_effects w' = w_effects w \<and>
    ((w_db w' = w_db w \<and> (\<forall>x. r \<noteq> Inr (Some x))) \<or>
     (\<exists>d address. r = Inr (Some (d, address, take n (rd_accept_transfer_signatures d))) \<and>
        d \<in> set (db_rune_deposits (w_db w)) \<and> rd_id d = i \<and> rd_status d = rd_code RD_ACCEPTED \<and>
        n \<le> length (rd_accept_transfer_signatures d) \<and>
        (\<exists>u \<in> set (db_users (w_db w)). us_id u = rd_user_id d \<and> address = us_evm_address u) \<and>
        w_db w' = db_rune_deposits_update
          (update_where (\<lambda>d. rd_id d = i) (\<lambda>d. d\<lparr>rd_status := rd_code SENDING_TO_EVM\<rparr>)) (w_db w)))"
proof -
  let ?body = "\<lambda>deposit. sq (demand (rd_status deposit = rd_code RD_ACCEPTED) ValidationError)
     (let signatures = rd_accept_transfer_signatures deposit in
      if length signatures < n then ok None else
      sq (set_deposit_status (rd_id deposit) SENDING_TO_EVM)
     (bnd (deposit_user deposit) (\<lambda>user.
      bnd (deposit_rune deposit) (\<lambda>rune.
      bnd (lift_res (decimal_amount rune (rd_net_amount_raw deposit))) (\<lambda>net_amount.
      ok (Some (deposit, us_evm_address user, take n signatures)))))))"
  obtain q v where q: "query_deposit sv i w = (q, v)" by (cases "query_deposit sv i w")
  have v: "v = w" using q by (auto simp: query_deposit_def run_bnd run_query_one split: sum.splits)
  show ?thesis
  proof (cases q)
    case (Inl e)
    then show ?thesis using run q v by (auto simp: claim_rune_deposit_def run_in_tx run_bnd)
  next
    case (Inr d)
    note d = query_deposit_Inr[OF q[unfolded Inr]]
    let ?w = "w\<lparr>w_db := db_rune_deposits_update
          (update_where (\<lambda>d. rd_id d = i) (\<lambda>d. d\<lparr>rd_status := rd_code SENDING_TO_EVM\<rparr>)) (w_db w)\<rparr>"
    have run: "in_tx (\<lambda>_. ?body d w) w = (r, w')"
      using run q Inr v by (simp add: claim_rune_deposit_def in_tx_def run_bnd)
    show ?thesis
    proof (cases "rd_status d = rd_code RD_ACCEPTED \<and> n \<le> length (rd_accept_transfer_signatures d)")
      case False
      then show ?thesis using run by (auto simp: in_tx_def run_sq run_demand Let_def split: if_splits)
    next
      case True
      then have rest: "in_tx (\<lambda>_. bnd (deposit_user d) (\<lambda>user.
          bnd (deposit_rune d) (\<lambda>rune.
          bnd (lift_res (decimal_amount rune (rd_net_amount_raw d))) (\<lambda>net_amount.
          ok (Some (d, us_evm_address user, take n (rd_accept_transfer_signatures d)))))) ?w) w = (r, w')"
        using run d by (simp add: in_tx_def run_sq run_demand set_deposit_status_def update_rune_deposit_ok Let_def)
      show ?thesis
      proof (cases "filter (\<lambda>u. us_id u = rd_user_id d) (db_users (w_db w))")
        case Nil
        then show ?thesis using rest by (auto simp: in_tx_def run_bnd deposit_user_def run_related)
      next
        case (Cons u us)
        then have u: "u \<in> set (db_users (w_db w)) \<and> us_id u = rd_user_id d" using filter_eq_ConsD[OF Cons] by auto
        show ?thesis
          using rest Cons u d True
          by (auto simp: in_tx_def run_bnd deposit_user_def deposit_rune_def run_related
              split: sum.splits list.splits prod.splits)
      qed
    qed
  qed
qed

text \<open>
  Programs that move deposits only along the machine and send no call; they compose, given
  that they keep the tables.
\<close>

definition moves :: "rune_world \<Rightarrow> rune_world \<Rightarrow> bool" where
  "moves w w' \<longleftrightarrow> progress w w' \<and> same_calls w w'"

definition calm :: "'a rune_prog \<Rightarrow> bool" where
  "calm m \<longleftrightarrow> keeps_tables m \<and> (\<forall>w. rune_tables_ok w \<longrightarrow> moves w (snd (m w)))"

lemma moves_refl [simp]: "moves w w"
  by (simp add: moves_def progress_same)

lemma moves_trans: "moves u v \<Longrightarrow> moves v w \<Longrightarrow> moves u w"
  by (auto simp: moves_def intro: progress_trans same_calls_trans)

lemma calmI:
  "keeps_tables m \<Longrightarrow> (\<And>w. rune_tables_ok w \<Longrightarrow> moves w (snd (m w))) \<Longrightarrow> calm m"
  by (simp add: calm_def)

lemma calmD: "calm m \<Longrightarrow> rune_tables_ok w \<Longrightarrow> m w = (r, w') \<Longrightarrow> moves w w' \<and> rune_tables_ok w'"
  using keeps_tables_ok[of m w] by (auto simp: calm_def dest: spec[of _ w])

lemma calm_quiet: "quiet m \<Longrightarrow> keeps_tables m \<Longrightarrow> calm m"
  by (rule calmI) (auto simp: quiet_def moves_def same_calls_def intro: progress_same)

lemma calm_ok: "calm (ok x)"
  by (rule calm_quiet) (intro quiet_base keeps_tables_base)+

lemma calm_bnd_from:
  assumes "calm m" "\<And>x. keeps_tables (f x)" "\<And>x w. fst (m w) = Inr x \<Longrightarrow> calm (f x)"
  shows "calm (bnd m f)"
proof (rule calmI)
  show "keeps_tables (bnd m f)" using assms by (intro keeps_tables_bnd) (auto simp: calm_def)
  fix w assume w: "rune_tables_ok w"
  obtain r v where m: "m w = (r, v)" by (cases "m w")
  note v = calmD[OF assms(1) w m]
  show "moves w (snd (bnd m f w))"
  proof (cases r)
    case (Inr x)
    obtain q u where f: "f x v = (q, u)" by (cases "f x v")
    have "calm (f x)" using assms(3)[of w x] m Inr by simp
    from calmD[OF this _ f] v have "moves v u" by simp
    then show ?thesis using v m Inr f by (auto simp: run_bnd intro: moves_trans)
  qed (use v m in \<open>simp add: run_bnd\<close>)
qed

lemma calm_bnd: "calm m \<Longrightarrow> (\<And>x. calm (f x)) \<Longrightarrow> calm (bnd m f)"
  by (rule calm_bnd_from) (auto simp: calm_def)

lemma calm_sq: "calm m \<Longrightarrow> calm n \<Longrightarrow> calm (sq m n)"
  by (simp add: sq_def calm_bnd)

lemma calm_in_tx:
  assumes "calm m"
  shows "calm (in_tx m)"
proof (rule calmI)
  show "keeps_tables (in_tx m)" using assms by (intro keeps_tables_in_tx) (simp add: calm_def)
  fix w assume w: "rune_tables_ok w"
  obtain r v where m: "m w = (r, v)" by (cases "m w")
  show "moves w (snd (in_tx m w))"
    using calmD[OF assms w m] m by (cases r) (auto simp: in_tx_def moves_def same_calls_def intro: progress_same)
qed

lemma calm_for_each: "(\<And>x. calm (f x)) \<Longrightarrow> calm (for_each xs f)"
  by (induction xs) (simp_all add: calm_sq calm_ok)

lemma calm_if: "(b \<Longrightarrow> calm m) \<Longrightarrow> (\<not> b \<Longrightarrow> calm p) \<Longrightarrow> calm (if b then m else p)"
  by simp

text \<open>Setting the status of a deposit along an edge.\<close>

lemma calm_checked_status:
  assumes "status_step (rd_code a) (rd_code b)"
  shows "calm (bnd (get_deposit i) (\<lambda>d. sq (asserting (rd_status d = rd_code a)) (set_deposit_status i b)))"
    (is "calm ?m")
proof (rule calmI)
  show "keeps_tables ?m" by (intro keeps_tables_send_intros)
  fix w assume w: "rune_tables_ok w"
  obtain q v where g: "get_deposit i w = (q, v)" by (cases "get_deposit i w")
  show "moves w (snd (?m w))"
  proof (cases q)
    case (Inl e)
    then show ?thesis using g quietD[OF quiet_base(11) g]
      by (auto simp: run_bnd moves_def same_calls_def intro: progress_same)
  next
    case (Inr d)
    note d = get_deposit_Inr[OF g[unfolded Inr]]
    show ?thesis
    proof (cases "rd_status d = rd_code a")
      case False
      then show ?thesis using g Inr d by (simp add: run_bnd run_sq run_asserting)
    next
      case True
      have "progress w (snd (?m w))"
      proof (rule progress_update[where i = i and f = "\<lambda>d. d\<lparr>rd_status := rd_code b\<rparr>"])
        show "db_rune_deposits (w_db (snd (?m w))) =
            update_where (\<lambda>d. rd_id d = i) (\<lambda>d. d\<lparr>rd_status := rd_code b\<rparr>) (db_rune_deposits (w_db w))"
          using g Inr d True by (simp add: run_bnd run_sq run_asserting set_deposit_status_def update_rune_deposit_ok)
        show "status_step\<^sup>*\<^sup>* (rd_status e) (rd_status (e\<lparr>rd_status := rd_code b\<rparr>))"
          if "e \<in> set (db_rune_deposits (w_db w))" "rd_id e = i" for e
          using rows_with_id[OF w, of d e] that d True assms by auto
      qed (simp_all add: rune_deposit_key_def)
      then show ?thesis
        using g Inr d True
        by (simp add: run_bnd run_sq run_asserting set_deposit_status_def update_rune_deposit_ok moves_def same_calls_def)
    qed
  qed
qed

lemma calm_confirm: "calm (confirm_sent_rune_deposit sv evm i)"
  unfolding confirm_sent_rune_deposit_def
proof (rule calm_bnd)
  show "calm (in_tx (bnd (get_deposit i) (\<lambda>deposit.
            bnd (lift_res (bridge_id sv)) (\<lambda>bid.
            sq (asserting (rd_bridge_id deposit = bid))
           (sq (deposit_repr deposit) (ok (rd_status deposit, rd_evm_tx_hash deposit)))))))"
    by (rule calm_quiet) (intro quiet_intros, intro keeps_tables_send_intros)
  fix x :: "int \<times> string option"
  let ?body = "\<lambda>existing_status evm_tx_hash. if existing_status = rd_code SENT_TO_EVM then
            bnd (lift_res (case en_receipt evm evm_tx_hash of
                   Inr receipt \<Rightarrow> Inr receipt
                 | Inl e \<Rightarrow> if e \<in> {TransactionNotFound, TransactionIndexingInProgress} then Inr None else Inl e))
              (\<lambda>receipt. case receipt of
                   None \<Rightarrow> ok None
                 | Some status \<Rightarrow>
                     if status \<noteq> 0
                     then sq (notice sv ''Rune-to-EVM transfer confirmed in EVM'' False) (ok (Some CONFIRMED_IN_EVM))
                     else sq (notice sv ''Rune-to-EVM transfer in EVM failed!'' True) (ok (Some EVM_TRANSACTION_FAILED)))
          else ok None"
  have q: "quiet (?body s h)" for s h by (intro quiet_intros)
  have k: "keeps_tables (?body s h)" for s h by (intro keeps_tables_send_intros)
  have v: "u = None \<or> u = Some CONFIRMED_IN_EVM \<or> u = Some EVM_TRANSACTION_FAILED"
    if "fst (?body s h w) = Inr u" for s h u and w :: rune_world
    using that by (auto simp: prog_simps notice_def split: if_splits sum.splits option.splits)
  show "calm (case x of (existing_status, evm_tx_hash) \<Rightarrow> bnd (?body existing_status evm_tx_hash)
       (\<lambda>updated_status. case updated_status of
            None \<Rightarrow> ok ()
          | Some status \<Rightarrow>
              in_tx (bnd (get_deposit i) (\<lambda>deposit.
                sq (asserting (rd_status deposit = rd_code SENT_TO_EVM))
                   (set_deposit_status i status)))))"
  proof (cases x)
    case (Pair s h)
    show ?thesis unfolding Pair prod.case
    proof (rule calm_bnd_from[OF calm_quiet[OF q k]])
      fix u and w :: rune_world
      assume "fst (?body s h w) = Inr u"
      from v[OF this] show "calm (case u of None \<Rightarrow> ok ()
          | Some status \<Rightarrow>
              in_tx (bnd (get_deposit i) (\<lambda>deposit.
                sq (asserting (rd_status deposit = rd_code SENT_TO_EVM))
                   (set_deposit_status i status))))"
        using calm_in_tx[OF calm_checked_status[of SENT_TO_EVM CONFIRMED_IN_EVM i]]
          calm_in_tx[OF calm_checked_status[of SENT_TO_EVM EVM_TRANSACTION_FAILED i]] status_step_codes(5,6) calm_ok
        by auto
    qed (intro keeps_tables_send_intros)
  qed
qed

lemma calm_confirm_all: "calm (confirm_sent_rune_deposits sv evm)"
  unfolding confirm_sent_rune_deposits_def
  by (intro calm_bnd calm_for_each calm_confirm calm_quiet quiet_intros keeps_tables_intros)

text \<open>The outcome of the call moves the deposit on from being sent.\<close>

lemma calm_mark_sent:
  assumes "\<And>d. rd_id (f d) = rd_id d" "\<And>d. rune_deposit_key (f d) = rune_deposit_key d"
    "\<And>d. rd_status (f d) = rd_code s" "status_step (rd_code SENDING_TO_EVM) (rd_code s)"
    and w: "rune_tables_ok w" "\<forall>d \<in> set (db_rune_deposits (w_db w)). rd_id d = i \<longrightarrow> rd_status d = rd_code SENDING_TO_EVM"
    and run: "in_tx (bnd (get_deposit i) (\<lambda>deposit.
               bnd (lift_res (bridge_id sv)) (\<lambda>bid.
               sq (asserting (rd_bridge_id deposit = bid)) (update_rune_deposit i f)))) w = (r, w')"
  shows "moves w w'"
proof -
  obtain q v where g: "get_deposit i w = (q, v)" by (cases "get_deposit i w")
  have v: "v = w" using g by (auto simp: get_deposit_def run_related split: list.splits)
  show ?thesis
  proof (cases "\<exists>d. q = Inr d \<and> bridge_id sv = Inr (rd_bridge_id d)")
    case False
    then show ?thesis using run g v
      by (cases q; cases "bridge_id sv")
        (auto simp: in_tx_def run_bnd run_sq run_asserting moves_def same_calls_def intro: progress_same)
  next
    case True
    then have w': "w' = w\<lparr>w_db := db_rune_deposits_update (update_where (\<lambda>d. rd_id d = i) f) (w_db w)\<rparr>"
      using run g v by (auto simp: in_tx_def run_bnd run_sq run_asserting update_rune_deposit_ok)
    have "progress w w'"
    proof (rule progress_update[where f = f and i = i])
      show "status_step\<^sup>*\<^sup>* (rd_status d) (rd_status (f d))"
        if "d \<in> set (db_rune_deposits (w_db w))" "rd_id d = i" for d
        using that w(2) assms(3,4) by auto
    qed (use assms(1,2) w' in simp_all)
    then show ?thesis by (simp add: moves_def same_calls_def w')
  qed
qed

lemma transact_outcome:
  assumes w: "rune_tables_ok w" "\<forall>d \<in> set (db_rune_deposits (w_db w)). rd_id d = i \<longrightarrow> rd_status d = rd_code SENDING_TO_EVM"
    and run: "transact_rune_deposit sv evm i call w = (r, w')"
  shows "progress w w' \<and> transacts (w_effects w') = call # transacts (w_effects w) \<and> rune_tables_ok w'"
proof -
  have ok: "rune_tables_ok w'" using keeps_tables_ok[OF keeps_tables_transact w(1)] run by (metis snd_conv)
  have ext: "rune_tables_ok (w\<lparr>w_effects := es\<rparr>)" for es using w(1) by (simp add: rune_tables_ok_def)
  show ?thesis
  proof (cases "en_transact evm call")
    case (Inr tx_hash)
    let ?w = "w\<lparr>w_effects := Notice (''['' @ bridge_name sv @ ''] Rune-to-EVM transfer sent to EVM'') False #
      Transact call # w_effects w\<rparr>"
    let ?f = "\<lambda>d. d\<lparr>rd_status := rd_code SENT_TO_EVM, rd_evm_tx_hash := Some tx_hash\<rparr>"
    have "moves ?w w'"
    proof (rule calm_mark_sent[where f = ?f and s = SENT_TO_EVM and i = i])
      show "in_tx (bnd (get_deposit i) (\<lambda>deposit.
               bnd (lift_res (bridge_id sv)) (\<lambda>bid.
               sq (asserting (rd_bridge_id deposit = bid)) (update_rune_deposit i ?f)))) ?w = (r, w')"
        using run Inr by (simp add: transact_rune_deposit_def run_sq notice_def)
    qed (use w ext status_step_codes in \<open>simp_all add: rune_deposit_key_def\<close>)
    then show ?thesis using ok by (simp add: moves_def same_calls_def progress_def)
  next
    case (Inl e)
    let ?w = "w\<lparr>w_effects := Transact call # w_effects w\<rparr>"
    let ?f = "\<lambda>d. d\<lparr>rd_status := rd_code SENDING_TO_EVM_FAILED\<rparr>"
    let ?m = "in_tx (bnd (get_deposit i) (\<lambda>deposit.
               bnd (lift_res (bridge_id sv)) (\<lambda>bid.
               sq (asserting (rd_bridge_id deposit = bid)) (update_rune_deposit i ?f))))"
    obtain q v where m: "?m ?w = (q, v)" by (cases "?m ?w")
    have "moves ?w v"
    proof (rule calm_mark_sent[where f = ?f and s = SENDING_TO_EVM_FAILED and i = i])
      show "?m ?w = (q, v)" by (rule m)
    qed (use w ext status_step_codes in \<open>simp_all add: rune_deposit_key_def\<close>)
    moreover have "w_db w' = w_db v \<and> transacts (w_effects w') = transacts (w_effects v)"
      using run Inl m by (cases q) (auto simp: transact_rune_deposit_def set_deposit_status_def run_sq notice_def)
    ultimately show ?thesis using ok by (simp add: moves_def same_calls_def progress_def)
  qed
qed

text \<open>What one \<open>send_rune_deposit_to_evm\<close> does.\<close>

lemma send_outcome:
  assumes w: "rune_tables_ok w" and run: "send_rune_deposit_to_evm sv evm i w = (r, w')"
  shows "progress w w' \<and> rune_tables_ok w' \<and>
    (transacts (w_effects w') = transacts (w_effects w) \<or>
     (\<exists>d call n. transacts (w_effects w') = call # transacts (w_effects w) \<and>
        en_frozen evm = Inr False \<and> en_num_required_federators evm = Inr n \<and>
        check_gas evm = Inr (ac_nonce call) \<and>
        d \<in> set (db_rune_deposits (w_db w)) \<and> rd_id d = i \<and> rd_status d = rd_code RD_ACCEPTED \<and>
        (\<exists>u \<in> set (db_users (w_db w)). us_id u = rd_user_id d \<and> ac_evm_address call = us_evm_address u) \<and>
        ac_rune_number call = rd_rune_number d \<and> ac_net_rune_amount call = rd_net_amount_raw d \<and>
        ac_btc_txid call = en_add_0x_prefix evm (rd_tx_id d) \<and> ac_btc_vout call = rd_vout d \<and>
        ac_signatures call = take n (rd_accept_transfer_signatures d) \<and> length (ac_signatures call) = n \<and>
        (\<forall>d' \<in> set (db_rune_deposits (w_db w')). rune_deposit_key d' = rune_deposit_key d \<longrightarrow>
           \<not> waiting (rd_status d'))))"
proof -
  have ok: "rune_tables_ok w'" using keeps_tables_ok[OF keeps_tables_send w] run by (metis snd_conv)
  show ?thesis
  proof (cases "\<exists>n. en_frozen evm = Inr False \<and> en_num_required_federators evm = Inr n")
    case False
    then have "w' = w" using run
      by (cases "en_frozen evm"; cases "en_num_required_federators evm")
        (auto simp: send_rune_deposit_to_evm_def run_bnd split: if_splits)
    then show ?thesis using w by (simp add: progress_same)
  next
    case True
    then obtain n where n: "en_frozen evm = Inr False" "en_num_required_federators evm = Inr n" by blast
    obtain q v where c: "claim_rune_deposit sv evm n i w = (q, v)" by (cases "claim_rune_deposit sv evm n i w")
    note out = claim_outcome[OF c]
    have vok: "rune_tables_ok v" using keeps_tables_ok[OF keeps_tables_claim w] c by (metis snd_conv)
    show ?thesis
    proof (cases "\<exists>x. q = Inr (Some x)")
      case False
      then have "w' = v" using run n c
        by (cases q) (auto simp: send_rune_deposit_to_evm_def run_bnd split: option.splits)
      moreover have "w_db v = w_db w" using out False by blast
      ultimately show ?thesis using conjunct1[OF out] ok progress_same[of w' w] by simp
    next
      case True
      then obtain d address where d: "q = Inr (Some (d, address, take n (rd_accept_transfer_signatures d)))"
        "d \<in> set (db_rune_deposits (w_db w))" "rd_id d = i" "rd_status d = rd_code RD_ACCEPTED"
        "n \<le> length (rd_accept_transfer_signatures d)"
        "\<exists>u \<in> set (db_users (w_db w)). us_id u = rd_user_id d \<and> address = us_evm_address u"
        "w_db v = db_rune_deposits_update
          (update_where (\<lambda>d. rd_id d = i) (\<lambda>d. d\<lparr>rd_status := rd_code SENDING_TO_EVM\<rparr>)) (w_db w)"
        using out by blast
      have sending: "\<forall>d \<in> set (db_rune_deposits (w_db v)). rd_id d = i \<longrightarrow> rd_status d = rd_code SENDING_TO_EVM"
      proof (intro ballI impI)
        fix e assume e: "e \<in> set (db_rune_deposits (w_db v))" "rd_id e = i"
        have "e \<in> set (update_where (\<lambda>d. rd_id d = i)
            (\<lambda>d. d\<lparr>rd_status := rd_code SENDING_TO_EVM\<rparr>) (db_rune_deposits (w_db w)))"
          using e(1) by (simp add: d(7))
        from update_where_cases[OF this] obtain x
          where "e = (if rd_id x = i then x\<lparr>rd_status := rd_code SENDING_TO_EVM\<rparr> else x)" by blast
        then show "rd_status e = rd_code SENDING_TO_EVM" using e(2) by (cases "rd_id x = i") simp_all
      qed
      have p: "progress w v"
      proof (rule progress_update[where i = i and f = "\<lambda>d. d\<lparr>rd_status := rd_code SENDING_TO_EVM\<rparr>"])
        show "status_step\<^sup>*\<^sup>* (rd_status e) (rd_status (e\<lparr>rd_status := rd_code SENDING_TO_EVM\<rparr>))"
          if "e \<in> set (db_rune_deposits (w_db w))" "rd_id e = i" for e
          using rows_with_id[OF w d(2) that(1)] that(2) d(3,4) status_step_codes(2) by auto
      qed (use d(7) in \<open>simp_all add: rune_deposit_key_def\<close>)
      show ?thesis
      proof (cases "check_gas evm")
        case (Inl e)
        then have "w' = v" using run n c d(1) by (simp add: send_rune_deposit_to_evm_def run_bnd)
        then show ?thesis using p vok conjunct1[OF out] by simp
      next
        case (Inr nonce)
        let ?call = "\<lparr>ac_evm_address = address, ac_rune_number = rd_rune_number d,
            ac_net_rune_amount = rd_net_amount_raw d,
            ac_btc_txid = en_add_0x_prefix evm (rd_tx_id d), ac_btc_vout = rd_vout d,
            ac_signatures = take n (rd_accept_transfer_signatures d), ac_gas = tx_gas_limit, ac_nonce = nonce\<rparr>"
        obtain t u where t: "transact_rune_deposit sv evm i ?call v = (t, u)"
          by (cases "transact_rune_deposit sv evm i ?call v")
        note tr = transact_outcome[OF vok sending t]
        have "moves u w'"
        proof (cases t)
          case (Inl e)
          then have "w' = u" using run n c d(1) Inr t by (simp add: send_rune_deposit_to_evm_def run_bnd run_sq)
          then show ?thesis by simp
        next
          case (Inr x)
          then have "confirm_sent_rune_deposit sv evm i u = (r, w')"
            using run n c d(1) \<open>check_gas evm = Inr nonce\<close> t
            by (simp add: send_rune_deposit_to_evm_def run_bnd run_sq)
          then show ?thesis using calmD[OF calm_confirm] tr by blast
        qed
        then have uw: "progress u w'" "transacts (w_effects w') = transacts (w_effects u)"
          by (auto simp: moves_def same_calls_def)
        have vw: "progress v w'" using tr uw(1) by (blast intro: progress_trans)
        have nw: "\<not> waiting (rd_status d')"
          if d': "d' \<in> set (db_rune_deposits (w_db w'))" "rune_deposit_key d' = rune_deposit_key d" for d'
        proof -
          let ?d = "d\<lparr>rd_status := rd_code SENDING_TO_EVM\<rparr>"
          have "?d \<in> set (db_rune_deposits (w_db v))"
            using update_where_hit[OF d(2), of "\<lambda>d. rd_id d = i" "\<lambda>d. d\<lparr>rd_status := rd_code SENDING_TO_EVM\<rparr>"] d(3,7)
            by simp
          then obtain e where e: "e \<in> set (db_rune_deposits (w_db w'))" "rune_deposit_key e = rune_deposit_key ?d"
            "status_step\<^sup>*\<^sup>* (rd_status ?d) (rd_status e)" using vw unfolding progress_def by blast
          have "rune_deposit_key ?d = rune_deposit_key d" by (simp add: rune_deposit_key_def)
          then have "e = d'" using rows_with_key[OF ok d'(1) e(1)] e(2) d'(2) by simp
          moreover have "\<not> waiting (rd_code SENDING_TO_EVM)" by (simp add: waiting_def)
          ultimately show ?thesis using not_waiting_steps[OF e(3)] by simp
        qed
        have "progress w w'" using p vw by (rule progress_trans)
        moreover have "transacts (w_effects w') = ?call # transacts (w_effects w)" using uw(2) tr conjunct1[OF out] by simp
        ultimately show ?thesis using ok n Inr d(2,4-6) d(3)[symmetric] nw
          by - (rule conjI, assumption, rule conjI, assumption, rule disjI2, rule exI[of _ d],
            rule exI[of _ ?call], rule exI[of _ n], simp)
      qed
    qed
  qed
qed

section \<open>The other operations\<close>

lemma calm_generate: "calm (generate_deposit_address sv eu derive a)"
proof (rule calmI[OF keeps_tables_generate])
  fix w
  have "db_rune_deposits (w_db (snd (generate_deposit_address sv eu derive a w))) = db_rune_deposits (w_db w) \<and>
      w_effects (snd (generate_deposit_address sv eu derive a w)) = w_effects w"
    by (auto simp: generate_deposit_address_def insert_user_def insert_deposit_address_def prog_simps
        split: sum.splits option.splits)
  then show "moves w (snd (generate_deposit_address sv eu derive a w))"
    by (simp add: moves_def same_calls_def progress_same)
qed

lemma calm_init: "calm (service_init sv)"
proof (rule calmI[OF keeps_tables_init])
  fix w
  have "db_rune_deposits (w_db (snd (service_init sv w))) = db_rune_deposits (w_db w) \<and>
      w_effects (snd (service_init sv w)) = w_effects w"
    by (auto simp: service_init_def insert_bridge_def prog_simps split: sum.splits option.splits)
  then show "moves w (snd (service_init sv w))"
    by (simp add: moves_def same_calls_def progress_same)
qed

text \<open>A scan sends no call and moves deposits from detected to accepted at most.\<close>

lemma keeps_no_call_store:
  "keeps (\<lambda>w. transacts (w_effects w) = cs) (store_scan sv py entries txs old new_block)"
proof -
  let ?I = "\<lambda>w. transacts (w_effects w) = cs"
  have upd: "keeps ?I (update_incoming_btc_tx i f)" "keeps ?I (rune_kv_set k v)" "keeps ?I (notice sv t al)"
    "keeps ?I (update_rune_deposit i g)" "keeps ?I (insert_rune r)" "keeps ?I (insert_rune_deposit d)"
    "keeps ?I (insert_incoming_btc_tx tx)" for i f k v t al g r d tx
    by (auto simp: keeps_def update_incoming_btc_tx_def run_rune_kv_set notice_def update_rune_deposit_ok
        insert_rune_def insert_rune_deposit_def insert_incoming_btc_tx_def run_bnd run_insert_row)
  show ?thesis
    unfolding store_scan_def
    by (rule keeps_in_tx)
      (auto intro!: keeps_intros upd simp: index_rune_def store_transaction_def store_btc_tx_def
        store_rune_deposit_def Let_def)
qed

lemma scan_moves:
  assumes w: "rune_tables_ok w" and run: "scan_rune_deposits sv py ord clock node ca w = (r, w')"
  shows "moves w w'"
proof -
  let ?I = "\<lambda>v :: rune_world. transacts (w_effects v) = transacts (w_effects w)"
  have list: "keeps ?I (case b of JStr b \<Rightarrow> lift_res (dn_listsinceblock node b k) | _ \<Rightarrow> throw e)" for b k e
    by (cases b) simp_all
  have get: "keeps ?I (in_tx (rune_kv_get k v))" for k v
    by (rule keeps_in_tx) simp_all
  have "keeps ?I (scan_rune_deposits sv py ord clock node ca)"
    unfolding scan_rune_deposits_def Let_def
    by (intro keeps_bnd keeps_sq get keeps_demand keeps_if list keeps_lift_res keeps_prod keeps_no_call_store)
  from keepsD'[OF this refl run] have calls: "same_calls w w'" by (simp add: same_calls_def)
  show ?thesis
  proof (cases r)
    case (Inl e)
    then show ?thesis using scan_failure run calls by (auto simp: moves_def intro: progress_same)
  next
    case (Inr n)
    have w': "rune_tables_ok w'" using keeps_tables_ok[OF keeps_tables_scan w] run by (metis snd_conv)
    obtain entries where sc: "\<forall>d \<in> set (db_rune_deposits (w_db w')).
        scanned sv py entries (db_deposit_addresses (w_db w)) (db_rune_deposits (w_db w)) d"
      and keys: "rune_deposit_key ` set (db_rune_deposits (w_db w)) \<subseteq> rune_deposit_key ` set (db_rune_deposits (w_db w'))"
      using scan_outcome[OF w run[unfolded Inr]] by blast
    have "progress w w'"
      unfolding progress_def
    proof
      fix d assume d: "d \<in> set (db_rune_deposits (w_db w))"
      then have "rune_deposit_key d \<in> rune_deposit_key ` set (db_rune_deposits (w_db w'))" using keys by blast
      then obtain d' where d': "d' \<in> set (db_rune_deposits (w_db w'))" "rune_deposit_key d' = rune_deposit_key d"
        unfolding image_iff by metis
      from sc d'(1) have "scanned sv py entries (db_deposit_addresses (w_db w)) (db_rune_deposits (w_db w)) d'" by blast
      then consider "d' \<in> set (db_rune_deposits (w_db w))"
        | e where "e \<in> set (db_rune_deposits (w_db w))" "rd_id e = rd_id d'" "rune_deposit_key e = rune_deposit_key d'"
          "rd_status d' = rd_status e \<or> rd_status e = rd_code RD_DETECTED \<and> rd_status d' = rd_code RD_ACCEPTED"
        | "rune_deposit_key d' \<notin> rune_deposit_key ` set (db_rune_deposits (w_db w))"
        unfolding scanned_def by blast
      then have "rd_id d' = rd_id d \<and> status_step\<^sup>*\<^sup>* (rd_status d) (rd_status d')"
      proof cases
        case 1
        then show ?thesis using rows_with_key[OF w d 1 d'(2)] by simp
      next
        case (2 e)
        then have "e = d" using rows_with_key[OF w d 2(1)] d'(2) by simp
        then show ?thesis using 2 status_step_codes(1) by auto
      next
        case 3
        then show ?thesis using d d'(2) by (metis imageI)
      qed
      then show "\<exists>d' \<in> set (db_rune_deposits (w_db w')). rd_id d' = rd_id d \<and>
          rune_deposit_key d' = rune_deposit_key d \<and> status_step\<^sup>*\<^sup>* (rd_status d) (rd_status d')"
        using d' by blast
    qed
    then show ?thesis using calls by (simp add: moves_def)
  qed
qed

lemma calm_scan: "calm (scan_rune_deposits sv py ord clock node ca)"
  by (rule calmI[OF keeps_tables_scan]) (metis prod.collapse scan_moves)

text \<open>The answers that are kept were given by federators whose signature of the hash was checked.\<close>

definition signature_ok :: "evm_node \<Rightarrow> string \<Rightarrow> string \<Rightarrow> string \<Rightarrow> bool" where
  "signature_ok evm message_hash signer signature \<longleftrightarrow>
     en_is_federator evm signer = Inr True \<and> en_recover evm message_hash signature = Inr signer"

lemma validate_answer_iff:
  "validate_sign_rune_to_evm_transfer_answer evm h a = Inr () \<longleftrightarrow>
   signature_ok evm h (an_signer a) (an_signature a)"
  by (auto simp: validate_sign_rune_to_evm_transfer_answer_def signature_ok_def rbind_eq_Inr split: if_splits)

lemma prune_invalid_answers_ok:
  "prune_invalid_answers evm h answers signers = Inr kept \<Longrightarrow>
   (\<forall>a \<in> set kept. a \<in> set answers \<and> signature_ok evm h (an_signer a) (an_signature a) \<and> an_signer a \<notin> set signers) \<and>
   distinct (map an_signer kept)"
proof (induction evm h answers signers arbitrary: kept rule: prune_invalid_answers.induct)
  case (2 evm h a answers signers)
  show ?case
  proof (cases "an_signer a \<in> set signers")
    case True
    then have "prune_invalid_answers evm h answers signers = Inr kept" using "2.prems" by simp
    from "2.IH"(1)[OF True this] show ?thesis by auto
  next
    case False
    show ?thesis
    proof (cases "validate_sign_rune_to_evm_transfer_answer evm h a")
      case (Inl e)
      then have e: "e = ValidationError" "prune_invalid_answers evm h answers signers = Inr kept"
        using "2.prems" False by (auto split: if_splits)
      from "2.IH"(2)[OF False Inl e] show ?thesis by auto
    next
      case (Inr u)
      then obtain rest where rest: "prune_invalid_answers evm h answers (an_signer a # signers) = Inr rest"
        "kept = a # rest" using "2.prems" False by (auto simp: rbind_eq_Inr)
      have "signature_ok evm h (an_signer a) (an_signature a)" using Inr validate_answer_iff[of evm h a] by simp
      with "2.IH"(3)[OF False Inr rest(1)] rest(2) False show ?thesis by auto
    qed
  qed
qed simp

lemma add_signatures_ok:
  assumes "\<forall>a \<in> set answers. signature_ok evm h (an_signer a) (an_signature a)"
    and "length sns = length sgs" "distinct sns" "add_signatures answers (sns, sgs) = (sns', sgs')"
  shows "length sns' = length sgs' \<and> distinct sns' \<and> set sns \<union> an_signer ` set answers = set sns' \<and>
    (\<exists>new. zip sns' sgs' = zip sns sgs @ new \<and> (\<forall>(signer, sg) \<in> set new. signature_ok evm h signer sg))"
  using assms
proof (induction answers arbitrary: sns sgs)
  case (Cons a answers)
  show ?case
  proof (cases "an_signer a \<in> set sns")
    case True
    then have "add_signatures answers (sns, sgs) = (sns', sgs')" using Cons.prems(4) by simp
    from Cons.IH[OF _ Cons.prems(2,3) this] Cons.prems(1) True show ?thesis by auto
  next
    case False
    then have add: "add_signatures answers (sns @ [an_signer a], sgs @ [an_signature a]) = (sns', sgs')"
      using Cons.prems(4) by simp
    have "\<forall>a \<in> set answers. signature_ok evm h (an_signer a) (an_signature a)"
      "length (sns @ [an_signer a]) = length (sgs @ [an_signature a])" "distinct (sns @ [an_signer a])"
      using Cons.prems False by simp_all
    from Cons.IH[OF this add] obtain new where
      "length sns' = length sgs' \<and> distinct sns' \<and> set (sns @ [an_signer a]) \<union> an_signer ` set answers = set sns'"
      "zip sns' sgs' = zip (sns @ [an_signer a]) (sgs @ [an_signature a]) @ new"
      "\<forall>(signer, sg) \<in> set new. signature_ok evm h signer sg" by blast
    then show ?thesis using Cons.prems(1,2)
      by (intro conjI exI[of _ "(an_signer a, an_signature a) # new"]) auto
  qed
qed auto

lemma calm_update_signatures: "calm (update_rune_deposit_signatures sv evm i h answers)"
proof (rule calmI[OF keeps_tables_update_signatures])
  fix w
  have q: "query_deposit sv i w = (fst (query_deposit sv i w), w)"
    by (auto simp: query_deposit_def run_bnd run_query_one split: sum.splits)
  have upd: "progress w (w\<lparr>w_db := db_rune_deposits_update (update_where (\<lambda>d. rd_id d = k)
      (\<lambda>d. d\<lparr>rd_accept_transfer_message_hash := x, rd_accept_transfer_signers := y,
             rd_accept_transfer_signatures := z\<rparr>)) (w_db w)\<rparr>)" for k x y z
    by (rule progress_update[where i = k and f = "\<lambda>d. d\<lparr>rd_accept_transfer_message_hash := x,
          rd_accept_transfer_signers := y, rd_accept_transfer_signatures := z\<rparr>"])
      (simp_all add: rune_deposit_key_def)
  show "moves w (snd (update_rune_deposit_signatures sv evm i h answers w))"
    unfolding update_rune_deposit_signatures_def moves_def same_calls_def
    by (subst (1 2) in_tx_def, subst (1 2) run_bnd, subst (1 2) q)
      (auto simp: run_bnd run_sq run_demand update_rune_deposit_ok Let_def progress_same upd split: sum.splits)
qed

lemma calm_reads:
  "calm (get_accepted_rune_deposit_ids sv)" "calm (get_sign_rune_to_evm_transfer_question sv i)"
  "calm (validate_rune_deposit_for_sending sv evm i)"
proof -
  show "calm (get_accepted_rune_deposit_ids sv)" unfolding get_accepted_rune_deposit_ids_def
    by (rule calm_quiet) (intro quiet_intros, intro keeps_tables_send_intros)
  show "calm (get_sign_rune_to_evm_transfer_question sv i)" unfolding get_sign_rune_to_evm_transfer_question_def
    by (rule calm_quiet) (intro quiet_intros, intro keeps_tables_send_intros)
  show "calm (validate_rune_deposit_for_sending sv evm i)" unfolding validate_rune_deposit_for_sending_def
    by (rule calm_quiet) (intro quiet_intros, intro keeps_tables_send_intros)
qed

section \<open>What an operation does when it can\<close>

lemma related_row:
  assumes "distinct (map k (rows_of (w_db w)))" "x \<in> set (rows_of (w_db w))" "k x = i"
  shows "related rows_of (\<lambda>x. k x = i) w = (Inr x, w)"
proof -
  have "filter (\<lambda>x. k x = i) (rows_of (w_db w)) = [x]"
    by (rule filter_one[where k = k]) (use assms in simp_all)
  then show ?thesis by (simp add: run_related)
qed

lemma query_ready:
  assumes "rune_tables_ok w" "bridge_id sv = Inr (rd_bridge_id d)" "d \<in> set (db_rune_deposits (w_db w))"
  shows "query_deposit sv (rd_id d) w = (Inr d, w)"
proof -
  have "filter (\<lambda>e. rd_bridge_id e = rd_bridge_id d \<and> rd_id e = rd_id d) (db_rune_deposits (w_db w)) = [d]"
    by (rule filter_one[where k = rd_id]) (use assms in \<open>simp_all add: rune_tables_ok_def table_ok_def Let_def\<close>)
  then show ?thesis using assms(2) by (simp add: query_deposit_def run_bnd run_query_one)
qed

text \<open>A deposit with the user and the rune that it refers to.\<close>

definition deposit_of :: "rune_world \<Rightarrow> rune_deposit \<Rightarrow> user \<Rightarrow> rune \<Rightarrow> bool" where
  "deposit_of w d u r \<longleftrightarrow> d \<in> set (db_rune_deposits (w_db w)) \<and>
     u \<in> set (db_users (w_db w)) \<and> us_id u = rd_user_id d \<and> r \<in> set (db_runes (w_db w)) \<and> ru_id r = rd_rune_id d"

lemma deposit_of_ready:
  assumes "rune_tables_ok w" "deposit_of w d u r"
    and "db_users (w_db v) = db_users (w_db w)" "db_runes (w_db v) = db_runes (w_db w)"
  shows "deposit_user d v = (Inr u, v)" "deposit_rune d v = (Inr r, v)"
  unfolding deposit_user_def deposit_rune_def
  by (rule related_row; use assms in \<open>simp add: deposit_of_def rune_tables_ok_def table_ok_def Let_def\<close>)+

lemma decimal_amount_Inr: "\<exists>x. decimal_amount r n = Inr x"
  by (cases "decimal_amount r n") (auto simp: decimal_amount_def dec_div_def dec_of_int_def Let_def split: if_splits)

lemma claim_ready:
  assumes w: "rune_tables_ok w" and bid: "bridge_id sv = Inr (rd_bridge_id d)" and rel: "deposit_of w d u r"
    and d: "rd_status d = rd_code RD_ACCEPTED" "n \<le> length (rd_accept_transfer_signatures d)"
  shows "claim_rune_deposit sv evm n (rd_id d) w =
     (Inr (Some (d, us_evm_address u, take n (rd_accept_transfer_signatures d))),
      w\<lparr>w_db := db_rune_deposits_update
        (update_where (\<lambda>e. rd_id e = rd_id d) (\<lambda>d. d\<lparr>rd_status := rd_code SENDING_TO_EVM\<rparr>)) (w_db w)\<rparr>)"
proof -
  have q: "query_deposit sv (rd_id d) w = (Inr d, w)"
    by (rule query_ready[OF w bid]) (use rel in \<open>simp add: deposit_of_def\<close>)
  obtain net where net: "decimal_amount r (rd_net_amount_raw d) = Inr net" using decimal_amount_Inr by blast
  define w' where "w' = w\<lparr>w_db := db_rune_deposits_update
      (update_where (\<lambda>e. rd_id e = rd_id d) (\<lambda>d. d\<lparr>rd_status := rd_code SENDING_TO_EVM\<rparr>)) (w_db w)\<rparr>"
  have related: "deposit_user d w' = (Inr u, w')" "deposit_rune d w' = (Inr r, w')"
    by (rule deposit_of_ready[OF w rel]; simp add: w'_def)+
  have upd: "set_deposit_status (rd_id d) SENDING_TO_EVM w = (Inr (), w')"
    by (simp add: set_deposit_status_def update_rune_deposit_ok w'_def)
  show ?thesis unfolding w'_def[symmetric]
    using d by (simp add: claim_rune_deposit_def in_tx_def run_bnd q run_sq run_demand upd related net)
qed

text \<open>An accepted deposit with enough signatures is sent, if the contract takes the call.\<close>

lemma transact_ready:
  assumes w: "rune_tables_ok w" and bid: "bridge_id sv = Inr (rd_bridge_id d)"
    and d: "d \<in> set (db_rune_deposits (w_db w))" and sent: "en_transact evm call = Inr tx_hash"
  shows "\<exists>v. transact_rune_deposit sv evm (rd_id d) call w = (Inr (), v) \<and>
     db_rune_deposits (w_db v) = update_where (\<lambda>e. rd_id e = rd_id d)
       (\<lambda>d. d\<lparr>rd_status := rd_code SENT_TO_EVM, rd_evm_tx_hash := Some tx_hash\<rparr>) (db_rune_deposits (w_db w))"
proof -
  have "get_deposit (rd_id d) (w\<lparr>w_effects := es\<rparr>) = (Inr d, w\<lparr>w_effects := es\<rparr>)" for es
    unfolding get_deposit_def
    by (rule related_row) (use w d in \<open>simp_all add: rune_tables_ok_def table_ok_def Let_def\<close>)
  then show ?thesis
    using bid sent by (simp add: transact_rune_deposit_def run_sq notice_def in_tx_def run_bnd run_asserting update_rune_deposit_ok)
qed

lemma send_ready:
  assumes w: "rune_tables_ok w" and bid: "bridge_id sv = Inr (rd_bridge_id d)" and rel: "deposit_of w d u r"
    and d: "rd_status d = rd_code RD_ACCEPTED" "n \<le> length (rd_accept_transfer_signatures d)"
    and evm: "en_frozen evm = Inr False" "en_num_required_federators evm = Inr n" "check_gas evm = Inr nonce"
    and call: "call = \<lparr>ac_evm_address = us_evm_address u, ac_rune_number = rd_rune_number d,
            ac_net_rune_amount = rd_net_amount_raw d, ac_btc_txid = en_add_0x_prefix evm (rd_tx_id d),
            ac_btc_vout = rd_vout d, ac_signatures = take n (rd_accept_transfer_signatures d),
            ac_gas = tx_gas_limit, ac_nonce = nonce\<rparr>"
    and sent: "en_transact evm call = Inr tx_hash"
  shows "\<exists>res w'. send_rune_deposit_to_evm sv evm (rd_id d) w = (res, w') \<and>
    transacts (w_effects w') = call # transacts (w_effects w) \<and>
    (\<exists>d' \<in> set (db_rune_deposits (w_db w')). rune_deposit_key d' = rune_deposit_key d \<and>
       status_step\<^sup>*\<^sup>* (rd_code SENT_TO_EVM) (rd_status d'))"
proof -
  let ?sending = "\<lambda>d. d\<lparr>rd_status := rd_code SENDING_TO_EVM\<rparr>"
  define v where "v = w\<lparr>w_db := db_rune_deposits_update (update_where (\<lambda>e. rd_id e = rd_id d) ?sending) (w_db w)\<rparr>"
  have claim: "claim_rune_deposit sv evm n (rd_id d) w =
      (Inr (Some (d, us_evm_address u, take n (rd_accept_transfer_signatures d))), v)"
    unfolding v_def by (rule claim_ready[OF w bid rel d])
  have vok: "rune_tables_ok v" using keeps_tables_ok[OF keeps_tables_claim w] claim by (metis snd_conv)
  have "d \<in> set (db_rune_deposits (w_db w))" using rel by (simp add: deposit_of_def)
  from update_where_hit[OF this, of "\<lambda>e. rd_id e = rd_id d" ?sending]
  have d1: "?sending d \<in> set (db_rune_deposits (w_db v))" by (simp add: v_def)
  have same: "rd_id (?sending d) = rd_id d" "rd_bridge_id (?sending d) = rd_bridge_id d"
    "rune_deposit_key (?sending d) = rune_deposit_key d" by (simp_all add: rune_deposit_key_def)
  have sending: "\<forall>e \<in> set (db_rune_deposits (w_db v)). rd_id e = rd_id d \<longrightarrow> rd_status e = rd_code SENDING_TO_EVM"
    by (auto simp: v_def update_where_def)
  let ?sent = "\<lambda>d. d\<lparr>rd_status := rd_code SENT_TO_EVM, rd_evm_tx_hash := Some tx_hash\<rparr>"
  obtain t where t: "transact_rune_deposit sv evm (rd_id d) call v = (Inr (), t)"
    "db_rune_deposits (w_db t) = update_where (\<lambda>e. rd_id e = rd_id d) ?sent (db_rune_deposits (w_db v))"
    using transact_ready[OF vok _ d1 sent, of sv] bid unfolding same by blast
  note tr = transact_outcome[OF vok sending t(1)]
  obtain q w' where cf: "confirm_sent_rune_deposit sv evm (rd_id d) t = (q, w')"
    by (cases "confirm_sent_rune_deposit sv evm (rd_id d) t")
  have run: "send_rune_deposit_to_evm sv evm (rd_id d) w = (q, w')"
    using evm claim t(1) cf by (simp add: send_rune_deposit_to_evm_def run_bnd run_sq call)
  have moved: "progress t w'" "transacts (w_effects w') = transacts (w_effects t)"
    using calmD[OF calm_confirm _ cf] tr by (auto simp: moves_def same_calls_def)
  have "?sent (?sending d) \<in> set (db_rune_deposits (w_db t))"
    unfolding t(2) using update_where_hit[OF d1, of "\<lambda>e. rd_id e = rd_id d" ?sent] by simp
  then obtain d' where "d' \<in> set (db_rune_deposits (w_db w'))" "rune_deposit_key d' = rune_deposit_key (?sent (?sending d))"
    "status_step\<^sup>*\<^sup>* (rd_status (?sent (?sending d))) (rd_status d')"
    using moved(1) unfolding progress_def by blast
  moreover have "rune_deposit_key (?sent (?sending d)) = rune_deposit_key d" by (simp add: rune_deposit_key_def)
  moreover have "transacts (w_effects w') = call # transacts (w_effects w)" using moved(2) tr by (simp add: v_def)
  ultimately show ?thesis using run by (intro exI[of _ q] exI[of _ w']) (auto simp del: rd_code.simps)
qed

text \<open>Of the answers those are kept that are valid, one of each signer, if checking them does not raise.\<close>

lemma prune_keeps_valid:
  assumes "\<forall>a \<in> set answers. (\<exists>b. en_is_federator evm (an_signer a) = Inr b) \<and> (\<exists>s. en_recover evm h (an_signature a) = Inr s)"
  shows "\<exists>kept. prune_invalid_answers evm h answers signers = Inr kept \<and>
    {an_signer a |a. a \<in> set answers \<and> signature_ok evm h (an_signer a) (an_signature a)} \<subseteq> an_signer ` set kept \<union> set signers"
  using assms
proof (induction answers arbitrary: signers)
  case (Cons a answers)
  show ?case
  proof (cases "an_signer a \<in> set signers")
    case True
    with Cons.IH[of signers] Cons.prems show ?thesis by auto
  next
    case False
    show ?thesis
    proof (cases "signature_ok evm h (an_signer a) (an_signature a)")
      case True
      then have "validate_sign_rune_to_evm_transfer_answer evm h a = Inr ()" by (simp add: validate_answer_iff)
      moreover obtain kept where "prune_invalid_answers evm h answers (an_signer a # signers) = Inr kept"
        "{an_signer a |a. a \<in> set answers \<and> signature_ok evm h (an_signer a) (an_signature a)} \<subseteq>
           an_signer ` set kept \<union> set (an_signer a # signers)"
        using Cons.IH[of "an_signer a # signers"] Cons.prems by auto
      ultimately show ?thesis using False by (intro exI[of _ "a # kept"]) auto
    next
      case no: False
      from Cons.prems obtain b s where "en_is_federator evm (an_signer a) = Inr b" "en_recover evm h (an_signature a) = Inr s" by auto
      with no have "validate_sign_rune_to_evm_transfer_answer evm h a = Inl ValidationError"
        by (cases b) (auto simp: validate_sign_rune_to_evm_transfer_answer_def signature_ok_def)
      with False no Cons.IH[of signers] Cons.prems show ?thesis by auto
    qed
  qed
qed simp

lemma update_signatures_ready:
  assumes w: "rune_tables_ok w" and bid: "bridge_id sv = Inr (rd_bridge_id d)" and d: "d \<in> set (db_rune_deposits (w_db w))"
      "rd_status d = rd_code RD_ACCEPTED" "distinct (rd_accept_transfer_signers d)"
      "length (rd_accept_transfer_signers d) = length (rd_accept_transfer_signatures d)"
    and answers: "\<forall>a \<in> set answers. (\<exists>b. en_is_federator evm (an_signer a) = Inr b) \<and> (\<exists>s. en_recover evm h (an_signature a) = Inr s)"
    and n: "en_num_required_federators evm = Inr n"
      "n \<le> card {an_signer a |a. a \<in> set answers \<and> signature_ok evm h (an_signer a) (an_signature a)}"
  shows "\<exists>signers signatures. n \<le> length signatures \<and> update_rune_deposit_signatures sv evm (rd_id d) h answers w =
    (Inr True, w\<lparr>w_db := db_rune_deposits_update (update_where (\<lambda>e. rd_id e = rd_id d)
       (\<lambda>d. d\<lparr>rd_accept_transfer_message_hash := Some h, rd_accept_transfer_signers := signers,
              rd_accept_transfer_signatures := signatures\<rparr>)) (w_db w)\<rparr>)"
proof -
  obtain kept where kept: "prune_invalid_answers evm h answers [] = Inr kept"
    and all: "{an_signer a |a. a \<in> set answers \<and> signature_ok evm h (an_signer a) (an_signature a)} \<subseteq> an_signer ` set kept"
    using prune_keeps_valid[OF answers, of "[]"] by auto
  obtain sns sgs where add: "add_signatures kept (rd_accept_transfer_signers d, rd_accept_transfer_signatures d) = (sns, sgs)"
    by (cases "add_signatures kept (rd_accept_transfer_signers d, rd_accept_transfer_signatures d)")
  have "\<forall>a \<in> set kept. signature_ok evm h (an_signer a) (an_signature a)" using prune_invalid_answers_ok[OF kept] by blast
  note sig = add_signatures_ok[OF this d(4,3) add]
  have "{an_signer a |a. a \<in> set answers \<and> signature_ok evm h (an_signer a) (an_signature a)} \<subseteq> set sns"
    using all sig by auto
  from card_mono[OF _ this] n(2) have "n \<le> card (set sns)" by simp
  also have "\<dots> \<le> length sgs" using card_length[of sns] sig by simp
  finally have "n \<le> length sgs" .
  then show ?thesis
    using d(2) n(1)
    by (intro exI[of _ sns] exI[of _ sgs])
      (simp add: update_rune_deposit_signatures_def in_tx_def run_bnd run_sq run_demand update_rune_deposit_ok
        query_ready[OF w bid d(1)] kept add)
qed

section \<open>Properties\<close>

lemma round_double_bounds:
  assumes "0 \<le> lo" "lo \<le> q" "q \<le> hi"
  shows "lo * (1 - 1 / 2 ^ 53) \<le> round_double q" "round_double q \<le> hi * (1 + 1 / 2 ^ 53)"
proof -
  have "\<bar>round_double q - q\<bar> \<le> q / 2 ^ 53" using round_double_error[of q] assms by simp
  then have q: "q - q / 2 ^ 53 \<le> round_double q" "round_double q \<le> q + q / 2 ^ 53"
    unfolding abs_le_iff by linarith+
  have "lo * (1 - 1 / 2 ^ 53) \<le> q * (1 - 1 / 2 ^ 53)" using assms by (intro mult_right_mono) simp_all
  moreover have "q * (1 - 1 / 2 ^ 53) = q - q / 2 ^ 53" by (simp add: algebra_simps)
  ultimately show "lo * (1 - 1 / 2 ^ 53) \<le> round_double q" using q by linarith
  have "q * (1 + 1 / 2 ^ 53) \<le> hi * (1 + 1 / 2 ^ 53)" using assms by (intro mult_right_mono) simp_all
  moreover have "q * (1 + 1 / 2 ^ 53) = q + q / 2 ^ 53" by (simp add: algebra_simps)
  ultimately show "round_double q \<le> hi * (1 + 1 / 2 ^ 53)" using q by linarith
qed

lemma min_balance_wei_interval:
  assumes g: "0 \<le> g"
  shows "of_int (300000 * g) * (1 - 5 / 2 ^ 53) - 1 \<le> (of_int (min_balance_wei g) :: rat)"
    and "of_int (min_balance_wei g) \<le> (of_int (300000 * g) * (1 + 5 / 2 ^ 53) :: rat)"
proof -
  define u :: rat where "u = 1 / 2 ^ 53"
  define G :: rat where "G = of_int g"
  have G: "0 \<le> G" using g by (simp add: G_def)
  have f: "f_of_int 250000 = 250000" using f_of_int_exact[of 250000] by simp
  let ?a = "round_double (12/10)"
  have a: "12/10 * (1 - u) \<le> ?a" "?a \<le> 12/10 * (1 + u)"
    using round_double_bounds[of "12/10" "12/10" "12/10"] by (simp_all add: u_def)
  let ?b = "f_mul ?a (f_of_int tx_gas_limit)"
  have "300000 * (1 - u) \<le> ?a * 250000" "?a * 250000 \<le> 300000 * (1 + u)" using a by simp_all
  moreover have "0 \<le> 300000 * (1 - u)" by (simp add: u_def)
  ultimately have b: "300000 * (1 - u) * (1 - u) \<le> ?b" "?b \<le> 300000 * (1 + u) * (1 + u)"
    using round_double_bounds[of "300000 * (1 - u)" "?a * 250000" "300000 * (1 + u)"] f
    by (simp_all add: f_mul_def tx_gas_limit_def u_def)
  let ?c = "f_of_int g"
  have c: "G * (1 - u) \<le> ?c" "?c \<le> G * (1 + u)"
    using round_double_bounds[OF G order_refl order_refl] by (simp_all add: f_of_int_def u_def G_def)
  let ?m = "f_mul ?b ?c"
  have p: "0 \<le> 300000 * (1 - u) * (1 - u)" "0 \<le> G * (1 - u)" using G by (simp_all add: u_def)
  have lo: "300000 * (1 - u) * (1 - u) * (G * (1 - u)) \<le> ?b * ?c"
    using b c p by (intro mult_mono) linarith+
  have hi: "?b * ?c \<le> 300000 * (1 + u) * (1 + u) * (G * (1 + u))"
    using b c p by (intro mult_mono) linarith+
  have pos: "0 \<le> 300000 * (1 - u) * (1 - u) * (G * (1 - u))" using p by (rule mult_nonneg_nonneg)
  have m: "300000 * (1 - u) * (1 - u) * (G * (1 - u)) * (1 - u) \<le> ?m"
    "?m \<le> 300000 * (1 + u) * (1 + u) * (G * (1 + u)) * (1 + u)"
    using round_double_bounds[OF pos lo hi] by (simp_all add: f_mul_def u_def)
  have "300000 * (1 - 5 * u) \<le> 300000 * (1 - u) * (1 - u) * (1 - u) * (1 - u)" by (simp add: u_def)
  from mult_left_mono[OF this G] have lo': "300000 * G * (1 - 5 * u) \<le> ?m" using m(1) by (simp add: ac_simps)
  have "300000 * (1 + u) * (1 + u) * (1 + u) * (1 + u) \<le> 300000 * (1 + 5 * u)" by (simp add: u_def)
  from mult_left_mono[OF this G] have hi': "?m \<le> 300000 * G * (1 + 5 * u)" using m(2) by (simp add: ac_simps)
  have "0 \<le> 300000 * G * (1 - 5 * u)" using G by (simp add: u_def)
  then have fl: "min_balance_wei g = \<lfloor>?m\<rfloor>" using lo' by (simp add: min_balance_wei_def f_int_def)
  have r: "of_int (min_balance_wei g) \<le> ?m" "?m < of_int (min_balance_wei g) + 1"
    unfolding fl using floor_correct[of ?m] by simp_all
  have "(of_int (300000 * g) * (1 - 5 / 2 ^ 53) :: rat) = 300000 * G * (1 - 5 * u)"
    "(of_int (300000 * g) * (1 + 5 / 2 ^ 53) :: rat) = 300000 * G * (1 + 5 * u)"
    by (simp_all add: u_def G_def)
  then show "of_int (300000 * g) * (1 - 5 / 2 ^ 53) - 1 \<le> (of_int (min_balance_wei g) :: rat)"
    "of_int (min_balance_wei g) \<le> (of_int (300000 * g) * (1 + 5 / 2 ^ 53) :: rat)"
    using lo' hi' r by linarith+
qed

lemma min_balance_one: "min_balance_wei 1 \<le> 300000"
proof -
  have "(of_int (min_balance_wei 1) :: rat) < 300001"
    by (rule le_less_trans[OF min_balance_wei_interval(2)]) simp_all
  then show ?thesis by linarith
qed

text \<open>
  C15. The signatures collected for a deposit come from different federators, and every one that
  is added was checked: its signer is a federator of the contract and the signature of the
  message hash recovers to it. Earlier signatures stay, the status does not change, and the
  result says whether the contract's required number is reached.
\<close>

theorem update_signatures_sound:
  assumes w: "rune_tables_ok w"
    and d: "d \<in> set (db_rune_deposits (w_db w))" "rd_id d = i"
      "distinct (rd_accept_transfer_signers d)"
      "length (rd_accept_transfer_signers d) = length (rd_accept_transfer_signatures d)"
    and run: "update_rune_deposit_signatures sv evm i h answers w = (Inr ready, w')"
  shows "\<exists>d' n. d' \<in> set (db_rune_deposits (w_db w')) \<and> rd_id d' = i \<and>
    rd_status d' = rd_status d \<and> rd_status d = rd_code RD_ACCEPTED \<and>
    rd_accept_transfer_message_hash d' = Some h \<and>
    distinct (rd_accept_transfer_signers d') \<and>
    length (rd_accept_transfer_signers d') = length (rd_accept_transfer_signatures d') \<and>
    (\<exists>new. zip (rd_accept_transfer_signers d') (rd_accept_transfer_signatures d') =
        zip (rd_accept_transfer_signers d) (rd_accept_transfer_signatures d) @ new \<and>
      (\<forall>(signer, sg) \<in> set new. signature_ok evm h signer sg)) \<and>
    en_num_required_federators evm = Inr n \<and> (ready \<longleftrightarrow> n \<le> length (rd_accept_transfer_signatures d'))"
proof -
  obtain d0 v where q: "query_deposit sv i w = (Inr d0, v)"
    and rest: "sq (demand (rd_status d0 = rd_code RD_ACCEPTED) ValidationError)
     (bnd (lift_res (prune_invalid_answers evm h answers [])) (\<lambda>pruned.
      let added = add_signatures pruned
            (rd_accept_transfer_signers d0, rd_accept_transfer_signatures d0) in
      sq (update_rune_deposit (rd_id d0) (\<lambda>d. d\<lparr>rd_accept_transfer_message_hash := Some h,
            rd_accept_transfer_signers := fst added, rd_accept_transfer_signatures := snd added\<rparr>))
     (bnd (lift_res (en_num_required_federators evm)) (\<lambda>num_required.
      ok (length (snd added) \<ge> num_required))))) v = (Inr ready, w')"
    using run unfolding update_rune_deposit_signatures_def in_tx_eq_Inr bnd_eq_Inr by blast
  note d0 = query_deposit_Inr[OF q]
  have "d0 = d" by (rule rows_with_id[OF w d(1)]) (simp_all add: d0 d(2))
  then have v: "v = w" "d0 = d" using d0 by simp_all
  have acc: "rd_status d = rd_code RD_ACCEPTED"
    using rest unfolding v by (cases "rd_status d = rd_code RD_ACCEPTED") (simp_all add: run_sq run_demand)
  obtain kept where kept: "prune_invalid_answers evm h answers [] = Inr kept"
    using rest acc unfolding v
    by (cases "prune_invalid_answers evm h answers []") (simp_all add: run_sq run_demand run_bnd)
  obtain sns sgs where add: "add_signatures kept (rd_accept_transfer_signers d, rd_accept_transfer_signatures d) = (sns, sgs)"
    by (cases "add_signatures kept (rd_accept_transfer_signers d, rd_accept_transfer_signatures d)")
  let ?f = "\<lambda>d. d\<lparr>rd_accept_transfer_message_hash := Some h,
            rd_accept_transfer_signers := sns, rd_accept_transfer_signatures := sgs\<rparr>"
  obtain n where n: "en_num_required_federators evm = Inr n"
    using rest acc kept add unfolding v
    by (cases "en_num_required_federators evm") (simp_all add: run_sq run_demand run_bnd update_rune_deposit_ok)
  have "(ready \<longleftrightarrow> n \<le> length sgs) \<and>
      w' = w\<lparr>w_db := db_rune_deposits_update (update_where (\<lambda>e. rd_id e = rd_id d) ?f) (w_db w)\<rparr>"
    using rest acc kept add n unfolding v
    by (simp add: run_sq run_demand run_bnd update_rune_deposit_ok)
  then have n': "ready \<longleftrightarrow> n \<le> length sgs"
    and w': "w' = w\<lparr>w_db := db_rune_deposits_update (update_where (\<lambda>e. rd_id e = i) ?f) (w_db w)\<rparr>"
    unfolding d(2) by blast+
  have "\<forall>a \<in> set kept. signature_ok evm h (an_signer a) (an_signature a)"
    using prune_invalid_answers_ok[OF kept] by blast
  note sig = add_signatures_ok[OF this d(4,3) add]
  have "?f d \<in> set (db_rune_deposits (w_db w'))"
    using update_where_hit[OF d(1), of "\<lambda>e. rd_id e = i" ?f] d(2) by (simp add: w')
  with sig n n' acc d(2) show ?thesis by (intro exI[of _ "?f d"] exI[of _ n]) simp
qed

text \<open>
  C23. A deposit whose transfer is put off is not resumed: when the gas price, the balance or the
  number of pending transactions makes the node raise before it sends, no call has been made, but
  the deposit is already marked as being sent, and it is not among the deposits the next iteration
  looks at.
\<close>

theorem postponed_deposit_is_stuck:
  assumes w: "rune_tables_ok w" and bid: "bridge_id sv = Inr (rd_bridge_id d)"
    and d: "d \<in> set (db_rune_deposits (w_db w))" "rd_status d = rd_code RD_ACCEPTED"
      "n \<le> length (rd_accept_transfer_signatures d)"
    and rel: "\<exists>u \<in> set (db_users (w_db w)). us_id u = rd_user_id d"
      "\<exists>r \<in> set (db_runes (w_db w)). ru_id r = rd_rune_id d"
    and evm: "en_frozen evm = Inr False" "en_num_required_federators evm = Inr n" "check_gas evm = Inl e"
  shows "\<exists>w'. send_rune_deposit_to_evm sv evm (rd_id d) w = (Inl e, w') \<and>
    transacts (w_effects w') = transacts (w_effects w) \<and>
    (\<forall>d' \<in> set (db_rune_deposits (w_db w')). rd_id d' = rd_id d \<longrightarrow> rd_status d' = rd_code SENDING_TO_EVM) \<and>
    (\<forall>ids w''. get_accepted_rune_deposit_ids sv w' = (Inr ids, w'') \<longrightarrow> rd_id d \<notin> set ids)"
proof -
  obtain u r where r: "deposit_of w d u r" using rel d(1) by (auto simp: deposit_of_def)
  define w' where "w' = w\<lparr>w_db := db_rune_deposits_update
      (update_where (\<lambda>e. rd_id e = rd_id d) (\<lambda>d. d\<lparr>rd_status := rd_code SENDING_TO_EVM\<rparr>)) (w_db w)\<rparr>"
  have "claim_rune_deposit sv evm n (rd_id d) w =
      (Inr (Some (d, us_evm_address u, take n (rd_accept_transfer_signatures d))), w')"
    unfolding w'_def by (rule claim_ready[OF w bid r d(2,3)])
  then have run: "send_rune_deposit_to_evm sv evm (rd_id d) w = (Inl e, w')"
    using evm by (simp add: send_rune_deposit_to_evm_def run_bnd)
  have st: "\<forall>d' \<in> set (db_rune_deposits (w_db w')). rd_id d' = rd_id d \<longrightarrow> rd_status d' = rd_code SENDING_TO_EVM"
    by (auto simp: w'_def update_where_def)
  have "rd_id d \<notin> set ids" if "get_accepted_rune_deposit_ids sv w' = (Inr ids, w'')" for ids w''
  proof -
    have "ids = map rd_id (sort_key rd_id (filter (\<lambda>e. rd_bridge_id e = rd_bridge_id d \<and> rd_status e = rd_code RD_ACCEPTED)
        (db_rune_deposits (w_db w'))))"
      using that bid by (auto simp: get_accepted_rune_deposit_ids_def in_tx_def run_bnd run_rows_where)
    then show ?thesis using st by fastforce
  qed
  with run st show ?thesis by (intro exI[of _ w']) (simp add: w'_def)
qed

section \<open>An example\<close>

definition example_deposit :: rune_deposit where
  "example_deposit = \<lparr>rd_id = 1, rd_bridge_id = 1, rd_tx_id = ''ab'', rd_vout = 1, rd_block_number = 6,
     rd_rune_number = 0, rd_rune_id = 2, rd_user_id = 1, rd_incoming_btc_tx_id = 1, rd_postage = 10000,
     rd_transfer_amount_raw = 1000, rd_net_amount_raw = 996, rd_evm_tx_hash = None,
     rd_accept_transfer_message_hash = Some ''h'', rd_accept_transfer_signatures = [''s1''],
     rd_accept_transfer_signers = [''f1''], rd_status = rd_code RD_ACCEPTED\<rparr>"

definition accepted_world :: rune_world where
  "accepted_world = example_world\<lparr>w_db := example_db\<lparr>db_runes := [example_rune_row], db_rune_deposits := [example_deposit]\<rparr>,
     w_seqs := (\<lambda>_. 3)\<rparr>"

text \<open>A chain with the federators f1 and f2, whose signatures are s1 and s2; one of them is needed.\<close>

definition example_evm :: evm_node where
  "example_evm = \<lparr>en_address = ''f1'', en_frozen = Inr False, en_num_required_federators = Inr 1,
     en_is_rune_registered = (\<lambda>_. Inr True), en_is_rune_paused = (\<lambda>_. Inr False),
     en_is_federator = (\<lambda>a. Inr (a = ''f1'' \<or> a = ''f2'')), en_message_hash = (\<lambda>_ _ _ _ _. Inr ''h''),
     en_gas_price = Inr 1, en_balance_pending = Inr 1000000, en_nonce_pending = Inr 7, en_nonce_latest = Inr 7,
     en_transact = (\<lambda>_. Inr ''cd''), en_receipt = (\<lambda>_. Inr None), en_add_0x_prefix = (\<lambda>s. ''0x'' @ s),
     en_sign = (\<lambda>_. Inr ''s1''), en_recover = (\<lambda>h s. Inr (if s = ''s1'' then ''f1'' else ''f2''))\<rparr>"

lemma accepted_tables_ok: "rune_tables_ok accepted_world"
  by (simp add: rune_tables_ok_def accepted_world_def example_world_def example_db_def table_ok_def Let_def
      example_deposit_def example_rune_row_def)

lemma accepted_rows:
  "example_deposit \<in> set (db_rune_deposits (w_db accepted_world))"
  "db_rune_deposits (w_db accepted_world) = [example_deposit]"
  by (simp_all add: accepted_world_def)

theorem update_signatures_sound_witness:
  "\<exists>ready w'. update_rune_deposit_signatures example_service example_evm 1 ''h''
      [\<lparr>an_signature = ''s2'', an_signer = ''f2'', an_message_hash = ''h''\<rparr>,
       \<lparr>an_signature = ''s2'', an_signer = ''f1'', an_message_hash = ''h''\<rparr>] accepted_world = (Inr ready, w') \<and>
    (\<exists>d' \<in> set (db_rune_deposits (w_db w')). distinct (rd_accept_transfer_signers d'))"
proof -
  let ?as = "[\<lparr>an_signature = ''s2'', an_signer = ''f2'', an_message_hash = ''h''\<rparr>,
       \<lparr>an_signature = ''s2'', an_signer = ''f1'', an_message_hash = ''h''\<rparr>]"
  have q: "query_deposit example_service 1 accepted_world = (Inr example_deposit, accepted_world)"
    by (simp add: query_deposit_def example_facts prog_simps accepted_rows) (simp add: example_deposit_def)
  have p: "prune_invalid_answers example_evm ''h'' ?as [] =
      Inr [\<lparr>an_signature = ''s2'', an_signer = ''f2'', an_message_hash = ''h''\<rparr>]"
    by (simp add: validate_sign_rune_to_evm_transfer_answer_def example_evm_def)
  obtain w' where run: "update_rune_deposit_signatures example_service example_evm 1 ''h'' ?as accepted_world = (Inr True, w')"
    by (simp add: update_rune_deposit_signatures_def in_tx_def run_bnd q run_sq run_demand p Let_def
        update_rune_deposit_ok del: prune_invalid_answers.simps)
      (simp add: example_deposit_def example_evm_def run_bnd run_sq update_rune_deposit_ok)
  from update_signatures_sound[OF accepted_tables_ok accepted_rows(1) _ _ _ run] run show ?thesis
    by (auto simp: example_deposit_def)
qed

theorem postponed_deposit_is_stuck_witness:
  "\<exists>w'. send_rune_deposit_to_evm example_service (example_evm\<lparr>en_nonce_pending := Inr 11\<rparr>) 1 accepted_world =
      (Inl RuntimeError, w') \<and> transacts (w_effects w') = transacts (w_effects accepted_world)"
proof -
  let ?evm = "example_evm\<lparr>en_nonce_pending := Inr 11\<rparr>"
  have "check_gas ?evm = Inl RuntimeError"
    using min_balance_one by (simp add: check_gas_def example_evm_def)
  moreover have "bridge_id example_service = Inr (rd_bridge_id example_deposit)"
    by (simp add: example_facts) (simp add: example_deposit_def)
  ultimately show ?thesis
    using postponed_deposit_is_stuck[OF accepted_tables_ok _ accepted_rows(1), of example_service 1 ?evm RuntimeError]
    by (auto simp: example_deposit_def example_evm_def accepted_world_def example_world_def example_db_def
        example_rune_row_def)
qed

end
