(* ===== verification/Btc_Types.thy ===== *)
theory Btc_Types
  imports Py_Show
begin

text \<open>
  Amounts, unspent outputs and the size of multisig transactions, from
  \<^verbatim>\<open>bridge_node/bridge/common/btc/types.py\<close>, \<^verbatim>\<open>utils.py\<close> and \<^verbatim>\<open>multisig_utils.py\<close> beside it.
  The Bitcoin library (\<open>bitcointx\<close>) is the parameter \<open>btx\<close>; scripts, keys and addresses are the
  bytes it works on.
\<close>

section \<open>Satoshis\<close>

definition dec_eq :: "decimal \<Rightarrow> decimal \<Rightarrow> bool" where
  "dec_eq a b \<longleftrightarrow> (let e = min (expo a) (expo b) in dec_align a e = dec_align b e)"

text \<open>What the RPC client hands over as an amount; \<open>parse\<close> is \<open>Decimal(str)\<close>.\<close>

datatype btc_amount = BtcInt int | BtcDecimal decimal | BtcStr string | BtcOther

definition decimal_of :: "(string \<Rightarrow> exn + decimal) \<Rightarrow> btc_amount \<Rightarrow> exn + decimal" where
  "decimal_of parse amount =
     (case amount of
        BtcInt n \<Rightarrow> Inr (dec_of_int n)
      | BtcDecimal d \<Rightarrow> Inr d
      | BtcStr s \<Rightarrow> parse s
      | BtcOther \<Rightarrow> Inl TypeError)"

definition to_satoshi :: "(string \<Rightarrow> exn + decimal) \<Rightarrow> btc_amount \<Rightarrow> exn + int" where
  "to_satoshi parse btc = rbind (decimal_of parse btc) (\<lambda>d.
     let decimal_value = dec_mul 999 d (dec_of_int (10 ^ 8));
         integer_value = dec_int decimal_value
     in if \<not> dec_eq (dec_of_int integer_value) decimal_value then Inl ValueError
        else Inr integer_value)"

definition from_satoshi :: "int \<Rightarrow> exn + decimal" where
  "from_satoshi satoshi = dec_div 999 (dec_of_int satoshi) (dec_of_int (10 ^ 8))"

lemma dec_eq_iff: "dec_eq a b \<longleftrightarrow> dec_val a = dec_val b"
proof -
  define e where "e = min (expo a) (expo b)"
  have "dec_val a = of_int (dec_align a e) * 10 powi e" "dec_val b = of_int (dec_align b e) * 10 powi e"
    using dec_align_val[of e a] dec_align_val[of e b] by (simp_all add: e_def)
  moreover have "(10::rat) powi e \<noteq> 0" by simp
  ultimately show ?thesis by (simp add: dec_eq_def Let_def flip: e_def)
qed

lemma dec_int_exact:
  assumes "dec_val d = of_int n"
  shows "dec_int d = n"
proof (cases "0 \<le> n")
  case True
  then show ?thesis using dec_int_val[OF assms] by simp
next
  case False
  have "dec_val (Dec (- coeff d) (expo d)) = of_int (- n)" using assms by (simp add: dec_val_neg)
  then have "dec_int (Dec (- coeff d) (expo d)) = - n" using False by (intro dec_int_val) simp_all
  moreover have "dec_int (Dec (- coeff d) (expo d)) = - dec_int d" by (simp add: dec_int_def sgn_minus)
  ultimately show ?thesis by simp
qed

lemma representable_satoshi:
  assumes "\<bar>coeff d\<bar> < 10 ^ 990"
  shows "representable 999 (dec_val d * dec_val (dec_of_int (10 ^ 8)))"
proof (rule representableI)
  have "dec_val (dec_of_int (10 ^ 8)) = 10 powi 8" unfolding dec_val_of_int by simp
  then show "dec_val d * dec_val (dec_of_int (10 ^ 8)) = of_int (coeff d) * 10 powi (expo d + 8)"
    by (simp add: dec_val_def[of d] power_int_add)
  have "(10::int) ^ 990 \<le> 10 ^ 999" by (rule power_increasing) simp_all
  then show "\<bar>coeff d\<bar> < 10 ^ 999" using assms by linarith
qed

lemma to_satoshi_value:
  assumes "representable 999 (dec_val d * dec_val (dec_of_int (10 ^ 8)))"
  shows "to_satoshi parse (BtcDecimal d) = Inr n \<longleftrightarrow> dec_val d * 10 ^ 8 = of_int n"
proof -
  define m where "m = dec_mul 999 d (dec_of_int (10 ^ 8))"
  have m: "dec_val m = dec_val d * 10 ^ 8"
    unfolding m_def using dec_mul_exact[OF _ assms] by simp
  have "to_satoshi parse (BtcDecimal d) = Inr n \<longleftrightarrow> dec_val m = of_int (dec_int m) \<and> dec_int m = n"
    unfolding to_satoshi_def decimal_of_def Let_def dec_eq_iff btc_amount.case rbind_simps m_def[symmetric]
    by auto
  also have "\<dots> \<longleftrightarrow> dec_val m = of_int n" using dec_int_exact by auto
  finally show ?thesis by (simp add: m)
qed

lemma from_satoshi_value:
  assumes "\<bar>n\<bar> < 10 ^ 999"
  shows "\<exists>d. from_satoshi n = Inr d \<and> dec_val d * 10 ^ 8 = of_int n"
proof -
  have "\<exists>d. dec_div 999 (dec_of_int n) (dec_of_int (10 ^ 8)) = Inr d \<and> dec_val d = of_int n * 10 powi (-8)"
    by (rule dec_div_exact[OF _ _ assms])
       (simp_all add: dec_of_int_def dec_val_def power_int_def power_divide)
  then obtain d where "from_satoshi n = Inr d" "dec_val d = of_int n * 10 powi (-8)"
    unfolding from_satoshi_def by blast
  moreover have "(10::rat) powi (-8) * 10 ^ 8 = 1" by (simp add: power_int_def power_divide)
  ultimately show ?thesis by (intro exI[of _ d]) simp
qed


text \<open>
  Amounts survive the conversion between satoshis and bitcoin, and no fraction of a satoshi
  is ever dropped: what \<open>from_satoshi\<close> makes of a number of satoshis converts back to it, and
  \<open>to_satoshi\<close> accepts a decimal exactly when it is a whole number of satoshis, which it then
  returns.
\<close>

theorem satoshi_roundtrip:
  assumes "\<bar>n\<bar> < 10 ^ 999" "\<bar>coeff d\<bar> < 10 ^ 990"
  shows "(\<exists>b. from_satoshi n = Inr b \<and> to_satoshi parse (BtcDecimal b) = Inr n) \<and>
    (\<forall>m. to_satoshi parse (BtcDecimal d) = Inr m \<longleftrightarrow> dec_val d * 10 ^ 8 = of_int m)"
proof
  obtain b where b: "from_satoshi n = Inr b" "dec_val b * 10 ^ 8 = of_int n"
    using from_satoshi_value[OF assms(1)] by blast
  have v: "dec_val (dec_of_int (10 ^ 8)) = 10 ^ 8" unfolding dec_val_of_int by simp
  have "representable 999 (dec_val b * dec_val (dec_of_int (10 ^ 8)))"
    unfolding v b(2) by (rule representableI[OF _ assms(1), of _ 0]) simp
  then show "\<exists>b. from_satoshi n = Inr b \<and> to_satoshi parse (BtcDecimal b) = Inr n"
    using b to_satoshi_value by blast
  show "\<forall>m. to_satoshi parse (BtcDecimal d) = Inr m \<longleftrightarrow> dec_val d * 10 ^ 8 = of_int m"
    using to_satoshi_value[OF representable_satoshi[OF assms(2)]] by blast
qed

theorem satoshi_roundtrip_witness:
  "(\<exists>b. from_satoshi 12345 = Inr b \<and> to_satoshi (\<lambda>s. Inl ValueError) (BtcDecimal b) = Inr 12345) \<and>
   (\<forall>m. to_satoshi (\<lambda>s. Inl ValueError) (BtcDecimal (Dec 15 (-1))) = Inr m \<longleftrightarrow>
      dec_val (Dec 15 (-1)) * 10 ^ 8 = of_int m)"
proof (rule satoshi_roundtrip)
  show "\<bar>12345::int\<bar> < 10 ^ 999" by (rule less_le_trans[of _ "10 ^ 5"]) (simp, rule power_increasing, simp_all)
  show "\<bar>coeff (Dec 15 (-1))\<bar> < 10 ^ 990" by (rule less_le_trans[of _ "10 ^ 2"]) (simp, rule power_increasing, simp_all)
qed

section \<open>Unspent outputs\<close>

definition BITCOIN_NETWORKS :: "string list" where
  "BITCOIN_NETWORKS = [''mainnet'', ''testnet'', ''signet'', ''regtest'']"

definition is_bitcoin_network :: "string \<Rightarrow> bool" where
  "is_bitcoin_network network \<longleftrightarrow> network \<in> set BITCOIN_NETWORKS"

type_synonym bytes = "nat list"

text \<open>An element of the answer to \<open>listunspent\<close>; the fields that may be missing are options.\<close>

record listed_unspent =
  lu_txid :: string
  lu_vout :: nat
  lu_amount :: btc_amount
  lu_confirmations :: int
  lu_spendable :: bool
  lu_solvable :: bool
  lu_safe :: bool
  lu_desc :: "string option"
  lu_address :: "string option"
  lu_witness_script :: "string option"

record utxo =
  ut_txid :: string
  ut_vout :: nat
  ut_amount_satoshi :: int
  ut_confirmations :: int
  ut_spendable :: bool
  ut_solvable :: bool
  ut_safe :: bool
  ut_desc :: "string option"
  ut_address :: "string option"
  ut_witness_script :: "bytes option"

definition amount_btc :: "utxo \<Rightarrow> exn + decimal" where
  "amount_btc u = from_satoshi (ut_amount_satoshi u)"

text \<open>\<open>script_fromhex\<close> is \<open>CScript.fromhex\<close> of the library.\<close>

definition utxo_from_rpc_response ::
  "(string \<Rightarrow> exn + decimal) \<Rightarrow> (string \<Rightarrow> exn + bytes) \<Rightarrow> listed_unspent \<Rightarrow> exn + utxo" where
  "utxo_from_rpc_response parse script_fromhex rpc =
     rbind (to_satoshi parse (lu_amount rpc)) (\<lambda>amount_satoshi.
     rbind (case lu_witness_script rpc of
              None \<Rightarrow> Inr None
            | Some hex \<Rightarrow> rbind (script_fromhex hex) (\<lambda>script. Inr (Some script))) (\<lambda>witness_script.
     let r = \<lparr>ut_txid = lu_txid rpc, ut_vout = lu_vout rpc, ut_amount_satoshi = amount_satoshi,
              ut_confirmations = lu_confirmations rpc, ut_spendable = lu_spendable rpc,
              ut_solvable = lu_solvable rpc, ut_safe = lu_safe rpc, ut_desc = lu_desc rpc,
              ut_address = lu_address rpc, ut_witness_script = witness_script\<rparr>
     in rbind (amount_btc r) (\<lambda>btc.
        rbind (decimal_of parse (lu_amount rpc)) (\<lambda>amount.
        if \<not> dec_eq btc amount then Inl AssertionError else Inr r))))"

text \<open>A listed output whose amount is a whole number of satoshis is taken over as it is.\<close>

lemma utxo_from_rpc_whole:
  assumes "lu_amount rpc = BtcDecimal d" "dec_val d * 10 ^ 8 = of_int n" "\<bar>coeff d\<bar> < 10 ^ 20" "\<bar>n\<bar> < 10 ^ 20"
    and "lu_witness_script rpc = Some hex" "script_fromhex hex = Inr script"
  shows "utxo_from_rpc_response parse script_fromhex rpc =
    Inr \<lparr>ut_txid = lu_txid rpc, ut_vout = lu_vout rpc, ut_amount_satoshi = n,
         ut_confirmations = lu_confirmations rpc, ut_spendable = lu_spendable rpc,
         ut_solvable = lu_solvable rpc, ut_safe = lu_safe rpc, ut_desc = lu_desc rpc,
         ut_address = lu_address rpc, ut_witness_script = Some script\<rparr>"
proof -
  have "(10::int) ^ 20 \<le> 10 ^ 990" "(10::int) ^ 20 \<le> 10 ^ 999" by (rule power_increasing; simp)+
  then have big: "\<bar>coeff d\<bar> < 10 ^ 990" "\<bar>n\<bar> < 10 ^ 999" using assms(3,4) by (blast intro: less_le_trans)+
  have s: "to_satoshi parse (BtcDecimal d) = Inr n"
    using to_satoshi_value[OF representable_satoshi[OF big(1)]] assms(2) by blast
  obtain b where b: "from_satoshi n = Inr b" "dec_val b * 10 ^ 8 = of_int n"
    using from_satoshi_value[OF big(2)] by blast
  have "dec_val b = dec_val d" using b(2) assms(2) by simp
  then have "dec_eq b d" by (simp add: dec_eq_iff)
  then show ?thesis
    using s b(1) assms(1,5,6) by (simp add: utxo_from_rpc_response_def amount_btc_def decimal_of_def Let_def)
qed

text \<open>\<open>utxo.outpoint\<close>: the byte order of the id is reversed.\<close>

definition hex_value :: "char \<Rightarrow> nat option" where
  "hex_value c =
     (let n = of_char c in
      if 48 \<le> n \<and> n \<le> 57 then Some (n - 48)
      else if 97 \<le> n \<and> n \<le> 102 then Some (n - 87)
      else if 65 \<le> n \<and> n \<le> 70 then Some (n - 55)
      else (None :: nat option))"

fun unhexlify :: "string \<Rightarrow> exn + bytes" where
  "unhexlify [] = Inr []"
| "unhexlify [c] = Inl ValueError"
| "unhexlify (c # d # cs) =
     (case (hex_value c, hex_value d) of
        (Some h, Some l) \<Rightarrow> rbind (unhexlify cs) (\<lambda>bs. Inr ((16 * h + l) # bs))
      | _ \<Rightarrow> Inl ValueError)"

record outpoint =
  op_hash :: bytes
  op_n :: nat

definition tx_hash :: "utxo \<Rightarrow> exn + bytes" where
  "tx_hash u = rbind (unhexlify (ut_txid u)) (\<lambda>bs. Inr (rev bs))"

definition utxo_outpoint :: "utxo \<Rightarrow> exn + outpoint" where
  "utxo_outpoint u = rbind (tx_hash u) (\<lambda>h. Inr \<lparr>op_hash = h, op_n = ut_vout u\<rparr>)"

end
