(* ===== verification/Multisig_Utils.thy ===== *)
theory Multisig_Utils
  imports Btc_Types
begin

text \<open>
  Transactions of the multisig wallet, from \<^verbatim>\<open>bridge_node/bridge/common/btc/multisig_utils.py\<close>:
  the estimated size of a transaction with all its signatures, and the reading of the
  descriptor that the Bitcoin node attaches to an unspent output. Of the Bitcoin library,
  the serialisation of inputs, outputs and witnesses, the virtual size, the scripts of
  addresses and the decoding of keys and paths are parameters.
\<close>

section \<open>The Bitcoin library\<close>

record txout =
  to_value :: int
  to_script :: bytes

record key_derivation =
  kd_master_fp :: bytes
  kd_path :: string

record btx =
  bx_serialize_txin :: "outpoint \<Rightarrow> bytes"
  bx_serialize_txout :: "txout \<Rightarrow> bytes"
  bx_serialize_witness :: "bytes list list \<Rightarrow> bytes"
  bx_witness_is_null :: "bytes list list \<Rightarrow> bool"
  bx_virtual_size :: "nat \<Rightarrow> nat \<Rightarrow> nat \<Rightarrow> nat \<Rightarrow> nat \<Rightarrow> int"
  bx_p2wsh :: "bytes \<Rightarrow> bytes"
  bx_p2wsh_script :: "bytes \<Rightarrow> bytes"
  bx_segwit_encode :: "string \<Rightarrow> int \<Rightarrow> bytes \<Rightarrow> string"
  bx_chain :: string
  bx_pubkey_fromhex :: "string \<Rightarrow> exn + bytes"
  bx_bip32_path :: "string \<Rightarrow> exn + string"

text \<open>\<open>encode_segwit_address\<close> of \<^verbatim>\<open>bridge_node/bridge/common/btc/utils.py\<close> with its defaults.\<close>

definition encode_segwit_address :: "btx \<Rightarrow> bytes \<Rightarrow> exn + string" where
  "encode_segwit_address bx script =
     rbind (if bx_chain bx = ''bitcoin/regtest'' then Inr ''bcrt''
            else if bx_chain bx = ''bitcoin/testnet'' then Inr ''tb''
            else if bx_chain bx = ''bitcoin'' then Inr ''bc''
            else Inl ValueError) (\<lambda>hrp.
     Inr (bx_segwit_encode bx hrp 0 script))"

section \<open>Estimating the size\<close>

definition estimate_p2wsh_multisig_tx_virtual_size ::
  "btx \<Rightarrow> outpoint list \<Rightarrow> txout list \<Rightarrow> nat \<Rightarrow> bytes \<Rightarrow> bool \<Rightarrow> int" where
  "estimate_p2wsh_multisig_tx_virtual_size bx vin vout num_signatures redeem_script add_change_out =
     (let vout = (if add_change_out
                  then vout @ [\<lparr>to_value = 1, to_script = bx_p2wsh_script bx (bx_p2wsh bx redeem_script)\<rparr>]
                  else vout);
          inputs_size = length (concat (map (bx_serialize_txin bx) vin));
          outputs_size = length (concat (map (bx_serialize_txout bx) vout));
          vtxinwit = map (\<lambda>_. [] # replicate num_signatures (replicate 71 0) @ [redeem_script]) vin;
          witness_size = (if bx_witness_is_null bx vtxinwit then 0
                          else length (bx_serialize_witness bx vtxinwit))
      in bx_virtual_size bx (length vin) inputs_size (length vout) outputs_size witness_size)"

section \<open>Descriptors of unspent outputs\<close>

record descriptor_parse_result =
  dp_num_required_signers :: nat
  dp_num_signers :: nat
  dp_derivation_map :: "(bytes \<times> key_derivation) list"
  dp_master_fingerprints :: "bytes list"

definition is_digit :: "char \<Rightarrow> bool" where
  "is_digit c \<longleftrightarrow> c \<in> set ''0123456789''"

definition is_lower_hex :: "char \<Rightarrow> bool" where
  "is_lower_hex c \<longleftrightarrow> c \<in> set ''0123456789abcdef''"

text \<open>The classes \<open>[a-z0-9]\<close> and \<open>[a-z0-f]\<close>; the second reaches from \<open>0\<close> to \<open>f\<close>.\<close>

definition is_lower_alnum :: "char \<Rightarrow> bool" where
  "is_lower_alnum c \<longleftrightarrow> is_digit c \<or> (97 \<le> (of_char c :: nat) \<and> of_char c \<le> (122 :: nat))"

definition is_fp_char :: "char \<Rightarrow> bool" where
  "is_fp_char c \<longleftrightarrow> (97 \<le> (of_char c :: nat) \<and> of_char c \<le> (122 :: nat)) \<or>
     (48 \<le> (of_char c :: nat) \<and> of_char c \<le> (102 :: nat))"

definition strip_prefix :: "string \<Rightarrow> string \<Rightarrow> string option" where
  "strip_prefix p s = (if take (length p) s = p then Some (drop (length p) s) else None)"

text \<open>The longest suffix of characters of a class, and what precedes it.\<close>

definition split_suffix :: "(char \<Rightarrow> bool) \<Rightarrow> string \<Rightarrow> string \<times> string" where
  "split_suffix P s = (rev (dropWhile P (rev s)), rev (takeWhile P (rev s)))"

text \<open>\<open>$\<close> also matches before a final line feed.\<close>

definition drop_final_newline :: "string \<Rightarrow> string" where
  "drop_final_newline s = (if s \<noteq> [] \<and> last s = CHR 0x0A then butlast s else s)"

text \<open>
  The strings of \<open>(?:\[.*?\][a-f0-9]+,?)+\<close>: since the dot also matches brackets, these are the
  strings in one line that start with a bracket and end, up to a comma, with hex digits
  behind a closing bracket.
\<close>

definition key_list_shape :: "string \<Rightarrow> bool" where
  "key_list_shape s \<longleftrightarrow>
     (let s' = (if s \<noteq> [] \<and> last s = CHR '','' then butlast s else s);
          (front, hex) = split_suffix is_lower_hex s'
      in hex \<noteq> [] \<and> CHR 0x0A \<notin> set s \<and> 2 \<le> length front \<and>
         hd front = CHR ''['' \<and> last front = CHR '']'')"

text \<open>
  \<open>^wsh\(multi\((\d+),(...)\)\)#[a-z0-9]+$\<close>: the two groups. The text after the last \<open>#\<close> is the
  checksum, because the checksum has no \<open>#\<close>.
\<close>

definition match_descriptor :: "string \<Rightarrow> (string \<times> string) option" where
  "match_descriptor descriptor =
     (case strip_prefix ''wsh(multi('' descriptor of None \<Rightarrow> None | Some s \<Rightarrow>
      let digits = takeWhile is_digit s in
      if digits = [] then None else
      (case strip_prefix '','' (dropWhile is_digit s) of None \<Rightarrow> None | Some s \<Rightarrow>
       let (front, checksum) = split_suffix is_lower_alnum (drop_final_newline s) in
       if checksum = [] then None else
       (case strip_prefix (rev ''))#'') (rev front) of None \<Rightarrow> None | Some r \<Rightarrow>
        if key_list_shape (rev r) then Some (digits, rev r) else None)))"

text \<open>\<open>^\[([a-z0-f]+)/(.*)\]([a-f0-9]+)$\<close>: the three groups.\<close>

definition match_key_info :: "string \<Rightarrow> (string \<times> string \<times> string) option" where
  "match_key_info info =
     (case strip_prefix ''['' info of None \<Rightarrow> None | Some s \<Rightarrow>
      let fp = takeWhile is_fp_char s in
      if fp = [] then None else
      (case strip_prefix ''/'' (dropWhile is_fp_char s) of None \<Rightarrow> None | Some s \<Rightarrow>
       let (front, hex) = split_suffix is_lower_hex s in
       if hex = [] \<or> front = [] \<or> last front \<noteq> CHR '']'' then None
       else Some (fp, butlast front, hex)))"

text \<open>\<open>s.split(",")\<close>.\<close>

fun split_commas :: "string \<Rightarrow> string list" where
  "split_commas [] = [[]]"
| "split_commas (c # cs) =
     (if c = CHR '','' then [] # split_commas cs
      else (case split_commas cs of [] \<Rightarrow> [[c]] | w # ws \<Rightarrow> (c # w) # ws))"

text \<open>\<open>d[key] = value\<close> and \<open>s.add(x)\<close>, in order of insertion.\<close>

fun dict_set :: "'k \<Rightarrow> 'v \<Rightarrow> ('k \<times> 'v) list \<Rightarrow> ('k \<times> 'v) list" where
  "dict_set k v [] = [(k, v)]"
| "dict_set k v ((k', v') # d) = (if k = k' then (k, v) # d else (k', v') # dict_set k v d)"

definition set_add :: "'a \<Rightarrow> 'a list \<Rightarrow> 'a list" where
  "set_add x xs = (if x \<in> set xs then xs else xs @ [x])"

fun parse_key_infos ::
  "btx \<Rightarrow> string list \<Rightarrow> (bytes \<times> key_derivation) list \<Rightarrow> bytes list \<Rightarrow>
   exn + (bytes \<times> key_derivation) list \<times> bytes list" where
  "parse_key_infos bx [] derivation_map master_fingerprints = Inr (derivation_map, master_fingerprints)"
| "parse_key_infos bx (info # infos) derivation_map master_fingerprints =
     (case match_key_info info of None \<Rightarrow> Inl ValueError | Some (fp_hex, derivation_path, pubkey_hex) \<Rightarrow>
      rbind (unhexlify fp_hex) (\<lambda>master_fingerprint.
      rbind (bx_pubkey_fromhex bx pubkey_hex) (\<lambda>pubkey.
      rbind (bx_bip32_path bx (''m/'' @ derivation_path)) (\<lambda>path.
      parse_key_infos bx infos
        (dict_set pubkey \<lparr>kd_master_fp = master_fingerprint, kd_path = path\<rparr> derivation_map)
        (set_add master_fingerprint master_fingerprints)))))"

definition parse_p2wsh_multisig_utxo_descriptor :: "btx \<Rightarrow> string \<Rightarrow> exn + descriptor_parse_result" where
  "parse_p2wsh_multisig_utxo_descriptor bx descriptor =
     (case match_descriptor descriptor of None \<Rightarrow> Inl ValueError | Some (required, infos) \<Rightarrow>
      let pubkey_derivation_infos = split_commas infos in
      rbind (parse_key_infos bx pubkey_derivation_infos [] []) (\<lambda>(derivation_map, master_fingerprints).
      Inr \<lparr>dp_num_required_signers = read_nat required,
           dp_num_signers = length pubkey_derivation_infos,
           dp_derivation_map = derivation_map,
           dp_master_fingerprints = master_fingerprints\<rparr>))"


section \<open>Reading back what the node writes\<close>

text \<open>The text of a descriptor with these keys, as Bitcoin Core documents it.\<close>

fun render_key_info :: "string \<times> string \<times> string \<Rightarrow> string" where
  "render_key_info (fp, path, hex) = ''['' @ fp @ ''/'' @ path @ '']'' @ hex"

fun join_commas :: "string list \<Rightarrow> string" where
  "join_commas [] = ''''"
| "join_commas [w] = w"
| "join_commas (w # ws) = w @ '','' @ join_commas ws"

definition render_descriptor :: "string \<Rightarrow> (string \<times> string \<times> string) list \<Rightarrow> string \<Rightarrow> string" where
  "render_descriptor digits infos checksum =
     ''wsh(multi('' @ digits @ '','' @ join_commas (map render_key_info infos) @ ''))#'' @ checksum"

definition plain_key_info :: "string \<times> string \<times> string \<Rightarrow> bool" where
  "plain_key_info i \<longleftrightarrow> (case i of (fp, path, hex) \<Rightarrow>
     fp \<noteq> [] \<and> list_all is_lower_hex fp \<and> CHR '','' \<notin> set path \<and> CHR 0x0A \<notin> set path \<and>
     hex \<noteq> [] \<and> list_all is_lower_hex hex)"

lemma split_suffix_eq:
  assumes "list_all P t" "s = [] \<or> \<not> P (last s)"
  shows "split_suffix P (s @ t) = (s, t)"
proof -
  have t: "takeWhile P (rev t) = rev t" "dropWhile P (rev t) = []"
    using assms(1) by (auto simp: list_all_iff takeWhile_eq_all_conv)
  have s: "takeWhile P (rev s) = []" "dropWhile P (rev s) = rev s"
    using assms(2) by (cases s rule: rev_cases; simp)+
  have "takeWhile P (rev t @ rev s) = rev t" "dropWhile P (rev t @ rev s) = rev s"
    using assms(1) s by (simp_all add: takeWhile_append dropWhile_append list_all_iff t)
  then show ?thesis by (simp add: split_suffix_def)
qed

lemma strip_prefix_append [simp]: "strip_prefix p (p @ s) = Some s"
  by (simp add: strip_prefix_def)

lemma lower_hex_fp: "is_lower_hex c \<Longrightarrow> is_fp_char c"
  by (auto simp: is_lower_hex_def is_fp_char_def)

lemma lower_hex_no_comma: "is_lower_hex c \<Longrightarrow> c \<noteq> CHR '','' \<and> c \<noteq> CHR 0x0A \<and> c \<noteq> CHR '']''"
  by (auto simp: is_lower_hex_def)

lemma takeWhile_stop: "list_all P xs \<Longrightarrow> \<not> P y \<Longrightarrow> takeWhile P (xs @ y # ys) = xs"
  by (induction xs) auto

lemma dropWhile_stop: "list_all P xs \<Longrightarrow> \<not> P y \<Longrightarrow> dropWhile P (xs @ y # ys) = y # ys"
  by (induction xs) auto

lemma match_rendered_key_info:
  assumes "plain_key_info i"
  shows "match_key_info (render_key_info i) = Some i"
proof -
  obtain fp path hex where i: "i = (fp, path, hex)" by (cases i)
  have fp: "list_all is_fp_char fp" "fp \<noteq> []" and hex: "list_all is_lower_hex hex" "hex \<noteq> []"
    using assms i by (auto simp: plain_key_info_def list_all_iff lower_hex_fp)
  have slash: "\<not> is_fp_char (CHR ''/'')" by (simp add: is_fp_char_def)
  let ?tail = "path @ '']'' @ hex"
  have a: "strip_prefix ''['' (render_key_info i) = Some (fp @ CHR ''/'' # ?tail)"
    by (simp add: i strip_prefix_def)
  have b: "takeWhile is_fp_char (fp @ CHR ''/'' # ?tail) = fp"
    "dropWhile is_fp_char (fp @ CHR ''/'' # ?tail) = CHR ''/'' # ?tail"
    using takeWhile_stop[OF fp(1) slash] dropWhile_stop[OF fp(1) slash] by blast+
  have c: "strip_prefix ''/'' (CHR ''/'' # ?tail) = Some ?tail" by (simp add: strip_prefix_def)
  have d: "split_suffix is_lower_hex (path @ '']'' @ hex) = (path @ '']'', hex)"
    using split_suffix_eq[OF hex(1), of "path @ '']''"] by (simp add: is_lower_hex_def)
  show ?thesis
    unfolding match_key_info_def a option.case Let_def b c d prod.case using fp(2) hex(2) i by simp
qed

lemma split_commas_word: "CHR '','' \<notin> set w \<Longrightarrow> split_commas w = [w]"
  by (induction w) auto

lemma split_commas_cons: "CHR '','' \<notin> set w \<Longrightarrow> split_commas (w @ CHR '','' # s) = w # split_commas s"
  by (induction w) auto

lemma split_join_commas:
  "ws \<noteq> [] \<Longrightarrow> \<forall>w \<in> set ws. CHR '','' \<notin> set w \<Longrightarrow> split_commas (join_commas ws) = ws"
  by (induction ws rule: join_commas.induct) (auto simp: split_commas_word split_commas_cons)

lemma rendered_key_info_chars:
  assumes "plain_key_info i"
  shows "CHR '','' \<notin> set (render_key_info i) \<and> CHR 0x0A \<notin> set (render_key_info i)"
proof -
  obtain fp path hex where i: "i = (fp, path, hex)" by (cases i)
  have "CHR '','' \<notin> set fp" "CHR 0x0A \<notin> set fp" "CHR '','' \<notin> set hex" "CHR 0x0A \<notin> set hex"
    using assms lower_hex_no_comma unfolding i plain_key_info_def list_all_iff by blast+
  then show ?thesis using assms by (simp add: i plain_key_info_def)
qed

lemma join_commas_ends:
  assumes "infos \<noteq> []" "\<forall>i \<in> set infos. plain_key_info i"
  shows "\<exists>front hex. join_commas (map render_key_info infos) = front @ hex \<and> hex \<noteq> [] \<and>
    list_all is_lower_hex hex \<and> 2 \<le> length front \<and> hd front = CHR ''['' \<and> last front = CHR '']'' \<and>
    CHR 0x0A \<notin> set (front @ hex)"
  using assms
proof (induction infos rule: induct_list012)
  case (2 i)
  obtain fp path hex where i: "i = (fp, path, hex)" by (cases i)
  show ?case
    using 2 i rendered_key_info_chars[of i]
    by (intro exI[of _ "''['' @ fp @ ''/'' @ path @ '']''"] exI[of _ hex])
       (auto simp: plain_key_info_def)
next
  case (3 i j infos)
  then obtain front hex where IH: "join_commas (map render_key_info (j # infos)) = front @ hex" "hex \<noteq> []"
      "list_all is_lower_hex hex" "2 \<le> length front" "last front = CHR '']''" "CHR 0x0A \<notin> set (front @ hex)"
    by auto
  have r: "render_key_info i \<noteq> []" "hd (render_key_info i) = CHR ''[''" by (cases i; simp)+
  have "join_commas (map render_key_info (i # j # infos)) = (render_key_info i @ '','' @ front) @ hex"
    using IH(1) by simp
  moreover have "2 \<le> length (render_key_info i @ '','' @ front)"
    "hd (render_key_info i @ '','' @ front) = CHR ''[''" "last (render_key_info i @ '','' @ front) = CHR '']''"
    using IH(4,5) r by (auto simp: hd_append)
  moreover have "CHR 0x0A \<notin> set ((render_key_info i @ '','' @ front) @ hex)"
    using IH(6) rendered_key_info_chars[of i] "3.prems" by auto
  ultimately show ?case using IH(2,3) by blast
qed simp

lemma key_list_shape_rendered:
  assumes "infos \<noteq> []" "\<forall>i \<in> set infos. plain_key_info i"
  shows "key_list_shape (join_commas (map render_key_info infos))"
proof -
  obtain front hex where j: "join_commas (map render_key_info infos) = front @ hex" "hex \<noteq> []"
      "list_all is_lower_hex hex" "2 \<le> length front" "hd front = CHR ''[''" "last front = CHR '']''"
      "CHR 0x0A \<notin> set (front @ hex)"
    using join_commas_ends[OF assms] by blast
  have "last (front @ hex) \<noteq> CHR '',''"
    using j(2,3) lower_hex_no_comma[of "last hex"] by (auto simp: list_all_iff)
  moreover have "split_suffix is_lower_hex (front @ hex) = (front, hex)"
    using j(3,6) by (intro split_suffix_eq) (auto simp: is_lower_hex_def)
  ultimately show ?thesis using j by (simp add: key_list_shape_def)
qed

lemma match_rendered_descriptor:
  assumes digits: "digits \<noteq> []" "list_all is_digit digits"
    and infos: "infos \<noteq> []" "\<forall>i \<in> set infos. plain_key_info i"
    and checksum: "checksum \<noteq> []" "list_all is_lower_alnum checksum"
  shows "match_descriptor (render_descriptor digits infos checksum) =
    Some (digits, join_commas (map render_key_info infos))"
proof -
  define keys where "keys = join_commas (map render_key_info infos)"
  let ?rest = "keys @ ''))#'' @ checksum"
  have a: "strip_prefix ''wsh(multi('' (render_descriptor digits infos checksum) = Some (digits @ CHR '','' # ?rest)"
    by (simp add: render_descriptor_def strip_prefix_def flip: keys_def)
  have comma: "\<not> is_digit (CHR '','')" by (simp add: is_digit_def)
  have b: "takeWhile is_digit (digits @ CHR '','' # ?rest) = digits"
    "dropWhile is_digit (digits @ CHR '','' # ?rest) = CHR '','' # ?rest"
    using takeWhile_stop[OF digits(2) comma] dropWhile_stop[OF digits(2) comma] by blast+
  have c: "strip_prefix '','' (CHR '','' # ?rest) = Some ?rest" by (simp add: strip_prefix_def)
  have bad: "\<not> is_lower_alnum (CHR 0x0A)" by (simp add: is_lower_alnum_def is_digit_def)
  have "last checksum \<noteq> CHR 0x0A"
    using checksum last_in_set[of checksum] bad by (metis list_all_iff)
  then have d: "drop_final_newline ?rest = ?rest" using checksum(1) by (simp add: drop_final_newline_def)
  have "\<not> is_lower_alnum (CHR ''#'')" by (simp add: is_lower_alnum_def is_digit_def)
  then have e: "split_suffix is_lower_alnum ?rest = (keys @ ''))#'', checksum)"
    using split_suffix_eq[OF checksum(2), of "keys @ ''))#''"] by simp
  have f: "strip_prefix (rev ''))#'') (rev (keys @ ''))#'')) = Some (rev keys)"
    by (simp add: strip_prefix_def)
  show ?thesis
    unfolding match_descriptor_def a option.case Let_def b c d e prod.case f
    using digits(1) checksum(1) key_list_shape_rendered[OF infos] by (simp flip: keys_def)
qed


lemma set_add_set [simp]: "set (set_add x xs) = insert x (set xs)"
  by (auto simp: set_add_def)

lemma map_of_dict_set: "map_of (dict_set k v d) = (map_of d)(k \<mapsto> v)"
  by (induction k v d rule: dict_set.induct) auto

text \<open>The keys of a descriptor as the library decodes them.\<close>

definition decoded_key :: "btx \<Rightarrow> string \<times> string \<times> string \<Rightarrow> bytes \<Rightarrow> key_derivation \<Rightarrow> bool" where
  "decoded_key bx i pubkey kd \<longleftrightarrow> (case i of (fp, path, hex) \<Rightarrow>
     unhexlify fp = Inr (kd_master_fp kd) \<and> bx_pubkey_fromhex bx hex = Inr pubkey \<and>
     bx_bip32_path bx (''m/'' @ path) = Inr (kd_path kd))"

lemma parse_key_infos_rendered:
  assumes "list_all2 (\<lambda>i (pubkey, kd). plain_key_info i \<and> decoded_key bx i pubkey kd) infos keys"
  shows "\<exists>d fps. parse_key_infos bx (map render_key_info infos) d0 fps0 = Inr (d, fps) \<and>
    map_of d = map_of d0 ++ map_of (rev keys) \<and>
    set fps = set fps0 \<union> (kd_master_fp \<circ> snd) ` set keys"
  using assms
proof (induction infos keys arbitrary: d0 fps0 rule: list_all2_induct)
  case (Cons i infos key keys)
  obtain pubkey kd where key: "key = (pubkey, kd)" by (cases key)
  obtain fp path hex where i: "i = (fp, path, hex)" by (cases i)
  have m: "match_key_info (render_key_info i) = Some (fp, path, hex)"
    and k: "unhexlify fp = Inr (kd_master_fp kd)" "bx_pubkey_fromhex bx hex = Inr pubkey"
      "bx_bip32_path bx (''m/'' @ path) = Inr (kd_path kd)"
    using Cons.hyps(1) match_rendered_key_info[of i] by (simp_all add: key i decoded_key_def)
  have kd: "\<lparr>kd_master_fp = kd_master_fp kd, kd_path = kd_path kd\<rparr> = kd" by simp
  let ?d = "dict_set pubkey kd d0"
  obtain d fps where r: "parse_key_infos bx (map render_key_info infos) ?d (set_add (kd_master_fp kd) fps0) = Inr (d, fps)"
      "map_of d = map_of ?d ++ map_of (rev keys)"
      "set fps = set (set_add (kd_master_fp kd) fps0) \<union> (kd_master_fp \<circ> snd) ` set keys"
    using Cons.IH by blast
  have "parse_key_infos bx (map render_key_info (i # infos)) d0 fps0 = Inr (d, fps)"
    using m k r(1) by (simp add: i kd)
  moreover have "map_of d = map_of d0 ++ map_of (rev (key # keys))"
    using r(2) by (simp add: key map_of_dict_set map_add_assoc)
  ultimately show ?case using r(3) by (auto simp: key)
qed simp

text \<open>
  C39. The descriptor of an unspent output is read back completely: for a descriptor with the
  required number of signers, the keys with their origins and a checksum, as the node writes
  it, the parser returns that number, the number of keys, the fingerprints of exactly these
  keys, and for every key its origin (when a key occurs twice, the last one counts).
\<close>

theorem parse_rendered_descriptor:
  assumes "digits \<noteq> []" "list_all is_digit digits" "infos \<noteq> []"
    and "list_all2 (\<lambda>i (pubkey, kd). plain_key_info i \<and> decoded_key bx i pubkey kd) infos keys"
    and "checksum \<noteq> []" "list_all is_lower_alnum checksum"
  shows "\<exists>r. parse_p2wsh_multisig_utxo_descriptor bx (render_descriptor digits infos checksum) = Inr r \<and>
    dp_num_required_signers r = read_nat digits \<and> dp_num_signers r = length infos \<and>
    set (dp_master_fingerprints r) = (kd_master_fp \<circ> snd) ` set keys \<and>
    map_of (dp_derivation_map r) = map_of (rev keys)"
proof -
  have plain: "\<forall>i \<in> set infos. plain_key_info i"
    using assms(4) by (induction rule: list_all2_induct) auto
  have split: "split_commas (join_commas (map render_key_info infos)) = map render_key_info infos"
    using plain rendered_key_info_chars assms(3) by (intro split_join_commas) auto
  obtain d fps where p: "parse_key_infos bx (map render_key_info infos) [] [] = Inr (d, fps)"
      "map_of d = map_of (rev keys)" "set fps = (kd_master_fp \<circ> snd) ` set keys"
    using parse_key_infos_rendered[OF assms(4), of "[]" "[]"] by auto
  show ?thesis
    using match_rendered_descriptor[OF assms(1,2,3) plain assms(5,6)] split p
    by (simp add: parse_p2wsh_multisig_utxo_descriptor_def)
qed

text \<open>The example of the source, with a library that decodes keys from hex.\<close>

definition example_btx :: btx where
  "example_btx = \<lparr>bx_serialize_txin = (\<lambda>i. replicate 41 0), bx_serialize_txout = (\<lambda>t. replicate 43 0),
     bx_serialize_witness = concat \<circ> concat, bx_witness_is_null = (\<lambda>w. w = []),
     bx_virtual_size = (\<lambda>a b c d e. int (10 + b + d + e div 4)),
     bx_p2wsh = (\<lambda>s. s), bx_p2wsh_script = (\<lambda>p. 0 # 32 # p),
     bx_segwit_encode = (\<lambda>hrp v p. hrp @ ''1'' @ map char_of p), bx_chain = ''bitcoin'',
     bx_pubkey_fromhex = unhexlify, bx_bip32_path = Inr\<rparr>"

definition example_infos :: "(string \<times> string \<times> string) list" where
  "example_infos = [(''7f3e784c'', ''0/0/0'', ''02557f''), (''8895ce69'', ''0/0/0'', ''03575e'')]"

definition example_keys :: "(bytes \<times> key_derivation) list" where
  "example_keys =
     [([2, 85, 127], \<lparr>kd_master_fp = [127, 62, 120, 76], kd_path = ''m/0/0/0''\<rparr>),
      ([3, 87, 94], \<lparr>kd_master_fp = [136, 149, 206, 105], kd_path = ''m/0/0/0''\<rparr>)]"

theorem parse_rendered_descriptor_witness:
  "\<exists>r. parse_p2wsh_multisig_utxo_descriptor example_btx
      (render_descriptor ''1'' example_infos ''kxmewpkl'') = Inr r \<and>
    dp_num_required_signers r = read_nat ''1'' \<and> dp_num_signers r = length example_infos \<and>
    set (dp_master_fingerprints r) = (kd_master_fp \<circ> snd) ` set example_keys \<and>
    map_of (dp_derivation_map r) = map_of (rev example_keys)"
  by (rule parse_rendered_descriptor)
     (simp_all add: is_digit_def is_lower_hex_def is_lower_alnum_def plain_key_info_def decoded_key_def
       example_btx_def hex_value_def example_infos_def example_keys_def)

end
