(* ===== verification/Ord_Multisig.thy ===== *)
theory Ord_Multisig
  imports Multisig_Utils Descriptors Ord_Types Lru_Cache "HOL-Library.List_Lexorder" "HOL-Library.Sublist" "HOL-Library.Multiset"
begin

text \<open>
  The multisig wallet that holds the bridged runes: \<^verbatim>\<open>bridge_node/bridge/common/ord/multisig.py\<close>
  and the transfers of \<^verbatim>\<open>transfers.py\<close> beside it. The wallet's keys and scripts, its descriptor,
  balances, the construction of a transaction that pays runes out of its outputs (coin selection,
  fee, change), signing, combining and broadcasting. The Bitcoin node, ord, \<open>pyord\<close> and the
  key, script and PSBT operations of \<open>bitcointx\<close> are parameters. Programs that look up outputs are
  written over any state and any lookup; the properties are about the lookup that asks ord each time.
\<close>

section \<open>The libraries and the node\<close>

record edict =
  ed_id :: "int \<times> int"
  ed_amount :: int
  ed_output :: nat

record runestone =
  rs_edicts :: "edict list"
  rs_pointer :: "nat option"
  rs_is_cenotaph :: bool

record runes_lib =
  rl_rune_id_from_str :: "string \<Rightarrow> exn + int \<times> int"
  rl_encipher :: "runestone \<Rightarrow> bytes"
  rl_decipher_hex :: "string \<Rightarrow> exn + runestone option"

record psbt_input =
  pi_prevout :: outpoint
  pi_witness_script :: bytes
  pi_utxo :: txout
  pi_derivation_map :: "(bytes \<times> key_derivation) list"

text \<open>A PSBT: its inputs, its outputs, and the signatures it carries.\<close>

record psbt =
  ps_inputs :: "psbt_input list"
  ps_outputs :: "txout list"
  ps_signatures :: "string list"

record sign_result =
  sr_psbt :: psbt
  sr_num_inputs_signed :: nat
  sr_is_final :: bool

text \<open>Keys are their serialised strings; a signature is made with a key and a path template.\<close>

record wallet_lib =
  wl_ext_key :: "string \<Rightarrow> exn + string"
  wl_ext_pubkey :: "string \<Rightarrow> exn + string"
  wl_neuter :: "string \<Rightarrow> string"
  wl_fingerprint :: "string \<Rightarrow> bytes"
  wl_child_pubkey :: "string \<Rightarrow> string \<Rightarrow> int \<Rightarrow> exn + bytes"
  wl_redeem_script :: "nat \<Rightarrow> nat \<Rightarrow> bytes list \<Rightarrow> exn + bytes"
  wl_parse_address :: "string \<Rightarrow> exn + bytes option"
  wl_script_is_valid :: "bytes \<Rightarrow> bool"
  wl_script_fromhex :: "string \<Rightarrow> exn + bytes"
  wl_parse_decimal :: "string \<Rightarrow> exn + decimal"
  wl_deserialize_tx :: "string \<Rightarrow> exn + txout list"
  wl_get_fee :: "psbt \<Rightarrow> int"
  wl_unsigned_tx_hex :: "psbt \<Rightarrow> string"
  wl_sign :: "(string \<times> string) option \<Rightarrow> bool \<Rightarrow> psbt \<Rightarrow> exn + sign_result"
  wl_combine :: "psbt \<Rightarrow> psbt \<Rightarrow> exn + psbt"
  wl_extract_tx_hex :: "psbt \<Rightarrow> exn + string"
  wl_to_base64 :: "psbt \<Rightarrow> string"
  wl_from_base64 :: "string \<Rightarrow> exn + psbt"

record wallet_node =
  wn_listdescriptors :: "exn + string list"
  wn_importdescriptors :: "string \<Rightarrow> exn + bool list"
  wn_listunspent :: "exn + listed_unspent list"
  wn_gettransaction :: "string \<Rightarrow> exn + string"
  wn_testmempoolaccept :: "string \<Rightarrow> exn + bool list"

section \<open>The wallet\<close>

record ord_multisig =
  om_btx :: btx
  om_lib :: wallet_lib
  om_runes :: runes_lib
  om_pyord :: pyord
  om_node :: wallet_node
  om_ord :: ord_server
  om_master_xpriv :: string
  om_master_xpubs :: "string list"
  om_signer_xpub :: string
  om_num_required_signers :: nat
  om_base_derivation_path :: string
  om_redeem_script :: bytes
  om_script :: bytes
  om_address :: string
  om_btc_wallet_name :: "string option"
  om_min_non_change_confirmations :: int

definition DUST_SAT :: int where
  "DUST_SAT = 1000"

definition TARGET_POSTAGE_SAT :: int where
  "TARGET_POSTAGE_SAT = 10000"

fun all_results :: "('a \<Rightarrow> exn + 'b) \<Rightarrow> 'a list \<Rightarrow> exn + 'b list" where
  "all_results f [] = Inr []"
| "all_results f (x # xs) = rbind (f x) (\<lambda>y. rbind (all_results f xs) (\<lambda>ys. Inr (y # ys)))"

definition derive_redeem_script ::
  "wallet_lib \<Rightarrow> string list \<Rightarrow> nat \<Rightarrow> string \<Rightarrow> int \<Rightarrow> exn + bytes" where
  "derive_redeem_script wl master_xpubs num_required base_path index =
     rbind (all_results (\<lambda>xpub. wl_child_pubkey wl xpub base_path index) master_xpubs) (\<lambda>pubkeys.
     wl_redeem_script wl (length master_xpubs) num_required (sort pubkeys))"

definition ord_multisig_init ::
  "btx \<Rightarrow> wallet_lib \<Rightarrow> runes_lib \<Rightarrow> pyord \<Rightarrow> wallet_node \<Rightarrow> ord_server \<Rightarrow> string \<Rightarrow> string list \<Rightarrow> nat \<Rightarrow>
   string \<Rightarrow> string option \<Rightarrow> int \<Rightarrow> exn + ord_multisig" where
  "ord_multisig_init bx wl rl py node ord master_xpriv master_xpubs num_required base_path wallet_name min_confs =
     rbind (wl_ext_key wl master_xpriv) (\<lambda>xprv.
     rbind (all_results (wl_ext_pubkey wl) master_xpubs) (\<lambda>xpubs.
     if wl_neuter wl xprv \<notin> set xpubs then Inl ValueError
     else if take 1 base_path \<noteq> ''m'' then Inl ValueError
     else rbind (derive_redeem_script wl xpubs num_required base_path 0) (\<lambda>redeem_script.
          let script = bx_p2wsh bx redeem_script in
          rbind (encode_segwit_address bx script) (\<lambda>address.
          Inr \<lparr>om_btx = bx, om_lib = wl, om_runes = rl, om_pyord = py, om_node = node, om_ord = ord,
               om_master_xpriv = xprv, om_master_xpubs = xpubs, om_signer_xpub = wl_neuter wl xprv,
               om_num_required_signers = num_required, om_base_derivation_path = base_path,
               om_redeem_script = redeem_script, om_script = script, om_address = address,
               om_btc_wallet_name = wallet_name, om_min_non_change_confirmations = min_confs\<rparr>))))"

definition multisig_name :: "ord_multisig \<Rightarrow> exn + string" where
  "multisig_name m = (case om_btc_wallet_name m of None \<Rightarrow> Inl ValueError | Some n \<Rightarrow> Inr n)"

definition change_address :: "ord_multisig \<Rightarrow> string" where
  "change_address m = om_address m"

definition change_script_pubkey :: "ord_multisig \<Rightarrow> bytes" where
  "change_script_pubkey m = bx_p2wsh_script (om_btx m) (om_script m)"

definition ranged_derivation_path :: "ord_multisig \<Rightarrow> string" where
  "ranged_derivation_path m = om_base_derivation_path m @ ''/*''"

text \<open>\<open>path.replace("m", key)\<close> and \<open>",".join(...)\<close>.\<close>

definition replace_m :: "string \<Rightarrow> string \<Rightarrow> string" where
  "replace_m key path = concat (map (\<lambda>c. if c = CHR ''m'' then key else [c]) path)"

definition descriptor_of_keys :: "ord_multisig \<Rightarrow> string list \<Rightarrow> exn + string" where
  "descriptor_of_keys m keys =
     (let keys_str = join_commas (map (\<lambda>key. replace_m key (ranged_derivation_path m)) keys)
      in descsum_create (''wsh(sortedmulti('' @ show_int (int (om_num_required_signers m)) @ '','' @ keys_str @ ''))''))"

definition get_descriptor :: "ord_multisig \<Rightarrow> exn + string" where
  "get_descriptor m = descriptor_of_keys m (om_master_xpubs m)"

text \<open>The same with the wallet's own key in its private form.\<close>

definition get_descriptor_with_xprv :: "ord_multisig \<Rightarrow> exn + string" where
  "get_descriptor_with_xprv m =
     (let keys = om_master_xpubs m; xprv = om_master_xpriv m;
          before = takeWhile (\<lambda>k. k \<noteq> wl_neuter (om_lib m) xprv) keys
      in if length before = length keys then Inl ValueError
         else descriptor_of_keys m (keys[length before := xprv]))"

definition multisig_check :: "ord_multisig \<Rightarrow> exn + unit" where
  "multisig_check m =
     rbind (wn_listdescriptors (om_node m)) (\<lambda>descriptors.
     if length descriptors \<noteq> 1 then Inl ValueError
     else rbind (get_descriptor m) (\<lambda>expected_descriptor.
          if hd descriptors \<noteq> expected_descriptor then Inl ValueError else Inr ()))"

definition import_descriptors_to_bitcoind :: "ord_multisig \<Rightarrow> exn + unit" where
  "import_descriptors_to_bitcoind m =
     rbind (get_descriptor m) (\<lambda>desc.
     rbind (wn_importdescriptors (om_node m) desc) (\<lambda>response.
     if list_all (\<lambda>success. success) response then Inr () else Inl ValueError))"

definition derive_address :: "ord_multisig \<Rightarrow> int \<Rightarrow> exn + string" where
  "derive_address m index =
     rbind (derive_redeem_script (om_lib m) (om_master_xpubs m) (om_num_required_signers m)
              (om_base_derivation_path m) index) (\<lambda>redeem_script.
     encode_segwit_address (om_btx m) (bx_p2wsh (om_btx m) redeem_script))"

text \<open>\<open>utxos.sort(key=confirmations, reverse=True)\<close> is stable too.\<close>

definition list_utxos :: "ord_multisig \<Rightarrow> exn + utxo list" where
  "list_utxos m =
     rbind (wn_listunspent (om_node m)) (\<lambda>raw_utxos.
     rbind (all_results (utxo_from_rpc_response (wl_parse_decimal (om_lib m)) (wl_script_fromhex (om_lib m))) raw_utxos)
       (\<lambda>utxos. Inr (sort_key (\<lambda>u. - ut_confirmations u) utxos)))"

section \<open>Looking up outputs\<close>

type_synonym 's lookup = "nat \<Rightarrow> string \<Rightarrow> int \<Rightarrow> ('s, ord_output) prog"

type_synonym output_cache = "(string \<times> int, ord_output) lru"

text \<open>
  The cached lookup of the code, and the same without its cache. The first argument counts the
  attempts, since ord may not have indexed the output yet. What is proved below is about the
  lookup without the cache: an answer from the cache is what ord said when the output was first
  looked up, which is what it says now only as long as it does not change its mind (a block that
  is reorganised away).
\<close>

definition cached_lookup :: "ord_multisig \<Rightarrow> output_cache lookup" where
  "cached_lookup m attempt txid vout =
     lru_call 1024 (\<lambda>(txid, vout). get_ord_output (om_pyord m) (om_ord m) attempt txid vout) (txid, vout)"

definition plain_lookup :: "ord_multisig \<Rightarrow> 's lookup" where
  "plain_lookup m attempt txid vout = lift_res (get_ord_output (om_pyord m) (om_ord m) attempt txid vout)"

definition get_rune_balance_at_output ::
  "ord_multisig \<Rightarrow> 's lookup \<Rightarrow> nat \<Rightarrow> string \<Rightarrow> int \<Rightarrow> pystr \<Rightarrow> ('s, int) prog" where
  "get_rune_balance_at_output m lookup attempt txid vout rune_name =
     bnd (lookup attempt txid vout) (\<lambda>out.
     lift_res (get_rune_balance (om_pyord m) out (RuneStr rune_name)))"

fun balance_with_retries ::
  "ord_multisig \<Rightarrow> 's lookup \<Rightarrow> bool \<Rightarrow> pystr \<Rightarrow> utxo \<Rightarrow> nat \<Rightarrow> nat \<Rightarrow> ('s, int) prog" where
  "balance_with_retries m lookup wait_for_indexing rune_name u i 0 = throw UnindexedOutput"
| "balance_with_retries m lookup wait_for_indexing rune_name u i (Suc retries) =
     catch (get_rune_balance_at_output m lookup i (ut_txid u) (int (ut_vout u)) rune_name)
       (\<lambda>e. if e = UnindexedOutput \<and> wait_for_indexing
             then balance_with_retries m lookup wait_for_indexing rune_name u (i + 1) retries
             else throw e)"

definition wallet_rune_balance :: "ord_multisig \<Rightarrow> 's lookup \<Rightarrow> pystr \<Rightarrow> bool \<Rightarrow> ('s, int) prog" where
  "wallet_rune_balance m lookup rune_name wait_for_indexing =
     bnd (lift_res (list_utxos m)) (\<lambda>utxos.
     fold_prog (\<lambda>u ret. bnd (balance_with_retries m lookup wait_for_indexing rune_name u 0 20)
                          (\<lambda>b. ok (ret + b))) utxos 0)"

definition list_utxos_with_ord_outputs ::
  "ord_multisig \<Rightarrow> 's lookup \<Rightarrow> ('s, (utxo \<times> ord_output option) list) prog" where
  "list_utxos_with_ord_outputs m lookup =
     bnd (lift_res (list_utxos m)) (\<lambda>utxos.
     collect utxos (\<lambda>u. bnd (catch (bnd (lookup 0 (ut_txid u) (int (ut_vout u))) (\<lambda>out. ok (Some out)))
                          (\<lambda>e. if e = UnindexedOutput then ok None else throw e)) (\<lambda>ord_output.
       ok (u, ord_output))))"


section \<open>Transfers\<close>

record rune_transfer =
  tr_rune :: int
  tr_receiver :: string
  tr_amount :: int
  tr_postage :: int

text \<open>The constructor takes a rune as a number, a name (parsed by \<open>pyord\<close>) or an object.\<close>

definition make_rune_transfer :: "pyord \<Rightarrow> runish \<Rightarrow> string \<Rightarrow> int \<Rightarrow> int \<Rightarrow> exn + rune_transfer" where
  "make_rune_transfer py rune receiver amount postage =
     rbind (case rune of RuneInt n \<Rightarrow> Inr n | RuneStr s \<Rightarrow> py_from_str py s | RuneObj n \<Rightarrow> Inr n) (\<lambda>n.
     Inr \<lparr>tr_rune = n, tr_receiver = receiver, tr_amount = amount, tr_postage = postage\<rparr>)"

definition get_receiver_script_pubkey :: "wallet_lib \<Rightarrow> rune_transfer \<Rightarrow> exn + bytes" where
  "get_receiver_script_pubkey wl t =
     rbind (wl_parse_address wl (tr_receiver t)) (\<lambda>parsed.
     case parsed of None \<Rightarrow> Inl AttributeError | Some script \<Rightarrow> Inr script)"

definition transfer_assert_valid :: "wallet_lib \<Rightarrow> rune_transfer \<Rightarrow> exn + unit" where
  "transfer_assert_valid wl t =
     (if tr_postage t \<le> 0 then Inl ValueError
      else if tr_amount t = 0 then Inl ZeroTransferAmountError
      else if tr_amount t \<le> 0 then Inl ValueError
      else rbind (wl_parse_address wl (tr_receiver t)) (\<lambda>parsed_address.
           case parsed_address of None \<Rightarrow> Inl ValueError
           | Some script \<Rightarrow> if \<not> wl_script_is_valid wl script then Inl ValueError else Inr ()))"

section \<open>Building the transaction\<close>

text \<open>
  The first loop: an edict and an output for every transfer, and the amounts required of every
  rune, by name and in the order of first use.
\<close>

definition add_required :: "pystr \<Rightarrow> int \<Rightarrow> (pystr \<times> int) list \<Rightarrow> (pystr \<times> int) list" where
  "add_required name amount required =
     dict_set name ((case map_of required name of None \<Rightarrow> 0 | Some v \<Rightarrow> v) + amount) required"

fun plan_transfers ::
  "ord_multisig \<Rightarrow> nat \<Rightarrow> rune_transfer list \<Rightarrow> edict list \<times> txout list \<times> (pystr \<times> int) list \<Rightarrow>
   exn + edict list \<times> txout list \<times> (pystr \<times> int) list" where
  "plan_transfers m output_index [] acc = Inr acc"
| "plan_transfers m output_index (t # ts) (edicts, rune_outputs, required) =
     rbind (transfer_assert_valid (om_lib m) t) (\<lambda>_.
     let name = py_name (om_pyord m) (tr_rune t) in
     rbind (get_rune (om_ord m) name) (\<lambda>rune_response.
     case rune_response of None \<Rightarrow> Inl LookupError | Some response \<Rightarrow>
     rbind (rl_rune_id_from_str (om_runes m) (rr_id response)) (\<lambda>rune_id.
     if tr_amount t = 0 then Inl ZeroTransferAmountError
     else if \<not> tr_amount t > 0 then Inl AssertionError
     else rbind (get_receiver_script_pubkey (om_lib m) t) (\<lambda>script.
       plan_transfers m (output_index + 1) ts
         (edicts @ [\<lparr>ed_id = rune_id, ed_amount = tr_amount t, ed_output = output_index\<rparr>],
          rune_outputs @ [\<lparr>to_value = tr_postage t, to_script = script\<rparr>],
          add_required name (tr_amount t) required)))))"

definition no_witness_script :: "utxo \<Rightarrow> bool" where
  "no_witness_script u \<longleftrightarrow> (case ut_witness_script u of None \<Rightarrow> True | Some s \<Rightarrow> s = [])"

definition add_psbt_input :: "ord_multisig \<Rightarrow> psbt \<Rightarrow> utxo \<Rightarrow> exn + psbt" where
  "add_psbt_input m p u =
     rbind (wn_gettransaction (om_node m) (ut_txid u)) (\<lambda>hex.
     rbind (wl_deserialize_tx (om_lib m) hex) (\<lambda>vout.
     rbind (case ut_desc u of None \<Rightarrow> Inl TypeError
            | Some desc \<Rightarrow> parse_p2wsh_multisig_utxo_descriptor (om_btx m) desc) (\<lambda>parsed_descriptor.
     if wl_fingerprint (om_lib m) (om_master_xpriv m) \<notin> set (dp_master_fingerprints parsed_descriptor)
     then Inl ValueError
     else rbind (utxo_outpoint u) (\<lambda>prevout.
     if ut_vout u \<ge> length vout then Inl IndexError
     else Inr (p\<lparr>ps_inputs := ps_inputs p @
            [\<lparr>pi_prevout = prevout, pi_witness_script = the (ut_witness_script u),
              pi_utxo = vout ! ut_vout u, pi_derivation_map = dp_derivation_map parsed_descriptor\<rparr>]\<rparr>)))))"

definition relevant_rune_balances :: "pyord \<Rightarrow> ord_output \<Rightarrow> pystr list \<Rightarrow> exn + (pystr \<times> int) list" where
  "relevant_rune_balances py out used_runes =
     all_results (\<lambda>rune. rbind (get_rune_balance py out (RuneStr rune)) (\<lambda>b. Inr (rune, b))) used_runes"

definition subtract_balances :: "(pystr \<times> int) list \<Rightarrow> (pystr \<times> int) list \<Rightarrow> (pystr \<times> int) list" where
  "subtract_balances balances required =
     foldl (\<lambda>req (rune, b). map (\<lambda>(r, v). if r = rune then (r, v - b) else (r, v)) req) required balances"

text \<open>Coin selection for runes.\<close>

fun select_runes ::
  "ord_multisig \<Rightarrow> 's lookup \<Rightarrow> pystr list \<Rightarrow> utxo list \<Rightarrow> (pystr \<times> int) list \<Rightarrow> psbt \<Rightarrow> int \<Rightarrow>
   ('s, psbt \<times> int) prog" where
  "select_runes m lookup used_runes [] required p input_amount_sat = throw InsufficientRuneBalanceError"
| "select_runes m lookup used_runes (u # us) required p input_amount_sat =
     (if no_witness_script u then select_runes m lookup used_runes us required p input_amount_sat
      else bnd (lookup 0 (ut_txid u) (int (ut_vout u))) (\<lambda>ord_output.
        if \<not> has_rune_balances ord_output
        then select_runes m lookup used_runes us required p input_amount_sat
        else if ut_address u \<noteq> Some (change_address m) \<and> ut_confirmations u < om_min_non_change_confirmations m
        then select_runes m lookup used_runes us required p input_amount_sat
        else bnd (lift_res (relevant_rune_balances (om_pyord m) ord_output used_runes)) (\<lambda>balances.
        if list_all (\<lambda>(rune, b). b = 0) balances
        then select_runes m lookup used_runes us required p input_amount_sat
        else let required' = subtract_balances balances required;
                 input' = input_amount_sat + ut_amount_satoshi u
             in bnd (lift_res (add_psbt_input m p u)) (\<lambda>p'.
                if list_all (\<lambda>(rune, v). v \<le> 0) required' then ok (p', input')
                else select_runes m lookup used_runes us required' p' input'))))"

definition tx_fee :: "ord_multisig \<Rightarrow> int \<Rightarrow> psbt \<Rightarrow> int" where
  "tx_fee m fee_rate p =
     estimate_p2wsh_multisig_tx_virtual_size (om_btx m) (map pi_prevout (ps_inputs p)) (ps_outputs p)
       (om_num_required_signers m) (om_redeem_script m) True * fee_rate"

definition is_funded :: "int \<Rightarrow> int \<Rightarrow> int \<Rightarrow> bool" where
  "is_funded input_amount_sat output_amount_sat fee_sat \<longleftrightarrow>
     input_amount_sat = output_amount_sat + fee_sat \<or>
     input_amount_sat \<ge> output_amount_sat + fee_sat + DUST_SAT"

text \<open>
  Coin selection for the fee: the outer loop tests whether the transaction is funded, the inner
  one takes the next output without runes. \<open>test\<close> tells which of the two is about to run.
\<close>

fun fund_fee ::
  "ord_multisig \<Rightarrow> 's lookup \<Rightarrow> int \<Rightarrow> int \<Rightarrow> bool \<Rightarrow> utxo list \<Rightarrow> psbt \<Rightarrow> int \<Rightarrow> ('s, psbt \<times> int) prog" where
  "fund_fee m lookup fee_rate output_amount_sat test [] p input_amount_sat =
     (if test \<and> is_funded input_amount_sat output_amount_sat (tx_fee m fee_rate p)
      then ok (p, input_amount_sat)
      else throw InsufficientBTCBalanceError)"
| "fund_fee m lookup fee_rate output_amount_sat test (u # us) p input_amount_sat =
     (if test \<and> is_funded input_amount_sat output_amount_sat (tx_fee m fee_rate p)
      then ok (p, input_amount_sat)
      else bnd (lookup 0 (ut_txid u) (int (ut_vout u))) (\<lambda>ord_output.
        if has_rune_balances ord_output
        then fund_fee m lookup fee_rate output_amount_sat False us p input_amount_sat
        else if no_witness_script u
        then fund_fee m lookup fee_rate output_amount_sat True us p input_amount_sat
        else bnd (lift_res (add_psbt_input m p u)) (\<lambda>p'.
          fund_fee m lookup fee_rate output_amount_sat True us p' (input_amount_sat + ut_amount_satoshi u))))"

text \<open>Outputs 0 and 1 are the runestone and the change in runes; the transfers start at 2.\<close>

definition initial_outputs :: "ord_multisig \<Rightarrow> edict list \<Rightarrow> txout list \<Rightarrow> txout list" where
  "initial_outputs m edicts rune_outputs =
     \<lparr>to_value = 0, to_script = rl_encipher (om_runes m)
        \<lparr>rs_edicts = edicts, rs_pointer = Some 1, rs_is_cenotaph = False\<rparr>\<rparr> #
     \<lparr>to_value = TARGET_POSTAGE_SAT, to_script = change_script_pubkey m\<rparr> # rune_outputs"

text \<open>The funded transaction gets its change output.\<close>

definition add_change :: "ord_multisig \<Rightarrow> nat \<Rightarrow> int \<Rightarrow> psbt \<Rightarrow> int \<Rightarrow> int \<Rightarrow> exn + psbt" where
  "add_change m max_num_inputs fee_sat p input_amount_sat output_amount_sat =
     (if length (ps_inputs p) > max_num_inputs then Inl RuntimeError
      else let change_amount_sat = input_amount_sat - output_amount_sat - fee_sat in
           if \<not> change_amount_sat \<ge> 0 then Inl AssertionError
           else let p' = (if change_amount_sat > 0
                          then p\<lparr>ps_outputs := ps_outputs p @
                                 [\<lparr>to_value = change_amount_sat, to_script = change_script_pubkey m\<rparr>]\<rparr>
                          else p)
                in if wl_get_fee (om_lib m) p' \<noteq> fee_sat then Inl AssertionError else Inr p')"

definition create_rune_psbt ::
  "ord_multisig \<Rightarrow> 's lookup \<Rightarrow> rune_transfer list \<Rightarrow> int \<Rightarrow> nat \<Rightarrow> ('s, psbt) prog" where
  "create_rune_psbt m lookup transfers fee_rate max_num_inputs =
     sq (demand (transfers \<noteq> []) ValueError)
    (bnd (lift_res (plan_transfers m 2 transfers ([], [], []))) (\<lambda>(edicts, rune_outputs, required).
     sq (asserting (list_all (\<lambda>(rune, v). v > 0) required))
    (let p = \<lparr>ps_inputs = [], ps_outputs = initial_outputs m edicts rune_outputs, ps_signatures = []\<rparr> in
     bnd (lift_res (list_utxos m)) (\<lambda>utxos.
     bnd (select_runes m lookup (map fst required) utxos required p 0) (\<lambda>(p, input_amount_sat).
     let output_amount_sat = sum_list (map to_value (ps_outputs p)) in
     bnd (fund_fee m lookup fee_rate output_amount_sat True utxos p input_amount_sat) (\<lambda>(p, input_amount_sat).
     lift_res (add_change m max_num_inputs (tx_fee m fee_rate p) p input_amount_sat output_amount_sat)))))))"

section \<open>Signing and broadcasting\<close>

definition sign_psbt :: "ord_multisig \<Rightarrow> psbt \<Rightarrow> bool \<Rightarrow> exn + psbt" where
  "sign_psbt m p finalize =
     rbind (wl_sign (om_lib m) (Some (om_master_xpriv m, ranged_derivation_path m)) finalize p) (\<lambda>result.
     if sr_num_inputs_signed result \<noteq> length (ps_inputs (sr_psbt result)) then Inl AssertionError
     else Inr (sr_psbt result))"

definition finalize_psbt :: "ord_multisig \<Rightarrow> psbt \<Rightarrow> exn + psbt" where
  "finalize_psbt m p =
     rbind (wl_sign (om_lib m) None True p) (\<lambda>sign_result.
     if \<not> sr_is_final sign_result then Inl ValueError
     else rbind (wl_extract_tx_hex (om_lib m) (sr_psbt sign_result)) (\<lambda>tx_hex.
     rbind (rl_decipher_hex (om_runes m) tx_hex) (\<lambda>runestone.
     case runestone of None \<Rightarrow> Inl ValueError
     | Some rs \<Rightarrow> if rs_is_cenotaph rs then Inl ValueError else Inr (sr_psbt sign_result))))"

fun combine_psbts :: "ord_multisig \<Rightarrow> psbt \<Rightarrow> psbt list \<Rightarrow> exn + psbt" where
  "combine_psbts m p [] = Inr p"
| "combine_psbts m p (s # ss) = rbind (wl_combine (om_lib m) p s) (\<lambda>p'. combine_psbts m p' ss)"

definition combine_and_finalize_psbt :: "ord_multisig \<Rightarrow> psbt \<Rightarrow> psbt list \<Rightarrow> exn + psbt" where
  "combine_and_finalize_psbt m initial_psbt signed_psbts =
     rbind (combine_psbts m initial_psbt signed_psbts) (finalize_psbt m)"

text \<open>\<open>send\<close> is the call \<open>sendrawtransaction\<close>.\<close>

definition broadcast_psbt :: "ord_multisig \<Rightarrow> (string \<Rightarrow> ('s, string) prog) \<Rightarrow> psbt \<Rightarrow> ('s, string) prog" where
  "broadcast_psbt m send p =
     bnd (lift_res (wl_extract_tx_hex (om_lib m) p)) (\<lambda>tx_hex.
     bnd (lift_res (wn_testmempoolaccept (om_node m) tx_hex)) (\<lambda>accept_result.
     case accept_result of [] \<Rightarrow> throw IndexError
     | allowed # _ \<Rightarrow> if \<not> allowed then throw ValueError else send tx_hex))"

definition send_runes ::
  "ord_multisig \<Rightarrow> 's lookup \<Rightarrow> (string \<Rightarrow> ('s, string) prog) \<Rightarrow> rune_transfer list \<Rightarrow> int \<Rightarrow> ('s, string) prog" where
  "send_runes m lookup send transfers fee_rate =
     sq (demand (om_num_required_signers m = 1) ValueError)
    (bnd (create_rune_psbt m lookup transfers fee_rate 200) (\<lambda>p.
     bnd (lift_res (sign_psbt m p True)) (\<lambda>signed_psbt.
     broadcast_psbt m send signed_psbt)))"

definition estimate_psbt_size_vb :: "ord_multisig \<Rightarrow> psbt \<Rightarrow> int" where
  "estimate_psbt_size_vb m p =
     estimate_p2wsh_multisig_tx_virtual_size (om_btx m) (map pi_prevout (ps_inputs p)) (ps_outputs p)
       (om_num_required_signers m) (om_redeem_script m) False"


section \<open>What a built transaction spends and pays\<close>

text \<open>What ord reports for an unspent output, and how much of a rune it holds.\<close>

definition output_of :: "ord_multisig \<Rightarrow> utxo \<Rightarrow> exn + ord_output" where
  "output_of m u = get_ord_output (om_pyord m) (om_ord m) 0 (ut_txid u) (int (ut_vout u))"

definition utxo_balance :: "ord_multisig \<Rightarrow> pystr \<Rightarrow> utxo \<Rightarrow> int" where
  "utxo_balance m name u =
     (case rbind (output_of m u) (\<lambda>out. get_rune_balance (om_pyord m) out (RuneStr name)) of
        Inl e \<Rightarrow> 0 | Inr b \<Rightarrow> b)"

definition carries_runes :: "ord_multisig \<Rightarrow> utxo \<Rightarrow> bool" where
  "carries_runes m u \<longleftrightarrow> (case output_of m u of Inl e \<Rightarrow> False | Inr out \<Rightarrow> has_rune_balances out)"

text \<open>An input of the transaction spends this unspent output.\<close>

definition input_for :: "ord_multisig \<Rightarrow> utxo \<Rightarrow> psbt_input \<Rightarrow> bool" where
  "input_for m u i \<longleftrightarrow>
     utxo_outpoint u = Inr (pi_prevout i) \<and> ut_witness_script u = Some (pi_witness_script i) \<and>
     (\<exists>hex vout. wn_gettransaction (om_node m) (ut_txid u) = Inr hex \<and>
        wl_deserialize_tx (om_lib m) hex = Inr vout \<and> ut_vout u < length vout \<and> pi_utxo i = vout ! ut_vout u)"

lemma run_plain_lookup [simp]: "plain_lookup m 0 (ut_txid u) (int (ut_vout u)) s = (output_of m u, s)"
  by (simp add: plain_lookup_def output_of_def)

lemma add_psbt_input_Inr:
  assumes "add_psbt_input m p u = Inr p'" "\<not> no_witness_script u"
  shows "\<exists>i. p' = p\<lparr>ps_inputs := ps_inputs p @ [i]\<rparr> \<and> input_for m u i"
proof -
  obtain script where "ut_witness_script u = Some script"
    using assms(2) by (auto simp: no_witness_script_def split: option.splits)
  then show ?thesis using assms(1)
    by (auto simp: add_psbt_input_def input_for_def rbind_eq_Inr not_le split: if_splits)
qed

lemma all_results_Inr: "all_results f xs = Inr ys \<Longrightarrow> list_all2 (\<lambda>x y. f x = Inr y) xs ys"
  by (induction xs arbitrary: ys) (auto simp: rbind_eq_Inr)

lemma relevant_rune_balances_Inr:
  assumes "relevant_rune_balances (om_pyord m) out used = Inr balances" "output_of m u = Inr out"
  shows "balances = map (\<lambda>r. (r, utxo_balance m r u)) used"
proof -
  have "list_all2 (\<lambda>r b. b = (r, utxo_balance m r u)) used balances"
    using all_results_Inr[OF assms(1)[unfolded relevant_rune_balances_def]]
    by (rule list_all2_mono) (auto simp: rbind_eq_Inr utxo_balance_def assms(2))
  then show ?thesis by (induction rule: list_all2_induct) auto
qed

lemma subtract_balances_keys [simp]: "map fst (subtract_balances bs req) = map fst req"
proof (induction bs arbitrary: req)
  case (Cons b bs)
  have "map fst (subtract_balances (b # bs) req) =
      map fst (map (\<lambda>(r, v). if r = fst b then (r, v - snd b) else (r, v)) req)"
    using Cons by (cases b) (simp only: subtract_balances_def foldl_Cons prod.case fst_conv snd_conv)
  also have "\<dots> = map fst req" by (induction req) auto
  finally show ?case .
qed (simp add: subtract_balances_def)

lemma subtract_balances_mem:
  assumes "(r, v) \<in> set req" "distinct used"
  shows "(r, v - (if r \<in> set used then f r else 0)) \<in> set (subtract_balances (map (\<lambda>r. (r, f r)) used) req)"
  using assms
proof (induction used arbitrary: req v)
  case (Cons k used)
  let ?g = "\<lambda>(r, v). if r = k then (r, v - f k) else (r, v)"
  have e: "subtract_balances (map (\<lambda>r. (r, f r)) (k # used)) req =
      subtract_balances (map (\<lambda>r. (r, f r)) used) (map ?g req)"
    by (simp add: subtract_balances_def)
  have "(r, if r = k then v - f k else v) \<in> set (map ?g req)"
    using Cons.prems(1) by (auto simp: rev_image_eqI)
  from Cons.IH[OF this] Cons.prems(2) show ?case unfolding e by (auto split: if_splits)
qed (simp add: subtract_balances_def)

text \<open>Inputs selected for their runes.\<close>

definition rune_input :: "ord_multisig \<Rightarrow> utxo \<Rightarrow> bool" where
  "rune_input m u \<longleftrightarrow> \<not> no_witness_script u \<and> carries_runes m u \<and>
     (ut_address u = Some (change_address m) \<or> om_min_non_change_confirmations m \<le> ut_confirmations u)"

lemma select_runes_outcome:
  assumes "select_runes m (plain_lookup m) used us required p input s = (Inr (p', input'), s')"
    "distinct used" "map fst required = used"
  shows "\<exists>sel new. subseq sel us \<and> (\<forall>u \<in> set sel. rune_input m u) \<and> list_all2 (input_for m) sel new \<and>
    p' = p\<lparr>ps_inputs := ps_inputs p @ new\<rparr> \<and>
    input' = input + sum_list (map ut_amount_satoshi sel) \<and>
    (\<forall>(r, v) \<in> set required. v \<le> sum_list (map (utxo_balance m r) sel))"
  using assms
proof (induction us arbitrary: required p input)
  case (Cons u us)
  let ?skip = "select_runes m (plain_lookup m) used us required p input s = (Inr (p', input'), s')"
  show ?case
  proof (cases ?skip)
    case True
    from Cons.IH[OF this Cons.prems(2,3)] show ?thesis by (blast intro: list_emb_Cons)
  next
    case False
    then obtain out where out: "output_of m u = Inr out" and nw: "\<not> no_witness_script u"
      and runes: "has_rune_balances out"
      and confs: "ut_address u = Some (change_address m) \<or> om_min_non_change_confirmations m \<le> ut_confirmations u"
      using Cons.prems(1) by (cases "output_of m u") (auto simp: run_bnd split: if_splits)
    obtain balances where b: "relevant_rune_balances (om_pyord m) out used = Inr balances"
      using Cons.prems(1) False out nw runes confs
      by (cases "relevant_rune_balances (om_pyord m) out used") (auto simp: run_bnd split: if_splits)
    obtain q where q: "add_psbt_input m p u = Inr q"
      using Cons.prems(1) False out nw runes confs b
      by (cases "add_psbt_input m p u") (auto simp: run_bnd Let_def split: if_splits)
    define req where "req = subtract_balances balances required"
    have run: "(if list_all (\<lambda>(rune, v). v \<le> 0) req then ok (q, input + ut_amount_satoshi u)
        else select_runes m (plain_lookup m) used us req q (input + ut_amount_satoshi u)) s = (Inr (p', input'), s')"
      using Cons.prems(1) False out nw runes confs b q
      by (auto simp: run_bnd Let_def req_def split: if_splits)
    obtain i where i: "q = p\<lparr>ps_inputs := ps_inputs p @ [i]\<rparr>" "input_for m u i"
      using add_psbt_input_Inr[OF q nw] by blast
    have u: "rune_input m u" using out nw runes confs by (auto simp: rune_input_def carries_runes_def)
    have keys: "map fst req = used" by (simp add: req_def Cons.prems(3))
    have mem: "(r, v - utxo_balance m r u) \<in> set req" if "(r, v) \<in> set required" for r v
    proof -
      have "r \<in> set used" using that Cons.prems(3) by (force simp flip: Cons.prems(3))
      then show ?thesis
        using subtract_balances_mem[OF that Cons.prems(2), of "\<lambda>r. utxo_balance m r u"]
          relevant_rune_balances_Inr[OF b out] by (simp add: req_def)
    qed
    show ?thesis
    proof (cases "list_all (\<lambda>(rune, v). v \<le> 0) req")
      case True
      then have fin: "p' = q" "input' = input + ut_amount_satoshi u" using run by auto
      have "v \<le> utxo_balance m r u" if "(r, v) \<in> set required" for r v
        using mem[OF that] True by (auto simp: list_all_iff)
      then show ?thesis using fin i u
        by (intro exI[of _ "[u]"] exI[of _ "[i]"]) auto
    next
      case False
      then have run: "select_runes m (plain_lookup m) used us req q (input + ut_amount_satoshi u) s = (Inr (p', input'), s')"
        using run by simp
      from Cons.IH[OF run Cons.prems(2) keys] obtain sel new where IH: "subseq sel us"
          "\<forall>u \<in> set sel. rune_input m u" "list_all2 (input_for m) sel new"
          "p' = q\<lparr>ps_inputs := ps_inputs q @ new\<rparr>"
          "input' = input + ut_amount_satoshi u + sum_list (map ut_amount_satoshi sel)"
          "\<forall>(r, v) \<in> set req. v \<le> sum_list (map (utxo_balance m r) sel)"
        by blast
      have "v \<le> utxo_balance m r u + sum_list (map (utxo_balance m r) sel)" if "(r, v) \<in> set required" for r v
        using bspec[OF IH(6) mem[OF that]] by simp
      then show ?thesis using IH(1-5) i u
        by (intro exI[of _ "u # sel"] exI[of _ "i # new"]) auto
    qed
  qed
qed simp


text \<open>Inputs selected for the fee, and when their selection stops.\<close>

definition fee_input :: "ord_multisig \<Rightarrow> utxo \<Rightarrow> bool" where
  "fee_input m u \<longleftrightarrow> \<not> no_witness_script u \<and> \<not> carries_runes m u"

lemma fund_fee_outcome:
  assumes "fund_fee m (plain_lookup m) rate out test us p input s = (Inr (p', input'), s')"
  shows "\<exists>sel new. subseq sel us \<and> (\<forall>u \<in> set sel. fee_input m u) \<and> list_all2 (input_for m) sel new \<and>
    p' = p\<lparr>ps_inputs := ps_inputs p @ new\<rparr> \<and>
    input' = input + sum_list (map ut_amount_satoshi sel) \<and> is_funded input' out (tx_fee m rate p')"
  using assms
proof (induction us arbitrary: test p input)
  case Nil
  then show ?case by (intro exI[of _ "[]"]) (auto split: if_splits)
next
  case (Cons u us)
  show ?case
  proof (cases "test \<and> is_funded input out (tx_fee m rate p)")
    case True
    then show ?thesis using Cons.prems by (intro exI[of _ "[]"]) auto
  next
    case False
    then obtain o' where o: "output_of m u = Inr o'"
      using Cons.prems by (cases "output_of m u") (auto simp: run_bnd)
    show ?thesis
    proof (cases "\<exists>t. fund_fee m (plain_lookup m) rate out t us p input s = (Inr (p', input'), s')")
      case True
      then show ?thesis using Cons.IH by (blast intro: list_emb_Cons)
    next
      case no_skip: False
      then have c: "\<not> has_rune_balances o'" "\<not> no_witness_script u"
        using Cons.prems False o by (auto simp: run_bnd split: if_splits)
      then obtain q where q: "add_psbt_input m p u = Inr q"
        using Cons.prems False o by (cases "add_psbt_input m p u") (auto simp: run_bnd)
      have run: "fund_fee m (plain_lookup m) rate out True us q (input + ut_amount_satoshi u) s = (Inr (p', input'), s')"
        using Cons.prems False o c q by (simp add: run_bnd split: if_splits)
      obtain i where i: "q = p\<lparr>ps_inputs := ps_inputs p @ [i]\<rparr>" "input_for m u i"
        using add_psbt_input_Inr[OF q c(2)] by blast
      have u: "fee_input m u" using o c by (simp add: fee_input_def carries_runes_def)
      from Cons.IH[OF run] obtain sel new where "subseq sel us" "\<forall>u \<in> set sel. fee_input m u"
          "list_all2 (input_for m) sel new" "p' = q\<lparr>ps_inputs := ps_inputs q @ new\<rparr>"
          "input' = input + ut_amount_satoshi u + sum_list (map ut_amount_satoshi sel)"
          "is_funded input' out (tx_fee m rate p')"
        by blast
      then show ?thesis using i u by (intro exI[of _ "u # sel"] exI[of _ "i # new"]) auto
    qed
  qed
qed

text \<open>The plan: one edict and one output per transfer, and what the transfers add up to.\<close>

definition transfer_name :: "ord_multisig \<Rightarrow> rune_transfer \<Rightarrow> pystr" where
  "transfer_name m t = py_name (om_pyord m) (tr_rune t)"

definition transferred :: "ord_multisig \<Rightarrow> rune_transfer list \<Rightarrow> pystr \<Rightarrow> int" where
  "transferred m ts name = sum_list (map tr_amount (filter (\<lambda>t. transfer_name m t = name) ts))"

text \<open>The edict and the output that carry out a transfer, the output being number \<open>k\<close>.\<close>

definition edict_for :: "ord_multisig \<Rightarrow> nat \<times> rune_transfer \<Rightarrow> edict \<Rightarrow> bool" where
  "edict_for m kt e \<longleftrightarrow> (case kt of (k, t) \<Rightarrow>
     ed_output e = k \<and> ed_amount e = tr_amount t \<and> 0 < tr_amount t \<and>
     (\<exists>response. get_rune (om_ord m) (transfer_name m t) = Inr (Some response) \<and>
        rl_rune_id_from_str (om_runes m) (rr_id response) = Inr (ed_id e)))"

definition output_for :: "ord_multisig \<Rightarrow> rune_transfer \<Rightarrow> txout \<Rightarrow> bool" where
  "output_for m t out \<longleftrightarrow> to_value out = tr_postage t \<and> 0 < tr_postage t \<and>
     wl_parse_address (om_lib m) (tr_receiver t) = Inr (Some (to_script out))"

lemma dict_set_keys: "set (map fst (dict_set k v d)) = insert k (set (map fst d))"
  by (induction k v d rule: dict_set.induct) auto

lemma dict_set_distinct: "distinct (map fst d) \<Longrightarrow> distinct (map fst (dict_set k v d))"
proof (induction k v d rule: dict_set.induct)
  case (2 k v k' v' d)
  then show ?case using dict_set_keys[of k v d] by (auto simp del: set_map)
qed simp

lemma plan_transfers_outcome:
  assumes "plan_transfers m k ts (es, outs, req) = Inr (es', outs', req')" "distinct (map fst req)"
  shows "\<exists>nes nouts. es' = es @ nes \<and> outs' = outs @ nouts \<and>
    list_all2 (edict_for m) (enumerate k ts) nes \<and> list_all2 (output_for m) ts nouts \<and>
    distinct (map fst req') \<and>
    (\<forall>name. name \<in> fst ` set req' \<longleftrightarrow> name \<in> fst ` set req \<or> name \<in> transfer_name m ` set ts) \<and>
    (\<forall>name. (case map_of req' name of None \<Rightarrow> 0 | Some v \<Rightarrow> v) =
       (case map_of req name of None \<Rightarrow> 0 | Some v \<Rightarrow> v) + transferred m ts name)"
  using assms
proof (induction ts arbitrary: k es outs req)
  case (Cons t ts)
  let ?name = "py_name (om_pyord m) (tr_rune t)"
  let ?req = "add_required ?name (tr_amount t) req"
  from Cons.prems(1) obtain response rune_id script where t: "transfer_assert_valid (om_lib m) t = Inr ()"
      "get_rune (om_ord m) ?name = Inr (Some response)" "rl_rune_id_from_str (om_runes m) (rr_id response) = Inr rune_id"
      "0 < tr_amount t" "get_receiver_script_pubkey (om_lib m) t = Inr script"
    and rec: "plan_transfers m (k + 1) ts
         (es @ [\<lparr>ed_id = rune_id, ed_amount = tr_amount t, ed_output = k\<rparr>],
          outs @ [\<lparr>to_value = tr_postage t, to_script = script\<rparr>], ?req) = Inr (es', outs', req')"
    by (auto simp: rbind_eq_Inr Let_def split: option.splits if_splits)
  have postage: "0 < tr_postage t" using t(1) by (auto simp: transfer_assert_valid_def split: if_splits)
  have script: "wl_parse_address (om_lib m) (tr_receiver t) = Inr (Some script)"
    using t(5) by (auto simp: get_receiver_script_pubkey_def rbind_eq_Inr split: option.splits)
  have d: "distinct (map fst ?req)" using Cons.prems(2) by (simp add: add_required_def dict_set_distinct)
  from Cons.IH[OF rec d] obtain nes nouts where IH:
      "es' = (es @ [\<lparr>ed_id = rune_id, ed_amount = tr_amount t, ed_output = k\<rparr>]) @ nes"
      "outs' = (outs @ [\<lparr>to_value = tr_postage t, to_script = script\<rparr>]) @ nouts"
      "list_all2 (edict_for m) (enumerate (k + 1) ts) nes" "list_all2 (output_for m) ts nouts"
      "distinct (map fst req')"
      "\<And>name. name \<in> fst ` set req' \<longleftrightarrow> name \<in> fst ` set ?req \<or> name \<in> transfer_name m ` set ts"
      "\<And>name. (case map_of req' name of None \<Rightarrow> 0 | Some v \<Rightarrow> v) =
         (case map_of ?req name of None \<Rightarrow> 0 | Some v \<Rightarrow> v) + transferred m ts name"
    by blast
  have names: "fst ` set ?req = insert (transfer_name m t) (fst ` set req)"
    using dict_set_keys by (simp add: add_required_def transfer_name_def)
  have vals: "(case map_of ?req name of None \<Rightarrow> 0 | Some v \<Rightarrow> v) =
      (case map_of req name of None \<Rightarrow> 0 | Some v \<Rightarrow> v) + (if name = transfer_name m t then tr_amount t else 0)" for name
    by (simp add: add_required_def map_of_dict_set transfer_name_def)
  show ?case
  proof (intro exI conjI)
    show "es' = es @ \<lparr>ed_id = rune_id, ed_amount = tr_amount t, ed_output = k\<rparr> # nes" using IH(1) by simp
    show "outs' = outs @ \<lparr>to_value = tr_postage t, to_script = script\<rparr> # nouts" using IH(2) by simp
    show "list_all2 (edict_for m) (enumerate k (t # ts)) (\<lparr>ed_id = rune_id, ed_amount = tr_amount t, ed_output = k\<rparr> # nes)"
      using IH(3) t by (simp add: edict_for_def transfer_name_def)
    show "list_all2 (output_for m) (t # ts) (\<lparr>to_value = tr_postage t, to_script = script\<rparr> # nouts)"
      using IH(4) postage script by (simp add: output_for_def)
    show "distinct (map fst req')" by (rule IH(5))
    show "\<forall>name. name \<in> fst ` set req' \<longleftrightarrow> name \<in> fst ` set req \<or> name \<in> transfer_name m ` set (t # ts)"
      using IH(6) names by auto
    show "\<forall>name. (case map_of req' name of None \<Rightarrow> 0 | Some v \<Rightarrow> v) =
       (case map_of req name of None \<Rightarrow> 0 | Some v \<Rightarrow> v) + transferred m (t # ts) name"
      unfolding IH(7) vals by (simp add: transferred_def)
  qed
qed (auto simp: transferred_def)


lemma subseq_subset: "subseq xs ys \<Longrightarrow> set xs \<subseteq> set ys"
  by (induction rule: list_emb.induct) auto

lemma subseq_distinct: "subseq xs ys \<Longrightarrow> distinct ys \<Longrightarrow> distinct xs"
  unfolding subseq_conv_nths by (auto intro: distinct_nthsI)

definition change_output :: "ord_multisig \<Rightarrow> int \<Rightarrow> txout list" where
  "change_output m change =
     (if change = 0 then [] else [\<lparr>to_value = change, to_script = change_script_pubkey m\<rparr>])"

lemma create_rune_psbt_outcome:
  assumes "create_rune_psbt m (plain_lookup m) transfers rate max_num s = (Inr p, s')"
  obtains utxos nes nouts rsel fsel change where
    "list_utxos m = Inr utxos" "transfers \<noteq> []"
    "list_all2 (edict_for m) (enumerate 2 transfers) nes" "list_all2 (output_for m) transfers nouts"
    "subseq rsel utxos" "\<forall>u \<in> set rsel. rune_input m u" "subseq fsel utxos" "\<forall>u \<in> set fsel. fee_input m u"
    "list_all2 (input_for m) (rsel @ fsel) (ps_inputs p)" "length (ps_inputs p) \<le> max_num"
    "ps_outputs p = initial_outputs m nes nouts @ change_output m change" "change = 0 \<or> DUST_SAT \<le> change"
    "sum_list (map ut_amount_satoshi (rsel @ fsel)) = sum_list (map to_value (ps_outputs p)) + wl_get_fee (om_lib m) p"
    "wl_get_fee (om_lib m) p = tx_fee m rate (p\<lparr>ps_outputs := initial_outputs m nes nouts\<rparr>)"
    "\<forall>t \<in> set transfers.
       transferred m transfers (transfer_name m t) \<le> sum_list (map (utxo_balance m (transfer_name m t)) rsel)"
proof -
  from assms obtain es outs req utxos q input q' input' u where ne: "transfers \<noteq> []"
    and plan: "plan_transfers m 2 transfers ([], [], []) = Inr (es, outs, req)"
    and utxos: "list_utxos m = Inr utxos"
    and sel: "select_runes m (plain_lookup m) (map fst req) utxos req
        \<lparr>ps_inputs = [], ps_outputs = initial_outputs m es outs, ps_signatures = []\<rparr> 0 s = (Inr (q, input), u)"
    and fee: "fund_fee m (plain_lookup m) rate (sum_list (map to_value (ps_outputs q))) True utxos q input u =
        (Inr (q', input'), s')"
    and fin: "length (ps_inputs q') \<le> max_num"
      "0 \<le> input' - sum_list (map to_value (ps_outputs q)) - tx_fee m rate q'"
      "p = (if input' - sum_list (map to_value (ps_outputs q)) - tx_fee m rate q' > 0
            then q'\<lparr>ps_outputs := ps_outputs q' @ [\<lparr>to_value = input' - sum_list (map to_value (ps_outputs q)) - tx_fee m rate q',
                    to_script = change_script_pubkey m\<rparr>]\<rparr> else q')"
      "wl_get_fee (om_lib m) p = tx_fee m rate q'"
    unfolding create_rune_psbt_def add_change_def by (auto simp: ran_ok Let_def split: if_split_asm)
  from plan_transfers_outcome[OF plan] have plan': "list_all2 (edict_for m) (enumerate 2 transfers) es"
      "list_all2 (output_for m) transfers outs" "distinct (map fst req)"
      "\<And>name. name \<in> fst ` set req \<longleftrightarrow> name \<in> transfer_name m ` set transfers"
      "\<And>name. (case map_of req name of None \<Rightarrow> 0 | Some v \<Rightarrow> v) = transferred m transfers name"
    by simp_all
  from select_runes_outcome[OF sel plan'(3) refl] obtain rsel rnew where r: "subseq rsel utxos"
      "\<forall>u \<in> set rsel. rune_input m u" "list_all2 (input_for m) rsel rnew"
      "q = \<lparr>ps_inputs = rnew, ps_outputs = initial_outputs m es outs, ps_signatures = []\<rparr>"
      "input = sum_list (map ut_amount_satoshi rsel)"
      "\<forall>(r, v) \<in> set req. v \<le> sum_list (map (utxo_balance m r) rsel)"
    by auto
  from fund_fee_outcome[OF fee] obtain fsel fnew where f: "subseq fsel utxos"
      "\<forall>u \<in> set fsel. fee_input m u" "list_all2 (input_for m) fsel fnew"
      "q' = q\<lparr>ps_inputs := ps_inputs q @ fnew\<rparr>"
      "input' = input + sum_list (map ut_amount_satoshi fsel)"
      "is_funded input' (sum_list (map to_value (ps_outputs q))) (tx_fee m rate q')"
    by blast
  define change where "change = input' - sum_list (map to_value (ps_outputs q)) - tx_fee m rate q'"
  have p: "p = q'\<lparr>ps_outputs := initial_outputs m es outs @ change_output m change\<rparr>"
    using fin(2,3) r(4) f(4) by (auto simp: change_output_def change_def)
  have q': "p\<lparr>ps_outputs := initial_outputs m es outs\<rparr> = q'" using r(4) f(4) by (simp add: p)
  have inputs: "list_all2 (input_for m) (rsel @ fsel) (ps_inputs p)"
    using r(3,4) f(3,4) by (simp add: p list_all2_appendI)
  have change: "change = 0 \<or> DUST_SAT \<le> change" using f(6) by (auto simp: change_def is_funded_def)
  have sums: "sum_list (map ut_amount_satoshi (rsel @ fsel)) = sum_list (map to_value (ps_outputs p)) + wl_get_fee (om_lib m) p"
    using r(4,5) f(5) fin(4) change by (auto simp: p change_output_def change_def)
  have fee_eq: "wl_get_fee (om_lib m) p = tx_fee m rate (p\<lparr>ps_outputs := initial_outputs m es outs\<rparr>)"
    by (simp add: q' fin(4))
  have runes: "\<forall>t \<in> set transfers. transferred m transfers (transfer_name m t) \<le>
      sum_list (map (utxo_balance m (transfer_name m t)) rsel)"
  proof
    fix t assume t: "t \<in> set transfers"
    have "transfer_name m t \<in> fst ` set req" using plan'(4) t by blast
    then obtain v where v: "map_of req (transfer_name m t) = Some v" by (metis map_of_eq_None_iff option.exhaust)
    have "v \<le> sum_list (map (utxo_balance m (transfer_name m t)) rsel)" using r(6) map_of_SomeD[OF v] by blast
    then show "transferred m transfers (transfer_name m t) \<le> sum_list (map (utxo_balance m (transfer_name m t)) rsel)"
      using plan'(5)[of "transfer_name m t"] v by simp
  qed
  have len: "length (ps_inputs p) \<le> max_num" using fin(1) by (simp add: p)
  have outs: "ps_outputs p = initial_outputs m es outs @ change_output m change" by (simp add: p)
  show thesis
    by (rule that[OF utxos ne plan'(1,2) r(1,2) f(1,2) inputs len outs change sums fee_eq runes])
qed

text \<open>
  C22. What a built transaction pays: output 0 is the runestone, with one edict per transfer that
  moves its amount of its rune to its own output, runes not moved by an edict going to output 1,
  which is the wallet's own; output \<open>i + 2\<close> pays transfer \<open>i\<close>'s postage to its receiver; and
  the only other output is a last one that returns at least the dust limit to the wallet.
\<close>

theorem create_rune_psbt_outputs:
  assumes "create_rune_psbt m (plain_lookup m) transfers fee_rate max_num_inputs s = (Inr p, s')"
  shows "\<exists>edicts outs change.
    ps_outputs p =
      [\<lparr>to_value = 0, to_script = rl_encipher (om_runes m)
         \<lparr>rs_edicts = edicts, rs_pointer = Some 1, rs_is_cenotaph = False\<rparr>\<rparr>,
       \<lparr>to_value = TARGET_POSTAGE_SAT, to_script = change_script_pubkey m\<rparr>] @ outs @ change \<and>
    list_all2 (edict_for m) (enumerate 2 transfers) edicts \<and> list_all2 (output_for m) transfers outs \<and>
    (change = [] \<or> (\<exists>v \<ge> DUST_SAT. change = [\<lparr>to_value = v, to_script = change_script_pubkey m\<rparr>]))"
proof -
  obtain edicts outs change where
    o: "list_all2 (edict_for m) (enumerate 2 transfers) edicts" "list_all2 (output_for m) transfers outs"
      "ps_outputs p = initial_outputs m edicts outs @ change_output m change" "change = 0 \<or> DUST_SAT \<le> change"
    by (rule create_rune_psbt_outcome[OF assms])
  then show ?thesis
    by (intro exI[of _ edicts] exI[of _ outs] exI[of _ "change_output m change"])
       (auto simp: initial_outputs_def change_output_def)
qed

text \<open>
  C21. A built transaction is balanced: its inputs are different unspent outputs of the wallet, at
  most the allowed number; what they hold is what the outputs hold and the fee; and the fee is
  the fee rate times the estimated size of the transaction with a change output.
\<close>

theorem create_rune_psbt_balanced:
  assumes "create_rune_psbt m (plain_lookup m) transfers fee_rate max_num_inputs s = (Inr p, s')"
    and "list_utxos m = Inr utxos" "distinct utxos"
  shows "\<exists>spent. distinct spent \<and> set spent \<subseteq> set utxos \<and> list_all2 (input_for m) spent (ps_inputs p) \<and>
    length spent \<le> max_num_inputs \<and>
    sum_list (map ut_amount_satoshi spent) = sum_list (map to_value (ps_outputs p)) + wl_get_fee (om_lib m) p \<and>
    wl_get_fee (om_lib m) p =
      tx_fee m fee_rate (p\<lparr>ps_outputs := take (length transfers + 2) (ps_outputs p)\<rparr>)"
proof -
  obtain us edicts outs rsel fsel change where o: "list_utxos m = Inr us"
      "list_all2 (output_for m) transfers outs"
      "subseq rsel us" "\<forall>u \<in> set rsel. rune_input m u" "subseq fsel us" "\<forall>u \<in> set fsel. fee_input m u"
      "list_all2 (input_for m) (rsel @ fsel) (ps_inputs p)" "length (ps_inputs p) \<le> max_num_inputs"
      "ps_outputs p = initial_outputs m edicts outs @ change_output m change"
      "sum_list (map ut_amount_satoshi (rsel @ fsel)) = sum_list (map to_value (ps_outputs p)) + wl_get_fee (om_lib m) p"
      "wl_get_fee (om_lib m) p = tx_fee m fee_rate (p\<lparr>ps_outputs := initial_outputs m edicts outs\<rparr>)"
    by (rule create_rune_psbt_outcome[OF assms(1)])
  have us: "us = utxos" using o(1) assms(2) by simp
  have "set rsel \<inter> set fsel = {}" using o(4,6) by (auto simp: rune_input_def fee_input_def)
  moreover have "distinct rsel" "distinct fsel"
    using subseq_distinct[OF o(3)] subseq_distinct[OF o(5)] assms(3) us by blast+
  ultimately have d: "distinct (rsel @ fsel)" by simp
  have sub: "set (rsel @ fsel) \<subseteq> set utxos"
    using subseq_subset[OF o(3)] subseq_subset[OF o(5)] us by simp
  have t: "take (length transfers + 2) (ps_outputs p) = initial_outputs m edicts outs"
    using list_all2_lengthD[OF o(2)] by (simp add: o(9) initial_outputs_def)
  have "length (rsel @ fsel) \<le> max_num_inputs" using list_all2_lengthD[OF o(7)] o(8) by simp
  with d sub o(7,10) o(11)[folded t] show ?thesis by blast
qed

text \<open>
  C14. A built transaction has the runes it pays: for every rune that is transferred, the inputs
  that were selected for their runes hold, by what ord reports of them, at least the total of
  its transfers; each of these inputs carries runes and is the wallet's change or has the
  confirmations required of deposits.
\<close>

theorem create_rune_psbt_runes_suffice:
  assumes "create_rune_psbt m (plain_lookup m) transfers fee_rate max_num_inputs s = (Inr p, s')"
  shows "\<exists>rune_inputs fee_inputs.
    list_all2 (input_for m) (rune_inputs @ fee_inputs) (ps_inputs p) \<and>
    (\<forall>u \<in> set rune_inputs. carries_runes m u \<and>
       (ut_address u = Some (change_address m) \<or> om_min_non_change_confirmations m \<le> ut_confirmations u)) \<and>
    (\<forall>u \<in> set fee_inputs. \<not> carries_runes m u) \<and>
    (\<forall>t \<in> set transfers. transferred m transfers (transfer_name m t) \<le>
       sum_list (map (utxo_balance m (transfer_name m t)) rune_inputs))"
proof -
  obtain rsel fsel where o: "\<forall>u \<in> set rsel. rune_input m u" "\<forall>u \<in> set fsel. fee_input m u"
      "list_all2 (input_for m) (rsel @ fsel) (ps_inputs p)"
      "\<forall>t \<in> set transfers.
       transferred m transfers (transfer_name m t) \<le> sum_list (map (utxo_balance m (transfer_name m t)) rsel)"
    by (rule create_rune_psbt_outcome[OF assms])
  show ?thesis
    using o by (intro exI[of _ rsel] exI[of _ fsel]) (auto simp: rune_input_def fee_input_def)
qed


section \<open>An example\<close>

definition example_ord_pyord :: pyord where
  "example_ord_pyord =
     \<lparr>py_unicode = \<lparr>uc_alpha = (\<lambda>c. True), uc_upper = (\<lambda>c. True), uc_lower_or_title = (\<lambda>c. False)\<rparr>,
      py_from_str = (\<lambda>s. Inr (int (hd s))), py_name = (\<lambda>n. [nat n])\<rparr>"

text \<open>Two outputs of the wallet: \<open>aa:0\<close> holds 100 units of the rune 65, \<open>bb:0\<close> holds one bitcoin.\<close>

definition example_outputs_ord :: ord_server where
  "example_outputs_ord =
     \<lparr>os_rune = (\<lambda>name. Inr \<lparr>hr_status_code = 200, hr_json = Inr \<lparr>rr_entry =
        \<lparr>re_spaced_rune = [65], re_symbol = [65], re_divisibility = 0, re_turbo = False\<rparr>, rr_id = ''1:1''\<rparr>\<rparr>),
      os_output = (\<lambda>txid vout attempt. Inr \<lparr>hr_status_code = 200, hr_json = Inr
        \<lparr>or_indexed = True, or_spent = False, or_transaction = txid, or_value = 10000,
         or_runes = (if txid = ''aa'' then [([65], \<lparr>rb_amount = 100, rb_divisibility = 0\<rparr>)] else []),
         or_inscriptions = []\<rparr>\<rparr>),
      os_blockcount = (\<lambda>k. Inr \<lparr>hr_status_code = 200, hr_json = Inr 1\<rparr>)\<rparr>"

definition example_listed :: "string \<Rightarrow> decimal \<Rightarrow> listed_unspent" where
  "example_listed txid amount =
     \<lparr>lu_txid = txid, lu_vout = 0, lu_amount = BtcDecimal amount, lu_confirmations = 5,
      lu_spendable = True, lu_solvable = True, lu_safe = True,
      lu_desc = Some (render_descriptor ''1'' [(''7f3e784c'', ''0'', ''02557f'')] ''kxmewpkl''),
      lu_address = Some ''own'', lu_witness_script = Some ''51''\<rparr>"

definition example_utxo :: "string \<Rightarrow> int \<Rightarrow> utxo" where
  "example_utxo txid amount =
     \<lparr>ut_txid = txid, ut_vout = 0, ut_amount_satoshi = amount, ut_confirmations = 5,
      ut_spendable = True, ut_solvable = True, ut_safe = True,
      ut_desc = Some (render_descriptor ''1'' [(''7f3e784c'', ''0'', ''02557f'')] ''kxmewpkl''),
      ut_address = Some ''own'', ut_witness_script = Some [81]\<rparr>"

definition example_input :: "string \<Rightarrow> int \<Rightarrow> psbt_input" where
  "example_input txid amount =
     \<lparr>pi_prevout = \<lparr>op_hash = (if txid = ''aa'' then [170] else [187]), op_n = 0\<rparr>, pi_witness_script = [81],
      pi_utxo = \<lparr>to_value = amount, to_script = []\<rparr>,
      pi_derivation_map = [([2, 85, 127], \<lparr>kd_master_fp = [127, 62, 120, 76], kd_path = ''m/0''\<rparr>)]\<rparr>"

definition example_edicts :: "edict list" where
  "example_edicts = [\<lparr>ed_id = (1, 1), ed_amount = 30, ed_output = 2\<rparr>]"

definition example_psbt :: psbt where
  "example_psbt =
     \<lparr>ps_inputs = [example_input ''aa'' 10000, example_input ''bb'' 100000000],
      ps_outputs = [\<lparr>to_value = 0, to_script = [106]\<rparr>, \<lparr>to_value = 10000, to_script = [0, 32, 81]\<rparr>,
        \<lparr>to_value = 10000, to_script = [117, 115, 101, 114]\<rparr>, \<lparr>to_value = 99989400, to_script = [0, 32, 81]\<rparr>],
      ps_signatures = []\<rparr>"

definition example_wallet_lib :: wallet_lib where
  "example_wallet_lib =
     \<lparr>wl_ext_key = Inr, wl_ext_pubkey = Inr, wl_neuter = (\<lambda>k. k), wl_fingerprint = (\<lambda>k. [127, 62, 120, 76]),
      wl_child_pubkey = (\<lambda>k path i. Inr [2]), wl_redeem_script = (\<lambda>n k ps. Inr [81]),
      wl_parse_address = (\<lambda>a. Inr (Some (map of_char a))), wl_script_is_valid = (\<lambda>s. True),
      wl_script_fromhex = unhexlify, wl_parse_decimal = (\<lambda>s. Inl ValueError),
      wl_deserialize_tx = (\<lambda>hex. Inr [\<lparr>to_value = (if hex = ''aa'' then 10000 else 100000000), to_script = []\<rparr>]),
      wl_get_fee = (\<lambda>p. sum_list (map (\<lambda>i. to_value (pi_utxo i)) (ps_inputs p)) - sum_list (map to_value (ps_outputs p))),
      wl_unsigned_tx_hex = (\<lambda>p. ''00''), wl_sign = (\<lambda>k f p. Inr \<lparr>sr_psbt = p, sr_num_inputs_signed = length (ps_inputs p), sr_is_final = True\<rparr>),
      wl_combine = (\<lambda>p q. Inr p), wl_extract_tx_hex = (\<lambda>p. Inr ''00''),
      wl_to_base64 = (\<lambda>p. ''psbt''), wl_from_base64 = (\<lambda>s. Inr example_psbt)\<rparr>"

definition example_multisig :: ord_multisig where
  "example_multisig =
     \<lparr>om_btx = example_btx, om_lib = example_wallet_lib,
      om_runes = \<lparr>rl_rune_id_from_str = (\<lambda>s. Inr (1, 1)), rl_encipher = (\<lambda>r. [106]), rl_decipher_hex = (\<lambda>h. Inr (Some
        \<lparr>rs_edicts = example_edicts, rs_pointer = Some 1, rs_is_cenotaph = False\<rparr>))\<rparr>,
      om_pyord = example_ord_pyord,
      om_node = \<lparr>wn_listdescriptors = Inr [], wn_importdescriptors = (\<lambda>d. Inr [True]),
        wn_listunspent = Inr [example_listed ''aa'' (Dec 1 (-4)), example_listed ''bb'' (Dec 1 0)],
        wn_gettransaction = Inr, wn_testmempoolaccept = (\<lambda>h. Inr [True])\<rparr>,
      om_ord = example_outputs_ord, om_master_xpriv = ''x'', om_master_xpubs = [''x''], om_signer_xpub = ''x'',
      om_num_required_signers = 1, om_base_derivation_path = ''m/0'', om_redeem_script = [81], om_script = [81],
      om_address = ''own'', om_btc_wallet_name = None, om_min_non_change_confirmations = 1\<rparr>"

definition example_transfer :: rune_transfer where
  "example_transfer = \<lparr>tr_rune = 65, tr_receiver = ''user'', tr_amount = 30, tr_postage = 10000\<rparr>"


lemma example_list_utxos: "list_utxos example_multisig = Inr [example_utxo ''aa'' 10000, example_utxo ''bb'' 100000000]"
proof -
  have "utxo_from_rpc_response (wl_parse_decimal example_wallet_lib) unhexlify (example_listed ''aa'' (Dec 1 (-4))) =
      Inr (example_utxo ''aa'' 10000)"
    by (subst utxo_from_rpc_whole[where n = 10000 and d = "Dec 1 (-4)" and hex = "''51''" and script = "[81]"])
       (simp_all add: example_listed_def example_utxo_def dec_val_def power_int_def power_divide hex_value_def)
  moreover have "utxo_from_rpc_response (wl_parse_decimal example_wallet_lib) unhexlify (example_listed ''bb'' (Dec 1 0)) =
      Inr (example_utxo ''bb'' 100000000)"
    by (subst utxo_from_rpc_whole[where n = 100000000 and d = "Dec 1 0" and hex = "''51''" and script = "[81]"])
       (simp_all add: example_listed_def example_utxo_def dec_val_def hex_value_def)
  moreover have "wl_script_fromhex example_wallet_lib = unhexlify" by (simp add: example_wallet_lib_def)
  ultimately show ?thesis
    by (simp add: list_utxos_def example_multisig_def) (simp add: example_utxo_def)
qed


lemma example_descriptor:
  "parse_p2wsh_multisig_utxo_descriptor example_btx
     (render_descriptor ''1'' [(''7f3e784c'', ''0'', ''02557f'')] ''kxmewpkl'') =
   Inr \<lparr>dp_num_required_signers = 1, dp_num_signers = 1,
        dp_derivation_map = [([2, 85, 127], \<lparr>kd_master_fp = [127, 62, 120, 76], kd_path = ''m/0''\<rparr>)],
        dp_master_fingerprints = [[127, 62, 120, 76]]\<rparr>"
  by code_simp

lemma example_add_input:
  "add_psbt_input example_multisig p (example_utxo ''aa'' 10000) =
     Inr (p\<lparr>ps_inputs := ps_inputs p @ [example_input ''aa'' 10000]\<rparr>)"
  "add_psbt_input example_multisig p (example_utxo ''bb'' 100000000) =
     Inr (p\<lparr>ps_inputs := ps_inputs p @ [example_input ''bb'' 100000000]\<rparr>)"
  by (simp_all add: add_psbt_input_def example_multisig_def example_wallet_lib_def example_utxo_def
      example_descriptor utxo_outpoint_def tx_hash_def hex_value_def example_input_def)

lemma example_lookup:
  "output_of example_multisig (example_utxo ''aa'' v) = Inr \<lparr>oo_txid = ''aa'', oo_vout = 0,
     oo_amount_satoshi = 10000, oo_rune_balances = [([65], 100)], oo_inscriptions = []\<rparr>"
  "output_of example_multisig (example_utxo ''bb'' v) = Inr \<lparr>oo_txid = ''bb'', oo_vout = 0,
     oo_amount_satoshi = 10000, oo_rune_balances = [], oo_inscriptions = []\<rparr>"
  by (simp_all add: output_of_def get_ord_output_def get_output_def ord_request_def http_ok_def
      example_multisig_def example_outputs_ord_def example_utxo_def example_ord_pyord_def
      get_normalized_rune_name_def rune_from_str_def remove_spacers_def is_spacer_def str_isalpha_def str_isupper_def)

lemma example_plan:
  "plan_transfers example_multisig 2 [example_transfer] ([], [], []) =
   Inr (example_edicts, [\<lparr>to_value = 10000, to_script = [117, 115, 101, 114]\<rparr>], [([65], 30)])"
  by (simp add: example_transfer_def example_multisig_def example_wallet_lib_def example_ord_pyord_def
      transfer_assert_valid_def get_receiver_script_pubkey_def get_rune_def ord_request_def http_ok_def
      example_outputs_ord_def add_required_def example_edicts_def)

lemma example_select:
  "select_runes example_multisig (plain_lookup example_multisig) [[65]]
     [example_utxo ''aa'' 10000, example_utxo ''bb'' 100000000] [([65], 30)] p 0 s =
   (Inr (p\<lparr>ps_inputs := ps_inputs p @ [example_input ''aa'' 10000]\<rparr>, 10000), s)"
proof -
  have fields: "\<not> no_witness_script (example_utxo ''aa'' 10000)" "ut_amount_satoshi (example_utxo ''aa'' 10000) = 10000"
    "ut_address (example_utxo ''aa'' 10000) = Some (change_address example_multisig)"
    by (simp_all add: no_witness_script_def example_utxo_def change_address_def example_multisig_def)
  have balances: "relevant_rune_balances (om_pyord example_multisig) \<lparr>oo_txid = ''aa'', oo_vout = 0,
     oo_amount_satoshi = 10000, oo_rune_balances = [([65], 100)], oo_inscriptions = []\<rparr> [[65]] = Inr [([65], 100)]"
    by (simp add: relevant_rune_balances_def get_rune_balance_def output_rune_balance_def example_multisig_def
        example_ord_pyord_def get_normalized_rune_name_def rune_from_str_def remove_spacers_def is_spacer_def
        str_isalpha_def str_isupper_def)
  show ?thesis
    by (simp add: run_bnd fields example_lookup balances has_rune_balances_def example_add_input subtract_balances_def)
qed

definition example_start :: psbt where
  "example_start = \<lparr>ps_inputs = [], ps_outputs = take 3 (ps_outputs example_psbt), ps_signatures = []\<rparr>"

lemma example_fee:
  assumes "ps_outputs p = take 3 (ps_outputs example_psbt)"
  shows "ps_inputs p = [i] \<Longrightarrow> tx_fee example_multisig 2 p = 482"
    and "ps_inputs p = [i, j] \<Longrightarrow> tx_fee example_multisig 2 p = 600"
  using assms
  by (simp_all add: tx_fee_def estimate_p2wsh_multisig_tx_virtual_size_def example_multisig_def example_btx_def
      example_psbt_def)

lemma example_fund:
  "fund_fee example_multisig (plain_lookup example_multisig) 2 20000 True
     [example_utxo ''aa'' 10000, example_utxo ''bb'' 100000000]
     (example_start\<lparr>ps_inputs := [example_input ''aa'' 10000]\<rparr>) 10000 s =
   (Inr (example_start\<lparr>ps_inputs := [example_input ''aa'' 10000, example_input ''bb'' 100000000]\<rparr>, 100010000), s)"
proof -
  have fee: "tx_fee example_multisig 2 (example_start\<lparr>ps_inputs := [i]\<rparr>) = 482"
    "tx_fee example_multisig 2 (example_start\<lparr>ps_inputs := [i, j]\<rparr>) = 600" for i j
    by (rule example_fee; simp add: example_start_def)+
  have fields: "\<not> no_witness_script (example_utxo ''bb'' 100000000)"
    "ut_amount_satoshi (example_utxo ''bb'' 100000000) = 100000000"
    by (simp_all add: no_witness_script_def example_utxo_def)
  show ?thesis
    by (simp add: run_bnd fee fields is_funded_def DUST_SAT_def example_lookup has_rune_balances_def example_add_input)
qed

lemma example_create:
  "create_rune_psbt example_multisig (plain_lookup example_multisig) [example_transfer] 2 200 s = (Inr example_psbt, s)"
proof -
  have start: "\<lparr>ps_inputs = [], ps_outputs = initial_outputs example_multisig example_edicts
       [\<lparr>to_value = 10000, to_script = [117, 115, 101, 114]\<rparr>], ps_signatures = []\<rparr> = example_start"
    by (simp add: initial_outputs_def example_multisig_def example_start_def example_psbt_def TARGET_POSTAGE_SAT_def
        change_script_pubkey_def example_btx_def)
  have select: "select_runes example_multisig (plain_lookup example_multisig) [[65]]
      [example_utxo ''aa'' 10000, example_utxo ''bb'' 100000000] [([65], 30)] example_start 0 s =
    (Inr (example_start\<lparr>ps_inputs := [example_input ''aa'' 10000]\<rparr>, 10000), s)"
    unfolding example_select by (simp add: example_start_def)
  have out: "sum_list (map to_value (ps_outputs example_start)) = 20000"
    by (simp add: example_start_def example_psbt_def)
  have fee: "tx_fee example_multisig 2 (example_start\<lparr>ps_inputs := [i, j]\<rparr>) = 600" for i j
    by (rule example_fee) (simp_all add: example_start_def)
  have final: "example_start\<lparr>ps_inputs := [example_input ''aa'' 10000, example_input ''bb'' 100000000],
      ps_outputs := ps_outputs example_start @ [\<lparr>to_value = 99989400, to_script = change_script_pubkey example_multisig\<rparr>]\<rparr> =
      example_psbt"
    by (simp add: example_start_def example_psbt_def change_script_pubkey_def example_multisig_def example_btx_def)
  have get_fee: "wl_get_fee (om_lib example_multisig) example_psbt = 600"
    by (simp add: example_multisig_def example_wallet_lib_def example_psbt_def example_input_def)
  show ?thesis
    unfolding create_rune_psbt_def
    by (simp add: example_plan example_list_utxos run_bnd run_sq run_demand run_asserting start select out
        example_fund fee final get_fee Let_def add_change_def del: select_runes.simps fund_fee.simps plan_transfers.simps)
qed

text \<open>The example satisfies the three theorems, and its cache starts empty.\<close>

theorem create_rune_psbt_outputs_witness:
  "\<exists>edicts outs change.
    ps_outputs example_psbt =
      [\<lparr>to_value = 0, to_script = rl_encipher (om_runes example_multisig)
         \<lparr>rs_edicts = edicts, rs_pointer = Some 1, rs_is_cenotaph = False\<rparr>\<rparr>,
       \<lparr>to_value = TARGET_POSTAGE_SAT, to_script = change_script_pubkey example_multisig\<rparr>] @ outs @ change \<and>
    list_all2 (edict_for example_multisig) (enumerate 2 [example_transfer]) edicts \<and>
    list_all2 (output_for example_multisig) [example_transfer] outs \<and>
    (change = [] \<or> (\<exists>v \<ge> DUST_SAT. change = [\<lparr>to_value = v, to_script = change_script_pubkey example_multisig\<rparr>]))"
  by (rule create_rune_psbt_outputs[OF example_create[where s = "()"]])

theorem create_rune_psbt_balanced_witness:
  "\<exists>spent. distinct spent \<and> set spent \<subseteq> set [example_utxo ''aa'' 10000, example_utxo ''bb'' 100000000] \<and>
    list_all2 (input_for example_multisig) spent (ps_inputs example_psbt) \<and> length spent \<le> 200 \<and>
    sum_list (map ut_amount_satoshi spent) =
      sum_list (map to_value (ps_outputs example_psbt)) + wl_get_fee (om_lib example_multisig) example_psbt \<and>
    wl_get_fee (om_lib example_multisig) example_psbt = tx_fee example_multisig 2
      (example_psbt\<lparr>ps_outputs := take (length [example_transfer] + 2) (ps_outputs example_psbt)\<rparr>)"
  by (rule create_rune_psbt_balanced[OF example_create[where s = "()"] example_list_utxos])
     (simp add: example_utxo_def)

theorem create_rune_psbt_runes_suffice_witness:
  "\<exists>rune_inputs fee_inputs.
    list_all2 (input_for example_multisig) (rune_inputs @ fee_inputs) (ps_inputs example_psbt) \<and>
    (\<forall>u \<in> set rune_inputs. carries_runes example_multisig u \<and>
       (ut_address u = Some (change_address example_multisig) \<or>
        om_min_non_change_confirmations example_multisig \<le> ut_confirmations u)) \<and>
    (\<forall>u \<in> set fee_inputs. \<not> carries_runes example_multisig u) \<and>
    (\<forall>t \<in> set [example_transfer]. transferred example_multisig [example_transfer] (transfer_name example_multisig t) \<le>
       sum_list (map (utxo_balance example_multisig (transfer_name example_multisig t)) rune_inputs))"
  by (rule create_rune_psbt_runes_suffice[OF example_create[where s = "()"]])

section \<open>When the runes do not suffice\<close>

lemma relevant_rune_balances_zero:
  assumes "relevant_rune_balances (om_pyord m) out used = Inr balances" "output_of m u = Inr out"
    "list_all (\<lambda>(rune, b). b = 0) balances" "r \<in> set used"
  shows "utxo_balance m r u = 0"
  using assms(3,4) relevant_rune_balances_Inr[OF assms(1,2)] by (auto simp: list_all_iff)

lemma subtract_balances_from:
  assumes "(r, v) \<in> set (subtract_balances (map (\<lambda>r. (r, f r)) used) req)" "distinct used" "distinct (map fst req)"
  shows "\<exists>w. (r, w) \<in> set req \<and> v = w - (if r \<in> set used then f r else 0)"
proof -
  have "r \<in> fst ` set (subtract_balances (map (\<lambda>r. (r, f r)) used) req)" using assms(1) by force
  then have "r \<in> set (map fst req)" using subtract_balances_keys by (metis set_map)
  then obtain w where w: "(r, w) \<in> set req" by auto
  have "distinct (map fst (subtract_balances (map (\<lambda>r. (r, f r)) used) req))" using assms(3) by simp
  then have "v = w - (if r \<in> set used then f r else 0)"
    using assms(1) subtract_balances_mem[OF w assms(2), of f] by (metis eq_key_imp_eq_value)
  then show ?thesis using w by blast
qed

text \<open>
  The exception \<open>InsufficientRuneBalanceError\<close> is the wallet's own: what the wallet calls never
  raises it.
\<close>

definition others_raise_others :: "ord_multisig \<Rightarrow> utxo \<Rightarrow> bool" where
  "others_raise_others m u \<longleftrightarrow>
     output_of m u \<noteq> Inl InsufficientRuneBalanceError \<and>
     (\<forall>p. add_psbt_input m p u \<noteq> Inl InsufficientRuneBalanceError) \<and>
     (\<forall>out used. relevant_rune_balances (om_pyord m) out used \<noteq> Inl InsufficientRuneBalanceError)"

lemma select_runes_insufficient:
  assumes "select_runes m (plain_lookup m) used us req p input s = (Inl InsufficientRuneBalanceError, s')"
    "\<forall>u \<in> set us. others_raise_others m u" "distinct used" "map fst req = used" "\<exists>(r, v) \<in> set req. 0 < v"
  shows "\<exists>(r, v) \<in> set req. sum_list (map (utxo_balance m r) (filter (rune_input m) us)) < v"
  using assms
proof (induction us arbitrary: req p input)
  case (Cons u us)
  have skip: ?case
    if "select_runes m (plain_lookup m) used us req p input s = (Inl InsufficientRuneBalanceError, s')"
      and z: "rune_input m u \<Longrightarrow> \<forall>r \<in> set used. utxo_balance m r u = 0"
  proof -
    from Cons.IH[OF that(1)] Cons.prems obtain r v where rv: "(r, v) \<in> set req"
        "sum_list (map (utxo_balance m r) (filter (rune_input m) us)) < v" by auto
    have "r \<in> set used" using rv(1) Cons.prems(4) by (force simp flip: Cons.prems(4))
    then show ?thesis using rv z by (intro bexI[of _ "(r, v)"]) auto
  qed
  show ?case
  proof (cases "no_witness_script u")
    case True
    then show ?thesis using skip Cons.prems(1) by (simp add: rune_input_def)
  next
    case nw: False
    then obtain out where out: "output_of m u = Inr out"
      using Cons.prems(1,2) by (cases "output_of m u") (auto simp: run_bnd others_raise_others_def)
    show ?thesis
    proof (cases "rune_input m u")
      case False
      then show ?thesis using skip Cons.prems(1) nw out
        by (auto simp: run_bnd rune_input_def carries_runes_def split: if_splits)
    next
      case usable: True
      then have u: "has_rune_balances out"
          "ut_address u = Some (change_address m) \<or> \<not> ut_confirmations u < om_min_non_change_confirmations m"
        using out by (auto simp: rune_input_def carries_runes_def)
      then obtain balances where b: "relevant_rune_balances (om_pyord m) out used = Inr balances"
        using Cons.prems(1,2) nw out
        by (cases "relevant_rune_balances (om_pyord m) out used") (auto simp: run_bnd others_raise_others_def)
      show ?thesis
      proof (cases "list_all (\<lambda>(rune, b). b = 0) balances")
        case True
        then show ?thesis using skip Cons.prems(1) nw out u b relevant_rune_balances_zero[OF b out True]
          by (auto simp: run_bnd split: if_splits)
      next
        case False
        then obtain q where q: "add_psbt_input m p u = Inr q"
          using Cons.prems(1,2) nw out u b
          by (cases "add_psbt_input m p u") (auto simp: run_bnd Let_def others_raise_others_def)
        define req' where "req' = subtract_balances balances req"
        have more: "\<not> list_all (\<lambda>(rune, v). v \<le> 0) req'"
          and rec: "select_runes m (plain_lookup m) used us req' q (input + ut_amount_satoshi u) s =
            (Inl InsufficientRuneBalanceError, s')"
          using Cons.prems(1) nw out u b False q by (auto simp: run_bnd Let_def req'_def split: if_splits)
        have keys: "map fst req' = used" by (simp add: req'_def Cons.prems(4))
        have pos: "\<exists>(r, v) \<in> set req'. 0 < v" using more by (force simp: list_all_iff not_le)
        from Cons.IH[OF rec _ Cons.prems(3) keys pos] Cons.prems(2) obtain r v where rv: "(r, v) \<in> set req'"
            "sum_list (map (utxo_balance m r) (filter (rune_input m) us)) < v" by auto
        have "distinct (map fst req)" using Cons.prems(3,4) by simp
        then obtain w where w: "(r, w) \<in> set req" "v = w - (if r \<in> set used then utxo_balance m r u else 0)"
          using subtract_balances_from[of r v "\<lambda>r. utxo_balance m r u" used req] rv(1) Cons.prems(3)
            relevant_rune_balances_Inr[OF b out] by (auto simp: req'_def)
        have "r \<in> set used" using w(1) Cons.prems(4) by (force simp flip: Cons.prems(4))
        then show ?thesis using rv(2) w usable by (intro bexI[of _ "(r, w)"]) auto
      qed
    qed
  qed
qed auto

lemma fund_fee_no_rune_error:
  assumes "fund_fee m (plain_lookup m) rate out test us p input s = (Inl e, s')"
    "\<forall>u \<in> set us. others_raise_others m u"
  shows "e \<noteq> InsufficientRuneBalanceError"
  using assms
proof (induction us arbitrary: test p input)
  case Nil
  then show ?case by (auto split: if_splits)
next
  case (Cons u us)
  then have o: "others_raise_others m u" by simp
  show ?case
  proof (cases "test \<and> is_funded input out (tx_fee m rate p)")
    case False
    show ?thesis
    proof (cases "output_of m u")
      case (Inl e')
      then show ?thesis using Cons.prems(1) False o by (auto simp: run_bnd others_raise_others_def)
    next
      case (Inr out')
      show ?thesis
      proof (cases "has_rune_balances out' \<or> no_witness_script u")
        case True
        then show ?thesis using Cons False Inr by (auto simp: run_bnd split: if_splits)
      next
        case no_skip: False
        show ?thesis
          using Cons.prems(1) False Inr no_skip o Cons.IH Cons.prems(2)
          by (cases "add_psbt_input m p u") (auto simp: run_bnd others_raise_others_def)
      qed
    qed
  qed (use Cons.prems in simp)
qed

text \<open>
  C30. The wallet gives up for lack of runes only when it has to: if no transaction is built because
  of \<open>InsufficientRuneBalanceError\<close>, then of some transferred rune all usable outputs of the
  wallet together hold less than the total of its transfers.
\<close>

theorem create_rune_psbt_insufficient_runes:
  assumes "create_rune_psbt m (plain_lookup m) transfers fee_rate max_num_inputs s =
      (Inl InsufficientRuneBalanceError, s')"
    and "list_utxos m = Inr utxos" "\<forall>u \<in> set utxos. others_raise_others m u"
    and "plan_transfers m 2 transfers ([], [], []) = Inr plan"
  shows "\<exists>t \<in> set transfers.
    sum_list (map (utxo_balance m (transfer_name m t)) (filter (rune_input m) utxos)) <
    transferred m transfers (transfer_name m t)"
proof -
  obtain es outs req where plan: "plan = (es, outs, req)" by (cases plan)
  from plan_transfers_outcome[OF assms(4)[unfolded plan]] have plan':
      "distinct (map fst req)"
      "\<And>name. name \<in> fst ` set req \<longleftrightarrow> name \<in> transfer_name m ` set transfers"
      "\<And>name. (case map_of req name of None \<Rightarrow> 0 | Some v \<Rightarrow> v) = transferred m transfers name"
    by simp_all
  let ?p = "\<lparr>ps_inputs = [], ps_outputs = initial_outputs m es outs, ps_signatures = []\<rparr>"
  have ne: "transfers \<noteq> []"
    using assms(1) by (cases "transfers = []") (simp_all add: create_rune_psbt_def run_sq run_demand)
  have pos: "list_all (\<lambda>(rune, v). v > 0) req"
    using assms(1) ne
    by (cases "list_all (\<lambda>(rune, v). v > 0) req")
       (simp_all add: create_rune_psbt_def run_sq run_bnd run_demand run_asserting assms(4) plan)
  obtain r u where sel: "select_runes m (plain_lookup m) (map fst req) utxos req ?p 0 s = (r, u)"
    by (cases "select_runes m (plain_lookup m) (map fst req) utxos req ?p 0 s")
  have r: "r = Inl InsufficientRuneBalanceError"
  proof (cases r)
    case (Inl e)
    then show ?thesis using assms(1,2) ne pos sel
      by (simp add: create_rune_psbt_def run_sq run_bnd run_demand run_asserting assms(4) plan)
  next
    case (Inr pi)
    obtain q input where q: "pi = (q, input)" by (cases pi)
    obtain f v where f: "fund_fee m (plain_lookup m) fee_rate (sum_list (map to_value (ps_outputs q))) True utxos q input u = (f, v)"
      by (cases "fund_fee m (plain_lookup m) fee_rate (sum_list (map to_value (ps_outputs q))) True utxos q input u")
    have "f = Inl InsufficientRuneBalanceError"
    proof (cases f)
      case (Inl e)
      then show ?thesis using assms(1,2) ne pos sel \<open>r = Inr pi\<close> q f
        by (simp add: create_rune_psbt_def run_sq run_bnd run_demand run_asserting assms(4) plan Let_def)
    next
      case (Inr qi)
      obtain q' input' where "qi = (q', input')" by (cases qi)
      then have "add_change m max_num_inputs (tx_fee m fee_rate q') q' input' (sum_list (map to_value (ps_outputs q))) =
          Inl InsufficientRuneBalanceError"
        using assms(1,2) ne pos sel \<open>r = Inr pi\<close> q f Inr
        by (simp add: create_rune_psbt_def run_sq run_bnd run_demand run_asserting assms(4) plan Let_def)
      then show ?thesis by (simp add: add_change_def Let_def split: if_split_asm)
    qed
    then show ?thesis using fund_fee_no_rune_error[of m fee_rate _ True utxos q input u] f assms(3) by blast
  qed
  have some: "\<exists>(r, v) \<in> set req. 0 < v"
  proof -
    obtain t where "t \<in> set transfers" using ne by (cases transfers) auto
    then have "transfer_name m t \<in> fst ` set req" using plan'(2) by blast
    then show ?thesis using pos by (force simp: list_all_iff)
  qed
  obtain name v where nv: "(name, v) \<in> set req"
      "sum_list (map (utxo_balance m name) (filter (rune_input m) utxos)) < v"
    using select_runes_insufficient[OF sel[unfolded r] assms(3) plan'(1) refl some] by auto
  have "v = transferred m transfers name"
    using plan'(3)[of name] map_of_is_SomeI[OF plan'(1) nv(1)] by simp
  moreover have "name \<in> transfer_name m ` set transfers" using plan'(2)[of name] nv(1) by force
  ultimately show ?thesis using nv(2) by auto
qed


text \<open>A transfer of 300 units, of which the example wallet only has 100.\<close>

definition example_large_transfer :: rune_transfer where
  "example_large_transfer = example_transfer\<lparr>tr_amount := 300\<rparr>"

lemma example_large_plan:
  "plan_transfers example_multisig 2 [example_large_transfer] ([], [], []) =
   Inr ([\<lparr>ed_id = (1, 1), ed_amount = 300, ed_output = 2\<rparr>],
        [\<lparr>to_value = 10000, to_script = [117, 115, 101, 114]\<rparr>], [([65], 300)])"
  by (simp add: example_large_transfer_def example_transfer_def example_multisig_def example_wallet_lib_def
      example_ord_pyord_def transfer_assert_valid_def get_receiver_script_pubkey_def get_rune_def ord_request_def
      http_ok_def example_outputs_ord_def add_required_def)

lemma example_select_large:
  "select_runes example_multisig (plain_lookup example_multisig) [[65]]
     [example_utxo ''aa'' 10000, example_utxo ''bb'' 100000000] [([65], 300)] p 0 s =
   (Inl InsufficientRuneBalanceError, s)"
proof -
  have fields: "\<not> no_witness_script (example_utxo ''aa'' 10000)" "\<not> no_witness_script (example_utxo ''bb'' 100000000)"
    "ut_address (example_utxo ''aa'' 10000) = Some (change_address example_multisig)"
    by (simp_all add: no_witness_script_def example_utxo_def change_address_def example_multisig_def)
  have balances: "relevant_rune_balances (om_pyord example_multisig) \<lparr>oo_txid = ''aa'', oo_vout = 0,
     oo_amount_satoshi = 10000, oo_rune_balances = [([65], 100)], oo_inscriptions = []\<rparr> [[65]] = Inr [([65], 100)]"
    by (simp add: relevant_rune_balances_def get_rune_balance_def output_rune_balance_def example_multisig_def
        example_ord_pyord_def get_normalized_rune_name_def rune_from_str_def remove_spacers_def is_spacer_def
        str_isalpha_def str_isupper_def)
  show ?thesis
    by (simp add: run_bnd fields example_lookup balances has_rune_balances_def example_add_input subtract_balances_def Let_def)
qed

lemma example_errors:
  "others_raise_others example_multisig (example_utxo ''aa'' 10000)"
  "others_raise_others example_multisig (example_utxo ''bb'' 100000000)"
proof -
  have "relevant_rune_balances (om_pyord example_multisig) out used \<noteq> Inl InsufficientRuneBalanceError" for out used
    by (induction used)
       (auto simp: relevant_rune_balances_def get_rune_balance_def get_normalized_rune_name_def rune_from_str_def
         remove_spacers_def rbind_def example_multisig_def example_ord_pyord_def Let_def split: sum.splits if_splits)
  then show "others_raise_others example_multisig (example_utxo ''aa'' 10000)"
    "others_raise_others example_multisig (example_utxo ''bb'' 100000000)"
    by (simp_all add: others_raise_others_def example_lookup example_add_input)
qed

theorem create_rune_psbt_insufficient_runes_witness:
  "\<exists>t \<in> set [example_large_transfer].
    sum_list (map (utxo_balance example_multisig (transfer_name example_multisig t))
      (filter (rune_input example_multisig) [example_utxo ''aa'' 10000, example_utxo ''bb'' 100000000])) <
    transferred example_multisig [example_large_transfer] (transfer_name example_multisig t)"
proof (rule create_rune_psbt_insufficient_runes[OF _ example_list_utxos _ example_large_plan])
  show "create_rune_psbt example_multisig (plain_lookup example_multisig) [example_large_transfer] 2 200 () =
      (Inl InsufficientRuneBalanceError, ())"
    by (simp add: create_rune_psbt_def example_large_plan example_list_utxos run_bnd run_sq run_demand run_asserting
        example_select_large Let_def del: select_runes.simps fund_fee.simps plan_transfers.simps)
qed (simp add: example_errors)

section \<open>Keys, descriptors and addresses\<close>

lemma all_results_all: "all_results f xs = Inr ys \<longleftrightarrow> list_all (\<lambda>x. \<exists>y. f x = Inr y) xs \<and> ys = map (\<lambda>x. projr (f x)) xs"
  by (induction xs arbitrary: ys) (auto simp: rbind_eq_Inr)

text \<open>
  C38. All nodes derive the same deposit addresses, whatever the order in which their configuration
  lists the master keys: the child keys are sorted before the script is built.
\<close>

theorem derive_address_order_independent:
  assumes "derive_address m index = Inr address" "mset keys = mset (om_master_xpubs m)"
  shows "derive_address (m\<lparr>om_master_xpubs := keys\<rparr>) index = Inr address"
proof -
  let ?f = "\<lambda>xpub. wl_child_pubkey (om_lib m) xpub (om_base_derivation_path m) index"
  have all: "list_all (\<lambda>x. \<exists>y. ?f x = Inr y) (om_master_xpubs m)"
    using assms(1) by (auto simp: derive_address_def derive_redeem_script_def rbind_eq_Inr all_results_all)
  then have all': "list_all (\<lambda>x. \<exists>y. ?f x = Inr y) keys"
    using mset_eq_setD[OF assms(2)] by (simp add: list_all_iff)
  have "sort (map (\<lambda>x. projr (?f x)) keys) = sort (map (\<lambda>x. projr (?f x)) (om_master_xpubs m))"
    by (rule properties_for_sort) (simp_all add: assms(2))
  moreover have "length keys = length (om_master_xpubs m)" by (rule mset_eq_length[OF assms(2)])
  ultimately show ?thesis
    using assms(1) all all' by (simp add: derive_address_def derive_redeem_script_def rbind_eq_Inr all_results_all)
qed

text \<open>
  The wallet check of a node accepts exactly the Bitcoin wallet with the federation's
  descriptor as its only one; and this descriptor carries a valid checksum.
\<close>

theorem multisig_check_iff:
  "multisig_check m = Inr () \<longleftrightarrow>
     (\<exists>d. wn_listdescriptors (om_node m) = Inr [d] \<and> get_descriptor m = Inr d \<and> descsum_check d True = Inr True)"
proof -
  have "descsum_check d True = Inr True" if "get_descriptor m = Inr d" for d
    using that created_checks by (auto simp: get_descriptor_def descriptor_of_keys_def Let_def)
  moreover have "(if length ds \<noteq> 1 then Inl ValueError else rbind r (\<lambda>e. if hd ds \<noteq> e then Inl ValueError else Inr ())) =
      Inr () \<longleftrightarrow> (\<exists>d. ds = [d] \<and> r = Inr d)" for ds :: "string list" and r
    by (cases ds; cases r) auto
  ultimately show ?thesis
    by (auto simp: multisig_check_def rbind_eq_Inr)
qed

theorem derive_address_order_independent_witness:
  "derive_address (example_multisig\<lparr>om_master_xpubs := [''y'', ''x'']\<rparr>) 7 = Inr (''bc1'' @ [char_of (81::nat)])"
proof -
  have "derive_address (example_multisig\<lparr>om_master_xpubs := [''x'', ''y'']\<rparr>) 7 = Inr (''bc1'' @ [char_of (81::nat)])"
    by (simp add: derive_address_def derive_redeem_script_def example_multisig_def example_wallet_lib_def
        example_btx_def encode_segwit_address_def)
  from derive_address_order_independent[OF this, of "[''y'', ''x'']"] show ?thesis by (simp add: add_mset_commute)
qed

end
