(* ===== verification/Fees.thy ===== *)
theory Fees
  imports Btc_Types Py_Float
begin

text \<open>
  Fee estimation, from \<^verbatim>\<open>bridge_node/bridge/common/btc/fees.py\<close>: mempool.space behind a cache with
  a time to live, the Bitcoin node's estimate (in bitcoins per kilobyte, computed in floats)
  as the fallback. The web service, the node and the clock are parameters.
\<close>

section \<open>mempool.space\<close>

record mempool_cache =
  mc_fee :: "int option"
  mc_time :: rat

text \<open>\<open>{"fastestFee": fee}\<close> with the status of the response; a fee may be missing.\<close>

record mempool_answer =
  ma_status_code :: int
  ma_fastest_fee :: "int option"

text \<open>
  One call: the clock is read before the test and after the fetch; \<open>fetch\<close> is the answer of
  the web service at this moment.
\<close>

record mempool_call =
  ml_now :: rat
  ml_after :: rat
  ml_fetch :: "exn + mempool_answer"

definition mempool_init :: "string \<Rightarrow> exn + mempool_cache" where
  "mempool_init network =
     (if \<not> is_bitcoin_network network then Inl ValueError else Inr \<lparr>mc_fee = None, mc_time = 0\<rparr>)"

definition mempool_fetch_fee :: "string \<Rightarrow> mempool_call \<Rightarrow> exn + int" where
  "mempool_fetch_fee network call =
     (if network = ''regtest'' then Inl ValueError
      else rbind (ml_fetch call) (\<lambda>resp.
           if ma_status_code resp \<ge> 400 then Inl (External ''HTTPError'')
           else (case ma_fastest_fee resp of None \<Rightarrow> Inl KeyError | Some fee \<Rightarrow> Inr fee)))"

definition mempool_fee_sats_per_vb :: "string \<Rightarrow> rat \<Rightarrow> mempool_call \<Rightarrow> (mempool_cache, int) prog" where
  "mempool_fee_sats_per_vb network cache_ttl call =
     bnd (reads (\<lambda>c. c)) (\<lambda>c.
     case mc_fee c of
       Some fee \<Rightarrow> if \<not> mc_time c + cache_ttl < ml_now call then ok fee
                    else bnd (lift_res (mempool_fetch_fee network call)) (\<lambda>fee.
                         sq (modify (\<lambda>c. c\<lparr>mc_fee := Some fee, mc_time := ml_after call\<rparr>)) (ok fee))
     | None \<Rightarrow> bnd (lift_res (mempool_fetch_fee network call)) (\<lambda>fee.
               sq (modify (\<lambda>c. c\<lparr>mc_fee := Some fee, mc_time := ml_after call\<rparr>)) (ok fee)))"

section \<open>The node's estimate\<close>

text \<open>\<open>feerate blocks\<close>: the field \<open>short.feerate\<close> of \<open>estimaterawfee blocks\<close>, if there is one.\<close>

definition truthy_rate :: "decimal option \<Rightarrow> decimal option" where
  "truthy_rate r = (case r of None \<Rightarrow> None | Some d \<Rightarrow> if coeff d = 0 then None else Some d)"

definition fee_btc_per_kb :: "string \<Rightarrow> (int \<Rightarrow> exn + decimal option) \<Rightarrow> exn + rat" where
  "fee_btc_per_kb network feerate =
     (if network = ''regtest'' then Inr (f_mul (f_div 10 100000000) 1000)
      else rbind (feerate 1) (\<lambda>response_1.
           case truthy_rate response_1 of Some d \<Rightarrow> Inr (round_double (dec_val d))
           | None \<Rightarrow> rbind (feerate 2) (\<lambda>response_2.
             case truthy_rate response_2 of Some d \<Rightarrow> Inr (round_double (dec_val d))
             | None \<Rightarrow> Inl ValueError)))"

definition rpc_fee_sats_per_vb :: "string \<Rightarrow> (int \<Rightarrow> exn + decimal option) \<Rightarrow> exn + int" where
  "rpc_fee_sats_per_vb network feerate =
     rbind (fee_btc_per_kb network feerate) (\<lambda>fee. Inr \<lceil>f_mul (f_div fee 1000) 100000000\<rceil>)"

section \<open>The estimator\<close>

text \<open>What the estimator asks at one moment.\<close>

record fee_sources =
  fs_mempool :: mempool_call
  fs_feerate :: "int \<Rightarrow> exn + decimal option"

definition get_fee_sats_per_vb :: "string \<Rightarrow> fee_sources \<Rightarrow> (mempool_cache, int) prog" where
  "get_fee_sats_per_vb network src =
     (let from_node = catch (lift_res (rpc_fee_sats_per_vb network (fs_feerate src))) (\<lambda>e. throw ValueError)
      in if network \<noteq> ''regtest''
         then catch (mempool_fee_sats_per_vb network 60 (fs_mempool src)) (\<lambda>e. from_node)
         else from_node)"

section \<open>What the estimates are worth\<close>

text \<open>The relative error of a double operation, and of three of them in a row.\<close>

lemma round_double_bounds_rel:
  assumes "0 \<le> q"
  shows "q * (1 - 1 / 2 ^ 53) \<le> round_double q" "round_double q \<le> q * (1 + 1 / 2 ^ 53)"
proof -
  have "\<bar>round_double q - q\<bar> \<le> q / 2 ^ 53" using round_double_error[of q] assms by simp
  then have "q - q / 2 ^ 53 \<le> round_double q" "round_double q \<le> q + q / 2 ^ 53"
    unfolding abs_le_iff by linarith+
  then show "q * (1 - 1 / 2 ^ 53) \<le> round_double q" "round_double q \<le> q * (1 + 1 / 2 ^ 53)"
    by (simp_all add: algebra_simps)
qed

lemma three_roundings:
  assumes v: "0 \<le> v" and a: "v * (1 - 1 / 2 ^ 53) \<le> a" "a \<le> v * (1 + 1 / 2 ^ 53)"
  shows "v * 100000 * (1 - 1 / 2 ^ 51) \<le> f_mul (f_div a 1000) 100000000"
    "f_mul (f_div a 1000) 100000000 \<le> v * 100000 * (1 + 1 / 2 ^ 51)"
proof -
  let ?lo = "1 - 1 / 2 ^ 53 :: rat" and ?hi = "1 + 1 / 2 ^ 53 :: rat"
  have a0: "0 \<le> a" using a(1) v by (intro order_trans[OF _ a(1)]) simp
  define b where "b = f_div a 1000"
  have b: "a / 1000 * ?lo \<le> b" "b \<le> a / 1000 * ?hi"
    using round_double_bounds_rel[of "a / 1000"] a0 by (simp_all add: b_def f_div_def)
  have b0: "0 \<le> b" using a0 by (intro order_trans[OF _ b(1)]) simp
  have c: "b * 100000000 * ?lo \<le> f_mul b 100000000" "f_mul b 100000000 \<le> b * 100000000 * ?hi"
    using round_double_bounds_rel[of "b * 100000000"] b0 by (simp_all add: f_mul_def)
  have "v * ?lo / 1000 * ?lo * 100000000 * ?lo \<le> a / 1000 * ?lo * 100000000 * ?lo"
    using a(1) by (simp add: field_simps)
  also have "\<dots> \<le> b * 100000000 * ?lo" using b(1) by (simp add: field_simps)
  also have "\<dots> \<le> f_mul b 100000000" by (rule c(1))
  finally have low: "v * 100000 * ?lo ^ 3 \<le> f_mul b 100000000" by (simp add: power3_eq_cube field_simps)
  have "f_mul b 100000000 \<le> b * 100000000 * ?hi" by (rule c(2))
  also have "\<dots> \<le> a / 1000 * ?hi * 100000000 * ?hi" using b(2) by (simp add: field_simps)
  also have "\<dots> \<le> v * ?hi / 1000 * ?hi * 100000000 * ?hi" using a(2) by (simp add: field_simps)
  finally have high: "f_mul b 100000000 \<le> v * 100000 * ?hi ^ 3" by (simp add: power3_eq_cube field_simps)
  have "1 - 1 / 2 ^ 51 \<le> ?lo ^ 3" "?hi ^ 3 \<le> 1 + 1 / 2 ^ 51" by (simp_all add: power3_eq_cube)
  then have "v * 100000 * (1 - 1 / 2 ^ 51) \<le> v * 100000 * ?lo ^ 3" "v * 100000 * ?hi ^ 3 \<le> v * 100000 * (1 + 1 / 2 ^ 51)"
    using v by (intro mult_left_mono; simp)+
  with low high show "v * 100000 * (1 - 1 / 2 ^ 51) \<le> f_mul (f_div a 1000) 100000000"
    "f_mul (f_div a 1000) 100000000 \<le> v * 100000 * (1 + 1 / 2 ^ 51)"
    unfolding b_def by linarith+
qed

text \<open>
  C40. The node's estimate, converted to satoshis per virtual byte, is the exact rate rounded up,
  but for the errors of the float operations: it is never below the exact rate of
  \<open>rate * 100000\<close> by more than its \<open>2 ^ -51\<close>-th part, nor above it by as much as that and one.
\<close>

theorem rpc_fee_sats_per_vb_bounds:
  assumes "network \<noteq> ''regtest''" "feerate 1 = Inr (Some d)" "0 < dec_val d"
  shows "\<exists>fee. rpc_fee_sats_per_vb network feerate = Inr fee \<and>
    dec_val d * 100000 * (1 - 1 / 2 ^ 51) \<le> of_int fee \<and>
    of_int fee < dec_val d * 100000 * (1 + 1 / 2 ^ 51) + 1"
proof -
  define a where "a = round_double (dec_val d)"
  have "coeff d \<noteq> 0" using assms(3) by (auto simp: dec_val_def)
  then have r: "rpc_fee_sats_per_vb network feerate = Inr \<lceil>f_mul (f_div a 1000) 100000000\<rceil>"
    using assms(1,2) by (simp add: rpc_fee_sats_per_vb_def fee_btc_per_kb_def truthy_rate_def a_def)
  note bounds = three_roundings[OF _ round_double_bounds_rel, of "dec_val d", folded a_def]
  define x where "x = f_mul (f_div a 1000) 100000000"
  have "x \<le> of_int \<lceil>x\<rceil>" "of_int \<lceil>x\<rceil> < x + 1" using ceiling_correct[of x] by linarith+
  moreover have "dec_val d * 100000 * (1 - 1 / 2 ^ 51) \<le> x" "x \<le> dec_val d * 100000 * (1 + 1 / 2 ^ 51)"
    using bounds assms(3) by (simp_all only: x_def less_imp_le)
  ultimately show ?thesis unfolding r x_def[symmetric] by (intro exI[of _ "\<lceil>x\<rceil>"] conjI refl; linarith)
qed

theorem rpc_fee_sats_per_vb_bounds_witness:
  "\<exists>fee. rpc_fee_sats_per_vb ''mainnet'' (\<lambda>n. Inr (Some (Dec 25 (-5)))) = Inr fee \<and>
    dec_val (Dec 25 (-5)) * 100000 * (1 - 1 / 2 ^ 51) \<le> of_int fee \<and>
    of_int fee < dec_val (Dec 25 (-5)) * 100000 * (1 + 1 / 2 ^ 51) + 1"
  by (rule rpc_fee_sats_per_vb_bounds) (simp_all add: dec_val_def)

text \<open>
  No stale fee is used, and no fee is made up: a fee that the estimator of mempool.space returns
  is the one its cache then holds, not older than the time to live; it is the cached one exactly
  if the cache was fresh, otherwise the one the service has just answered. When the service fails
  the cache is left as it was, and the estimator as a whole falls back on the node.
\<close>

theorem mempool_fee_fresh:
  assumes "mempool_fee_sats_per_vb network ttl call c = (r, c')" "ml_now call \<le> ml_after call" "0 \<le> ttl"
  shows "(case r of
      Inr fee \<Rightarrow> mc_fee c' = Some fee \<and> ml_now call \<le> mc_time c' + ttl \<and>
        (if mc_fee c \<noteq> None \<and> ml_now call \<le> mc_time c + ttl then c' = c
         else mempool_fetch_fee network call = Inr fee \<and> mc_time c' = ml_after call)
    | Inl e \<Rightarrow> c' = c \<and> mempool_fetch_fee network call = Inl e \<and>
        (network \<noteq> ''regtest'' \<longrightarrow> ttl = 60 \<longrightarrow> (\<forall>feerate.
           get_fee_sats_per_vb network \<lparr>fs_mempool = call, fs_feerate = feerate\<rparr> c =
           (case rpc_fee_sats_per_vb network feerate of Inl _ \<Rightarrow> (Inl ValueError, c) | Inr fee \<Rightarrow> (Inr fee, c)))))"
  using assms
  by (auto simp: mempool_fee_sats_per_vb_def get_fee_sats_per_vb_def run_bnd run_sq run_catch not_less
      split: option.splits if_splits sum.splits)

theorem mempool_fee_fresh_witness:
  "mempool_fetch_fee ''mainnet'' \<lparr>ml_now = 100, ml_after = 101,
      ml_fetch = Inr \<lparr>ma_status_code = 200, ma_fastest_fee = Some 7\<rparr>\<rparr> = Inr 7"
  using mempool_fee_fresh[of "''mainnet''" 60 "\<lparr>ml_now = 100, ml_after = 101,
      ml_fetch = Inr \<lparr>ma_status_code = 200, ma_fastest_fee = Some 7\<rparr>\<rparr>"
      "\<lparr>mc_fee = Some 5, mc_time = 30\<rparr>" "Inr 7" "\<lparr>mc_fee = Some 7, mc_time = 101\<rparr>"]
  by (simp add: mempool_fee_sats_per_vb_def mempool_fetch_fee_def run_bnd run_sq)

end
