(* ===== verification/Token_Deposits.thy ===== *)
theory Token_Deposits
  imports Deposit_Send Evm_Events Ord_Multisig
begin

text \<open>
  Transfers of Rune tokens back to Bitcoin, from \<^verbatim>\<open>bridge_node/bridge/bridges/runes/service.py\<close>:
  the scan for \<open>RuneTransferToBtc\<close> events, the answer of a node that is asked to sign the Bitcoin
  transaction of a transfer, and the leader's handling of an accepted deposit up to the broadcast.
  The fee estimate and the answers of the other nodes are parameters; the outputs of the wallet
  are looked up without the cache, which changes nothing. A raw transaction is recorded as
  an effect before the Bitcoin node answers.
\<close>

section \<open>Scanning for token deposits\<close>

record token_transfer_args =
  tv_rune :: int
  tv_token :: string
  tv_receiver_btc_address :: string
  tv_net_rune_amount :: int
  tv_transferred_token_amount :: int

definition store_token_deposit ::
  "rune_service \<Rightarrow> pyord \<Rightarrow> ord_server \<Rightarrow> token_transfer_args event \<Rightarrow> unit rune_prog" where
  "store_token_deposit sv py ord event =
     (if ev_name event \<noteq> ''RuneTransferToBtc'' then ok () else
      let n = tv_rune (ev_args event) in
      bnd (lift_res (bridge_id sv)) (\<lambda>bid.
      bnd (query_one_or_none db_runes (\<lambda>r. ru_bridge_id r = bid \<and> ru_n r = n)) (\<lambda>found.
      bnd (case found of
             Some rune \<Rightarrow> ok rune
           | None \<Rightarrow> bnd (lift_res (get_rune ord (py_name py n))) (\<lambda>rune_response.
               case rune_response of None \<Rightarrow> throw RuntimeError
               | Some response \<Rightarrow> let entry = rr_entry response in
                   insert_rune \<lparr>ru_id = 0, ru_bridge_id = bid, ru_n = n, ru_name = py_name py n,
                     ru_spaced_name = re_spaced_rune entry, ru_symbol = re_symbol entry,
                     ru_divisibility = re_divisibility entry, ru_turbo = re_turbo entry\<rparr>)) (\<lambda>rune.
      sq (insert_rune_token_deposit
           \<lparr>rt_id = 0, rt_bridge_id = bid, rt_evm_block_number = ev_block event,
            rt_evm_tx_hash = ev_tx_hash event, rt_evm_log_index = ev_log_index event,
            rt_receiver_btc_address = tv_receiver_btc_address (ev_args event),
            rt_transferred_token_amount = tv_transferred_token_amount (ev_args event),
            rt_net_rune_amount_raw = tv_net_rune_amount (ev_args event),
            rt_token_address = tv_token (ev_args event), rt_rune_id = ru_id rune,
            rt_btc_tx_id = None, rt_finalized_psbt = None, rt_status = rt_code RT_ACCEPTED\<rparr>)
         (notice sv ''New Rune Token deposit'' False)))))"

definition token_scanner :: "rune_service \<Rightarrow> scanner_config" where
  "token_scanner sv =
     \<lparr>sc_block_safety_margin = rc_evm_block_safety_margin (sv_config sv),
      sc_default_start_block = rc_evm_default_start_block (sv_config sv),
      sc_last_scanned_block_key = bridge_name sv @ '':evm:events:last-scanned-block''\<rparr>"

definition store_token_deposits ::
  "rune_service \<Rightarrow> pyord \<Rightarrow> ord_server \<Rightarrow> token_transfer_args event list \<Rightarrow> unit rune_prog" where
  "store_token_deposits sv py ord batch = for_each batch (store_token_deposit sv py ord)"

text \<open>
  The number of transfers that the callback counts is the number of rows it adds.
\<close>

definition scan_rune_token_deposits ::
  "rune_service \<Rightarrow> pyord \<Rightarrow> ord_server \<Rightarrow> token_transfer_args log_source \<Rightarrow> int \<Rightarrow> nat rune_prog" where
  "scan_rune_token_deposits sv py ord logs current_block = in_tx
     (bnd (db_get (\<lambda>db. length (db_rune_token_deposits db))) (\<lambda>before.
      sq (scan_new_events (token_scanner sv) db_kv (\<lambda>t db. db\<lparr>db_kv := t\<rparr>) [logs] current_block
            (store_token_deposits sv py ord))
     (bnd (db_get (\<lambda>db. length (db_rune_token_deposits db))) (\<lambda>after.
      ok (after - before)))))"

definition get_accepted_rune_token_deposit_ids :: "rune_service \<Rightarrow> int list rune_prog" where
  "get_accepted_rune_token_deposit_ids sv = in_tx
     (bnd (lift_res (bridge_id sv)) (\<lambda>bid.
      bnd (rows_where db_rune_token_deposits (\<lambda>d. rt_bridge_id d = bid \<and> rt_status d = rt_code RT_ACCEPTED)) (\<lambda>deposits.
      ok (map rt_id (sort_key rt_id deposits)))))"

section \<open>Answering the question to sign\<close>

text \<open>The checks of one transfer against the node's own database.\<close>

definition check_token_transfer :: "rune_service \<Rightarrow> pyord \<Rightarrow> rune_token_to_btc_transfer \<Rightarrow> unit rune_prog" where
  "check_token_transfer sv py transfer =
     bnd (lift_res (bridge_id sv)) (\<lambda>bid.
     bnd (query_one db_rune_token_deposits (\<lambda>d. rt_bridge_id d = bid \<and>
            rt_evm_tx_hash d = tb_event_tx_hash transfer \<and> rt_evm_log_index d = tb_event_log_index transfer)) (\<lambda>deposit.
     sq (demand (rt_status deposit = rt_code RT_ACCEPTED) ValidationError)
    (sq (demand (rt_receiver_btc_address deposit = tb_receiver_address transfer) ValidationError)
    (sq (demand (rt_net_rune_amount_raw deposit = tb_net_rune_amount transfer) ValidationError)
    (bnd (lift_res (rune_from_str py (tb_rune_name transfer))) (\<lambda>n.
     bnd (token_deposit_rune deposit) (\<lambda>rune.
     sq (demand (ru_n rune = n) ValidationError)
    (sq (demand (n = tb_rune_number transfer) ValidationError)
        (demand (rt_net_rune_amount_raw deposit = tb_net_rune_amount transfer) ValidationError)))))))))"

text \<open>The loop over the transfers; \<open>edict\<close> is always the first one of the runestone.\<close>

fun check_transfer_outputs ::
  "ord_multisig \<Rightarrow> ord_server \<Rightarrow> runestone \<Rightarrow> txout list \<Rightarrow> nat \<Rightarrow> rune_token_to_btc_transfer list \<Rightarrow> exn + unit" where
  "check_transfer_outputs m ord rs vout transfer_vout [] = Inr ()"
| "check_transfer_outputs m ord rs vout transfer_vout (transfer # transfers) =
     rbind (get_rune ord (tb_rune_name transfer)) (\<lambda>rune_response.
     case rune_response of None \<Rightarrow> Inl ValidationError | Some response \<Rightarrow>
     rbind (rl_rune_id_from_str (om_runes m) (rr_id response)) (\<lambda>rune_id.
     let edict = rs_edicts rs ! 0 in
     if ed_amount edict \<noteq> tb_net_rune_amount transfer then Inl ValidationError
     else if ed_id edict \<noteq> rune_id then Inl ValidationError
     else if ed_output edict \<noteq> transfer_vout then Inl ValidationError
     else if to_value (vout ! transfer_vout) \<noteq> TARGET_POSTAGE_SAT then Inl ValidationError
     else rbind (wl_parse_address (om_lib m) (tb_receiver_address transfer)) (\<lambda>expected.
          case expected of None \<Rightarrow> Inl AttributeError | Some script \<Rightarrow>
          if to_script (vout ! transfer_vout) \<noteq> script then Inl ValidationError
          else check_transfer_outputs m ord rs vout (transfer_vout + 1) transfers)))"

definition check_unsigned_tx ::
  "ord_multisig \<Rightarrow> ord_server \<Rightarrow> rune_token_to_btc_transfer list \<Rightarrow> psbt \<Rightarrow> exn + unit" where
  "check_unsigned_tx m ord transfers unsigned_psbt =
     (let vout = ps_outputs unsigned_psbt; num_transfers = length transfers in
      rbind (rl_decipher_hex (om_runes m) (wl_unsigned_tx_hex (om_lib m) unsigned_psbt)) (\<lambda>runestone.
      case runestone of None \<Rightarrow> Inl ValidationError | Some rs \<Rightarrow>
      if rs_is_cenotaph rs then Inl ValidationError
      else if length vout \<noteq> num_transfers + 2 \<and> length vout \<noteq> num_transfers + 3 then Inl ValidationError
      else if to_value (vout ! 0) \<noteq> 0 then Inl ValidationError
      else if to_script (vout ! 0) \<noteq> rl_encipher (om_runes m) rs then Inl ValidationError
      else if to_value (vout ! 1) \<noteq> TARGET_POSTAGE_SAT then Inl ValidationError
      else if to_script (vout ! 1) \<noteq> change_script_pubkey m then Inl ValidationError
      else if length vout = num_transfers + 3 \<and> to_script (last vout) \<noteq> change_script_pubkey m
           then Inl ValidationError
      else if length (rs_edicts rs) \<noteq> num_transfers then Inl ValidationError
      else check_transfer_outputs m ord rs vout 2 transfers))"

definition min_fee_rate_sat_per_vbyte :: "rune_service \<Rightarrow> int" where
  "min_fee_rate_sat_per_vbyte sv = (if rc_btc_network (sv_config sv) = ''mainnet'' then 15 else 1)"

definition check_fee_rate :: "rune_service \<Rightarrow> int \<Rightarrow> int \<Rightarrow> exn + unit" where
  "check_fee_rate sv expected_fee_rate fee_rate =
     (let min_fee_rate = min_fee_rate_sat_per_vbyte sv;
          fee_rate_min = max (expected_fee_rate div 3) min_fee_rate;
          fee_rate_max = max expected_fee_rate min_fee_rate * 3
      in if fee_rate_min > fee_rate \<or> fee_rate_max < fee_rate then Inl ValidationError else Inr ())"

definition fee_margin :: rat where
  "fee_margin = round_double (11/10)"

definition check_fee :: "ord_multisig \<Rightarrow> psbt \<Rightarrow> int \<Rightarrow> exn + unit" where
  "check_fee m unsigned_psbt fee_rate =
     (let calculated_fee = estimate_psbt_size_vb m unsigned_psbt * fee_rate;
          actual_fee = wl_get_fee (om_lib m) unsigned_psbt
      in if of_int actual_fee \<ge> f_mul (f_of_int calculated_fee) fee_margin then Inl ValidationError
         else if of_int actual_fee < f_div (f_of_int calculated_fee) fee_margin then Inl ValidationError
         else Inr ())"

text \<open>
  The answer; \<open>transfers\<close> is \<open>[message.transfer]\<close> in the messages of today. \<open>fee_estimate\<close> is
  \<open>_btc_fee_estimator.get_fee_sats_per_vb()\<close>.
\<close>

definition answer_token_transfers ::
  "rune_service \<Rightarrow> pyord \<Rightarrow> ord_server \<Rightarrow> ord_multisig \<Rightarrow> exn + int \<Rightarrow> rune_token_to_btc_transfer list \<Rightarrow>
   string \<Rightarrow> int \<Rightarrow> sign_rune_token_to_btc_transfer_answer rune_prog" where
  "answer_token_transfers sv py ord m fee_estimate transfers serialized fee_rate =
     sq (demand (distinct (map (\<lambda>t. (tb_event_tx_hash t, tb_event_log_index t)) transfers)) ValidationError)
    (sq (in_tx (for_each transfers (check_token_transfer sv py)))
    (bnd (lift_res (wl_from_base64 (om_lib m) serialized)) (\<lambda>unsigned_psbt.
     sq (lift_res (check_unsigned_tx m ord transfers unsigned_psbt))
    (bnd (lift_res fee_estimate) (\<lambda>expected_fee_rate.
     sq (lift_res (check_fee_rate sv expected_fee_rate fee_rate))
    (sq (lift_res (check_fee m unsigned_psbt fee_rate))
    (bnd (lift_res (sign_psbt m unsigned_psbt False)) (\<lambda>signed_psbt.
     ok \<lparr>ta_signed_psbt_serialized = wl_to_base64 (om_lib m) signed_psbt,
         ta_signer_xpub = om_signer_xpub m\<rparr>))))))))"

definition answer_sign_rune_token_to_btc_transfer_question ::
  "rune_service \<Rightarrow> pyord \<Rightarrow> ord_server \<Rightarrow> ord_multisig \<Rightarrow> exn + int \<Rightarrow> sign_rune_token_to_btc_transfer_question \<Rightarrow>
   sign_rune_token_to_btc_transfer_answer rune_prog" where
  "answer_sign_rune_token_to_btc_transfer_question sv py ord m fee_estimate message =
     answer_token_transfers sv py ord m fee_estimate [tq_transfer message]
       (tq_unsigned_psbt_serialized message) (tq_fee_rate_sats_per_vb message)"

section \<open>Handling an accepted deposit\<close>

definition get_token_deposit :: "int \<Rightarrow> rune_token_deposit rune_prog" where
  "get_token_deposit i = related db_rune_token_deposits (\<lambda>d. rt_id d = i)"

definition accepted_token_transfer :: "rune_service \<Rightarrow> int \<Rightarrow> rune_token_to_btc_transfer rune_prog" where
  "accepted_token_transfer sv deposit_id = in_tx
     (bnd (lift_res (bridge_id sv)) (\<lambda>bid.
      bnd (query_one db_rune_token_deposits (\<lambda>d. rt_bridge_id d = bid \<and> rt_id d = deposit_id)) (\<lambda>deposit.
      sq (demand (rt_status deposit = rt_code RT_ACCEPTED) ValidationError)
     (sq (demand (rt_net_rune_amount_raw deposit \<noteq> 0) ValidationError)
     (bnd (token_deposit_rune deposit) (\<lambda>rune.
      ok \<lparr>tb_receiver_address = rt_receiver_btc_address deposit,
          tb_net_rune_amount = rt_net_rune_amount_raw deposit,
          tb_token_address = rt_token_address deposit, tb_rune_name = ru_name rune,
          tb_rune_number = ru_n rune, tb_event_tx_hash = rt_evm_tx_hash deposit,
          tb_event_log_index = rt_evm_log_index deposit\<rparr>))))))"

definition adjusted_fee_rate :: "rune_service \<Rightarrow> int \<Rightarrow> exn + int" where
  "adjusted_fee_rate sv fee_rate =
     (if fee_rate > rc_btc_max_fee_rate_sats_per_vbyte (sv_config sv) then Inl RuntimeError
      else Inr (max (f_int (f_mul (round_double (11/10)) (f_of_int fee_rate))) (min_fee_rate_sat_per_vbyte sv)))"

definition set_token_deposit :: "int \<Rightarrow> (rune_token_deposit \<Rightarrow> rune_token_deposit) \<Rightarrow> unit rune_prog" where
  "set_token_deposit deposit_id f = update_rune_token_deposit deposit_id f"

text \<open>The call \<open>sendrawtransaction\<close>; \<open>node_send\<close> is the answer of the node.\<close>

definition send_raw_transaction :: "(string \<Rightarrow> exn + string) \<Rightarrow> string \<Rightarrow> string rune_prog" where
  "send_raw_transaction node_send tx_hex =
     sq (emit (SendRawTransaction tx_hex)) (lift_res (node_send tx_hex))"

text \<open>From the signed transaction on: mark the deposit, broadcast, record the outcome.\<close>

definition broadcast_token_deposit ::
  "rune_service \<Rightarrow> ord_multisig \<Rightarrow> (string \<Rightarrow> exn + string) \<Rightarrow> int \<Rightarrow> psbt \<Rightarrow> unit rune_prog" where
  "broadcast_token_deposit sv m node_send deposit_id finalized_psbt =
     sq (in_tx (bnd (get_token_deposit deposit_id) (\<lambda>deposit.
           sq (asserting (rt_status deposit = rt_code RT_ACCEPTED))
              (set_token_deposit deposit_id (\<lambda>d. d\<lparr>rt_status := rt_code SENDING_TO_BTC,
                 rt_finalized_psbt := Some (wl_to_base64 (om_lib m) finalized_psbt)\<rparr>)))))
    (bnd (catch (broadcast_psbt m (send_raw_transaction node_send) finalized_psbt)
           (\<lambda>e. sq (in_tx (bnd (get_token_deposit deposit_id) (\<lambda>deposit.
                    sq (set_token_deposit deposit_id (\<lambda>d. d\<lparr>rt_status := rt_code SENDING_TO_BTC_FAILED\<rparr>))
                       (notice sv ''Broadcasting Rune PSBT to Bitcoin failed!'' True))))
                  (throw e))) (\<lambda>txid.
     sq (notice sv ''Rune PSBT broadcast to Bitcoin'' False)
        (in_tx (bnd (get_token_deposit deposit_id) (\<lambda>deposit.
           sq (asserting (rt_status deposit = rt_code SENDING_TO_BTC))
              (set_token_deposit deposit_id (\<lambda>d. d\<lparr>rt_status := rt_code SENT_TO_BTC, rt_btc_tx_id := Some txid\<rparr>)))))))"

text \<open>
  Up to the signed transaction: none if there are not enough signatures. \<open>fee_estimate\<close> and
  \<open>fee_estimate'\<close> are the answers of the estimator to the leader and to its own answering part.
\<close>

definition sign_token_deposit ::
  "rune_service \<Rightarrow> pyord \<Rightarrow> ord_server \<Rightarrow> ord_multisig \<Rightarrow> exn + int \<Rightarrow> exn + int \<Rightarrow>
   (sign_rune_token_to_btc_transfer_question \<Rightarrow> exn + sign_rune_token_to_btc_transfer_answer list) \<Rightarrow> int \<Rightarrow>
   psbt option rune_prog" where
  "sign_token_deposit sv py ord m fee_estimate fee_estimate' ask_signatures deposit_id =
     bnd (accepted_token_transfer sv deposit_id) (\<lambda>transfer.
     bnd (lift_res fee_estimate) (\<lambda>fee_rate.
     bnd (lift_res (adjusted_fee_rate sv fee_rate)) (\<lambda>fee_rate_sats_per_vb.
     let num_required_signatures = om_num_required_signers m in
     bnd (lift_res (make_rune_transfer py (RuneInt (tb_rune_number transfer)) (tb_receiver_address transfer)
            (tb_net_rune_amount transfer) TARGET_POSTAGE_SAT)) (\<lambda>rune_transfer.
     bnd (create_rune_psbt m (plain_lookup m) [rune_transfer] fee_rate_sats_per_vb 200) (\<lambda>unsigned_psbt.
     let message = \<lparr>tq_transfer = transfer,
                    tq_unsigned_psbt_serialized = wl_to_base64 (om_lib m) unsigned_psbt,
                    tq_fee_rate_sats_per_vb = fee_rate_sats_per_vb\<rparr> in
     bnd (answer_sign_rune_token_to_btc_transfer_question sv py ord m fee_estimate' message) (\<lambda>self_response.
     bnd (lift_res (wl_from_base64 (om_lib m) (ta_signed_psbt_serialized self_response))) (\<lambda>self_signed_psbt.
     sq (emit (AskSignToBtc message))
    (bnd (lift_res (ask_signatures message)) (\<lambda>responses.
     bnd (lift_res (all_results (\<lambda>r. wl_from_base64 (om_lib m) (ta_signed_psbt_serialized r)) responses)) (\<lambda>others.
     let signed_psbts = take num_required_signatures (self_signed_psbt # others) in
     if length signed_psbts < num_required_signatures then ok None
     else bnd (lift_res (combine_and_finalize_psbt m unsigned_psbt signed_psbts)) (\<lambda>finalized_psbt.
          ok (Some finalized_psbt))))))))))))"

definition handle_accepted_rune_token_deposit ::
  "rune_service \<Rightarrow> pyord \<Rightarrow> ord_server \<Rightarrow> ord_multisig \<Rightarrow> exn + int \<Rightarrow> exn + int \<Rightarrow> (string \<Rightarrow> exn + string) \<Rightarrow>
   (sign_rune_token_to_btc_transfer_question \<Rightarrow> exn + sign_rune_token_to_btc_transfer_answer list) \<Rightarrow> int \<Rightarrow>
   unit rune_prog" where
  "handle_accepted_rune_token_deposit sv py ord m fee_estimate fee_estimate' node_send ask_signatures deposit_id =
     bnd (sign_token_deposit sv py ord m fee_estimate fee_estimate' ask_signatures deposit_id) (\<lambda>signed.
     case signed of None \<Rightarrow> ok ()
     | Some finalized_psbt \<Rightarrow> broadcast_token_deposit sv m node_send deposit_id finalized_psbt)"

section \<open>What the operations leave alone\<close>

text \<open>The raw transactions given to the Bitcoin node, newest first.\<close>

fun raw_sends :: "rune_effect list \<Rightarrow> string list" where
  "raw_sends [] = []"
| "raw_sends (SendRawTransaction h # es) = h # raw_sends es"
| "raw_sends (_ # es) = raw_sends es"

text \<open>
  Three views of the world: the Rune deposits with the calls to the contract, the token deposits
  with the raw transactions, and the whole database with both.
\<close>

definition deposits_view :: "rune_deposit list \<times> accept_transfer_call list \<Rightarrow> rune_world \<Rightarrow> bool" where
  "deposits_view v w \<longleftrightarrow> v = (db_rune_deposits (w_db w), transacts (w_effects w))"

definition tokens_view :: "rune_token_deposit list \<times> string list \<Rightarrow> rune_world \<Rightarrow> bool" where
  "tokens_view v w \<longleftrightarrow> v = (db_rune_token_deposits (w_db w), raw_sends (w_effects w))"

definition db_view :: "rune_db \<times> accept_transfer_call list \<times> string list \<Rightarrow> rune_world \<Rightarrow> bool" where
  "db_view v w \<longleftrightarrow> v = (w_db w, transacts (w_effects w), raw_sends (w_effects w))"

lemma view_in_tx:
  "keeps (deposits_view v) m \<Longrightarrow> keeps (deposits_view v) (in_tx m)"
  "keeps (tokens_view t) m \<Longrightarrow> keeps (tokens_view t) (in_tx m)"
  "keeps (db_view d) m \<Longrightarrow> keeps (db_view d) (in_tx m)"
  by (rule keeps_in_tx; auto simp: deposits_view_def tokens_view_def db_view_def)+

lemma view_notice:
  "keeps (deposits_view v) (notice sv title alert)" "keeps (tokens_view t) (notice sv title alert)"
  "keeps (db_view d) (notice sv title alert)"
  "keeps (deposits_view v) (emit (AskSignToBtc q))" "keeps (tokens_view t) (emit (AskSignToBtc q))"
  "keeps (db_view d) (emit (AskSignToBtc q))"
  "keeps (deposits_view v) (emit (AskSignToEvm q'))" "keeps (tokens_view t) (emit (AskSignToEvm q'))"
  "keeps (db_view d) (emit (AskSignToEvm q'))"
  "keeps (deposits_view v) (emit (SendRawTransaction h))" "keeps (tokens_view t) (emit (Transact c))"
  by (auto simp: keeps_def notice_def deposits_view_def tokens_view_def db_view_def)

lemma view_kv_set:
  "keeps (deposits_view v) (rune_kv_set k x)" "keeps (tokens_view t) (rune_kv_set k x)"
  by (auto simp: keeps_def run_rune_kv_set deposits_view_def tokens_view_def)

lemma view_inserts:
  "keeps (deposits_view v) (insert_bridge name)" "keeps (tokens_view t) (insert_bridge name)"
  "keeps (deposits_view v) (insert_user b a)" "keeps (tokens_view t) (insert_user b a)"
  "keeps (deposits_view v) (insert_deposit_address u addr)" "keeps (tokens_view t) (insert_deposit_address u addr)"
  "keeps (deposits_view v) (insert_incoming_btc_tx tx)" "keeps (tokens_view t) (insert_incoming_btc_tx tx)"
  "keeps (deposits_view v) (insert_rune r)" "keeps (tokens_view t) (insert_rune r)"
  "keeps (tokens_view t) (insert_rune_deposit d)" "keeps (deposits_view v) (insert_rune_token_deposit td)"
  by (auto simp: keeps_def deposits_view_def tokens_view_def insert_bridge_def insert_user_def
      insert_deposit_address_def insert_incoming_btc_tx_def insert_rune_def insert_rune_deposit_def
      insert_rune_token_deposit_def run_bnd run_sq run_demand run_insert_row)

lemma view_updates:
  "keeps (deposits_view v) (update_incoming_btc_tx i f)" "keeps (tokens_view t) (update_incoming_btc_tx i f)"
  "keeps (tokens_view t) (update_rune_deposit i g)" "keeps (deposits_view v) (update_rune_token_deposit i h)"
  by (auto simp: keeps_def deposits_view_def tokens_view_def update_incoming_btc_tx_def update_rune_deposit_def
      update_rune_token_deposit_def)

lemmas view_intros = keeps_intros view_in_tx view_notice view_kv_set view_inserts view_updates

text \<open>Building a transaction reads ord and the node only.\<close>

lemma keeps_select_runes [keeps_intros]: "keeps I (select_runes m (plain_lookup m) used us req p inp)"
  by (induction us arbitrary: req p inp)
     (auto simp: Let_def plain_lookup_def intro!: keeps_intros)

lemma keeps_fund_fee [keeps_intros]: "keeps I (fund_fee m (plain_lookup m) rate out test us p inp)"
  by (induction us arbitrary: test p inp)
     (auto simp: Let_def plain_lookup_def intro!: keeps_intros)

lemma keeps_create_rune_psbt [keeps_intros]: "keeps I (create_rune_psbt m (plain_lookup m) transfers rate n)"
  unfolding create_rune_psbt_def Let_def
  by (intro keeps_intros keeps_select_runes keeps_fund_fee)

lemma check_token_transfer_keeps: "keeps I (check_token_transfer sv py t)"
  unfolding check_token_transfer_def by (intro keeps_intros)

lemma answer_view: "keeps (db_view v) (answer_token_transfers sv py ord m fee transfers s rate)"
  unfolding answer_token_transfers_def
  by (intro view_intros check_token_transfer_keeps)

lemma sign_view: "keeps (db_view v) (sign_token_deposit sv py ord m fee fee' ask i)"
  unfolding sign_token_deposit_def answer_sign_rune_token_to_btc_transfer_question_def
    accepted_token_transfer_def Let_def
  by (intro view_intros keeps_create_rune_psbt answer_view)


text \<open>Keys and constraints survive.\<close>

lemma keeps_tables_create: "keeps_tables (create_rune_psbt m (plain_lookup m) transfers rate n)"
  by (rule keeps_tablesI) (rule keeps_create_rune_psbt)

lemma keeps_tables_check: "keeps_tables (check_token_transfer sv py t)"
  by (rule keeps_tablesI) (rule check_token_transfer_keeps)

lemma keeps_tables_answer: "keeps_tables (answer_token_transfers sv py ord m fee transfers s rate)"
  unfolding answer_token_transfers_def
  by (intro keeps_tables_intros keeps_tables_check)

lemma keeps_tables_sign: "keeps_tables (sign_token_deposit sv py ord m fee fee' ask i)"
  unfolding sign_token_deposit_def answer_sign_rune_token_to_btc_transfer_question_def
    accepted_token_transfer_def Let_def
  by (intro keeps_tables_intros keeps_tables_create keeps_tables_answer)

section \<open>What a node signs\<close>

text \<open>The node's record of the event that a transfer refers to.\<close>

definition recorded_transfer :: "rune_service \<Rightarrow> pyord \<Rightarrow> rune_db \<Rightarrow> rune_token_to_btc_transfer \<Rightarrow> bool" where
  "recorded_transfer sv py db t \<longleftrightarrow>
     (\<exists>d \<in> set (db_rune_token_deposits db). bridge_id sv = Inr (rt_bridge_id d) \<and>
        rt_evm_tx_hash d = tb_event_tx_hash t \<and> rt_evm_log_index d = tb_event_log_index t \<and>
        rt_status d = rt_code RT_ACCEPTED \<and>
        rt_receiver_btc_address d = tb_receiver_address t \<and> rt_net_rune_amount_raw d = tb_net_rune_amount t \<and>
        rune_from_str py (tb_rune_name t) = Inr (tb_rune_number t) \<and>
        (\<exists>r \<in> set (db_runes db). ru_id r = rt_rune_id d \<and> ru_n r = tb_rune_number t))"

lemma check_token_transfer_Inr:
  assumes "check_token_transfer sv py t w = (Inr u, w')"
  shows "w' = w \<and> recorded_transfer sv py (w_db w) t"
proof -
  obtain bid where b: "bridge_id sv = Inr bid"
    using assms by (cases "bridge_id sv") (simp_all add: check_token_transfer_def run_bnd)
  let ?p = "\<lambda>d. rt_bridge_id d = bid \<and> rt_evm_tx_hash d = tb_event_tx_hash t \<and> rt_evm_log_index d = tb_event_log_index t"
  obtain d where d: "filter ?p (db_rune_token_deposits (w_db w)) = [d]"
    using assms b
    by (cases "exactly_one (filter ?p (db_rune_token_deposits (w_db w)))")
       (simp_all add: check_token_transfer_def run_bnd run_query_one exactly_one_Inr)
  note mem = filter_singletonD[OF d]
  have rest: "sq (demand (rt_status d = rt_code RT_ACCEPTED) ValidationError)
      (sq (demand (rt_receiver_btc_address d = tb_receiver_address t) ValidationError)
      (sq (demand (rt_net_rune_amount_raw d = tb_net_rune_amount t) ValidationError)
      (bnd (lift_res (rune_from_str py (tb_rune_name t))) (\<lambda>n.
       bnd (token_deposit_rune d) (\<lambda>rune.
       sq (demand (ru_n rune = n) ValidationError)
      (sq (demand (n = tb_rune_number t) ValidationError)
          (demand (rt_net_rune_amount_raw d = tb_net_rune_amount t) ValidationError))))))) w = (Inr u, w')"
    using assms b d by (simp add: check_token_transfer_def run_bnd run_query_one)
  then obtain n rune where n: "rune_from_str py (tb_rune_name t) = Inr n" "n = tb_rune_number t" "ru_n rune = n"
    and d': "rt_status d = rt_code RT_ACCEPTED" "rt_receiver_btc_address d = tb_receiver_address t"
      "rt_net_rune_amount_raw d = tb_net_rune_amount t"
    and rune: "token_deposit_rune d w = (Inr rune, w')"
    by (auto simp: ran_ok token_deposit_rune_def related_eq_Inr)
  have "w' = w" "rune \<in> set (db_runes (w_db w)) \<and> ru_id rune = rt_rune_id d"
    using rune by (auto simp: token_deposit_rune_def related_eq_Inr dest!: first_row_SomeD)
  then show ?thesis using b mem d' n unfolding recorded_transfer_def by blast
qed

text \<open>
  The transaction of a transfer: the runestone at output 0 with the transfer's edict alone, runes
  without an edict and the last output going back to the wallet, output 2 to the receiver.
\<close>

definition pays_transfer :: "ord_multisig \<Rightarrow> ord_server \<Rightarrow> rune_token_to_btc_transfer \<Rightarrow> psbt \<Rightarrow> bool" where
  "pays_transfer m ord t p \<longleftrightarrow>
     (\<exists>rs response rune_id script change.
        rl_decipher_hex (om_runes m) (wl_unsigned_tx_hex (om_lib m) p) = Inr (Some rs) \<and> \<not> rs_is_cenotaph rs \<and>
        get_rune ord (tb_rune_name t) = Inr (Some response) \<and>
        rl_rune_id_from_str (om_runes m) (rr_id response) = Inr rune_id \<and>
        rs_edicts rs = [\<lparr>ed_id = rune_id, ed_amount = tb_net_rune_amount t, ed_output = 2\<rparr>] \<and>
        wl_parse_address (om_lib m) (tb_receiver_address t) = Inr (Some script) \<and>
        ps_outputs p =
          [\<lparr>to_value = 0, to_script = rl_encipher (om_runes m) rs\<rparr>,
           \<lparr>to_value = TARGET_POSTAGE_SAT, to_script = change_script_pubkey m\<rparr>,
           \<lparr>to_value = TARGET_POSTAGE_SAT, to_script = script\<rparr>] @ change \<and>
        (change = [] \<or> (\<exists>v. change = [\<lparr>to_value = v, to_script = change_script_pubkey m\<rparr>])))"

lemma edict_eq: "e = \<lparr>ed_id = ed_id e, ed_amount = ed_amount e, ed_output = ed_output e\<rparr>"
  by simp

lemma txout_eq: "out = \<lparr>to_value = to_value out, to_script = to_script out\<rparr>"
  by simp

lemma check_unsigned_tx_Inr:
  assumes "check_unsigned_tx m ord [t] p = Inr ()"
  shows "pays_transfer m ord t p"
proof -
  obtain rs where rs: "rl_decipher_hex (om_runes m) (wl_unsigned_tx_hex (om_lib m) p) = Inr (Some rs)"
    using assms by (auto simp: check_unsigned_tx_def Let_def rbind_eq_Inr split: option.splits)
  let ?v = "ps_outputs p"
  have c: "\<not> rs_is_cenotaph rs" "length ?v = 3 \<or> length ?v = 4" "to_value (?v ! 0) = 0"
      "to_script (?v ! 0) = rl_encipher (om_runes m) rs" "to_value (?v ! 1) = TARGET_POSTAGE_SAT"
      "to_script (?v ! 1) = change_script_pubkey m"
      "length ?v = 4 \<Longrightarrow> to_script (last ?v) = change_script_pubkey m" "length (rs_edicts rs) = 1"
    and o: "check_transfer_outputs m ord rs ?v 2 [t] = Inr ()"
    using assms rs by (auto simp: check_unsigned_tx_def Let_def split: if_splits)
  from o obtain response rune_id script where r: "get_rune ord (tb_rune_name t) = Inr (Some response)"
      "rl_rune_id_from_str (om_runes m) (rr_id response) = Inr rune_id"
      "ed_amount (rs_edicts rs ! 0) = tb_net_rune_amount t" "ed_id (rs_edicts rs ! 0) = rune_id"
      "ed_output (rs_edicts rs ! 0) = 2" "to_value (?v ! 2) = TARGET_POSTAGE_SAT"
      "wl_parse_address (om_lib m) (tb_receiver_address t) = Inr (Some script)" "to_script (?v ! 2) = script"
    by (auto simp: rbind_eq_Inr Let_def split: option.splits if_splits)
  obtain e where e: "rs_edicts rs = [e]" using c(8) by (cases "rs_edicts rs") auto
  have edicts: "rs_edicts rs = [\<lparr>ed_id = rune_id, ed_amount = tb_net_rune_amount t, ed_output = 2\<rparr>]"
    using r(3-5) e edict_eq[of e] by simp
  obtain a b d rest where v: "?v = a # b # d # rest" "rest = [] \<or> (\<exists>x. rest = [x])"
    using c(2) by (auto simp: numeral_eq_Suc length_Suc_conv)
  have outs: "a = \<lparr>to_value = 0, to_script = rl_encipher (om_runes m) rs\<rparr>"
      "b = \<lparr>to_value = TARGET_POSTAGE_SAT, to_script = change_script_pubkey m\<rparr>"
      "d = \<lparr>to_value = TARGET_POSTAGE_SAT, to_script = script\<rparr>"
    using c(3-6) r(6,8) v(1) txout_eq[of a] txout_eq[of b] txout_eq[of d] by simp_all
  have "rest = [] \<or> (\<exists>x. rest = [\<lparr>to_value = x, to_script = change_script_pubkey m\<rparr>])"
  proof (cases "rest = []")
    case False
    then obtain x where x: "rest = [x]" using v(2) by blast
    then have "to_script x = change_script_pubkey m" using c(7) v(1) by simp
    then show ?thesis using x txout_eq[of x] by metis
  qed simp
  then show ?thesis
    using rs c(1) r(1,2,7) edicts v(1) outs unfolding pays_transfer_def
    by (intro exI[of _ rs] exI[of _ response] exI[of _ rune_id] exI[of _ script] exI[of _ rest]) simp
qed

text \<open>
  C8. What a node signs for a transfer to Bitcoin: it has itself recorded the event as an accepted
  deposit, with the same receiver, amount and rune; the transaction pays exactly this transfer,
  everything else that is paid out goes back to the wallet; the fee rate is at most three times
  the node's own estimate or the minimum, and the fee below 1.1 times what this rate makes; and
  the answer is the node's signature of this transaction. Answering leaves the node's state alone.
\<close>

theorem answer_token_transfer_sound:
  assumes "answer_sign_rune_token_to_btc_transfer_question sv py ord m fee_estimate message w = (Inr answer, w')"
  shows "w' = w \<and> recorded_transfer sv py (w_db w) (tq_transfer message) \<and>
    (\<exists>p signed estimate. wl_from_base64 (om_lib m) (tq_unsigned_psbt_serialized message) = Inr p \<and>
       pays_transfer m ord (tq_transfer message) p \<and>
       fee_estimate = Inr estimate \<and>
       tq_fee_rate_sats_per_vb message \<le> 3 * max estimate (min_fee_rate_sat_per_vbyte sv) \<and>
       min_fee_rate_sat_per_vbyte sv \<le> tq_fee_rate_sats_per_vb message \<and>
       of_int (wl_get_fee (om_lib m) p) <
         f_mul (f_of_int (estimate_psbt_size_vb m p * tq_fee_rate_sats_per_vb message)) fee_margin \<and>
       sign_psbt m p False = Inr signed \<and>
       answer = \<lparr>ta_signed_psbt_serialized = wl_to_base64 (om_lib m) signed, ta_signer_xpub = om_signer_xpub m\<rparr>)"
proof -
  let ?t = "tq_transfer message"
  from assms obtain p signed estimate u where
      check: "in_tx (for_each [?t] (check_token_transfer sv py)) w = (Inr (), u)"
    and p: "wl_from_base64 (om_lib m) (tq_unsigned_psbt_serialized message) = Inr p"
      "check_unsigned_tx m ord [?t] p = Inr ()" "fee_estimate = Inr estimate"
      "check_fee_rate sv estimate (tq_fee_rate_sats_per_vb message) = Inr ()"
      "check_fee m p (tq_fee_rate_sats_per_vb message) = Inr ()" "sign_psbt m p False = Inr signed"
      "answer = \<lparr>ta_signed_psbt_serialized = wl_to_base64 (om_lib m) signed, ta_signer_xpub = om_signer_xpub m\<rparr>"
    and w': "w' = u"
    unfolding answer_sign_rune_token_to_btc_transfer_question_def answer_token_transfers_def
    by (auto simp: ran_ok simp del: for_each.simps)
  have "check_token_transfer sv py ?t w = (Inr (), u)"
    using check by (auto simp: in_tx_eq_Inr ran_ok)
  then have "u = w \<and> recorded_transfer sv py (w_db w) ?t" by (rule check_token_transfer_Inr)
  moreover have "tq_fee_rate_sats_per_vb message \<le> 3 * max estimate (min_fee_rate_sat_per_vbyte sv)"
    "min_fee_rate_sat_per_vbyte sv \<le> tq_fee_rate_sats_per_vb message"
    using p(4) by (simp_all add: check_fee_rate_def Let_def mult.commute not_less split: if_splits)
  moreover have "of_int (wl_get_fee (om_lib m) p) <
      f_mul (f_of_int (estimate_psbt_size_vb m p * tq_fee_rate_sats_per_vb message)) fee_margin"
    using p(5) by (simp add: check_fee_def Let_def not_le split: if_splits)
  ultimately show ?thesis using p w' check_unsigned_tx_Inr[OF p(2)] by blast
qed


section \<open>The life of a token deposit\<close>

inductive token_edge :: "rune_token_deposit_status \<Rightarrow> rune_token_deposit_status \<Rightarrow> bool" where
  sending: "token_edge RT_ACCEPTED SENDING_TO_BTC"
| sent: "token_edge SENDING_TO_BTC SENT_TO_BTC"
| failed: "token_edge SENDING_TO_BTC SENDING_TO_BTC_FAILED"

code_pred token_edge .

inductive_simps token_edge_simps:
  "token_edge RT_ACCEPTED s" "token_edge SENDING_TO_BTC s" "token_edge SENT_TO_BTC s"
  "token_edge SENDING_TO_BTC_FAILED s"

text \<open>The rows after a broadcast: the row of the deposit has a new status, and the transaction.\<close>

definition token_row_set :: "int \<Rightarrow> rune_token_deposit_status \<Rightarrow> string option \<Rightarrow> string \<Rightarrow>
  rune_token_deposit list \<Rightarrow> rune_token_deposit list" where
  "token_row_set i s txid serialized rows = update_where (\<lambda>d. rt_id d = i)
     (\<lambda>d. d\<lparr>rt_status := rt_code s, rt_finalized_psbt := Some serialized,
            rt_btc_tx_id := (case txid of None \<Rightarrow> rt_btc_tx_id d | Some t \<Rightarrow> Some t)\<rparr>) rows"

lemma update_where_twice:
  "(\<And>r. p (f r) = p r) \<Longrightarrow> update_where p g (update_where p f rows) = update_where p (\<lambda>r. g (f r)) rows"
  by (simp add: update_where_def)

lemma update_where_cong: "(\<And>r. f r = g r) \<Longrightarrow> update_where p f rows = update_where p g rows"
  by (simp add: update_where_def)

lemma get_token_deposit_hit:
  assumes "d \<in> set (db_rune_token_deposits (w_db w))" "rt_id d = i"
  shows "\<exists>d'. get_token_deposit i w = (Inr d', w) \<and> d' \<in> set (db_rune_token_deposits (w_db w)) \<and> rt_id d' = i"
proof -
  obtain e es where f: "filter (\<lambda>d. rt_id d = i) (db_rune_token_deposits (w_db w)) = e # es"
    using assms by (cases "filter (\<lambda>d. rt_id d = i) (db_rune_token_deposits (w_db w))")
      (auto simp: filter_empty_conv)
  then show ?thesis using filter_eq_ConsD[OF f] by (auto simp: get_token_deposit_def run_related)
qed

lemma token_rows_with_id:
  assumes "rune_tables_ok w" "d \<in> set (db_rune_token_deposits (w_db w))" "e \<in> set (db_rune_token_deposits (w_db w))"
    "rt_id e = rt_id d"
  shows "e = d"
  using assms by (auto simp: rune_tables_ok_def table_ok_def Let_def distinct_map dest: inj_onD)

lemma run_set_token_deposit:
  "set_token_deposit i f w =
     (Inr (), w\<lparr>w_db := db_rune_token_deposits_update (update_where (\<lambda>d. rt_id d = i) f) (w_db w)\<rparr>)"
  by (simp add: set_token_deposit_def update_rune_token_deposit_def)

text \<open>The broadcast itself: at most one transaction is given to the node.\<close>

lemma broadcast_psbt_outcome:
  assumes "broadcast_psbt m (send_raw_transaction node_send) p w = (r, w')"
  shows "w_db w' = w_db w \<and> transacts (w_effects w') = transacts (w_effects w) \<and>
    ((raw_sends (w_effects w') = raw_sends (w_effects w) \<and> (\<exists>e. r = Inl e)) \<or>
     (\<exists>h. wl_extract_tx_hex (om_lib m) p = Inr h \<and> raw_sends (w_effects w') = h # raw_sends (w_effects w)))"
proof (cases "wl_extract_tx_hex (om_lib m) p")
  case (Inr h)
  show ?thesis
  proof (cases "wn_testmempoolaccept (om_node m) h")
    case accept: (Inr l)
    show ?thesis using assms Inr accept
      by (cases l)
         (auto simp: broadcast_psbt_def send_raw_transaction_def run_bnd run_sq split: if_splits)
  next
    case (Inl e)
    then have "r = Inl e \<and> w' = w" using assms \<open>wl_extract_tx_hex (om_lib m) p = Inr h\<close>
      by (simp add: broadcast_psbt_def run_bnd)
    then show ?thesis by simp
  qed
next
  case (Inl e)
  then have "r = Inl e \<and> w' = w" using assms by (simp add: broadcast_psbt_def run_bnd)
  then show ?thesis by simp
qed

lemma broadcast_token_deposit_outcome:
  assumes run: "broadcast_token_deposit sv m node_send i p w = (r, w')" and ok: "rune_tables_ok w"
  shows "(\<exists>e. r = Inl e \<and> db_rune_token_deposits (w_db w') = db_rune_token_deposits (w_db w) \<and>
      raw_sends (w_effects w') = raw_sends (w_effects w)) \<or>
    (\<exists>d. d \<in> set (db_rune_token_deposits (w_db w)) \<and> rt_id d = i \<and> rt_status d = rt_code RT_ACCEPTED \<and>
      ((\<exists>h txid. r = Inr () \<and> wl_extract_tx_hex (om_lib m) p = Inr h \<and>
          raw_sends (w_effects w') = h # raw_sends (w_effects w) \<and>
          db_rune_token_deposits (w_db w') =
            token_row_set i SENT_TO_BTC (Some txid) (wl_to_base64 (om_lib m) p) (db_rune_token_deposits (w_db w))) \<or>
       (\<exists>e. r = Inl e \<and>
          (raw_sends (w_effects w') = raw_sends (w_effects w) \<or>
           (\<exists>h. wl_extract_tx_hex (om_lib m) p = Inr h \<and> raw_sends (w_effects w') = h # raw_sends (w_effects w))) \<and>
          db_rune_token_deposits (w_db w') =
            token_row_set i SENDING_TO_BTC_FAILED None (wl_to_base64 (om_lib m) p) (db_rune_token_deposits (w_db w)))))"
proof -
  let ?rows = "db_rune_token_deposits (w_db w)"
  let ?s = "wl_to_base64 (om_lib m) p"
  let ?mark = "\<lambda>d. d\<lparr>rt_status := rt_code SENDING_TO_BTC, rt_finalized_psbt := Some ?s\<rparr>"
  obtain q v where g: "get_token_deposit i w = (q, v)" by (cases "get_token_deposit i w")
  have v: "v = w" using g related_pure[of db_rune_token_deposits "\<lambda>d. rt_id d = i" w] by (simp add: get_token_deposit_def)
  show ?thesis
  proof (cases "\<exists>d. q = Inr d \<and> rt_status d = rt_code RT_ACCEPTED")
    case False
    then show ?thesis using run g v
      by (cases q) (auto simp: broadcast_token_deposit_def run_sq run_bnd run_asserting run_in_tx)
  next
    case True
    then obtain d where d: "q = Inr d" "rt_status d = rt_code RT_ACCEPTED" by blast
    have mem: "d \<in> set ?rows" "rt_id d = i"
      using g d(1) by (auto simp: get_token_deposit_def related_eq_Inr dest!: first_row_SomeD)
    define w1 where "w1 = w\<lparr>w_db := db_rune_token_deposits_update (update_where (\<lambda>d. rt_id d = i) ?mark) (w_db w)\<rparr>"
    have marked: "?mark d \<in> set (db_rune_token_deposits (w_db w1))" "rt_id (?mark d) = i"
      using mem update_where_hit[of d ?rows "\<lambda>d. rt_id d = i" ?mark] by (simp_all add: w1_def)
    obtain b w2 where b: "broadcast_psbt m (send_raw_transaction node_send) p w1 = (b, w2)"
      by (cases "broadcast_psbt m (send_raw_transaction node_send) p w1")
    note out = broadcast_psbt_outcome[OF b]
    have w2: "db_rune_token_deposits (w_db w2) = update_where (\<lambda>d. rt_id d = i) ?mark ?rows"
      using out by (simp add: w1_def)
    have sends: "raw_sends (w_effects w1) = raw_sends (w_effects w)" by (simp add: w1_def)
    have rest: "bnd (catch (broadcast_psbt m (send_raw_transaction node_send) p)
           (\<lambda>e. sq (in_tx (bnd (get_token_deposit i) (\<lambda>deposit.
                    sq (set_token_deposit i (\<lambda>d. d\<lparr>rt_status := rt_code SENDING_TO_BTC_FAILED\<rparr>))
                       (notice sv ''Broadcasting Rune PSBT to Bitcoin failed!'' True))))
                  (throw e))) (\<lambda>txid.
     sq (notice sv ''Rune PSBT broadcast to Bitcoin'' False)
        (in_tx (bnd (get_token_deposit i) (\<lambda>deposit.
           sq (asserting (rt_status deposit = rt_code SENDING_TO_BTC))
              (set_token_deposit i (\<lambda>d. d\<lparr>rt_status := rt_code SENT_TO_BTC, rt_btc_tx_id := Some txid\<rparr>)))))) w1 = (r, w')"
      using run g v d by (simp add: broadcast_token_deposit_def run_sq run_bnd run_asserting run_in_tx
          run_set_token_deposit w1_def)
    have hit: "\<exists>d'. get_token_deposit i u = (Inr d', u) \<and> rt_status d' = rt_code SENDING_TO_BTC"
      if u: "w_db u = w_db w2" for u
    proof -
      have "?mark d \<in> set (db_rune_token_deposits (w_db u))" using marked out u by simp
      from get_token_deposit_hit[OF this marked(2)] obtain d' where
        d': "get_token_deposit i u = (Inr d', u)" "d' \<in> set (db_rune_token_deposits (w_db u))" "rt_id d' = i" by blast
      have "d' \<in> set (update_where (\<lambda>d. rt_id d = i) ?mark ?rows)" using d'(2) u w2 by simp
      from update_where_cases[OF this] obtain x where x: "d' = (if rt_id x = i then ?mark x else x)" by blast
      have "rt_status d' = rt_code SENDING_TO_BTC"
        using x d'(3) by (cases "rt_id x = i") simp_all
      then show ?thesis using d'(1) by blast
    qed
    show ?thesis
    proof (cases b)
      case (Inl e)
      obtain d' where "get_token_deposit i w2 = (Inr d', w2)" using hit[of w2] by blast
      then have r: "r = Inl e" "raw_sends (w_effects w') = raw_sends (w_effects w2)"
          "db_rune_token_deposits (w_db w') = update_where (\<lambda>d. rt_id d = i)
             (\<lambda>d. d\<lparr>rt_status := rt_code SENDING_TO_BTC_FAILED\<rparr>) (db_rune_token_deposits (w_db w2))"
        using rest b Inl by (auto simp: run_bnd run_catch run_sq run_in_tx run_set_token_deposit notice_def)
      have "db_rune_token_deposits (w_db w') = token_row_set i SENDING_TO_BTC_FAILED None ?s ?rows"
        unfolding r(3) w2 token_row_set_def
        by (subst update_where_twice) (auto intro!: update_where_cong)
      moreover have "raw_sends (w_effects w') = raw_sends (w_effects w) \<or>
          (\<exists>h. wl_extract_tx_hex (om_lib m) p = Inr h \<and> raw_sends (w_effects w') = h # raw_sends (w_effects w))"
        using out r(2) sends by auto
      ultimately show ?thesis using d(2) mem r(1) by blast
    next
      case (Inr txid)
      define w3 where "w3 = w2\<lparr>w_effects := Notice (''['' @ bridge_name sv @ ''] '' @ ''Rune PSBT broadcast to Bitcoin'') False # w_effects w2\<rparr>"
      obtain d' where "get_token_deposit i w3 = (Inr d', w3)" "rt_status d' = rt_code SENDING_TO_BTC"
        using hit[of w3] by (auto simp: w3_def)
      then have r: "r = Inr ()" "raw_sends (w_effects w') = raw_sends (w_effects w2)"
          "db_rune_token_deposits (w_db w') = update_where (\<lambda>d. rt_id d = i)
             (\<lambda>d. d\<lparr>rt_status := rt_code SENT_TO_BTC, rt_btc_tx_id := Some txid\<rparr>) (db_rune_token_deposits (w_db w2))"
        using rest b Inr by (auto simp: run_bnd run_catch run_sq run_in_tx run_set_token_deposit run_asserting
            notice_def w3_def)
      have "db_rune_token_deposits (w_db w') = token_row_set i SENT_TO_BTC (Some txid) ?s ?rows"
        unfolding r(3) w2 token_row_set_def
        by (subst update_where_twice) (auto intro!: update_where_cong)
      moreover obtain h where "wl_extract_tx_hex (om_lib m) p = Inr h" "raw_sends (w_effects w') = h # raw_sends (w_effects w)"
        using out r(2) sends Inr by auto
      ultimately show ?thesis using d(2) mem r(1) by blast
    qed
  qed
qed


lemma handle_token_deposit_cases:
  assumes run: "handle_accepted_rune_token_deposit sv py ord m fee fee' node_send ask i w = (r, w')"
  obtains (unsigned) "w_db w' = w_db w" "raw_sends (w_effects w') = raw_sends (w_effects w)"
      "transacts (w_effects w') = transacts (w_effects w)"
  | (signed) p v where "sign_token_deposit sv py ord m fee fee' ask i w = (Inr (Some p), v)"
      "w_db v = w_db w" "raw_sends (w_effects v) = raw_sends (w_effects w)"
      "transacts (w_effects v) = transacts (w_effects w)"
      "broadcast_token_deposit sv m node_send i p v = (r, w')"
proof -
  obtain q v where s: "sign_token_deposit sv py ord m fee fee' ask i w = (q, v)"
    by (cases "sign_token_deposit sv py ord m fee fee' ask i w")
  have v: "w_db v = w_db w" "transacts (w_effects v) = transacts (w_effects w)"
      "raw_sends (w_effects v) = raw_sends (w_effects w)"
    using keepsD'[OF sign_view _ s, of "(w_db w, transacts (w_effects w), raw_sends (w_effects w))"]
    by (simp_all add: db_view_def)
  show thesis
  proof (cases "\<exists>p. q = Inr (Some p)")
    case True
    then obtain p where "q = Inr (Some p)" by blast
    then show thesis using signed[of p v] s v run by (simp add: handle_accepted_rune_token_deposit_def run_bnd)
  next
    case False
    then have "w' = v" using run s
      by (cases q) (auto simp: handle_accepted_rune_token_deposit_def run_bnd split: option.splits)
    then show thesis using unsigned v by simp
  qed
qed

text \<open>
  A token deposit is paid out at most once, and never silently: handling a deposit either
  changes nothing in the database and gives no transaction to the Bitcoin node, or the deposit was
  accepted, and then it is left as sent, with the transaction's id, exactly one transaction having
  been given to the node; or, with an exception, as failed, with at most one transaction given to
  the node. Other deposits are left alone, and a deposit that is not accepted is never paid.
\<close>

theorem handle_token_deposit_at_most_once:
  assumes "handle_accepted_rune_token_deposit sv py ord m fee fee' node_send ask i w = (r, w')" "rune_tables_ok w"
  shows "(db_rune_token_deposits (w_db w') = db_rune_token_deposits (w_db w) \<and>
      raw_sends (w_effects w') = raw_sends (w_effects w)) \<or>
    (\<exists>d s. d \<in> set (db_rune_token_deposits (w_db w)) \<and> rt_id d = i \<and> rt_status d = rt_code RT_ACCEPTED \<and>
      ((\<exists>h txid. r = Inr () \<and> raw_sends (w_effects w') = h # raw_sends (w_effects w) \<and>
          db_rune_token_deposits (w_db w') = token_row_set i SENT_TO_BTC (Some txid) s (db_rune_token_deposits (w_db w))) \<or>
       (\<exists>e. r = Inl e \<and>
          (raw_sends (w_effects w') = raw_sends (w_effects w) \<or>
           (\<exists>h. raw_sends (w_effects w') = h # raw_sends (w_effects w))) \<and>
          db_rune_token_deposits (w_db w') =
            token_row_set i SENDING_TO_BTC_FAILED None s (db_rune_token_deposits (w_db w)))))"
proof (rule handle_token_deposit_cases[OF assms(1)], goal_cases)
  case signed: (2 p v)
  have "rune_tables_ok v"
  proof -
    have "keeps_tables (sign_token_deposit sv py ord m fee fee' ask i)" by (rule keeps_tables_sign)
    from keeps_tables_ok[OF this assms(2)] signed(1) show ?thesis by simp
  qed
  from broadcast_token_deposit_outcome[OF signed(5) this, unfolded signed(2,3)] show ?thesis by blast
qed simp

section \<open>An example\<close>

definition example_token_deposit :: rune_token_deposit where
  "example_token_deposit = \<lparr>rt_id = 1, rt_bridge_id = 1, rt_evm_block_number = 5, rt_evm_tx_hash = ''ee'',
     rt_evm_log_index = 0, rt_receiver_btc_address = ''user'', rt_transferred_token_amount = 30,
     rt_net_rune_amount_raw = 30, rt_token_address = ''0x01'', rt_rune_id = 2, rt_btc_tx_id = None,
     rt_finalized_psbt = None, rt_status = rt_code RT_ACCEPTED\<rparr>"

definition token_world :: rune_world where
  "token_world = example_world\<lparr>w_db := example_db\<lparr>db_runes := [example_rune_row\<lparr>ru_n := 65\<rparr>],
     db_rune_token_deposits := [example_token_deposit]\<rparr>, w_seqs := (\<lambda>_. 3)\<rparr>"

definition example_question :: sign_rune_token_to_btc_transfer_question where
  "example_question = \<lparr>tq_transfer = \<lparr>tb_receiver_address = ''user'', tb_net_rune_amount = 30,
       tb_token_address = ''0x01'', tb_rune_name = [65], tb_rune_number = 65, tb_event_tx_hash = ''ee'',
       tb_event_log_index = 0\<rparr>, tq_unsigned_psbt_serialized = ''psbt'', tq_fee_rate_sats_per_vb = 2\<rparr>"

lemma token_tables_ok: "rune_tables_ok token_world"
  by (simp add: rune_tables_ok_def token_world_def example_world_def example_db_def table_ok_def Let_def
      example_token_deposit_def example_rune_row_def)


lemma fee_margin_bounds: "109/100 \<le> fee_margin" "fee_margin \<le> 111/100"
  using round_double_near[of "11/10" 2] by (simp_all add: fee_margin_def)

lemma example_rounding:
  "f_mul (f_of_int 600) fee_margin \<ge> 601" "f_div (f_of_int 600) fee_margin \<le> 600"
  "f_int (f_mul fee_margin (f_of_int 2)) = 2"
proof -
  have "f_of_int 600 = 600" "f_of_int 2 = 2" using f_of_int_exact[of 600] f_of_int_exact[of 2] by simp_all
  note exact = this
  have "f_mul (f_of_int 600) fee_margin \<ge> 600 * fee_margin - 700 / 2 ^ 53"
    using round_double_near(1)[of "600 * fee_margin" 700] fee_margin_bounds by (simp add: f_mul_def exact)
  then show "f_mul (f_of_int 600) fee_margin \<ge> 601" using fee_margin_bounds by simp
  have q: "0 \<le> 600 / fee_margin" "600 / fee_margin \<le> 560"
    using fee_margin_bounds by (simp_all add: pos_divide_le_eq)
  then show "f_div (f_of_int 600) fee_margin \<le> 600"
    using round_double_near(2)[of "600 / fee_margin" 560] by (simp add: f_div_def exact)
  have "2 \<le> f_mul fee_margin (f_of_int 2)" "f_mul fee_margin (f_of_int 2) < 3"
    using round_double_near[of "fee_margin * 2" 3] fee_margin_bounds by (simp_all add: f_mul_def exact)
  then show "f_int (f_mul fee_margin (f_of_int 2)) = 2" by (simp add: f_int_def floor_eq_iff)
qed

lemma example_size: "estimate_psbt_size_vb example_multisig example_psbt = 300"
  by (simp add: estimate_psbt_size_vb_def estimate_p2wsh_multisig_tx_virtual_size_def example_multisig_def
      example_btx_def example_psbt_def Let_def)

lemma example_check_tx: "check_unsigned_tx example_multisig example_outputs_ord [tq_transfer example_question] example_psbt = Inr ()"
  by (simp add: check_unsigned_tx_def Let_def example_multisig_def example_psbt_def example_question_def example_edicts_def
     change_script_pubkey_def example_btx_def TARGET_POSTAGE_SAT_def get_rune_def ord_request_def http_ok_def
      example_outputs_ord_def example_wallet_lib_def)

lemma token_world_rows:
  "db_rune_token_deposits (w_db token_world) = [example_token_deposit]"
  "db_runes (w_db token_world) = [example_rune_row\<lparr>ru_n := 65\<rparr>]"
  by (simp_all add: token_world_def)

lemma token_names: "rune_from_str example_ord_pyord [65] = Inr 65"
  by (simp add: example_ord_pyord_def rune_from_str_def remove_spacers_def is_spacer_def str_isalpha_def str_isupper_def)

lemma example_check_transfer:
  "check_token_transfer example_service example_ord_pyord (tq_transfer example_question) token_world = (Inr (), token_world)"
  by (simp add: check_token_transfer_def run_bnd example_facts(1) run_query_one token_world_rows exactly_one.simps example_token_deposit_def
     example_question_def token_names token_deposit_rune_def run_related example_rune_row_def run_sq run_demand)

lemma example_answer:
  "answer_sign_rune_token_to_btc_transfer_question example_service example_ord_pyord example_outputs_ord example_multisig
     (Inr 2) example_question token_world =
   (Inr \<lparr>ta_signed_psbt_serialized = ''psbt'', ta_signer_xpub = ''x''\<rparr>, token_world)"
proof -
  have lib: "wl_from_base64 (om_lib example_multisig) s = Inr example_psbt" "wl_to_base64 (om_lib example_multisig) p = ''psbt''"
    "om_signer_xpub example_multisig = ''x''" "sign_psbt example_multisig p False = Inr p"
     "wl_get_fee (om_lib example_multisig) example_psbt = 600" for s p
    by (simp_all add: example_multisig_def example_wallet_lib_def sign_psbt_def example_psbt_def example_input_def)
  have q: "tq_fee_rate_sats_per_vb example_question = 2" by (simp add: example_question_def)
  have rate: "check_fee_rate example_service 2 2 = Inr ()"
    by (simp add: check_fee_rate_def min_fee_rate_sat_per_vbyte_def example_service_def example_config_def)
  have fee: "check_fee example_multisig example_psbt 2 = Inr ()"
    using example_rounding by (simp add: check_fee_def Let_def example_size lib)
  show ?thesis
    by (simp add: answer_sign_rune_token_to_btc_transfer_question_def answer_token_transfers_def run_bnd run_sq
      run_demand run_in_tx example_check_transfer lib example_check_tx rate fee q)
qed

theorem answer_token_transfer_sound_witness:
  "recorded_transfer example_service example_ord_pyord (w_db token_world) (tq_transfer example_question) \<and>
   (\<exists>p. pays_transfer example_multisig example_outputs_ord (tq_transfer example_question) p)"
  using answer_token_transfer_sound[OF example_answer] by blast

lemma example_finalize: "combine_and_finalize_psbt example_multisig example_psbt [example_psbt] = Inr example_psbt"
  by (simp add: combine_and_finalize_psbt_def finalize_psbt_def example_multisig_def example_wallet_lib_def)

lemma example_accepted:
  "accepted_token_transfer example_service 1 token_world = (Inr (tq_transfer example_question), token_world)"
  by (simp add: accepted_token_transfer_def run_in_tx run_bnd example_facts(1) run_query_one token_world_rows exactly_one.simps
      example_token_deposit_def token_deposit_rune_def run_related example_rune_row_def run_sq run_demand example_question_def)

lemma example_sign_token:
  "\<exists>v. sign_token_deposit example_service example_ord_pyord example_outputs_ord example_multisig (Inr 2) (Inr 2)
     (\<lambda>_. Inr []) 1 token_world = (Inr (Some example_psbt), v)"
proof -
  have lib: "wl_from_base64 (om_lib example_multisig) s = Inr example_psbt" "wl_to_base64 (om_lib example_multisig) p = ''psbt''"
    "om_num_required_signers example_multisig = 1" for s p
    by (simp_all add: example_multisig_def example_wallet_lib_def)
  have rate: "adjusted_fee_rate example_service 2 = Inr 2"
    using example_rounding(3) by (simp add: adjusted_fee_rate_def min_fee_rate_sat_per_vbyte_def example_service_def
       example_config_def fee_margin_def)
  have transfer: "make_rune_transfer example_ord_pyord (RuneInt 65) ''user'' 30 TARGET_POSTAGE_SAT = Inr example_transfer"
    by (simp add: make_rune_transfer_def example_transfer_def TARGET_POSTAGE_SAT_def)
  have q: "\<lparr>tq_transfer = tq_transfer example_question, tq_unsigned_psbt_serialized = ''psbt'', tq_fee_rate_sats_per_vb = 2\<rparr>
      = example_question" "tb_rune_number (tq_transfer example_question) = 65"
      "tb_receiver_address (tq_transfer example_question) = ''user''" "tb_net_rune_amount (tq_transfer example_question) = 30"
    by (simp_all add: example_question_def)
  show ?thesis
    by (simp add: sign_token_deposit_def run_bnd run_sq example_accepted rate q transfer example_create lib example_answer
        example_finalize Let_def)
qed


lemma example_handle:
  obtains w' where "handle_accepted_rune_token_deposit example_service example_ord_pyord example_outputs_ord
      example_multisig (Inr 2) (Inr 2) (\<lambda>_. Inr ''cd'') (\<lambda>_. Inr []) 1 token_world = (Inr (), w')"
    "raw_sends (w_effects w') = [''00'']"
proof -
  obtain v where v: "sign_token_deposit example_service example_ord_pyord example_outputs_ord example_multisig (Inr 2)
      (Inr 2) (\<lambda>_. Inr []) 1 token_world = (Inr (Some example_psbt), v)"
    using example_sign_token by blast
  have db: "w_db v = w_db token_world" "raw_sends (w_effects v) = []"
    using keepsD'[OF sign_view _ v, of "(w_db token_world, transacts (w_effects token_world), raw_sends (w_effects token_world))"]
    by (simp_all add: db_view_def) (simp add: token_world_def example_world_def)
  have lib: "wl_extract_tx_hex (om_lib example_multisig) p = Inr ''00''"
      "wn_testmempoolaccept (om_node example_multisig) h = Inr [True]" for p h
    by (simp_all add: example_multisig_def example_wallet_lib_def)
  have "\<exists>w'. broadcast_token_deposit example_service example_multisig (\<lambda>_. Inr ''cd'') 1 example_psbt v = (Inr (), w') \<and>
      raw_sends (w_effects w') = [''00'']"
    by (simp add: broadcast_token_deposit_def run_sq run_bnd run_in_tx get_token_deposit_def run_related
        run_set_token_deposit run_catch broadcast_psbt_def send_raw_transaction_def update_where_def run_asserting
        notice_def db token_world_rows lib) (simp add: example_token_deposit_def db)
  then show thesis using v that by (auto simp: handle_accepted_rune_token_deposit_def run_bnd)
qed

theorem handle_token_deposit_at_most_once_witness:
  "\<exists>w' s. handle_accepted_rune_token_deposit example_service example_ord_pyord example_outputs_ord
      example_multisig (Inr 2) (Inr 2) (\<lambda>_. Inr ''cd'') (\<lambda>_. Inr []) 1 token_world = (Inr (), w') \<and>
    (\<exists>txid. db_rune_token_deposits (w_db w') = token_row_set 1 SENT_TO_BTC (Some txid) s [example_token_deposit])"
proof (rule example_handle)
  fix w'
  assume run: "handle_accepted_rune_token_deposit example_service example_ord_pyord example_outputs_ord
      example_multisig (Inr 2) (Inr 2) (\<lambda>_. Inr ''cd'') (\<lambda>_. Inr []) 1 token_world = (Inr (), w')"
    and sends: "raw_sends (w_effects w') = [''00'']"
  have "raw_sends (w_effects token_world) = []" by (simp add: token_world_def example_world_def)
  with handle_token_deposit_at_most_once[OF run token_tables_ok] sends run show ?thesis
    by (auto simp: token_world_rows)
qed

end
