(* ===== verification/Network.thy ===== *)
theory Network
  imports Py_Show
begin

text \<open>
  The network of the nodes, from \<^verbatim>\<open>bridge_node/bridge/common/p2p/network.py\<close>: the values that are
  sent and their form on the wire, registered callbacks, asking a question from all peers and
  answering one. Calls over the wire (Pyro5) are a parameter: a program that stands for the call
  of a method of a peer. What the Python library reads as a finite decimal is modelled with it;
  the special values, blanks and underscores that \<open>Decimal\<close> also accepts are not.
\<close>

section \<open>Values\<close>

text \<open>A dataclass instance is its class name and its fields; a namespace has the fields alone.\<close>

datatype pyval =
    PNone
  | PBool bool
  | PInt int
  | PStr string
  | PDecimal decimal
  | PList "pyval list"
  | PDict "(string \<times> pyval) list"
  | PData string "(string \<times> pyval) list"
  | PNamespace "(string \<times> pyval) list"

fun truthy :: "pyval \<Rightarrow> bool" where
  "truthy PNone = False"
| "truthy (PBool b) = b"
| "truthy (PInt n) = (n \<noteq> 0)"
| "truthy (PStr s) = (s \<noteq> [])"
| "truthy (PDecimal d) = (coeff d \<noteq> 0)"
| "truthy (PList vs) = (vs \<noteq> [])"
| "truthy (PDict kvs) = (kvs \<noteq> [])"
| "truthy _ = True"

text \<open>\<open>d[k] = v\<close>: in place if the key is there, at the end otherwise.\<close>

fun dict_set :: "string \<Rightarrow> 'v \<Rightarrow> (string \<times> 'v) list \<Rightarrow> (string \<times> 'v) list" where
  "dict_set k v [] = [(k, v)]"
| "dict_set k v ((k', v') # kvs) = (if k' = k then (k, v) # kvs else (k', v') # dict_set k v kvs)"

definition dict_truthy :: "(string \<times> pyval) list \<Rightarrow> string \<Rightarrow> bool" where
  "dict_truthy kvs k = (case map_of kvs k of None \<Rightarrow> False | Some v \<Rightarrow> truthy v)"

section \<open>Reading decimals\<close>

definition is_dec_digit :: "char \<Rightarrow> bool" where
  "is_dec_digit c \<longleftrightarrow> c \<in> set ''0123456789''"

text \<open>A sign, and the exponent part of a number.\<close>

definition split_sign :: "string \<Rightarrow> int \<times> string" where
  "split_sign s = (case s of [] \<Rightarrow> (1, [])
     | c # r \<Rightarrow> if c = CHR ''-'' then (-1, r) else if c = CHR ''+'' then (1, r) else (1, s))"

text \<open>\<open>int(s)\<close> of digits with a sign; blanks around them and underscores between them, which Python reads too, are refused.\<close>

definition int_of_str :: "string \<Rightarrow> exn + int" where
  "int_of_str s = (let (sign, digits) = split_sign s
     in if digits \<noteq> [] \<and> list_all is_dec_digit digits then Inr (sign * int (read_nat digits)) else Inl ValueError)"

definition parse_exponent :: "string \<Rightarrow> int option" where
  "parse_exponent s = (case s of [] \<Rightarrow> Some 0
     | c # r \<Rightarrow> if c \<noteq> CHR ''E'' \<and> c \<noteq> CHR ''e'' then None
         else let (sign, digits) = split_sign r
              in if digits \<noteq> [] \<and> list_all is_dec_digit digits then Some (sign * int (read_nat digits)) else None)"

definition parse_decimal :: "string \<Rightarrow> exn + decimal" where
  "parse_decimal s =
     (let (sign, body) = split_sign s;
          whole = takeWhile is_dec_digit body;
          after = dropWhile is_dec_digit body;
          point = (after \<noteq> [] \<and> hd after = CHR ''.'');
          fraction = (if point then takeWhile is_dec_digit (tl after) else []);
          rest = (if point then dropWhile is_dec_digit (tl after) else after)
      in if whole @ fraction = [] then Inl (External ''decimal.InvalidOperation'')
         else case parse_exponent rest of
                None \<Rightarrow> Inl (External ''decimal.InvalidOperation'')
              | Some e \<Rightarrow> Inr (Dec (sign * int (read_nat (whole @ fraction))) (e - int (length fraction))))"

section \<open>The form on the wire\<close>

text \<open>Only dataclasses and decimals are converted, and fields of dataclasses, not items of lists.\<close>

fun serialize :: "pyval \<Rightarrow> pyval" where
  "serialize (PData cls fs) =
     PDict (foldl (\<lambda>ret (name, v). dict_set name v ret) [(''_is_dataclass'', PBool True)]
              (map (\<lambda>field. (fst field, serialize (snd field))) fs))"
| "serialize (PDecimal d) = PDict [(''_is_decimal'', PBool True), (''value'', PStr (dec_str d))]"
| "serialize v = v"

text \<open>\<open>Decimal(v)\<close>.\<close>

fun make_decimal :: "pyval \<Rightarrow> exn + decimal" where
  "make_decimal (PStr s) = parse_decimal s"
| "make_decimal (PInt n) = Inr (Dec n 0)"
| "make_decimal (PBool b) = Inr (Dec (of_bool b) 0)"
| "make_decimal (PDecimal d) = Inr d"
| "make_decimal (PList vs) = Inl ValueError"
| "make_decimal _ = Inl TypeError"

fun deserialize :: "pyval \<Rightarrow> exn + pyval" and deserialize_fields :: "(string \<times> pyval) list \<Rightarrow> exn + (string \<times> pyval) list" where
  "deserialize (PDict kvs) =
     (if dict_truthy kvs ''_is_dataclass'' then rbind (deserialize_fields kvs) (\<lambda>fs. Inr (PNamespace fs))
      else if dict_truthy kvs ''_is_decimal'' then
        (case map_of kvs ''value'' of None \<Rightarrow> Inl KeyError
         | Some v \<Rightarrow> rbind (make_decimal v) (\<lambda>d. Inr (PDecimal d)))
      else Inr (PDict kvs))"
| "deserialize v = Inr v"
| "deserialize_fields [] = Inr []"
| "deserialize_fields ((k, v) # kvs) =
     (if k = ''_is_dataclass'' then deserialize_fields kvs
      else rbind (deserialize v) (\<lambda>v'. rbind (deserialize_fields kvs) (\<lambda>kvs'. Inr ((k, v') # kvs'))))"

text \<open>The two comprehensions over the keyword arguments of a call.\<close>

definition serialize_kwargs :: "(string \<times> pyval) list \<Rightarrow> (string \<times> pyval) list" where
  "serialize_kwargs kwargs = map (\<lambda>(k, v). (k, serialize v)) kwargs"

fun deserialize_kwargs :: "(string \<times> pyval) list \<Rightarrow> exn + (string \<times> pyval) list" where
  "deserialize_kwargs [] = Inr []"
| "deserialize_kwargs ((k, v) # kvs) =
     rbind (deserialize v) (\<lambda>v'. rbind (deserialize_kwargs kvs) (\<lambda>kvs'. Inr ((k, v') # kvs')))"

section \<open>A node of the network\<close>

type_synonym 's callback = "(string \<times> pyval) list \<Rightarrow> ('s, pyval) prog"

record message_envelope =
  me_sender :: string
  me_message :: pyval

record ('s, 'cb) pyro_network =
  nw_node_id :: string
  nw_leader_node_id :: "string option"
  nw_uri :: string
  nw_peers :: "(string \<times> string) list"
  nw_callbacks :: "string \<rightharpoonup> 'cb"
  nw_listeners :: "(message_envelope \<Rightarrow> ('s, unit) prog) list"
  nw_running :: bool

definition net_start :: "('s, 'cb) pyro_network \<Rightarrow> exn + ('s, 'cb) pyro_network" where
  "net_start nw = (if nw_running nw then Inl RuntimeError else Inr (nw\<lparr>nw_running := True\<rparr>))"

definition net_stop :: "('s, 'cb) pyro_network \<Rightarrow> ('s, 'cb) pyro_network" where
  "net_stop nw = (if \<not> nw_running nw then nw else nw\<lparr>nw_running := False\<rparr>)"

text \<open>\<open>daemon_uri\<close> is the URI under which the daemon registers the node, and its object id.\<close>

definition pyro_network_init ::
  "(string option \<Rightarrow> string \<times> string) \<Rightarrow> string option \<Rightarrow> (string \<times> string) list \<Rightarrow> string option \<Rightarrow>
   exn + ('s, 'cb) pyro_network" where
  "pyro_network_init daemon_uri node_id peers leader_node_id =
     (let (uri, object_id) = daemon_uri node_id in
      net_start \<lparr>nw_node_id = (case node_id of None \<Rightarrow> object_id | Some i \<Rightarrow> i),
        nw_leader_node_id = leader_node_id, nw_uri = uri, nw_peers = peers, nw_callbacks = Map.empty,
        nw_listeners = [], nw_running = False\<rparr>)"

definition is_leader :: "('s, 'cb) pyro_network \<Rightarrow> bool" where
  "is_leader nw \<longleftrightarrow> nw_leader_node_id nw = Some (nw_node_id nw)"

definition answer_with :: "string \<Rightarrow> 'cb \<Rightarrow> ('s, 'cb) pyro_network \<Rightarrow> exn + ('s, 'cb) pyro_network" where
  "answer_with question callback nw =
     (if question \<in> dom (nw_callbacks nw) then Inl ValueError
      else Inr (nw\<lparr>nw_callbacks := (nw_callbacks nw)(question \<mapsto> callback)\<rparr>))"

definition add_listener :: "(message_envelope \<Rightarrow> ('s, unit) prog) \<Rightarrow> ('s, 'cb) pyro_network \<Rightarrow> ('s, 'cb) pyro_network" where
  "add_listener listener nw = nw\<lparr>nw_listeners := nw_listeners nw @ [listener]\<rparr>"

definition get_peer_uri :: "string \<Rightarrow> string \<Rightarrow> string" where
  "get_peer_uri peer_id peer_host = ''PYRO:'' @ peer_id @ ''@'' @ peer_host"

definition get_peers :: "('s, 'cb) pyro_network \<Rightarrow> string list" where
  "get_peers nw = map (\<lambda>(peer, host). get_peer_uri peer host) (filter (\<lambda>(peer, host). peer \<noteq> nw_node_id nw) (nw_peers nw))"

text \<open>
  Asking: an answer is what a peer returns that is not \<open>None\<close>. \<open>call_answer\<close> is the call of
  \<open>answer\<close> of a peer over the wire.
\<close>

fun ask_peers :: "(string \<Rightarrow> ('t, pyval) prog) \<Rightarrow> string list \<Rightarrow> pyval list \<Rightarrow> ('t, pyval list) prog" where
  "ask_peers call [] answers = ok answers"
| "ask_peers call (peer # peers) answers =
     bnd (catch (call peer) (\<lambda>e. if e = CommunicationError then ok PNone else throw e)) (\<lambda>answer.
     if answer \<noteq> PNone
     then bnd (lift_res (deserialize answer)) (\<lambda>deserialized_answer.
          ask_peers call peers (answers @ [deserialized_answer]))
     else ask_peers call peers answers)"

definition ask ::
  "('s, 'cb) pyro_network \<Rightarrow> (string \<Rightarrow> string \<Rightarrow> (string \<times> pyval) list \<Rightarrow> ('t, pyval) prog) \<Rightarrow> string \<Rightarrow>
   (string \<times> pyval) list \<Rightarrow> ('t, pyval list) prog" where
  "ask nw call_answer question kwargs =
     ask_peers (\<lambda>peer. call_answer peer question (serialize_kwargs kwargs)) (get_peers nw) []"

text \<open>Answering: without a callback, and when the callback raises, the answer is \<open>None\<close>.\<close>

definition net_answer :: "('s, 's callback) pyro_network \<Rightarrow> string \<Rightarrow> (string \<times> pyval) list \<Rightarrow> ('s, pyval) prog" where
  "net_answer nw question kwargs =
     bnd (lift_res (deserialize_kwargs kwargs)) (\<lambda>kwargs.
     case nw_callbacks nw question of
       None \<Rightarrow> ok PNone
     | Some callback \<Rightarrow> catch (bnd (callback kwargs) (\<lambda>ret. ok (serialize ret))) (\<lambda>e. ok PNone))"

definition broadcast ::
  "('s, 'cb) pyro_network \<Rightarrow> (string \<Rightarrow> message_envelope \<Rightarrow> ('t, unit) prog) \<Rightarrow> pyval \<Rightarrow> ('t, unit) prog" where
  "broadcast nw call_receive msg =
     for_each (get_peers nw) (\<lambda>peer.
       catch (call_receive peer \<lparr>me_sender = nw_uri nw, me_message = msg\<rparr>)
         (\<lambda>e. if e = CommunicationError then ok () else throw e))"

definition net_send ::
  "('s, 'cb) pyro_network \<Rightarrow> (string \<Rightarrow> message_envelope \<Rightarrow> ('t, unit) prog) \<Rightarrow> string \<Rightarrow> pyval \<Rightarrow> ('t, unit) prog" where
  "net_send nw call_receive to msg = call_receive to \<lparr>me_sender = nw_uri nw, me_message = msg\<rparr>"

definition net_receive :: "('s, 'cb) pyro_network \<Rightarrow> message_envelope \<Rightarrow> ('s, unit) prog" where
  "net_receive nw envelope = for_each (nw_listeners nw) (\<lambda>listener. listener envelope)"

text \<open>\<open>bind\<close> is the attempt to connect to a peer; it tells whether there is a connection then.\<close>

definition get_peer_info :: "(string \<Rightarrow> exn + bool) \<Rightarrow> string \<Rightarrow> exn + (string \<times> string) list" where
  "get_peer_info bind uri =
     (case bind uri of
        Inl e \<Rightarrow> if e = CommunicationError then Inr [(''status'', ''offline''), (''uri'', uri)] else Inl e
      | Inr online \<Rightarrow> Inr [(''status'', if \<not> online then ''offline'' else ''online''), (''uri'', uri)])"

text \<open>A peer's own URI object has its id as the object; a peer that is listed twice has one entry.\<close>

fun peer_infos :: "(string \<Rightarrow> exn + bool) \<Rightarrow> (string \<times> string) list \<Rightarrow> (string \<times> pyval) list \<Rightarrow> exn + (string \<times> pyval) list" where
  "peer_infos bind [] infos = Inr infos"
| "peer_infos bind ((peer, host) # peers) infos =
     rbind (get_peer_info bind (get_peer_uri peer host)) (\<lambda>info.
     peer_infos bind peers (dict_set peer (PDict (map (\<lambda>(k, v). (k, PStr v)) info)) infos))"

definition get_network_info :: "('s, 'cb) pyro_network \<Rightarrow> (string \<Rightarrow> exn + bool) \<Rightarrow> exn + pyval" where
  "get_network_info nw bind =
     rbind (peer_infos bind (filter (\<lambda>(peer, host). peer \<noteq> nw_node_id nw) (nw_peers nw)) []) (\<lambda>infos.
     Inr (PDict [(''node_id'', PStr (nw_node_id nw)), (''uri'', PStr (nw_uri nw)),
                 (''is_leader'', PBool (is_leader nw)), (''peers'', PDict infos)]))"

text \<open>The network of a configuration; it tells the others that it is there.\<close>

definition create_pyro_network ::
  "(string option \<Rightarrow> string \<times> string) \<Rightarrow> string option \<Rightarrow> (string \<times> string) list \<Rightarrow> string option \<Rightarrow>
   (string \<Rightarrow> message_envelope \<Rightarrow> ('t, unit) prog) \<Rightarrow> ('t, ('s, 'cb) pyro_network) prog" where
  "create_pyro_network daemon_uri node_id peers leader_node_id call_receive =
     bnd (lift_res (pyro_network_init daemon_uri node_id peers leader_node_id)) (\<lambda>network.
     sq (broadcast network call_receive (PStr (nw_uri network @ '' joined the network'')))
        (ok network))"

section \<open>Reading back what was written\<close>

lemma is_dec_digit_char [simp]: "n < 10 \<Longrightarrow> is_dec_digit (digit_char n)"
proof -
  assume "n < 10"
  moreover have "\<forall>k \<in> set [0..<10]. is_dec_digit (digit_char k)" by code_simp
  ultimately show "is_dec_digit (digit_char n)" by simp
qed

lemma show_nat_digits: "list_all is_dec_digit (show_nat n)"
proof (induction n rule: show_nat.induct)
  case (1 n)
  then show ?case by (subst show_nat.simps) simp
qed

lemma show_nat_ne: "show_nat n \<noteq> []"
  by (subst show_nat.simps) simp

lemma not_dec_digits [simp]:
  "\<not> is_dec_digit (CHR ''-'')" "\<not> is_dec_digit (CHR ''+'')" "\<not> is_dec_digit (CHR ''.'')"
  "\<not> is_dec_digit (CHR ''E'')" "is_dec_digit (CHR ''0'')"
  by (simp_all add: is_dec_digit_def)

lemma list_all_set: "list_all p xs \<Longrightarrow> \<forall>x \<in> set xs. p x"
  by (simp add: list_all_iff)

lemma take_digits:
  "list_all p xs \<Longrightarrow> r = [] \<or> \<not> p (hd r) \<Longrightarrow> takeWhile p (xs @ r) = xs \<and> dropWhile p (xs @ r) = r"
  by (induction xs) (cases r, auto)+

lemma split_sign_digits: "list_all is_dec_digit ds \<Longrightarrow> ds \<noteq> [] \<Longrightarrow> split_sign (ds @ r) = (1, ds @ r)"
  by (cases ds) (auto simp: split_sign_def)

lemma parse_exponent_shown:
  "parse_exponent (''E'' @ (if n < 0 then '''' else ''+'') @ show_int n) = Some n"
  using split_sign_digits[OF show_nat_digits show_nat_ne, of "nat n" "[]"] show_nat_digits[of "nat n"]
    show_nat_digits[of "nat (- n)"] show_nat_ne[of "nat n"] show_nat_ne[of "nat (- n)"]
  by (simp add: parse_exponent_def split_sign_def show_int_def)

lemma read_nat_zeros: "read_nat (replicate k (CHR ''0'') @ ds) = read_nat ds"
proof -
  have "foldl (\<lambda>n c. 10 * n + digit_value c) 0 (replicate k (CHR ''0'')) = 0"
    by (induction k) (simp_all add: digit_value_def)
  then show ?thesis by (simp add: read_nat_def)
qed

text \<open>A number in its written form: a sign, digits, perhaps a point and digits, an exponent.\<close>

lemma parse_written:
  assumes "list_all is_dec_digit whole" "whole \<noteq> []" "list_all is_dec_digit fraction"
    and "parse_exponent rest = Some e" "rest = [] \<or> hd rest = CHR ''E''"
    and "body = whole @ (if fraction = [] then [] else CHR ''.'' # fraction) @ rest"
  shows "parse_decimal ((if neg then ''-'' else '''') @ body) =
     Inr (Dec ((if neg then -1 else 1) * int (read_nat (whole @ fraction))) (e - int (length fraction)))"
proof -
  have sign: "split_sign ((if neg then ''-'' else '''') @ body) = (if neg then -1 else 1, body)"
  proof (cases neg)
    case False
    then show ?thesis
      using split_sign_digits[OF assms(1,2), of "(if fraction = [] then [] else CHR ''.'' # fraction) @ rest"]
      unfolding assms(6) by simp
  qed (simp add: split_sign_def)
  have r: "rest = [] \<or> \<not> is_dec_digit (hd rest)" using assms(5) by auto
  have "takeWhile is_dec_digit body = whole"
    "dropWhile is_dec_digit body = (if fraction = [] then [] else CHR ''.'' # fraction) @ rest"
    using take_digits[OF assms(1), of "(if fraction = [] then [] else CHR ''.'' # fraction) @ rest"] r
    unfolding assms(6) by auto
  moreover have "takeWhile is_dec_digit (fraction @ rest) = fraction" "dropWhile is_dec_digit (fraction @ rest) = rest"
    using take_digits[OF assms(3) r] by auto
  moreover have "rest = [] \<or> hd rest \<noteq> CHR ''.''" using assms(5) by auto
  ultimately show ?thesis
    using sign assms(2,4,5) unfolding parse_decimal_def Let_def
    by (cases "fraction = []") auto
qed

lemma parse_dec_str: "parse_decimal (dec_str d) = Inr d"
proof -
  define ds where "ds = show_nat (nat \<bar>coeff d\<bar>)"
  define left where "left = expo d + int (length ds)"
  define neg where "neg = (coeff d < 0)"
  have ds: "list_all is_dec_digit ds" "ds \<noteq> []" "read_nat ds = nat \<bar>coeff d\<bar>"
    by (simp_all add: ds_def show_nat_digits show_nat_ne)
  have parts: "list_all is_dec_digit (take k ds)" "list_all is_dec_digit (drop k ds)" for k
    using ds(1) by (auto simp: list_all_iff dest: in_set_takeD in_set_dropD)
  have val: "(if neg then -1 else 1) * int (nat \<bar>coeff d\<bar>) = coeff d" by (simp add: neg_def)
  have exp: "parse_exponent ''''  = Some 0" by (simp add: parse_exponent_def)
  consider (small) "expo d \<le> 0" "left > -6" "left \<le> 0" | (whole) "expo d = 0"
    | (point) "expo d < 0" "left > 0" | (sci) "\<not> (expo d \<le> 0 \<and> left > -6)"
    using ds_def left_def by linarith
  then show ?thesis
  proof cases
    case small
    then have str: "dec_str d = (if neg then ''-'' else '''') @ ''0.'' @ replicate (nat (- left)) (CHR ''0'') @ ds"
      by (simp add: dec_str_def Let_def ds_def[symmetric] left_def[symmetric] neg_def)
    have "parse_decimal (dec_str d) = Inr (Dec ((if neg then -1 else 1) *
        int (read_nat (''0'' @ replicate (nat (- left)) (CHR ''0'') @ ds)))
        (0 - int (length (replicate (nat (- left)) (CHR ''0'') @ ds))))"
      unfolding str by (rule parse_written[where rest = "''''"]) (use ds exp in \<open>auto simp: list_all_iff\<close>)
    moreover have "read_nat (''0'' @ replicate (nat (- left)) (CHR ''0'') @ ds) = nat \<bar>coeff d\<bar>"
      using read_nat_zeros[of "Suc (nat (- left))" ds] ds(3) by simp
    moreover have "0 - int (length (replicate (nat (- left)) (CHR ''0'') @ ds)) = expo d"
      using small by (simp add: left_def)
    ultimately show ?thesis using val by simp
  next
    case whole
    then have str: "dec_str d = (if neg then ''-'' else '''') @ ds"
      using ds(2) by (simp add: dec_str_def Let_def ds_def[symmetric] neg_def)
    have "parse_decimal (dec_str d) = Inr (Dec ((if neg then -1 else 1) * int (read_nat (ds @ []))) (0 - int (length ([] :: string))))"
      unfolding str by (rule parse_written[where rest = "''''"]) (use ds exp in \<open>auto\<close>)
    then show ?thesis using val whole ds(3) by (cases d) simp
  next
    case point
    have k: "nat left < length ds" using point by (simp add: left_def)
    have str: "dec_str d = (if neg then ''-'' else '''') @ take (nat left) ds @ CHR ''.'' # drop (nat left) ds"
      using point k by (simp add: dec_str_def Let_def ds_def[symmetric] left_def[symmetric] neg_def)
    have ne: "drop (nat left) ds \<noteq> []" "take (nat left) ds \<noteq> []" using k point by auto
    have "parse_decimal (dec_str d) = Inr (Dec ((if neg then -1 else 1) *
        int (read_nat (take (nat left) ds @ drop (nat left) ds))) (0 - int (length (drop (nat left) ds))))"
      unfolding str by (rule parse_written[where rest = "''''"]) (use parts ne exp in auto)
    moreover have "0 - int (length (drop (nat left) ds)) = expo d" using k point by (simp add: left_def)
    ultimately show ?thesis using val ds(3) by simp
  next
    case sci
    have ne1: "left \<noteq> 1" using sci ds(2) by (cases ds) (auto simp: left_def)
    let ?e = "''E'' @ (if left - 1 < 0 then '''' else ''+'') @ show_int (left - 1)"
    obtain c cs where cs: "ds = c # cs" using ds(2) by (cases ds) auto
    have str: "dec_str d = (if neg then ''-'' else '''') @ [c] @ (if cs = [] then [] else CHR ''.'' # cs) @ ?e"
      unfolding dec_str_def Let_def ds_def[symmetric] left_def[symmetric] if_not_P[OF sci]
      using ne1 by (simp add: cs neg_def)
    have "parse_decimal (dec_str d) = Inr (Dec ((if neg then -1 else 1) * int (read_nat ([c] @ cs)))
        (left - 1 - int (length cs)))"
      unfolding str by (rule parse_written) (use ds(1) cs parse_exponent_shown[of "left - 1"] in \<open>auto\<close>)
    then show ?thesis using val ds(3) cs by (simp add: left_def)
  qed
qed

section \<open>Messages arrive as they were sent\<close>

text \<open>
  The values that Pyro's serializer documents to deliver as they are: \<open>None\<close>, booleans, integers, strings, and lists
  and dictionaries of such values, unless the dictionary has the key that it reserves for classes. A \<open>Decimal\<close>, which arrives as
  a string, and an instance of a class, which arrives as a dictionary, are not among them, not inside of a list either.
\<close>

fun wireable :: "pyval \<Rightarrow> bool" where
  "wireable (PList vs) \<longleftrightarrow> list_all wireable vs"
| "wireable (PDict kvs) \<longleftrightarrow> ''__class__'' \<notin> fst ` set kvs \<and> distinct (map fst kvs) \<and> list_all (\<lambda>entry. wireable (snd entry)) kvs"
| "wireable (PDecimal d) \<longleftrightarrow> False"
| "wireable (PData cls fs) \<longleftrightarrow> False"
| "wireable (PNamespace fs) \<longleftrightarrow> False"
| "wireable _ \<longleftrightarrow> True"

text \<open>
  What the other side sees of a value: a dataclass instance as a namespace of its fields. A value
  is \<open>plain\<close> if it is a decimal, a value for the wire that is no dictionary with one of the two marks, or a dataclass
  instance with such fields, of different names. The code converts no items of lists and of dictionaries, so that a list of
  decimals is not plain.
\<close>

fun seen :: "pyval \<Rightarrow> pyval" where
  "seen (PData cls fs) = PNamespace (map (\<lambda>field. (fst field, seen (snd field))) fs)"
| "seen v = v"

fun plain :: "pyval \<Rightarrow> bool" where
  "plain (PData cls fs) \<longleftrightarrow>
     distinct (map fst fs) \<and> ''_is_dataclass'' \<notin> fst ` set fs \<and> ''__class__'' \<notin> fst ` set fs \<and>
     list_all (\<lambda>field. plain (snd field)) fs"
| "plain (PDict kvs) \<longleftrightarrow> wireable (PDict kvs) \<and> \<not> dict_truthy kvs ''_is_dataclass'' \<and> \<not> dict_truthy kvs ''_is_decimal''"
| "plain (PDecimal d) \<longleftrightarrow> True"
| "plain v \<longleftrightarrow> wireable v"

lemma dict_set_new: "k \<notin> fst ` set kvs \<Longrightarrow> dict_set k v kvs = kvs @ [(k, v)]"
  by (induction kvs) auto

lemma foldl_dict_set:
  "distinct (map fst fs) \<Longrightarrow> fst ` set fs \<inter> fst ` set d = {} \<Longrightarrow>
   foldl (\<lambda>ret (name, v). dict_set name v ret) d fs = d @ fs"
proof (induction fs arbitrary: d)
  case (Cons f fs)
  obtain k v where f: "f = (k, v)" by (cases f)
  have "dict_set k v d = d @ [(k, v)]" using Cons.prems f by (intro dict_set_new) auto
  moreover have "foldl (\<lambda>ret (name, v). dict_set name v ret) (d @ [(k, v)]) fs = (d @ [(k, v)]) @ fs"
    using Cons.prems f by (intro Cons.IH) auto
  ultimately show ?case by (simp add: f)
qed simp

lemma deserialize_fields_map:
  assumes "''_is_dataclass'' \<notin> fst ` set fs" "\<And>field. field \<in> set fs \<Longrightarrow> deserialize (g (snd field)) = Inr (h (snd field))"
  shows "deserialize_fields (map (\<lambda>field. (fst field, g (snd field))) fs) =
    Inr (map (\<lambda>field. (fst field, h (snd field))) fs)"
  using assms by (induction fs) auto

lemma deserialize_serialize: "plain v \<Longrightarrow> deserialize (serialize v) = Inr (seen v)"
proof (induction v rule: serialize.induct)
  case (1 cls fs)
  have "serialize (PData cls fs) =
      PDict ((''_is_dataclass'', PBool True) # map (\<lambda>field. (fst field, serialize (snd field))) fs)"
    using 1(2) foldl_dict_set[of "map (\<lambda>field. (fst field, serialize (snd field))) fs" "[(''_is_dataclass'', PBool True)]"]
    by (simp add: comp_def image_image)
  moreover have "deserialize_fields (map (\<lambda>field. (fst field, serialize (snd field))) fs) =
      Inr (map (\<lambda>field. (fst field, seen (snd field))) fs)"
    using 1 by (intro deserialize_fields_map) (auto simp: list_all_iff)
  ultimately show ?case by (simp add: dict_truthy_def)
next
  case (2 d)
  then show ?case by (simp add: dict_truthy_def parse_dec_str)
qed auto


lemma serialize_data:
  assumes "plain (PData cls fs)"
  shows "serialize (PData cls fs) = PDict ((''_is_dataclass'', PBool True) # map (\<lambda>field. (fst field, serialize (snd field))) fs)"
  using assms foldl_dict_set[of "map (\<lambda>field. (fst field, serialize (snd field))) fs" "[(''_is_dataclass'', PBool True)]"]
  by (simp add: comp_def image_image)

lemma wireable_serialize: "plain v \<Longrightarrow> wireable (serialize v)"
proof (induction v rule: serialize.induct)
  case (1 cls fs)
  then show ?case unfolding serialize_data[OF 1(2)] by (auto simp: comp_def image_image list_all_iff)
qed auto

section \<open>Asking the nodes\<close>

text \<open>
  The whole network: each URI has a node with its registered callbacks and its own state. What is relied on of Pyro: a call of
  \<open>answer\<close> whose arguments are values for the wire runs the method at the node, and if its result is a value for the wire too, that
  is what the call returns; a node that cannot be reached (\<open>lost\<close>) makes it a \<open>CommunicationError\<close>. Nothing is assumed of other calls.
\<close>

definition pyro_delivers ::
  "(string \<Rightarrow> ('s, 's callback) pyro_network) \<Rightarrow> string set \<Rightarrow>
   (string \<Rightarrow> string \<Rightarrow> (string \<times> pyval) list \<Rightarrow> (string \<Rightarrow> 's, pyval) prog) \<Rightarrow> bool" where
  "pyro_delivers nets lost call \<longleftrightarrow>
     (\<forall>uri question kwargs st.
        if uri \<in> lost then call uri question kwargs st = (Inl CommunicationError, st)
        else list_all (wireable \<circ> snd) kwargs \<longrightarrow>
          (case net_answer (nets uri) question kwargs (st uri) of
             (Inl e, s') \<Rightarrow> True
           | (Inr v, s') \<Rightarrow> wireable v \<longrightarrow> call uri question kwargs st = (Inr v, st(uri := s'))))"

text \<open>What a node contributes: the result of its callback on the arguments it sees, if any.\<close>

definition contribution ::
  "(string \<Rightarrow> ('s, 's callback) pyro_network) \<Rightarrow> string set \<Rightarrow> string \<Rightarrow> (string \<times> pyval) list \<Rightarrow> (string \<Rightarrow> 's) \<Rightarrow> string \<Rightarrow> pyval list" where
  "contribution nets lost question kwargs st uri =
     (if uri \<in> lost then [] else
      case nw_callbacks (nets uri) question of None \<Rightarrow> []
      | Some callback \<Rightarrow>
          (case fst (callback (map (\<lambda>(k, v). (k, seen v)) kwargs) (st uri)) of
             Inl e \<Rightarrow> [] | Inr v \<Rightarrow> if v = PNone then [] else [v]))"

lemma deserialize_kwargs_serialize:
  "list_all (plain \<circ> snd) kwargs \<Longrightarrow>
   deserialize_kwargs (serialize_kwargs kwargs) = Inr (map (\<lambda>(k, v). (k, seen v)) kwargs)"
  by (induction kwargs) (auto simp: serialize_kwargs_def deserialize_serialize)

lemma serialize_none [simp]: "serialize v = PNone \<longleftrightarrow> v = PNone"
  by (cases v) auto

lemma contribution_cases:
  obtains (none) "contribution nets lost question kwargs st uri = []"
  | (one) v where "contribution nets lost question kwargs st uri = [v]" "v \<noteq> PNone"
proof (cases "contribution nets lost question kwargs st uri")
  case (Cons v vs)
  then have "vs = []" "v \<noteq> PNone"
    by (auto simp: contribution_def split: if_splits option.splits sum.splits)
  with Cons show thesis by (intro one) simp_all
qed (rule none)

lemma net_answer_contribution:
  assumes "list_all (plain \<circ> snd) kwargs" "uri \<notin> lost"
  shows "fst (net_answer (nets uri) question (serialize_kwargs kwargs) (st uri)) =
    Inr (case contribution nets lost question kwargs st uri of [] \<Rightarrow> PNone | v # _ \<Rightarrow> serialize v)"
proof (cases "nw_callbacks (nets uri) question")
  case None
  then show ?thesis using assms(2) by (simp add: contribution_def net_answer_def deserialize_kwargs_serialize[OF assms(1)] run_bnd)
next
  case (Some callback)
  obtain r s' where c: "callback (map (\<lambda>(k, v). (k, seen v)) kwargs) (st uri) = (r, s')" by fastforce
  show ?thesis using assms(2) Some c
    by (cases r) (auto simp: run_catch contribution_def net_answer_def deserialize_kwargs_serialize[OF assms(1)] run_bnd)
qed

lemma delivered_call:
  assumes "pyro_delivers nets lost call" "list_all (plain \<circ> snd) kwargs"
    and "\<forall>v \<in> set (contribution nets lost question kwargs st uri). plain v"
  shows "\<exists>st'. catch (call uri question (serialize_kwargs kwargs))
       (\<lambda>e. if e = CommunicationError then ok PNone else throw e) st =
     (Inr (case contribution nets lost question kwargs st uri of [] \<Rightarrow> PNone | v # _ \<Rightarrow> serialize v), st') \<and>
     (\<forall>p. p \<noteq> uri \<longrightarrow> st' p = st p)"
proof (cases "uri \<in> lost")
  case True
  then have "call uri question (serialize_kwargs kwargs) st = (Inl CommunicationError, st)"
    using assms(1) by (simp add: pyro_delivers_def)
  then show ?thesis using True by (simp add: run_catch contribution_def)
next
  case False
  let ?v = "case contribution nets lost question kwargs st uri of [] \<Rightarrow> PNone | v # _ \<Rightarrow> serialize v"
  obtain s' where a: "net_answer (nets uri) question (serialize_kwargs kwargs) (st uri) = (Inr ?v, s')"
    using net_answer_contribution[OF assms(2) False, of nets question st] by (metis prod.collapse)
  have args: "list_all (wireable \<circ> snd) (serialize_kwargs kwargs)"
    using assms(2) by (auto simp: serialize_kwargs_def list_all_iff wireable_serialize)
  have "wireable ?v"
    using assms(3) by (cases rule: contribution_cases[of nets lost question kwargs st uri]) (simp_all add: wireable_serialize)
  then have "call uri question (serialize_kwargs kwargs) st = (Inr ?v, st(uri := s'))"
    using assms(1)[unfolded pyro_delivers_def, THEN spec, THEN spec, THEN spec, THEN spec, of uri question "serialize_kwargs kwargs" st]
      False args a by simp
  then show ?thesis by (simp add: run_catch)
qed

lemma ask_peers_gathers:
  assumes delivers: "pyro_delivers nets lost call" and args: "list_all (plain \<circ> snd) kwargs" and "distinct peers"
    and "\<forall>uri \<in> set peers. \<forall>v \<in> set (contribution nets lost question kwargs st uri). plain v"
  shows "\<exists>st'. ask_peers (\<lambda>uri. call uri question (serialize_kwargs kwargs)) peers answers st =
      (Inr (answers @ map seen (concat (map (contribution nets lost question kwargs st) peers))), st') \<and>
    (\<forall>p. p \<notin> set peers \<longrightarrow> st' p = st p)"
  using assms(3,4)
proof (induction peers arbitrary: answers st)
  case (Cons uri peers)
  let ?c = "contribution nets lost question kwargs st uri"
  obtain st1 where called: "catch (call uri question (serialize_kwargs kwargs))
       (\<lambda>e. if e = CommunicationError then ok PNone else throw e) st =
     (Inr (case ?c of [] \<Rightarrow> PNone | v # _ \<Rightarrow> serialize v), st1)"
    and st1: "\<forall>p. p \<noteq> uri \<longrightarrow> st1 p = st p"
    using delivered_call[OF delivers args, of question st uri] Cons.prems(2) by auto
  have others: "contribution nets lost question kwargs st1 p = contribution nets lost question kwargs st p"
    if "p \<in> set peers" for p
  proof -
    from that Cons.prems(1) st1 have "st1 p = st p" by auto
    then show ?thesis by (simp only: contribution_def)
  qed
  then have same: "map (contribution nets lost question kwargs st1) peers = map (contribution nets lost question kwargs st) peers"
    by simp
  have "\<forall>uri \<in> set peers. \<forall>v \<in> set (contribution nets lost question kwargs st1 uri). plain v"
    using Cons.prems(2) others by simp
  then obtain st' where st': "ask_peers (\<lambda>uri. call uri question (serialize_kwargs kwargs)) peers (answers @ map seen ?c) st1 =
      (Inr ((answers @ map seen ?c) @ map seen (concat (map (contribution nets lost question kwargs st) peers))), st')"
      "\<forall>p. p \<notin> set peers \<longrightarrow> st' p = st1 p"
    using Cons.IH[of st1 "answers @ map seen ?c"] Cons.prems(1) unfolding same by auto
  have "ask_peers (\<lambda>uri. call uri question (serialize_kwargs kwargs)) (uri # peers) answers st =
      ask_peers (\<lambda>uri. call uri question (serialize_kwargs kwargs)) peers (answers @ map seen ?c) st1"
  proof (cases rule: contribution_cases[of nets lost question kwargs st uri])
    case none
    then show ?thesis using called by (simp add: run_bnd)
  next
    case (one v)
    then have "plain v" using Cons.prems(2) by simp
    then show ?thesis using called one by (simp add: run_bnd deserialize_serialize)
  qed
  with st' st1 show ?case by (intro exI[of _ st']) auto
qed simp

text \<open>
  C18. Asking a question returns, in the order of the configured peers, exactly the results of the
  nodes that can be reached, have registered the question and whose callback returned something,
  each run on the arguments that were given; values arrive as they were sent, but for dataclass
  instances arriving as namespaces. No other node takes part, and a callback that fails only
  leaves out its answer. This is for arguments and results that are plain, over calls that deliver what Pyro promises to deliver.
\<close>

theorem ask_gathers_answers:
  assumes "pyro_delivers nets lost call" "list_all (plain \<circ> snd) kwargs" "distinct (get_peers nw)"
    and "\<forall>uri \<in> set (get_peers nw). \<forall>v \<in> set (contribution nets lost question kwargs st uri). plain v"
  shows "\<exists>st'. ask nw call question kwargs st =
      (Inr (map seen (concat (map (contribution nets lost question kwargs st) (get_peers nw)))), st') \<and>
    (\<forall>p. p \<notin> set (get_peers nw) \<longrightarrow> st' p = st p)"
  using ask_peers_gathers[OF assms, of "[]"] by (simp add: ask_def)

text \<open>
  One peer can keep a question from being answered at all: an answer that cannot be read back,
  such as a decimal without a value, raises in the asking node, whatever the peers before it have
  answered and without asking those after it.
\<close>

theorem one_answer_aborts_ask:
  assumes "get_peers nw = before @ peer # after" "\<forall>p \<in> set before. \<exists>a. call p question (serialize_kwargs kwargs) st = (Inr a, st) \<and> (\<exists>v. deserialize a = Inr v)"
    and "call peer question (serialize_kwargs kwargs) st = (Inr (PDict [(''_is_decimal'', PBool True)]), st)"
  shows "ask nw call question kwargs st = (Inl KeyError, st)"
proof -
  have "ask_peers (\<lambda>p. call p question (serialize_kwargs kwargs)) (before @ peer # after) answers st = (Inl KeyError, st)"
    for answers using assms(2)
  proof (induction before arbitrary: answers)
    case Nil
    show ?case using assms(3) by (simp add: run_bnd run_catch dict_truthy_def)
  next
    case (Cons p ps)
    then show ?case by (auto simp: run_bnd run_catch)
  qed
  then show ?thesis by (simp add: ask_def assms(1))
qed


section \<open>An example\<close>

text \<open>
  Four nodes: \<open>a\<close> asks, \<open>b\<close> answers with a dataclass and counts, \<open>c\<close> has not registered the question, \<open>d\<close> cannot be reached.
\<close>

definition example_network :: "string \<Rightarrow> (nat, nat callback) pyro_network" where
  "example_network uri =
     \<lparr>nw_node_id = (if uri = ''PYRO:b@h:2'' then ''b'' else if uri = ''PYRO:c@h:3'' then ''c'' else ''a''),
      nw_leader_node_id = Some ''a'', nw_uri = uri, nw_peers = [(''a'', ''h:1''), (''b'', ''h:2''), (''c'', ''h:3''), (''d'', ''h:4'')],
      nw_callbacks = (if uri = ''PYRO:b@h:2''
        then [''q'' \<mapsto> (\<lambda>kwargs n. (Inr (PData ''Answer'' [(''n'', PInt (int n)), (''fee'', PDecimal (Dec 4 (-1)))]), n + 1))]
        else Map.empty),
      nw_listeners = [], nw_running = True\<rparr>"

lemma example_peers: "get_peers (example_network ''PYRO:a@h:1'') = [''PYRO:b@h:2'', ''PYRO:c@h:3'', ''PYRO:d@h:4'']"
  by (simp add: get_peers_def example_network_def get_peer_uri_def)

text \<open>A wire that delivers to everybody but \<open>d\<close>, and turns what it is not made for into a string.\<close>

definition example_call :: "string \<Rightarrow> string \<Rightarrow> (string \<times> pyval) list \<Rightarrow> (string \<Rightarrow> nat, pyval) prog" where
  "example_call uri question kwargs st =
     (if uri = ''PYRO:d@h:4'' then (Inl CommunicationError, st)
      else case net_answer (example_network uri) question (map (\<lambda>(k, v). (k, if wireable v then v else PStr ''?'')) kwargs) (st uri) of
        (Inl e, s') \<Rightarrow> (Inl e, st(uri := s'))
      | (Inr v, s') \<Rightarrow> (Inr (if wireable v then v else PStr ''?''), st(uri := s')))"

lemma example_delivers: "pyro_delivers example_network {''PYRO:d@h:4''} example_call"
proof -
  have "map (\<lambda>(k, v). (k, if wireable v then v else PStr ''?'')) kwargs = kwargs" if "list_all (wireable \<circ> snd) kwargs" for kwargs :: "(string \<times> pyval) list"
    using that by (induction kwargs) auto
  then show ?thesis by (auto simp: pyro_delivers_def example_call_def split: prod.splits sum.splits)
qed

theorem ask_gathers_answers_witness:
  "\<exists>st'. ask (example_network ''PYRO:a@h:1'') example_call ''q'' [(''message'', PInt 5)] (\<lambda>_. 7) =
      (Inr [PNamespace [(''n'', PInt 7), (''fee'', PDecimal (Dec 4 (-1)))]], st')"
proof -
  have c: "contribution example_network {''PYRO:d@h:4''} ''q'' [(''message'', PInt 5)] (\<lambda>_. 7) ''PYRO:b@h:2'' =
        [PData ''Answer'' [(''n'', PInt 7), (''fee'', PDecimal (Dec 4 (-1)))]]"
      "contribution example_network {''PYRO:d@h:4''} ''q'' [(''message'', PInt 5)] (\<lambda>_. 7) ''PYRO:c@h:3'' = []"
      "contribution example_network {''PYRO:d@h:4''} ''q'' [(''message'', PInt 5)] (\<lambda>_. 7) ''PYRO:d@h:4'' = []"
    by (simp_all add: contribution_def example_network_def)
  have "distinct (get_peers (example_network ''PYRO:a@h:1''))" by (simp add: example_peers)
  moreover have "\<forall>uri \<in> set (get_peers (example_network ''PYRO:a@h:1'')).
      \<forall>v \<in> set (contribution example_network {''PYRO:d@h:4''} ''q'' [(''message'', PInt 5)] (\<lambda>_. 7) uri). plain v"
    by (simp add: example_peers c)
  ultimately show ?thesis
    using ask_gathers_answers[OF example_delivers, of "[(''message'', PInt 5)]" "example_network ''PYRO:a@h:1''" "''q''" "\<lambda>_. 7"]
    by (auto simp: example_peers c)
qed

theorem one_answer_aborts_ask_witness:
  "ask (example_network ''PYRO:a@h:1'')
     (\<lambda>peer question kwargs st. (Inr (if peer = ''PYRO:b@h:2'' then PInt 1 else PDict [(''_is_decimal'', PBool True)]), st))
     ''q'' [] () = (Inl KeyError, ())"
  by (rule one_answer_aborts_ask[where before = "[''PYRO:b@h:2'']" and peer = "''PYRO:c@h:3''" and after = "[''PYRO:d@h:4'']"])
     (simp_all add: example_peers)

end
