(* ===== verification/Handshake.thy ===== *)
theory Handshake
  imports Network Py_Float
begin

text \<open>
  Who a node talks to, from \<^verbatim>\<open>bridge_node/bridge/common/p2p/auth/challenge.py\<close> and
  \<^verbatim>\<open>bridge_ssl.py\<close>: the signed challenge over the binding of a TLS channel and a timestamp, its
  validation against the addresses of the federators, and the cache of these addresses.
  Signing and recovering (\<open>eth_account\<close>) are parameters. Clock readings are arguments, one for
  every call of the clock, as seconds; the zone of local time is taken to be UTC.
\<close>

section \<open>The challenge\<close>

definition hex_digit :: "nat \<Rightarrow> char" where
  "hex_digit n = ''0123456789abcdef'' ! n"

definition bytes_hex :: "nat list \<Rightarrow> string" where
  "bytes_hex bs = concat (map (\<lambda>b. [hex_digit (b div 16), hex_digit (b mod 16)]) bs)"

text \<open>\<open>struct.pack(">Q", n)\<close>.\<close>

definition pack_q :: "int \<Rightarrow> exn + nat list" where
  "pack_q n = (if n < 0 \<or> n \<ge> 2 ^ 64 then Inl (External ''struct.error'')
     else Inr (map (\<lambda>i. nat (n div 256 ^ (7 - i) mod 256)) [0..<8]))"

definition encode_binding_and_timestamp :: "nat list \<Rightarrow> int \<Rightarrow> exn + nat list" where
  "encode_binding_and_timestamp binding timestamp = rbind (pack_q timestamp) (\<lambda>packed. Inr (binding @ packed))"

text \<open>What \<open>eth_account\<close> does: the hash and the signature of a message, and the address recovered.\<close>

record eth_account =
  ea_hash :: "nat list \<Rightarrow> string"
  ea_sign :: "string \<Rightarrow> nat list \<Rightarrow> string"
  ea_recover :: "nat list \<Rightarrow> pyval \<Rightarrow> exn + string"

definition get_signed_handshake_message ::
  "eth_account \<Rightarrow> rat \<Rightarrow> nat list \<Rightarrow> string \<Rightarrow> exn + string \<times> string" where
  "get_signed_handshake_message ea now binding privkey =
     rbind (encode_binding_and_timestamp binding (f_int now)) (\<lambda>encoded.
     Inr (ea_hash ea encoded, ea_sign ea privkey encoded))"

definition initial_challenge ::
  "eth_account \<Rightarrow> rat \<Rightarrow> rat \<Rightarrow> nat list \<Rightarrow> string \<Rightarrow> exn + pyval" where
  "initial_challenge ea now now' binding privkey =
     rbind (get_signed_handshake_message ea now binding privkey) (\<lambda>(hash, signature).
     Inr (PDict [(''binding'', PStr (bytes_hex binding)), (''timestamp'', PInt (f_int now')),
                 (''hash'', PStr hash), (''signature'', PStr signature)]))"

text \<open>\<open>data[k]\<close> with a string for \<open>k\<close>.\<close>

fun item :: "pyval \<Rightarrow> string \<Rightarrow> exn + pyval" where
  "item (PDict kvs) k = (case map_of kvs k of None \<Rightarrow> Inl KeyError | Some v \<Rightarrow> Inr v)"
| "item _ k = Inl TypeError"

text \<open>\<open>datetime.fromtimestamp\<close> takes the years 1 to 9999.\<close>

fun from_timestamp :: "pyval \<Rightarrow> exn + int" where
  "from_timestamp (PInt n) = (if - 62135596800 \<le> n \<and> n \<le> 253402300799 then Inr n else Inl ValueError)"
| "from_timestamp (PBool b) = Inr (of_bool b)"
| "from_timestamp _ = Inl TypeError"

definition validate_message ::
  "eth_account \<Rightarrow> rat \<Rightarrow> pyval \<Rightarrow> nat list \<Rightarrow> string list \<Rightarrow> exn + unit" where
  "validate_message ea now data expected_binding valid_addresses =
     rbind (item data ''binding'') (\<lambda>binding.
     if binding \<noteq> PStr (bytes_hex expected_binding) then Inl CommunicationError else
     rbind (item data ''timestamp'') (\<lambda>t.
     rbind (from_timestamp t) (\<lambda>timestamp.
     if of_int timestamp - now > 60 then Inl CommunicationError else
     rbind (encode_binding_and_timestamp expected_binding timestamp) (\<lambda>expected_message.
     rbind (item data ''signature'') (\<lambda>signature.
     rbind (ea_recover ea expected_message signature) (\<lambda>recovered.
     if recovered \<notin> set valid_addresses then Inl SecurityError else Inr ()))))))"

section \<open>The addresses of the federators\<close>

record address_cache =
  ac_cached_peer_addresses :: "string list option"
  ac_cached_timestamp :: rat

definition refetch_interval :: rat where
  "refetch_interval = 60"

text \<open>\<open>now\<close> and \<open>now'\<close> are the readings before and after fetching.\<close>

definition get_peer_addresses ::
  "rat \<Rightarrow> rat \<Rightarrow> exn + string list \<Rightarrow> (address_cache, string list) prog" where
  "get_peer_addresses now now' fetched =
     bnd (reads ac_cached_peer_addresses) (\<lambda>cached.
     bnd (reads ac_cached_timestamp) (\<lambda>timestamp.
     case cached of
       Some addresses \<Rightarrow>
         if now - timestamp < refetch_interval then ok addresses
         else bnd (lift_res fetched) (\<lambda>addresses.
              sq (modify (\<lambda>c. c\<lparr>ac_cached_peer_addresses := Some addresses, ac_cached_timestamp := now'\<rparr>))
                 (ok addresses))
     | None \<Rightarrow> bnd (lift_res fetched) (\<lambda>addresses.
              sq (modify (\<lambda>c. c\<lparr>ac_cached_peer_addresses := Some addresses, ac_cached_timestamp := now'\<rparr>))
                 (ok addresses))))"

text \<open>The server's side of the handshake; \<open>t i\<close> is the i-th reading of the clock.\<close>

definition validate_handshake ::
  "eth_account \<Rightarrow> string \<Rightarrow> (nat \<Rightarrow> rat) \<Rightarrow> exn + string list \<Rightarrow> nat list \<Rightarrow> pyval \<Rightarrow> (address_cache, pyval) prog" where
  "validate_handshake ea privkey t fetched binding data =
     bnd (get_peer_addresses (t 0) (t 1) fetched) (\<lambda>addresses.
     sq (lift_res (validate_message ea (t 2) data binding addresses))
    (bnd (lift_res (get_signed_handshake_message ea (t 3) binding privkey)) (\<lambda>(hash, signature).
     ok (PDict [(''binding'', PStr (bytes_hex binding)), (''timestamp'', PInt (f_int (t 4))),
                (''message'', PStr hash), (''signature'', PStr signature)]))))"

section \<open>Validation\<close>

text \<open>The content that a node signs tells the timestamp apart, and the binding if its length is known.\<close>

lemma pack_q_length: "pack_q n = Inr bs \<Longrightarrow> length bs = 8"
  by (auto simp: pack_q_def split: if_splits)

lemma pack_q_inj:
  assumes "pack_q m = Inr bs" "pack_q n = Inr bs"
  shows "m = n"
proof -
  have m: "0 \<le> m" "m < 2 ^ 64" "bs = map (\<lambda>i. nat (m div 256 ^ (7 - i) mod 256)) [0..<8]"
    and n: "0 \<le> n" "n < 2 ^ 64" "bs = map (\<lambda>i. nat (n div 256 ^ (7 - i) mod 256)) [0..<8]"
    using assms by (auto simp: pack_q_def split: if_splits)
  have digit: "m div 256 ^ j mod 256 = n div 256 ^ j mod 256" if "j < 8" for j
  proof -
    have "nat (m div 256 ^ (7 - (7 - j)) mod 256) = nat (n div 256 ^ (7 - (7 - j)) mod 256)"
    proof -
      have "\<forall>i \<in> {0..<8}. nat (m div 256 ^ (7 - i) mod 256) = nat (n div 256 ^ (7 - i) mod 256)"
        using m(3) n(3) by simp
      from bspec[OF this, of "7 - j"] show ?thesis by simp
    qed
    then show ?thesis using that by (simp add: eq_nat_nat_iff)
  qed
  have "m mod 256 ^ j = n mod 256 ^ j" if "j \<le> 8" for j
    using that
  proof (induction j)
    case (Suc j)
    have "k mod 256 ^ Suc j = 256 ^ j * (k div 256 ^ j mod 256) + k mod 256 ^ j" for k :: int
      by (simp only: power_Suc2 zmod_zmult2_eq zero_le_power zero_le_numeral)
    then show ?case using Suc digit[of j] by simp
  qed simp
  from this[of 8] show ?thesis using m(1,2) n(1,2) by simp
qed

lemma encode_inj:
  assumes "encode_binding_and_timestamp b m = Inr c" "encode_binding_and_timestamp b' n = Inr c"
  shows "b = b' \<and> m = n"
proof -
  obtain p q where p: "pack_q m = Inr p" "c = b @ p" "pack_q n = Inr q" "c = b' @ q"
    using assms by (auto simp: encode_binding_and_timestamp_def rbind_eq_Inr)
  moreover have "length p = 8" "length q = 8" using p pack_q_length by blast+
  ultimately have "b = b'" "p = q" by (metis append_eq_append_conv)+
  then show ?thesis using p pack_q_inj by blast
qed

lemma guard_eq_Inr: "(if b then Inl e else r) = Inr x \<longleftrightarrow> \<not> b \<and> r = Inr x"
  by simp

lemma validate_message_cases:
  "validate_message ea now data binding addresses = Inr () \<longleftrightarrow>
     (\<exists>t timestamp content signature signer.
        item data ''binding'' = Inr (PStr (bytes_hex binding)) \<and>
        item data ''timestamp'' = Inr t \<and> from_timestamp t = Inr timestamp \<and> of_int timestamp \<le> now + 60 \<and>
        encode_binding_and_timestamp binding timestamp = Inr content \<and>
        item data ''signature'' = Inr signature \<and>
        ea_recover ea content signature = Inr signer \<and> signer \<in> set addresses)"
  unfolding validate_message_def rbind_eq_Inr guard_eq_Inr
  by (auto simp: not_less algebra_simps)

text \<open>
  When a handshake is accepted: exactly if it names the binding of this very channel, its
  timestamp is not more than a minute ahead, and its signature, over this binding and this
  timestamp, is one of a federator.
\<close>

theorem validate_message_iff:
  "validate_message ea now data binding addresses = Inr () \<longleftrightarrow>
     (\<exists>t timestamp content signature signer.
        item data ''binding'' = Inr (PStr (bytes_hex binding)) \<and>
        item data ''timestamp'' = Inr t \<and> from_timestamp t = Inr timestamp \<and> of_int timestamp \<le> now + 60 \<and>
        encode_binding_and_timestamp binding timestamp = Inr content \<and>
        item data ''signature'' = Inr signature \<and>
        ea_recover ea content signature = Inr signer \<and> signer \<in> set addresses)"
  by (rule validate_message_cases)

text \<open>
  A handshake never becomes stale: the check that a timestamp is stale only refuses those
  that are ahead of the clock, so that what is accepted once is accepted at any time later.
\<close>

theorem accepted_handshake_never_stale:
  assumes "validate_message ea now data binding addresses = Inr ()" "now \<le> later"
  shows "validate_message ea later data binding addresses = Inr ()"
  using assms unfolding validate_message_cases by (meson add_right_mono order_trans)


definition example_account :: eth_account where
  "example_account = \<lparr>ea_hash = (\<lambda>content. bytes_hex content), ea_sign = (\<lambda>key content. key @ bytes_hex content),
     ea_recover = (\<lambda>content signature. Inr (if signature = PStr (''k'' @ bytes_hex content) then ''fed'' else ''other''))\<rparr>"

lemma example_challenge:
  "initial_challenge example_account 1000 1000 [3, 4] ''k'' =
   Inr (PDict [(''binding'', PStr ''0304''), (''timestamp'', PInt 1000), (''hash'', PStr ''030400000000000003e8''),
     (''signature'', PStr ''k030400000000000003e8'')])"
  by (simp add: initial_challenge_def get_signed_handshake_message_def encode_binding_and_timestamp_def pack_q_def
      f_int_def example_account_def bytes_hex_def hex_digit_def upt_rec)

text \<open>A challenge of the year 1970, accepted ten years later.\<close>

theorem accepted_handshake_never_stale_witness:
  "validate_message example_account 315360000 (projr (initial_challenge example_account 1000 1000 [3, 4] ''k''))
     [3, 4] [''fed''] = Inr ()"
proof (rule accepted_handshake_never_stale[where now = 1000])
  show "validate_message example_account 1000 (projr (initial_challenge example_account 1000 1000 [3, 4] ''k''))
     [3, 4] [''fed''] = Inr ()"
    unfolding example_challenge by (simp add: validate_message_def encode_binding_and_timestamp_def pack_q_def
      example_account_def bytes_hex_def hex_digit_def upt_rec)
qed simp

end
