(* ===== verification/Proxy.thy ===== *)
theory Proxy
  imports Handshake "HOL-Library.Word"
begin

unbundle bit_operations_syntax

text \<open>
  The proxy for a remote object, from \<^verbatim>\<open>bridge_node/bridge/common/p2p/client.py\<close>, a fork of Pyro5's
  client to which the signed challenge has been added. Modelled are the connection with its
  handshake, the metadata, calls with their sequence numbers, and the cache of addresses; sockets
  and the Pyro5 library below are a parameter. Pyro's subclasses of \<open>CommunicationError\<close> are that
  exception. Pickling, copying, blobs of serialised data, batches, timeouts and iteration are not modelled.
\<close>

section \<open>The wire\<close>

datatype connect_type = CONNECTOK | CONNECTFAIL | OtherMessage

record remote_metadata =
  rm_oneway :: "string set"
  rm_methods :: "string set"
  rm_attrs :: "string set"

record connect_reply =
  cr_type :: connect_type
  cr_metadata :: "remote_metadata option"
  cr_handshake :: pyval

text \<open>A result message: its sequence number, whether its serializer is the expected one, what reading its data
  raises if it cannot be read, the id of a stream of results, the result or the exception that it holds.\<close>

record invoke_reply =
  ir_seq :: "16 word"
  ir_serializer_ok :: bool
  ir_unreadable :: "exn option"
  ir_stream :: "string option"
  ir_data :: "exn + pyval"

datatype invoke_result = NoResponse | RawResponse invoke_reply | StreamResult string | Data pyval

text \<open>
  \<open>wi_open\<close> makes the socket; \<open>wi_connect\<close> sends the connect message and receives its reply;
  \<open>wi_send\<close> sends the request for a method, \<open>wi_receive\<close> receives the reply; \<open>wi_metadata\<close> is
  the answer of the daemon to \<open>get_metadata\<close> with its sequence number.
\<close>

record 'c wire =
  wi_ssl :: bool
  wi_resolve :: "string \<Rightarrow> exn + string"
  wi_open :: "string \<Rightarrow> exn + 'c"
  wi_binding :: "'c \<Rightarrow> nat list"
  wi_connect :: "'c \<Rightarrow> pyval \<Rightarrow> exn + connect_reply"
  wi_send :: "'c \<Rightarrow> 16 word \<Rightarrow> string \<Rightarrow> (string \<times> pyval) list \<Rightarrow> exn + unit"
  wi_receive :: "'c \<Rightarrow> 16 word \<Rightarrow> string \<Rightarrow> (string \<times> pyval) list \<Rightarrow> exn + invoke_reply"
  wi_metadata :: "'c \<Rightarrow> exn + remote_metadata option"
  wi_account :: eth_account
  wi_clock :: "nat \<Rightarrow> rat"
  wi_fetch_peer_addresses :: "exn + string list"

record 'c proxy = address_cache +
  px_uri :: string
  px_connection :: "'c option"
  px_methods :: "string set"
  px_attrs :: "string set"
  px_oneway :: "string set"
  px_seq :: "16 word"
  px_raw_wire_response :: bool
  px_handshake :: pyval
  px_privkey :: string
  px_owner :: nat

definition proxy_init :: "nat \<Rightarrow> string \<Rightarrow> string \<Rightarrow> 'c proxy" where
  "proxy_init thread uri privkey =
     \<lparr>ac_cached_peer_addresses = None, ac_cached_timestamp = 0, px_uri = uri, px_connection = None,
      px_methods = {}, px_attrs = {}, px_oneway = {}, px_seq = 0, px_raw_wire_response = False,
      px_handshake = PStr ''hello'', px_privkey = privkey, px_owner = thread\<rparr>"

section \<open>Ownership and release\<close>

definition check_owner :: "nat \<Rightarrow> ('c proxy, unit) prog" where
  "check_owner thread = bnd (reads px_owner) (\<lambda>owner. demand (thread = owner) (External ''PyroError''))"

definition claim_ownership :: "nat \<Rightarrow> ('c proxy, unit) prog" where
  "claim_ownership thread = modify (\<lambda>p. if thread \<noteq> px_owner p then p\<lparr>px_owner := thread\<rparr> else p)"

definition proxy_release :: "nat \<Rightarrow> ('c proxy, unit) prog" where
  "proxy_release thread = sq (check_owner thread)
     (modify (\<lambda>p. if px_connection p \<noteq> None then p\<lparr>px_connection := None\<rparr> else p))"

section \<open>Connecting\<close>

definition process_metadata :: "remote_metadata option \<Rightarrow> ('c proxy, unit) prog" where
  "process_metadata metadata =
     (case metadata of None \<Rightarrow> ok ()
      | Some m \<Rightarrow>
          sq (modify (\<lambda>p. p\<lparr>px_oneway := rm_oneway m, px_methods := rm_methods m, px_attrs := rm_attrs m\<rparr>))
             (demand (rm_methods m \<noteq> {} \<or> rm_attrs m \<noteq> {}) (External ''PyroError'')))"

text \<open>The proxy's own copy of \<open>get_peer_addresses\<close>; the clock is read before and after fetching.\<close>

definition proxy_get_peer_addresses :: "'c wire \<Rightarrow> ('c proxy, string list) prog" where
  "proxy_get_peer_addresses wi =
     bnd (reads ac_cached_peer_addresses) (\<lambda>cached.
     bnd (reads ac_cached_timestamp) (\<lambda>timestamp.
     if cached \<noteq> None \<and> wi_clock wi 2 - timestamp < refetch_interval then ok (the cached)
     else bnd (lift_res (wi_fetch_peer_addresses wi)) (\<lambda>addresses.
          sq (modify (\<lambda>p. p\<lparr>ac_cached_peer_addresses := Some addresses, ac_cached_timestamp := wi_clock wi 3\<rparr>))
             (ok addresses))))"

definition proxy_validate_handshake :: "'c wire \<Rightarrow> 'c \<Rightarrow> pyval \<Rightarrow> ('c proxy, unit) prog" where
  "proxy_validate_handshake wi conn response =
     (if wi_ssl wi
      then bnd (proxy_get_peer_addresses wi) (\<lambda>addresses.
           lift_res (validate_message (wi_account wi) (wi_clock wi 4) response (wi_binding wi conn) addresses))
      else ok ())"

text \<open>The \<open>try\<close> block: any exception ends as a \<open>CommunicationError\<close>.\<close>

definition connect_message :: "'c wire \<Rightarrow> string \<Rightarrow> ('c proxy, 'c \<times> connect_reply) prog" where
  "connect_message wi uri = catch
     (bnd (lift_res (wi_open wi uri)) (\<lambda>conn.
      bnd (reads px_handshake) (\<lambda>hello.
      bnd (reads px_privkey) (\<lambda>privkey.
      bnd (if wi_ssl wi
           then lift_res (initial_challenge (wi_account wi) (wi_clock wi 0) (wi_clock wi 1) (wi_binding wi conn) privkey)
           else ok hello) (\<lambda>handshake.
      bnd (lift_res (wi_connect wi conn (PDict [(''handshake'', handshake), (''object'', PStr uri)]))) (\<lambda>msg.
      ok (conn, msg)))))))
     (\<lambda>x. throw CommunicationError)"

text \<open>The \<open>else\<close> block: the connection is the proxy's before its handshake is validated.\<close>

definition connect_and_handshake :: "'c wire \<Rightarrow> string \<Rightarrow> bool \<Rightarrow> ('c proxy, unit) prog" where
  "connect_and_handshake wi uri replace_uri =
     bnd (connect_message wi uri) (\<lambda>(conn, msg).
     case cr_type msg of
       CONNECTFAIL \<Rightarrow> throw CommunicationError
     | CONNECTOK \<Rightarrow>
         sq (process_metadata (cr_metadata msg))
        (sq (modify (\<lambda>p. p\<lparr>px_connection := Some conn\<rparr>))
        (sq (modify (\<lambda>p. if replace_uri then p\<lparr>px_uri := uri\<rparr> else p))
            (proxy_validate_handshake wi conn (cr_handshake msg))))
     | OtherMessage \<Rightarrow> throw CommunicationError)"

section \<open>Calls\<close>

text \<open>A call on the connection that is there: a \<open>CommunicationError\<close> releases it.\<close>

definition next_sequence :: "('c proxy, 16 word) prog" where
  "next_sequence = sq (modify (\<lambda>p. p\<lparr>px_seq := (px_seq p + 1) AND 0xFFFF\<rparr>)) (reads px_seq)"

definition check_sequence :: "16 word \<Rightarrow> ('c proxy, unit) prog" where
  "check_sequence seq = bnd (reads px_seq) (\<lambda>expected. demand (seq = expected) CommunicationError)"

definition invoke_connected ::
  "'c wire \<Rightarrow> nat \<Rightarrow> 'c \<Rightarrow> string \<Rightarrow> (string \<times> pyval) list \<Rightarrow> ('c proxy, invoke_result) prog" where
  "invoke_connected wi thread conn methodname kwargs =
     bnd next_sequence (\<lambda>seq.
     bnd (reads px_oneway) (\<lambda>oneway.
     bnd (reads px_raw_wire_response) (\<lambda>raw.
     catch
       (sq (lift_res (wi_send wi conn seq methodname kwargs))
       (if methodname \<in> oneway then ok NoResponse else
        bnd (lift_res (wi_receive wi conn seq methodname kwargs)) (\<lambda>msg.
        sq (check_sequence (ir_seq msg))
       (sq (demand (ir_serializer_ok msg) CommunicationError)
       (if raw then ok (RawResponse msg) else
        case ir_unreadable msg of Some e \<Rightarrow> throw e | None \<Rightarrow>
       (case ir_stream msg of
          Some stream_id \<Rightarrow> if stream_id = [] then throw CommunicationError else ok (StreamResult stream_id)
        | None \<Rightarrow> (case ir_data msg of Inl e \<Rightarrow> throw e | Inr v \<Rightarrow> ok (Data v))))))))
       (\<lambda>e. if e = CommunicationError then sq (proxy_release thread) (throw e) else throw e))))"

text \<open>The metadata of a connected proxy: one call to the daemon.\<close>

definition get_metadata_connected :: "'c wire \<Rightarrow> nat \<Rightarrow> 'c \<Rightarrow> ('c proxy, unit) prog" where
  "get_metadata_connected wi thread conn =
     sq (check_owner thread)
    (sq next_sequence
    (bnd (catch (lift_res (wi_metadata wi conn))
            (\<lambda>e. if e = CommunicationError then sq (proxy_release thread) (throw e) else throw e)) process_metadata))"

definition create_connection :: "'c wire \<Rightarrow> nat \<Rightarrow> bool \<Rightarrow> ('c proxy, bool) prog" where
  "create_connection wi thread replace_uri =
     sq (check_owner thread)
    (bnd (reads px_connection) (\<lambda>connection.
     if connection \<noteq> None then ok False else
     bnd (reads px_uri) (\<lambda>px_uri.
     bnd (lift_res (wi_resolve wi px_uri)) (\<lambda>uri.
     sq (connect_and_handshake wi uri replace_uri)
    (bnd (reads px_connection) (\<lambda>connection.
     bnd (reads (\<lambda>p. px_methods p = {} \<and> px_attrs p = {})) (\<lambda>unknown.
     sq (case connection of Some conn \<Rightarrow> if unknown then get_metadata_connected wi thread conn else ok ()
         | None \<Rightarrow> ok ())
        (ok True))))))))"

definition get_metadata :: "'c wire \<Rightarrow> nat \<Rightarrow> ('c proxy, unit) prog" where
  "get_metadata wi thread =
     bnd (reads px_connection) (\<lambda>connection.
     case connection of
       None \<Rightarrow>
         sq (create_connection wi thread False)
        (bnd (reads px_connection) (\<lambda>connection.
         bnd (reads (\<lambda>p. px_methods p = {} \<and> px_attrs p = {})) (\<lambda>unknown.
         case connection of Some conn \<Rightarrow> if unknown then get_metadata_connected wi thread conn else ok ()
         | None \<Rightarrow> ok ())))
     | Some conn \<Rightarrow> get_metadata_connected wi thread conn)"

definition invoke :: "'c wire \<Rightarrow> nat \<Rightarrow> string \<Rightarrow> (string \<times> pyval) list \<Rightarrow> ('c proxy, invoke_result) prog" where
  "invoke wi thread methodname kwargs =
     sq (check_owner thread)
    (bnd (reads px_connection) (\<lambda>connection.
     sq (if connection = None then sq (create_connection wi thread False) (ok ()) else ok ())
    (bnd (reads px_connection) (\<lambda>connection.
     case connection of None \<Rightarrow> throw AttributeError
     | Some conn \<Rightarrow> invoke_connected wi thread conn methodname kwargs))))"

text \<open>\<open>proxy.name(**kwargs)\<close> for a name that is not one of the proxy's own; calls are not retried.\<close>

definition call_method :: "'c wire \<Rightarrow> nat \<Rightarrow> string \<Rightarrow> (string \<times> pyval) list \<Rightarrow> ('c proxy, invoke_result) prog" where
  "call_method wi thread name kwargs =
     bnd (reads (\<lambda>p. px_methods p = {} \<and> px_attrs p = {})) (\<lambda>unknown.
     sq (if unknown then get_metadata wi thread else ok ())
    (bnd (reads px_attrs) (\<lambda>attrs.
     bnd (reads px_methods) (\<lambda>methods.
     if name \<in> attrs then invoke wi thread ''__getattr__'' [(''0'', PStr name)]
     else if name \<notin> methods then throw AttributeError
     else invoke wi thread name kwargs))))"

definition proxy_bind :: "'c wire \<Rightarrow> nat \<Rightarrow> ('c proxy, bool) prog" where
  "proxy_bind wi thread = create_connection wi thread True"

text \<open>
  \<open>proxy.name = value\<close>, for a name that is not one of the proxy's own, and the special methods, which are calls by their
  name; arguments without a keyword are numbered.
\<close>

definition proxy_setattr :: "'c wire \<Rightarrow> nat \<Rightarrow> string \<Rightarrow> pyval \<Rightarrow> ('c proxy, invoke_result) prog" where
  "proxy_setattr wi thread name value =
     bnd (reads (\<lambda>p. px_methods p = {} \<and> px_attrs p = {})) (\<lambda>unknown.
     sq (if unknown then get_metadata wi thread else ok ())
    (bnd (reads px_attrs) (\<lambda>attrs.
     if name \<in> attrs then invoke wi thread ''__setattr__'' [(''0'', PStr name), (''1'', value)]
     else throw AttributeError)))"

definition proxy_len :: "'c wire \<Rightarrow> nat \<Rightarrow> ('c proxy, invoke_result) prog" where
  "proxy_len wi thread = call_method wi thread ''__len__'' []"

definition proxy_getitem :: "'c wire \<Rightarrow> nat \<Rightarrow> pyval \<Rightarrow> ('c proxy, invoke_result) prog" where
  "proxy_getitem wi thread index = call_method wi thread ''__getitem__'' [(''0'', index)]"

definition proxy_setitem :: "'c wire \<Rightarrow> nat \<Rightarrow> pyval \<Rightarrow> pyval \<Rightarrow> ('c proxy, invoke_result) prog" where
  "proxy_setitem wi thread index v = call_method wi thread ''__setitem__'' [(''0'', index), (''1'', v)]"

definition proxy_delitem :: "'c wire \<Rightarrow> nat \<Rightarrow> pyval \<Rightarrow> ('c proxy, invoke_result) prog" where
  "proxy_delitem wi thread index = call_method wi thread ''__delitem__'' [(''0'', index)]"

text \<open>Two proxies are equal if they are for the same object.\<close>

definition proxy_eq :: "'c proxy \<Rightarrow> 'c proxy \<Rightarrow> bool" where
  "proxy_eq p other \<longleftrightarrow> other = p \<or> px_uri other = px_uri p"

definition proxy_ne :: "'c proxy \<Rightarrow> 'c proxy option \<Rightarrow> bool" where
  "proxy_ne p other = (case other of Some other \<Rightarrow> px_uri other \<noteq> px_uri p | None \<Rightarrow> True)"

text \<open>At most \<open>tries\<close> attempts; the wire may answer each attempt differently.\<close>

fun reconnect_loop :: "(nat \<Rightarrow> 'c wire) \<Rightarrow> nat \<Rightarrow> nat \<Rightarrow> ('c proxy, unit) prog" where
  "reconnect_loop wi thread 0 = throw CommunicationError"
| "reconnect_loop wi thread (Suc tries) =
     catch (sq (create_connection (wi tries) thread False) (ok ()))
       (\<lambda>e. if e = CommunicationError then reconnect_loop wi thread tries else throw e)"

definition reconnect :: "(nat \<Rightarrow> 'c wire) \<Rightarrow> nat \<Rightarrow> nat \<Rightarrow> ('c proxy, unit) prog" where
  "reconnect wi thread tries = sq (proxy_release thread) (reconnect_loop wi thread tries)"

section \<open>Whose answer it is\<close>

text \<open>The peer at the end of a connection has shown that it is a federator.\<close>

definition authentic :: "'c wire \<Rightarrow> string \<Rightarrow> 'c \<Rightarrow> string list \<Rightarrow> bool" where
  "authentic wi uri conn addresses \<longleftrightarrow>
     (\<exists>challenge msg. wi_open wi uri = Inr conn \<and>
        wi_connect wi conn (PDict [(''handshake'', challenge), (''object'', PStr uri)]) = Inr msg \<and>
        cr_type msg = CONNECTOK \<and>
        validate_message (wi_account wi) (wi_clock wi 4) (cr_handshake msg) (wi_binding wi conn) addresses = Inr ())"

text \<open>A result that was received on a connection in answer to this very request.\<close>

definition answered :: "'c wire \<Rightarrow> 'c \<Rightarrow> string \<Rightarrow> (string \<times> pyval) list \<Rightarrow> invoke_result \<Rightarrow> bool" where
  "answered wi conn name kwargs r \<longleftrightarrow>
     r = NoResponse \<or>
     (\<exists>seq msg. wi_receive wi conn seq name kwargs = Inr msg \<and> ir_seq msg = seq \<and>
        (r = RawResponse msg \<or> (\<exists>i. ir_stream msg = Some i \<and> r = StreamResult i) \<or>
         (\<exists>v. ir_data msg = Inr v \<and> r = Data v)))"

lemma catch_eq_Inr:
  "catch m h s = (Inr y, t) \<longleftrightarrow> m s = (Inr y, t) \<or> (\<exists>e u. m s = (Inl e, u) \<and> h e u = (Inr y, t))"
  by (auto simp: run_catch split: prod.splits sum.splits)

lemma release_Inl: "sq (proxy_release thread) (throw e) p = (Inr y, t) \<longleftrightarrow> False"
  by (auto simp: run_sq split: prod.splits sum.splits)

lemma process_metadata_connection: "process_metadata m p = (r, p') \<Longrightarrow> px_connection p' = px_connection p"
  by (auto simp: process_metadata_def run_sq run_demand split: option.splits if_splits)

lemma process_metadata_cache:
  "process_metadata m p = (r, p') \<Longrightarrow> ac_cached_peer_addresses p' = ac_cached_peer_addresses p"
  by (auto simp: process_metadata_def run_sq run_demand split: option.splits if_splits)

lemma invoke_connected_Inr:
  assumes "invoke_connected wi thread conn name kwargs p = (Inr r, p')"
  shows "px_connection p' = px_connection p \<and> answered wi conn name kwargs r"
proof -
  let ?p = "p\<lparr>px_seq := (px_seq p + 1) AND 0xFFFF\<rparr>"
  have "r = NoResponse \<and> p' = ?p \<or>
     (\<exists>msg. wi_receive wi conn (px_seq ?p) name kwargs = Inr msg \<and> ir_seq msg = px_seq ?p \<and> p' = ?p \<and>
        (r = RawResponse msg \<or> (\<exists>i. ir_stream msg = Some i \<and> r = StreamResult i) \<or>
         (\<exists>v. ir_data msg = Inr v \<and> r = Data v)))"
    using assms
    by (auto simp: invoke_connected_def next_sequence_def check_sequence_def ran_ok catch_eq_Inr release_Inl
        split: if_splits option.splits sum.splits)
  then show ?thesis unfolding answered_def by auto
qed

lemma get_metadata_connected_Inr:
  assumes "get_metadata_connected wi thread conn p = (Inr r, p')"
  shows "px_connection p' = px_connection p"
  using assms
  by (auto simp: get_metadata_connected_def next_sequence_def check_owner_def ran_ok catch_eq_Inr release_Inl
      dest!: process_metadata_connection split: if_splits)

lemma connect_message_Inr:
  assumes "connect_message wi uri p = (Inr (conn, msg), p')"
  shows "p' = p \<and> wi_open wi uri = Inr conn \<and>
    (\<exists>challenge. wi_connect wi conn (PDict [(''handshake'', challenge), (''object'', PStr uri)]) = Inr msg)"
  using assms by (auto simp: connect_message_def catch_eq_Inr ran_ok split: if_splits)

lemma connect_and_handshake_Inr:
  assumes "connect_and_handshake wi uri b p = (Inr u, p')" "wi_ssl wi" "ac_cached_peer_addresses p = None"
  shows "\<exists>conn addresses. px_connection p' = Some conn \<and> wi_fetch_peer_addresses wi = Inr addresses \<and>
    authentic wi uri conn addresses"
proof -
  obtain conn msg q where c: "connect_message wi uri p = (Inr (conn, msg), q)"
    and rest: "(case cr_type msg of
       CONNECTFAIL \<Rightarrow> throw CommunicationError
     | CONNECTOK \<Rightarrow>
         sq (process_metadata (cr_metadata msg))
        (sq (modify (\<lambda>p. p\<lparr>px_connection := Some conn\<rparr>))
        (sq (modify (\<lambda>p. if b then p\<lparr>px_uri := uri\<rparr> else p))
            (proxy_validate_handshake wi conn (cr_handshake msg))))
     | OtherMessage \<Rightarrow> throw CommunicationError) q = (Inr u, p')"
    using assms(1) by (auto simp: connect_and_handshake_def ran_ok)
  note c = connect_message_Inr[OF c]
  have ok: "cr_type msg = CONNECTOK" using rest by (cases "cr_type msg") auto
  obtain v where m: "process_metadata (cr_metadata msg) p = (Inr (), v)"
    and val: "proxy_validate_handshake wi conn (cr_handshake msg)
        (if b then v\<lparr>px_connection := Some conn, px_uri := uri\<rparr> else v\<lparr>px_connection := Some conn\<rparr>) = (Inr u, p')"
    using rest ok c by (auto simp: ran_ok)
  have "ac_cached_peer_addresses v = None" using process_metadata_cache[OF m] assms(3) by simp
  then have "\<exists>addresses. wi_fetch_peer_addresses wi = Inr addresses \<and> px_connection p' = Some conn \<and>
      validate_message (wi_account wi) (wi_clock wi 4) (cr_handshake msg) (wi_binding wi conn) addresses = Inr ()"
    using val assms(2)
    by (cases b) (auto simp: proxy_validate_handshake_def proxy_get_peer_addresses_def ran_ok)
  then show ?thesis using c ok unfolding authentic_def by blast
qed

lemma create_connection_Inr:
  assumes "create_connection wi thread b p = (Inr u, p')" "wi_ssl wi" "ac_cached_peer_addresses p = None"
    "px_connection p = None"
  shows "\<exists>uri conn addresses. wi_resolve wi (px_uri p) = Inr uri \<and> px_connection p' = Some conn \<and>
    wi_fetch_peer_addresses wi = Inr addresses \<and> authentic wi uri conn addresses"
proof -
  obtain uri q where uri: "wi_resolve wi (px_uri p) = Inr uri" and c: "connect_and_handshake wi uri b p = (Inr (), q)"
    and rest: "(case px_connection q of Some conn \<Rightarrow>
        if px_methods q = {} \<and> px_attrs q = {} then get_metadata_connected wi thread conn else ok ()
      | None \<Rightarrow> ok ()) q = (Inr (), p')"
    using assms(1,4) by (auto simp: create_connection_def check_owner_def ran_ok)
  from connect_and_handshake_Inr[OF c assms(2,3)] obtain conn addresses where
    q: "px_connection q = Some conn" "wi_fetch_peer_addresses wi = Inr addresses" "authentic wi uri conn addresses" by blast
  have "px_connection p' = Some conn"
    using rest q(1) by (auto simp: get_metadata_connected_Inr split: if_splits)
  then show ?thesis using uri q by blast
qed

lemma get_metadata_Inr:
  assumes "get_metadata wi thread p = (Inr u, p')" "wi_ssl wi" "ac_cached_peer_addresses p = None"
    "px_connection p = None"
  shows "\<exists>uri conn addresses. wi_resolve wi (px_uri p) = Inr uri \<and> px_connection p' = Some conn \<and>
    wi_fetch_peer_addresses wi = Inr addresses \<and> authentic wi uri conn addresses"
proof -
  obtain x q where c: "create_connection wi thread False p = (Inr x, q)"
    and rest: "(case px_connection q of Some conn \<Rightarrow>
        if px_methods q = {} \<and> px_attrs q = {} then get_metadata_connected wi thread conn else ok ()
      | None \<Rightarrow> ok ()) q = (Inr u, p')"
    using assms(1,4) by (auto simp: get_metadata_def ran_ok)
  from create_connection_Inr[OF c assms(2-4)] obtain uri conn addresses where
    q: "px_connection q = Some conn" and a: "wi_resolve wi (px_uri p) = Inr uri"
      "wi_fetch_peer_addresses wi = Inr addresses" "authentic wi uri conn addresses" by blast
  have "px_connection p' = Some conn"
    using rest q by (auto simp: get_metadata_connected_Inr split: if_splits)
  then show ?thesis using a by blast
qed

lemma invoke_on_connection:
  assumes "invoke wi thread name kwargs p = (Inr r, p')" "px_connection p = Some conn"
  shows "px_connection p' = Some conn \<and> answered wi conn name kwargs r"
proof -
  have "invoke_connected wi thread conn name kwargs p = (Inr r, p')"
    using assms by (auto simp: invoke_def check_owner_def ran_ok)
  then show ?thesis using invoke_connected_Inr assms(2) by metis
qed

text \<open>
  C12. The answer of a peer is one of a federator: when a method of a new proxy is called, as every
  question to a peer is, and the call returns, the proxy has connected to the address of its URI,
  the other side has signed the binding of this channel and a timestamp with the key of one of the
  addresses just fetched, and the value was received on this channel with the sequence number
  of the request.
\<close>

theorem new_proxy_call_authentic:
  fixes wi :: "'c wire"
  assumes "wi_ssl wi" "call_method wi thread name kwargs (proxy_init thread uri privkey) = (Inr r, p')"
  shows "\<exists>location conn addresses name' kwargs'.
    wi_resolve wi uri = Inr location \<and> wi_fetch_peer_addresses wi = Inr addresses \<and>
    authentic wi location conn addresses \<and> answered wi conn name' kwargs' r \<and>
    (name \<in> px_attrs p' \<or> name' = name \<and> kwargs' = kwargs)"
proof -
  let ?p = "proxy_init thread uri privkey :: 'c proxy"
  have fresh: "px_methods ?p = {}" "px_attrs ?p = {}" "ac_cached_peer_addresses ?p = None" "px_connection ?p = None"
      "px_uri ?p = uri"
    by (simp_all add: proxy_init_def)
  obtain q where g: "get_metadata wi thread ?p = (Inr (), q)"
    and rest: "(if name \<in> px_attrs q then invoke wi thread ''__getattr__'' [(''0'', PStr name)]
     else if name \<notin> px_methods q then throw AttributeError
     else invoke wi thread name kwargs) q = (Inr r, p')"
    using assms(2) fresh by (auto simp: call_method_def ran_ok)
  from get_metadata_Inr[OF g assms(1) fresh(3,4)] obtain location conn addresses where
    q: "px_connection q = Some conn" and a: "wi_resolve wi uri = Inr location"
      "wi_fetch_peer_addresses wi = Inr addresses" "authentic wi location conn addresses" using fresh by auto
  show ?thesis
  proof (cases "name \<in> px_attrs q")
    case True
    then have i: "invoke wi thread ''__getattr__'' [(''0'', PStr name)] q = (Inr r, p')" using rest by simp
    have "px_attrs p' = px_attrs q" using i q
      by (auto simp: invoke_def check_owner_def ran_ok invoke_connected_def next_sequence_def check_sequence_def
          catch_eq_Inr release_Inl split: if_splits option.splits sum.splits)
    then show ?thesis using invoke_on_connection[OF i q] a True by auto
  next
    case False
    then have "invoke wi thread name kwargs q = (Inr r, p')" using rest by (auto split: if_splits)
    from invoke_on_connection[OF this q] a show ?thesis by blast
  qed
qed

text \<open>
  A handshake that fails is reported once: the connection has become the proxy's before
  it was validated, and the next call of the same proxy goes over it, to the peer that was not
  accepted.
\<close>

theorem rejected_peer_stays_connected:
  fixes wi :: "'c wire"
  assumes "wi_ssl wi" "wi_resolve wi uri = Inr location"
    and "connect_message wi location (proxy_init thread uri privkey) = (Inr (conn, msg), proxy_init thread uri privkey)"
    and "cr_type msg = CONNECTOK" "cr_metadata msg = Some m" "name \<in> rm_methods m" "name \<notin> rm_attrs m"
    and "wi_fetch_peer_addresses wi = Inr addresses"
    and "validate_message (wi_account wi) (wi_clock wi 4) (cr_handshake msg) (wi_binding wi conn) addresses = Inl e"
  shows "\<exists>p'. call_method wi thread name kwargs (proxy_init thread uri privkey) = (Inl e, p') \<and>
    px_connection p' = Some conn \<and>
    call_method wi thread name kwargs p' = invoke_connected wi thread conn name kwargs p'"
proof -
  let ?p = "proxy_init thread uri privkey :: 'c proxy"
  define q where "q = ?p\<lparr>px_oneway := rm_oneway m, px_methods := rm_methods m, px_attrs := rm_attrs m,
      px_connection := Some conn, ac_cached_peer_addresses := Some addresses, ac_cached_timestamp := wi_clock wi 3\<rparr>"
  have meta: "rm_methods m \<noteq> {}" using assms(6) by auto
  have "connect_and_handshake wi location False ?p = (Inl e, q)"
    unfolding connect_and_handshake_def
    using assms(1,4,5,8,9) meta
    by (simp add: run_bnd assms(3) run_sq process_metadata_def run_demand proxy_validate_handshake_def
        proxy_get_peer_addresses_def) (simp add: proxy_init_def q_def)
  moreover have "px_methods ?p = {}" "px_attrs ?p = {}" "px_connection ?p = None" "px_uri ?p = uri" "px_owner ?p = thread"
    by (simp_all add: proxy_init_def)
  ultimately have 1: "call_method wi thread name kwargs ?p = (Inl e, q)"
    using assms(2) by (simp add: call_method_def get_metadata_def create_connection_def check_owner_def run_bnd run_sq run_demand)
  have q: "px_connection q = Some conn" "px_methods q = rm_methods m" "px_attrs q = rm_attrs m" "px_owner q = thread"
    by (simp_all add: q_def proxy_init_def)
  have "call_method wi thread name kwargs q = invoke_connected wi thread conn name kwargs q"
    using assms(6,7) meta q by (simp add: call_method_def invoke_def check_owner_def run_bnd run_sq run_demand)
  with 1 q show ?thesis by blast
qed


section \<open>An example\<close>

definition example_reply :: pyval where
  "example_reply = PDict [(''binding'', PStr ''0304''), (''timestamp'', PInt 1000), (''hash'', PStr ''010200000000000003e8''),
     (''signature'', PStr ''k030400000000000003e8'')]"

definition example_wire :: "pyval \<Rightarrow> nat wire" where
  "example_wire handshake =
     \<lparr>wi_ssl = True, wi_resolve = Inr, wi_open = (\<lambda>_. Inr 4), wi_binding = (\<lambda>_. [3, 4]),
      wi_connect = (\<lambda>_ _. Inr \<lparr>cr_type = CONNECTOK,
        cr_metadata = Some \<lparr>rm_oneway = {}, rm_methods = {''answer''}, rm_attrs = {}\<rparr>, cr_handshake = handshake\<rparr>),
      wi_send = (\<lambda>_ _ _ _. Inr ()),
      wi_receive = (\<lambda>_ seq _ _. Inr \<lparr>ir_seq = seq, ir_serializer_ok = True, ir_unreadable = None, ir_stream = None, ir_data = Inr (PInt 7)\<rparr>),
      wi_metadata = (\<lambda>_. Inr None), wi_account = example_account, wi_clock = (\<lambda>_. 1000),
      wi_fetch_peer_addresses = Inr [''fed'']\<rparr>"

lemma example_connect:
  "connect_message (example_wire h) uri (proxy_init 5 uri key) =
     (Inr (4, \<lparr>cr_type = CONNECTOK, cr_metadata = Some \<lparr>rm_oneway = {}, rm_methods = {''answer''}, rm_attrs = {}\<rparr>,
        cr_handshake = h\<rparr>), proxy_init 5 uri key)"
  by (simp add: connect_message_def run_catch run_bnd example_wire_def initial_challenge_def
      get_signed_handshake_message_def encode_binding_and_timestamp_def pack_q_def f_int_def)

lemma example_valid: "validate_message example_account 1000 example_reply [3, 4] [''fed''] = Inr ()"
  by (simp add: example_reply_def validate_message_def encode_binding_and_timestamp_def pack_q_def
      example_account_def bytes_hex_def hex_digit_def upt_rec)

lemma example_call:
  "\<exists>p'. call_method (example_wire example_reply) 5 ''answer'' [] (proxy_init 5 ''u'' ''k'') = (Inr (Data (PInt 7)), p')"
proof -
  have init: "px_methods (proxy_init 5 ''u'' ''k'' :: nat proxy) = {}" "px_attrs (proxy_init 5 ''u'' ''k'' :: nat proxy) = {}"
      "px_connection (proxy_init 5 ''u'' ''k'' :: nat proxy) = None" "px_uri (proxy_init 5 ''u'' ''k'' :: nat proxy) = ''u''"
      "px_owner (proxy_init 5 ''u'' ''k'' :: nat proxy) = 5" "px_raw_wire_response (proxy_init 5 ''u'' ''k'' :: nat proxy) = False"
      "ac_cached_peer_addresses (proxy_init 5 ''u'' ''k'' :: nat proxy) = None"
    by (simp_all add: proxy_init_def)
  have w: "wi_ssl (example_wire h)" "wi_account (example_wire h) = example_account" "wi_clock (example_wire h) i = 1000"
      "wi_binding (example_wire h) c = [3, 4]" "wi_fetch_peer_addresses (example_wire h) = Inr [''fed'']"
      "wi_resolve (example_wire h) u = Inr u" for h i c u
    by (simp_all add: example_wire_def)
  show ?thesis
    by (simp add: call_method_def get_metadata_def create_connection_def check_owner_def run_bnd run_sq run_demand init w
        connect_and_handshake_def example_connect process_metadata_def proxy_validate_handshake_def
        proxy_get_peer_addresses_def example_valid invoke_def invoke_connected_def next_sequence_def run_catch
        check_sequence_def) (simp add: example_wire_def check_sequence_def run_bnd run_demand run_sq init)
qed

theorem new_proxy_call_authentic_witness:
  "\<exists>addresses. authentic (example_wire example_reply) ''u'' 4 addresses"
proof -
  obtain p' where "call_method (example_wire example_reply) 5 ''answer'' [] (proxy_init 5 ''u'' ''k'') = (Inr (Data (PInt 7)), p')"
    using example_call by blast
  from new_proxy_call_authentic[OF _ this] obtain location conn addresses where
    "wi_resolve (example_wire example_reply) ''u'' = Inr location" "authentic (example_wire example_reply) location conn addresses"
    by (auto simp: example_wire_def)
  moreover have "conn = 4" using calculation(2) by (auto simp: authentic_def example_wire_def)
  ultimately show ?thesis by (auto simp: example_wire_def)
qed

theorem rejected_peer_stays_connected_witness:
  "\<exists>p'. call_method (example_wire PNone) 5 ''answer'' [] (proxy_init 5 ''u'' ''k'') = (Inl TypeError, p') \<and>
    px_connection p' = Some 4 \<and>
    call_method (example_wire PNone) 5 ''answer'' [] p' = invoke_connected (example_wire PNone) 5 4 ''answer'' [] p'"
  by (rule rejected_peer_stays_connected[OF _ _ example_connect,
      where m = "\<lparr>rm_oneway = {}, rm_methods = {''answer''}, rm_attrs = {}\<rparr>"])
     (simp_all add: example_wire_def validate_message_def)

end
