(* ===== verification/Payouts.thy ===== *)
theory Payouts
  imports Prelude
begin

text \<open>
  The interface of everything that pays: a state with entries that are settled or not, and a
  history of what has been sent. If every step keeps settled entries settled and sends only
  for different entries that it settles thereby, then over any run each entry is paid at most once,
  by what was sent for it. The Rune deposits, the token deposits and the transfers of the Tap
  bridge in both directions are instances.
\<close>

text \<open>What a step sends: \<open>new\<close>, for the entries \<open>ks\<close> that it settles.\<close>

definition sends_for ::
  "('k \<Rightarrow> bool) \<Rightarrow> ('k \<Rightarrow> bool) \<Rightarrow> ('e \<Rightarrow> 'k \<Rightarrow> bool) \<Rightarrow> 'e list \<Rightarrow> 'e list \<Rightarrow> bool" where
  "sends_for before after pays sent sent' \<longleftrightarrow>
     (\<exists>new ks. sent' = new @ sent \<and> distinct ks \<and> list_all2 pays new ks \<and> (\<forall>k \<in> set ks. \<not> before k \<and> after k))"

lemma sends_nothing: "sends_for before after pays sent sent"
  unfolding sends_for_def by (intro exI[of _ "[]"]) simp

lemma sends_one: "\<not> before k \<Longrightarrow> after k \<Longrightarrow> pays e k \<Longrightarrow> sends_for before after pays sent (e # sent)"
  unfolding sends_for_def by (rule exI[of _ "[e]"], rule exI[of _ "[k]"]) simp

locale payouts =
  fixes step :: "'w \<Rightarrow> 'w \<Rightarrow> bool"
    and good :: "'w \<Rightarrow> bool"
    and settled :: "'w \<Rightarrow> 'k \<Rightarrow> bool"
    and sent :: "'w \<Rightarrow> 'e list"
    and pays :: "'w \<Rightarrow> 'e \<Rightarrow> 'k \<Rightarrow> bool"
  assumes good_step: "step w w' \<Longrightarrow> good w \<Longrightarrow> good w'"
    and settled_step: "step w w' \<Longrightarrow> good w \<Longrightarrow> settled w k \<Longrightarrow> settled w' k"
    and pays_step: "step w w' \<Longrightarrow> good w \<Longrightarrow> settled w k \<Longrightarrow> pays w e k \<Longrightarrow> pays w' e k"
    and sent_step: "step w w' \<Longrightarrow> good w \<Longrightarrow> sends_for (settled w) (settled w') (pays w') (sent w) (sent w')"
begin

text \<open>A ledger explains what was sent: one settled entry for each, all different.\<close>

definition ledger :: "'w \<Rightarrow> 'k list \<Rightarrow> bool" where
  "ledger w ks \<longleftrightarrow> distinct ks \<and> list_all2 (pays w) (sent w) ks \<and> (\<forall>k \<in> set ks. settled w k)"

lemma good_run: "step\<^sup>*\<^sup>* w w' \<Longrightarrow> good w \<Longrightarrow> good w'"
  by (induction rule: rtranclp_induct) (auto intro: good_step)

lemma settled_run: "step\<^sup>*\<^sup>* w w' \<Longrightarrow> good w \<Longrightarrow> settled w k \<Longrightarrow> settled w' k"
  by (induction rule: rtranclp_induct) (auto intro: settled_step good_run)

lemma ledger_step:
  assumes "step w w'" "good w" "ledger w ks"
  shows "\<exists>new. ledger w' (new @ ks)"
proof -
  have old: "list_all2 (pays w') (sent w) ks"
    using assms(3) pays_step[OF assms(1,2)]
    by (auto simp: ledger_def list_all2_conv_all_nth dest: nth_mem)
  have set: "\<forall>k \<in> set ks. settled w' k" using assms settled_step by (auto simp: ledger_def)
  from sent_step[OF assms(1,2)] obtain new ks' where n: "sent w' = new @ sent w" "distinct ks'"
      "list_all2 (pays w') new ks'" "\<forall>k \<in> set ks'. \<not> settled w k \<and> settled w' k"
    unfolding sends_for_def by blast
  have "set ks' \<inter> set ks = {}" using assms(3) n(4) by (auto simp: ledger_def)
  then show ?thesis using assms(3) old set n
    by (intro exI[of _ ks']) (auto simp: ledger_def list_all2_appendI)
qed

lemma ledger_run:
  assumes "step\<^sup>*\<^sup>* w w'" "good w" "ledger w ks"
  shows "\<exists>new. ledger w' (new @ ks)"
  using assms
proof (induction rule: rtranclp_induct)
  case base
  then show ?case by (intro exI[of _ "[]"]) simp
next
  case (step v u)
  then obtain new where "ledger v (new @ ks)" by blast
  moreover have "good v" using step.hyps(1) step.prems(1) by (rule good_run)
  ultimately obtain more where "ledger u (more @ new @ ks)" using ledger_step[OF step.hyps(2)] by blast
  then show ?case by (intro exI[of _ "more @ new"]) simp
qed

lemma paid_at_most_once:
  assumes "step\<^sup>*\<^sup>* w w'" "good w" "sent w = []"
  shows "\<exists>ks. distinct ks \<and> list_all2 (pays w') (sent w') ks \<and> (\<forall>k \<in> set ks. settled w' k)"
proof -
  have "ledger w []" using assms(3) by (simp add: ledger_def)
  from ledger_run[OF assms(1,2) this] show ?thesis unfolding ledger_def by auto
qed

end

end
