(* ===== verification/Rune_Lifecycle.thy ===== *)
theory Rune_Lifecycle
  imports Token_Deposits Payouts
begin

text \<open>
  Everything that changes the state of a node of a Rune bridge, as one step relation, and what
  holds over any run of steps, in any order, whatever Bitcoin, ord, the EVM chain and the
  other nodes answer: deposits and token deposits move along their state machines, and each is
  paid at most once.
\<close>

section \<open>Steps\<close>

text \<open>
  One step is one operation of the service, from its start to its end or the exception that ends
  it. \<open>L\<close> is the Bitcoin library and \<open>P\<close> the function that prefixes transaction ids; all other
  answers of the outside are arbitrary in each step. A question put to the other nodes is a step too.
\<close>

inductive rune_step :: "wallet_lib \<Rightarrow> (string \<Rightarrow> string) \<Rightarrow> rune_world \<Rightarrow> rune_world \<Rightarrow> bool"
  for L :: wallet_lib and P :: "string \<Rightarrow> string" where
  init: "service_init sv w = (r, w') \<Longrightarrow> rune_step L P w w'"
| generate: "generate_deposit_address sv eu derive a w = (r, w') \<Longrightarrow> rune_step L P w w'"
| scan: "scan_rune_deposits sv py ord clock node ca w = (r, w') \<Longrightarrow> rune_step L P w w'"
| scan_tokens: "scan_rune_token_deposits sv py ord logs block w = (r, w') \<Longrightarrow> rune_step L P w w'"
| confirm: "confirm_sent_rune_deposits sv evm w = (r, w') \<Longrightarrow> rune_step L P w w'"
| signatures: "update_rune_deposit_signatures sv evm i h answers w = (r, w') \<Longrightarrow> rune_step L P w w'"
| send: "send_rune_deposit_to_evm sv evm i w = (r, w') \<Longrightarrow> en_add_0x_prefix evm = P \<Longrightarrow> rune_step L P w w'"
| pay: "handle_accepted_rune_token_deposit sv py ord m fee fee' node_send asked i w = (r, w') \<Longrightarrow>
    om_lib m = L \<Longrightarrow> rune_step L P w w'"
| question: "emit (AskSignToEvm q) w = (r, w') \<Longrightarrow> rune_step L P w w'"

section \<open>What each operation leaves alone\<close>

lemma view_jval:
  "(\<And>s. keeps I (f s)) \<Longrightarrow> keeps I g \<Longrightarrow> keeps I (case v of JStr s \<Rightarrow> f s | _ \<Rightarrow> g)"
  by (cases v) auto

lemma tokens_view_scan: "keeps (tokens_view t) (scan_rune_deposits sv py ord clock node ca)"
  unfolding scan_rune_deposits_def store_scan_def store_transaction_def store_btc_tx_def store_rune_deposit_def
    index_rune_def Let_def
  by (intro view_intros view_jval)

lemma tokens_view_ops:
  "keeps (tokens_view t) (service_init sv)" "keeps (tokens_view t) (generate_deposit_address sv eu derive a)"
  "keeps (tokens_view t) (confirm_sent_rune_deposits sv evm)"
  "keeps (tokens_view t) (update_rune_deposit_signatures sv evm i h answers)"
  "keeps (tokens_view t) (send_rune_deposit_to_evm sv evm i)"
proof -
  show "keeps (tokens_view t) (service_init sv)"
    unfolding service_init_def by (intro view_intros)
  show "keeps (tokens_view t) (generate_deposit_address sv eu derive a)"
    unfolding generate_deposit_address_def by (intro view_intros)
  show "keeps (tokens_view t) (confirm_sent_rune_deposits sv evm)"
    unfolding confirm_sent_rune_deposits_def confirm_sent_rune_deposit_def get_deposit_def deposit_repr_def
      set_deposit_status_def deposit_user_def deposit_rune_def
    by (intro view_intros)
  show "keeps (tokens_view t) (update_rune_deposit_signatures sv evm i h answers)"
    unfolding update_rune_deposit_signatures_def query_deposit_def Let_def by (intro view_intros)
  show "keeps (tokens_view t) (send_rune_deposit_to_evm sv evm i)"
    unfolding send_rune_deposit_to_evm_def claim_rune_deposit_def transact_rune_deposit_def confirm_sent_rune_deposit_def
      get_deposit_def query_deposit_def deposit_repr_def set_deposit_status_def deposit_user_def deposit_rune_def Let_def
    by (intro view_intros)
qed

text \<open>A scan for token deposits only adds rows, a payment changes the row it pays.\<close>

definition tokens_grow :: "rune_token_deposit set \<times> string list \<Rightarrow> rune_world \<Rightarrow> bool" where
  "tokens_grow v w \<longleftrightarrow> fst v \<subseteq> set (db_rune_token_deposits (w_db w)) \<and> raw_sends (w_effects w) = snd v"

lemma tokens_grow_intros:
  "keeps (tokens_grow v) (insert_rune r)" "keeps (tokens_grow v) (insert_rune_token_deposit d)"
  "keeps (tokens_grow v) (notice sv title alert)" "keeps (tokens_grow v) (kv_set db_kv (\<lambda>t db. db\<lparr>db_kv := t\<rparr>) k x)"
  by (auto simp: keeps_def tokens_grow_def insert_rune_def insert_rune_token_deposit_def notice_def
      run_bnd run_sq run_demand run_insert_row kv_set_def)

lemma view_jint:
  "(\<And>n. keeps I (f n)) \<Longrightarrow> keeps I g \<Longrightarrow> keeps I (case v of JInt n \<Rightarrow> f n | _ \<Rightarrow> g)"
  by (cases v) auto

lemma tokens_grow_scan: "keeps (tokens_grow v) (scan_rune_token_deposits sv py ord logs block)"
  unfolding scan_rune_token_deposits_def
proof (rule keeps_in_tx)
  show "keeps (tokens_grow v) (bnd (db_get (\<lambda>db. length (db_rune_token_deposits db))) (\<lambda>before.
      sq (scan_new_events (token_scanner sv) db_kv (\<lambda>t db. db\<lparr>db_kv := t\<rparr>) [logs] block
            (store_token_deposits sv py ord))
     (bnd (db_get (\<lambda>db. length (db_rune_token_deposits db))) (\<lambda>after. ok (after - before)))))"
    unfolding scan_new_events_def store_token_deposits_def store_token_deposit_def Let_def
    by (intro keeps_intros tokens_grow_intros view_jint keeps_kv_get)
qed (auto simp: tokens_grow_def)

lemma deposits_view_scan_tokens: "keeps (deposits_view v) (scan_rune_token_deposits sv py ord logs block)"
proof -
  have kv: "keeps (deposits_view v) (kv_set db_kv (\<lambda>t db. db\<lparr>db_kv := t\<rparr>) k x)" for k x
    by (auto simp: keeps_def deposits_view_def kv_set_def)
  show ?thesis
    unfolding scan_rune_token_deposits_def scan_new_events_def store_token_deposits_def store_token_deposit_def Let_def
    by (intro view_intros view_jint keeps_kv_get kv)
qed

lemma deposits_view_pay:
  "keeps (deposits_view v) (handle_accepted_rune_token_deposit sv py ord m fee fee' node_send asked i)"
proof -
  have sign: "keeps (deposits_view v) (sign_token_deposit sv py ord m fee fee' asked i)"
    unfolding sign_token_deposit_def answer_sign_rune_token_to_btc_transfer_question_def answer_token_transfers_def
      accepted_token_transfer_def Let_def
    by (intro view_intros keeps_create_rune_psbt check_token_transfer_keeps)
  have list: "keeps I (case xs of [] \<Rightarrow> g | x # ys \<Rightarrow> f x)" if "keeps I g" "\<And>x. keeps I (f x)"
    for I :: "rune_world \<Rightarrow> bool" and xs :: "bool list" and f and g :: "(rune_world, string) prog"
    using that by (cases xs) simp_all
  have broadcast: "keeps (deposits_view v) (broadcast_token_deposit sv m node_send i p)" for p
    unfolding broadcast_token_deposit_def broadcast_psbt_def send_raw_transaction_def get_token_deposit_def
      set_token_deposit_def
    by (intro view_intros list)
  show ?thesis unfolding handle_accepted_rune_token_deposit_def by (intro view_intros sign broadcast)
qed

lemma keeps_tables_scan_tokens: "keeps_tables (scan_rune_token_deposits sv py ord logs block)"
proof -
  have jint: "(\<And>n. keeps_tables (f n)) \<Longrightarrow> keeps_tables g \<Longrightarrow> keeps_tables (case x of JInt n \<Rightarrow> f n | _ \<Rightarrow> g)"
    for f g x by (cases x) auto
  have kv: "keeps_tables (kv_set db_kv (\<lambda>t db. db\<lparr>db_kv := t\<rparr>) k x)" for k x
    using keeps_tables_kv_set[of k x] by (simp add: rune_kv_set_def)
  have get: "keeps_tables (kv_get db_kv k d)" for k d
    by (rule rune.keeps_tablesI) simp
  show ?thesis
    unfolding scan_rune_token_deposits_def scan_new_events_def store_token_deposits_def store_token_deposit_def Let_def
    by (intro keeps_tables_intros jint kv get keeps_tables_notice)
qed

lemma keeps_tables_pay:
  "keeps_tables (handle_accepted_rune_token_deposit sv py ord m fee fee' node_send asked i)"
proof -
  have list: "keeps_tables (case xs of [] \<Rightarrow> g | x # ys \<Rightarrow> f x)" if "keeps_tables g" "\<And>x. keeps_tables (f x)"
    for xs :: "bool list" and f and g :: "string rune_prog"
    using that by (cases xs) simp_all
  have update: "keeps_tables (set_token_deposit i f)"
    if "\<And>r. rt_id (f r) = rt_id r" "\<And>r. rune_token_deposit_key (f r) = rune_token_deposit_key r" for f
    unfolding set_token_deposit_def using that by (rule keeps_tables_updates)
  have get: "keeps_tables (get_token_deposit i)"
    unfolding get_token_deposit_def by (rule keeps_tablesI) (intro keeps_intros)
  have "keeps_tables (broadcast_token_deposit sv m node_send i p)" for p
    unfolding broadcast_token_deposit_def broadcast_psbt_def send_raw_transaction_def
    by (intro keeps_tables_intros list update get keeps_tables_notice) (simp_all add: rune_token_deposit_key_def)
  then show ?thesis unfolding handle_accepted_rune_token_deposit_def
    by (intro keeps_tables_intros keeps_tables_sign)
qed

section \<open>One step\<close>

lemma step_tables:
  assumes "rune_step L P w w'" "rune_tables_ok w"
  shows "rune_tables_ok w'"
proof -
  show ?thesis using assms(1)
  proof cases
    case init
    then show ?thesis using calmD[OF calm_init assms(2)] by blast
  next
    case generate
    then show ?thesis using calmD[OF calm_generate assms(2)] by blast
  next
    case scan
    then show ?thesis using calmD[OF calm_scan assms(2)] by blast
  next
    case scan_tokens
    then show ?thesis using keeps_tables_ok[OF keeps_tables_scan_tokens assms(2)] by (metis snd_conv)
  next
    case confirm
    then show ?thesis using calmD[OF calm_confirm_all assms(2)] by blast
  next
    case signatures
    then show ?thesis using calmD[OF calm_update_signatures assms(2)] by blast
  next
    case send
    then show ?thesis using send_outcome[OF assms(2)] by blast
  next
    case pay
    then show ?thesis using keeps_tables_ok[OF keeps_tables_pay assms(2)] by (metis snd_conv)
  next
    case question
    then show ?thesis using keeps_tables_ok[OF keeps_tables_emit assms(2)] by (metis snd_conv)
  qed
qed

text \<open>The steps that touch no Rune deposit but to move it forward, and the one that sends.\<close>

lemma moves_view: "keeps (deposits_view (db_rune_deposits (w_db w), transacts (w_effects w))) m \<Longrightarrow> m w = (r, w') \<Longrightarrow> moves w w'"
  using keepsD'[of "deposits_view (db_rune_deposits (w_db w), transacts (w_effects w))" m w r w'] by (simp add: deposits_view_def moves_def same_calls_def progress_same)

definition accept_transfer_of :: "(string \<Rightarrow> string) \<Rightarrow> accept_transfer_call \<Rightarrow> int \<times> string \<times> int \<times> int \<Rightarrow> bool" where
  "accept_transfer_of P call k \<longleftrightarrow>
     (case k of (bid, tx_id, vout, rune_number) \<Rightarrow>
        ac_btc_txid call = P tx_id \<and> ac_btc_vout call = vout \<and> ac_rune_number call = rune_number)"

definition deposit_settled :: "rune_world \<Rightarrow> int \<times> string \<times> int \<times> int \<Rightarrow> bool" where
  "deposit_settled w k \<longleftrightarrow>
     (\<exists>d \<in> set (db_rune_deposits (w_db w)). rune_deposit_key d = k \<and> \<not> waiting (rd_status d))"

lemma step_deposits:
  assumes "rune_step L P w w'" "rune_tables_ok w"
  shows "progress w w' \<and>
    (transacts (w_effects w') = transacts (w_effects w) \<or>
     (\<exists>call k. transacts (w_effects w') = call # transacts (w_effects w) \<and>
        \<not> deposit_settled w k \<and> deposit_settled w' k \<and> accept_transfer_of P call k))"
proof -
  have calm: ?thesis if "moves w w'" using that by (simp add: moves_def same_calls_def)
  show ?thesis using assms(1)
  proof cases
    case init
    then show ?thesis using calmD[OF calm_init assms(2)] by (intro calm) blast
  next
    case generate
    then show ?thesis using calmD[OF calm_generate assms(2)] by (intro calm) blast
  next
    case scan
    then show ?thesis using calmD[OF calm_scan assms(2)] by (intro calm) blast
  next
    case scan_tokens
    then show ?thesis by (intro calm moves_view[OF deposits_view_scan_tokens])
  next
    case confirm
    then show ?thesis using calmD[OF calm_confirm_all assms(2)] by (intro calm) blast
  next
    case signatures
    then show ?thesis using calmD[OF calm_update_signatures assms(2)] by (intro calm) blast
  next
    case pay
    then show ?thesis by (intro calm moves_view[OF deposits_view_pay])
  next
    case question
    then show ?thesis by (intro calm) (auto simp: moves_def same_calls_def intro!: progress_same)
  next
    case send
    note out = send_outcome[OF assms(2) send(1), unfolded send(2)]
    then have p: "progress w w'" by blast
    show ?thesis
    proof (cases "transacts (w_effects w') = transacts (w_effects w)")
      case False
      with out obtain d call where c: "transacts (w_effects w') = call # transacts (w_effects w)"
        "d \<in> set (db_rune_deposits (w_db w))" "rd_status d = rd_code RD_ACCEPTED"
        "ac_rune_number call = rd_rune_number d" "ac_btc_txid call = P (rd_tx_id d)"
        "ac_btc_vout call = rd_vout d"
        "\<forall>d' \<in> set (db_rune_deposits (w_db w')). rune_deposit_key d' = rune_deposit_key d \<longrightarrow> \<not> waiting (rd_status d')"
        by blast
      have "\<not> deposit_settled w (rune_deposit_key d)"
      proof
        assume "deposit_settled w (rune_deposit_key d)"
        then obtain e where e: "e \<in> set (db_rune_deposits (w_db w))" "rune_deposit_key e = rune_deposit_key d"
          "\<not> waiting (rd_status e)" by (auto simp: deposit_settled_def)
        have "e = d" by (rule rows_with_key[OF assms(2) c(2) e(1,2)])
        then show False using e(3) c(3) by (simp add: waiting_def)
      qed
      moreover obtain d' where "d' \<in> set (db_rune_deposits (w_db w'))" "rune_deposit_key d' = rune_deposit_key d"
        using p c(2) unfolding progress_def by blast
      then have "deposit_settled w' (rune_deposit_key d)" using c(7) unfolding deposit_settled_def by blast
      moreover have "accept_transfer_of P call (rune_deposit_key d)"
        using c(4-6) by (simp add: accept_transfer_of_def rune_deposit_key_def)
      ultimately show ?thesis using p c(1) by blast
    qed (use p in blast)
  qed
qed

interpretation deposits: payouts "rune_step L P" rune_tables_ok deposit_settled
    "\<lambda>w. transacts (w_effects w)" "\<lambda>w. accept_transfer_of P" for L P
proof (unfold_locales, goal_cases)
  case (1 w w')
  then show ?case by (rule step_tables)
next
  case (2 w w' k)
  from step_deposits[OF 2(1,2)] have "progress w w'" by blast
  moreover obtain d where "d \<in> set (db_rune_deposits (w_db w))" "rune_deposit_key d = k" "\<not> waiting (rd_status d)"
    using 2(3) by (auto simp: deposit_settled_def)
  ultimately show ?case unfolding progress_def deposit_settled_def using not_waiting_steps by metis
next
  case (3 w w' k e)
  then show ?case by simp
next
  case (4 w w')
  from step_deposits[OF 4] show ?case by (metis sends_nothing sends_one)
qed

text \<open>
  C2. Each deposit is transferred to the EVM chain at most once, over any run of the operations of
  a node in any order, with every bridge of the node, whatever the outside answers: the calls
  of \<open>acceptTransferFromBtc\<close> that were made belong, one by one, to different deposits, each with
  the transaction id, output and rune of its deposit, which is no longer waiting.
\<close>

theorem deposits_transferred_at_most_once:
  assumes "(rune_step L P)\<^sup>*\<^sup>* w w'" "rune_tables_ok w" "transacts (w_effects w) = []"
  shows "\<exists>ks. distinct ks \<and> list_all2 (accept_transfer_of P) (transacts (w_effects w')) ks \<and>
    (\<forall>k \<in> set ks. \<exists>d \<in> set (db_rune_deposits (w_db w')). rune_deposit_key d = k \<and> \<not> waiting (rd_status d))"
  using deposits.paid_at_most_once[OF assms] unfolding deposit_settled_def .

text \<open>
  C6. A deposit never goes back: over any run, every deposit that was there is still there, with
  the same key and id, and its status has moved along the edges of the state machine only.
\<close>

theorem deposit_statuses_follow_machine:
  assumes "(rune_step L P)\<^sup>*\<^sup>* w w'" "rune_tables_ok w" "d \<in> set (db_rune_deposits (w_db w))"
  shows "\<exists>d' \<in> set (db_rune_deposits (w_db w')). rd_id d' = rd_id d \<and> rune_deposit_key d' = rune_deposit_key d \<and>
    status_step\<^sup>*\<^sup>* (rd_status d) (rd_status d')"
proof -
  have "progress w w'"
    using assms(1)
  proof (induction rule: rtranclp_induct)
    case (step u v)
    have "rune_tables_ok u" using step.hyps(1) assms(2) by (rule deposits.good_run)
    then show ?case using step_deposits[OF step.hyps(2)] step.IH progress_trans by blast
  qed (simp add: progress_same)
  then show ?thesis using assms(3) by (simp add: progress_def)
qed

section \<open>Token deposits\<close>

definition token_settled :: "rune_world \<Rightarrow> string \<times> int \<Rightarrow> bool" where
  "token_settled w k \<longleftrightarrow>
     (\<exists>d \<in> set (db_rune_token_deposits (w_db w)). rune_token_deposit_key d = k \<and> rt_status d \<noteq> rt_code RT_ACCEPTED)"

definition raw_payment_of :: "wallet_lib \<Rightarrow> rune_world \<Rightarrow> string \<Rightarrow> string \<times> int \<Rightarrow> bool" where
  "raw_payment_of L w tx_hex k \<longleftrightarrow>
     (\<exists>d \<in> set (db_rune_token_deposits (w_db w)). rune_token_deposit_key d = k \<and>
        (\<exists>p. rt_finalized_psbt d = Some (wl_to_base64 L p) \<and> wl_extract_tx_hex L p = Inr tx_hex))"

text \<open>Token deposits that have left the accepted state stay as they are.\<close>

definition tokens_kept :: "rune_world \<Rightarrow> rune_world \<Rightarrow> bool" where
  "tokens_kept w w' \<longleftrightarrow> (\<forall>d \<in> set (db_rune_token_deposits (w_db w)).
     rt_status d \<noteq> rt_code RT_ACCEPTED \<longrightarrow> d \<in> set (db_rune_token_deposits (w_db w')))"

lemma token_row_set_others: "d \<in> set rows \<Longrightarrow> rt_id d \<noteq> i \<Longrightarrow> d \<in> set (token_row_set i s txid psbt rows)"
  unfolding token_row_set_def by (auto simp: update_where_def image_iff intro!: bexI[of _ d])

lemma token_row_set_row:
  assumes "d \<in> set rows" "rt_id d = i"
  shows "\<exists>d' \<in> set (token_row_set i s txid psbt rows). rune_token_deposit_key d' = rune_token_deposit_key d \<and>
    rt_status d' = rt_code s \<and> rt_finalized_psbt d' = Some psbt"
proof -
  let ?f = "\<lambda>d. d\<lparr>rt_status := rt_code s, rt_finalized_psbt := Some psbt,
            rt_btc_tx_id := (case txid of None \<Rightarrow> rt_btc_tx_id d | Some t \<Rightarrow> Some t)\<rparr>"
  have "?f d \<in> set (token_row_set i s txid psbt rows)"
    unfolding token_row_set_def using update_where_hit[of d rows "\<lambda>d. rt_id d = i" ?f] assms by simp
  moreover have "rune_token_deposit_key (?f d) = rune_token_deposit_key d" "rt_status (?f d) = rt_code s"
    "rt_finalized_psbt (?f d) = Some psbt" by (simp_all add: rune_token_deposit_key_def)
  ultimately show ?thesis by blast
qed

lemma token_key_row:
  assumes "rune_tables_ok w" "d \<in> set (db_rune_token_deposits (w_db w))" "e \<in> set (db_rune_token_deposits (w_db w))"
    "rune_token_deposit_key e = rune_token_deposit_key d"
  shows "e = d"
  using assms by (auto simp: rune_tables_ok_def table_ok_def Let_def distinct_map dest: inj_onD)

lemma pay_tokens:
  assumes run: "handle_accepted_rune_token_deposit sv py ord m fee fee' node_send asked i w = (r, w')" and w: "rune_tables_ok w"
  shows "tokens_kept w w' \<and>
    (raw_sends (w_effects w') = raw_sends (w_effects w) \<or>
     (\<exists>h k. raw_sends (w_effects w') = h # raw_sends (w_effects w) \<and>
        \<not> token_settled w k \<and> token_settled w' k \<and> raw_payment_of (om_lib m) w' h k))"
proof (rule handle_token_deposit_cases[OF run], goal_cases)
  case 1
  then show ?case by (simp add: tokens_kept_def)
next
  case signed: (2 p v)
  let ?rows = "db_rune_token_deposits (w_db w)"
  have v: "rune_tables_ok v" using keeps_tables_ok[OF keeps_tables_sign w] signed(1) by (metis snd_conv)
  note out = broadcast_token_deposit_outcome[OF signed(5) v, unfolded signed(2,3)]
  show ?case
  proof (cases "db_rune_token_deposits (w_db w') = ?rows \<and> raw_sends (w_effects w') = raw_sends (w_effects w)")
    case True
    then show ?thesis by (simp add: tokens_kept_def)
  next
    case False
    let ?h = "raw_sends (w_effects w') = raw_sends (w_effects w) \<or>
        (\<exists>h. wl_extract_tx_hex (om_lib m) p = Inr h \<and> raw_sends (w_effects w') = h # raw_sends (w_effects w))"
    let ?set = "\<lambda>s txid. db_rune_token_deposits (w_db w') = token_row_set i s txid (wl_to_base64 (om_lib m) p) ?rows"
    from out False consider
        (sent) d txid where "d \<in> set ?rows" "rt_id d = i" "rt_status d = rt_code RT_ACCEPTED" ?h "?set SENT_TO_BTC (Some txid)"
      | (failed) d where "d \<in> set ?rows" "rt_id d = i" "rt_status d = rt_code RT_ACCEPTED" ?h "?set SENDING_TO_BTC_FAILED None"
      by blast
    then obtain d s txid where d: "d \<in> set ?rows" "rt_id d = i" "rt_status d = rt_code RT_ACCEPTED"
      and s: "s \<noteq> RT_ACCEPTED" "?set s txid" and h: ?h
    proof cases
      case (sent d txid)
      then show ?thesis using that[of d SENT_TO_BTC "Some txid"] by simp
    next
      case (failed d)
      then show ?thesis using that[of d SENDING_TO_BTC_FAILED None] by simp
    qed
    have kept: "tokens_kept w w'"
      unfolding tokens_kept_def s(2)
    proof (intro ballI impI)
      fix e assume e: "e \<in> set ?rows" "rt_status e \<noteq> rt_code RT_ACCEPTED"
      then have "rt_id e \<noteq> i" using token_rows_with_id[OF w d(1) e(1)] d(2,3) by auto
      then show "e \<in> set (token_row_set i s txid (wl_to_base64 (om_lib m) p) ?rows)"
        using token_row_set_others e(1) by blast
    qed
    obtain d' where d': "d' \<in> set (db_rune_token_deposits (w_db w'))" "rune_token_deposit_key d' = rune_token_deposit_key d"
      "rt_status d' = rt_code s" "rt_finalized_psbt d' = Some (wl_to_base64 (om_lib m) p)"
      using token_row_set_row[OF d(1,2), of s txid "wl_to_base64 (om_lib m) p"] unfolding s(2)[symmetric] by blast
    have after: "token_settled w' (rune_token_deposit_key d)"
      using d'(1-3) s(1) rt_code_eq[of s RT_ACCEPTED] unfolding token_settled_def by metis
    have before: "\<not> token_settled w (rune_token_deposit_key d)"
      using token_key_row[OF w d(1)] d(3) unfolding token_settled_def by blast
    from h show ?thesis
    proof
      assume "\<exists>h. wl_extract_tx_hex (om_lib m) p = Inr h \<and> raw_sends (w_effects w') = h # raw_sends (w_effects w)"
      then obtain h where h: "wl_extract_tx_hex (om_lib m) p = Inr h" "raw_sends (w_effects w') = h # raw_sends (w_effects w)"
        by blast
      have "raw_payment_of (om_lib m) w' h (rune_token_deposit_key d)"
        using d' h(1) unfolding raw_payment_of_def by blast
      then show ?thesis using kept after before h(2) by blast
    qed (use kept in blast)
  qed
qed

lemma view_tokens:
  "keeps (tokens_view (db_rune_token_deposits (w_db w), raw_sends (w_effects w))) m \<Longrightarrow> m w = (r, w') \<Longrightarrow>
   tokens_kept w w' \<and> raw_sends (w_effects w') = raw_sends (w_effects w)"
  using keepsD'[of "tokens_view (db_rune_token_deposits (w_db w), raw_sends (w_effects w))" m w r w']
  by (simp add: tokens_view_def tokens_kept_def)

lemma step_tokens:
  assumes "rune_step L P w w'" "rune_tables_ok w"
  shows "tokens_kept w w' \<and>
    (raw_sends (w_effects w') = raw_sends (w_effects w) \<or>
     (\<exists>h k. raw_sends (w_effects w') = h # raw_sends (w_effects w) \<and>
        \<not> token_settled w k \<and> token_settled w' k \<and> raw_payment_of L w' h k))"
  using assms(1)
proof cases
  case init
  then show ?thesis using view_tokens[OF tokens_view_ops(1)] by blast
next
  case generate
  then show ?thesis using view_tokens[OF tokens_view_ops(2)] by blast
next
  case scan
  then show ?thesis using view_tokens[OF tokens_view_scan] by blast
next
  case confirm
  then show ?thesis using view_tokens[OF tokens_view_ops(3)] by blast
next
  case signatures
  then show ?thesis using view_tokens[OF tokens_view_ops(4)] by blast
next
  case send
  then show ?thesis using view_tokens[OF tokens_view_ops(5)] by blast
next
  case scan_tokens
  have "tokens_grow (set (db_rune_token_deposits (w_db w)), raw_sends (w_effects w)) w'"
    by (rule keepsD'[OF tokens_grow_scan _ scan_tokens]) (simp add: tokens_grow_def)
  then show ?thesis by (auto simp: tokens_grow_def tokens_kept_def)
next
  case pay
  then show ?thesis using pay_tokens[OF pay(1) assms(2)] by simp
next
  case question
  then show ?thesis by (auto simp: tokens_kept_def)
qed

interpretation tokens: payouts "rune_step L P" rune_tables_ok token_settled
    "\<lambda>w. raw_sends (w_effects w)" "raw_payment_of L" for L P
proof (unfold_locales, goal_cases)
  case (1 w w')
  then show ?case by (rule step_tables)
next
  case (2 w w' k)
  then show ?case using step_tokens[OF 2(1,2)] unfolding tokens_kept_def token_settled_def by blast
next
  case (3 w w' k e)
  then obtain d where d: "d \<in> set (db_rune_token_deposits (w_db w))" "rune_token_deposit_key d = k"
    "rt_status d \<noteq> rt_code RT_ACCEPTED" unfolding token_settled_def by blast
  have "d \<in> set (db_rune_token_deposits (w_db w'))" using step_tokens[OF 3(1,2)] d unfolding tokens_kept_def by blast
  moreover obtain d' p where "d' \<in> set (db_rune_token_deposits (w_db w))" "rune_token_deposit_key d' = k"
    "rt_finalized_psbt d' = Some (wl_to_base64 L p)" "wl_extract_tx_hex L p = Inr e"
    using 3(4) unfolding raw_payment_of_def by blast
  moreover have "d' = d" using token_key_row[OF 3(2) d(1)] calculation(2,3) d(2) by simp
  ultimately show ?case unfolding raw_payment_of_def by blast
next
  case (4 w w')
  from step_tokens[OF 4] show ?case by (metis sends_nothing sends_one)
qed

text \<open>
  C3. Each token deposit is paid out on Bitcoin at most once, over any run of the operations of a
  node: the raw transactions that were given to the Bitcoin node belong, one by one, to different
  token deposits, each being the transaction of the finalized PSBT that its deposit records,
  and the deposit is no longer accepted.
\<close>

theorem token_deposits_paid_at_most_once:
  assumes "(rune_step L P)\<^sup>*\<^sup>* w w'" "rune_tables_ok w" "raw_sends (w_effects w) = []"
  shows "\<exists>ks. distinct ks \<and> list_all2 (raw_payment_of L w') (raw_sends (w_effects w')) ks \<and>
    (\<forall>k \<in> set ks. \<exists>d \<in> set (db_rune_token_deposits (w_db w')).
       rune_token_deposit_key d = k \<and> rt_status d \<noteq> rt_code RT_ACCEPTED)"
  using tokens.paid_at_most_once[OF assms] unfolding token_settled_def .

section \<open>Well-typed tables\<close>

text \<open>Every status column holds the code of a status of its enumeration.\<close>

definition statuses_typed :: "rune_world \<Rightarrow> bool" where
  "statuses_typed w \<longleftrightarrow>
     (\<forall>d \<in> set (db_rune_deposits (w_db w)). rd_status d \<in> range rd_code) \<and>
     (\<forall>d \<in> set (db_rune_token_deposits (w_db w)). rt_status d \<in> range rt_code) \<and>
     (\<forall>t \<in> set (db_incoming_btc_txs (w_db w)). it_status t \<in> range btc_tx_code)"

lemma typed_base:
  "keeps statuses_typed (notice sv title alert)" "keeps statuses_typed (emit e)" "keeps statuses_typed (rune_kv_set k v)"
  "keeps statuses_typed (insert_bridge name)" "keeps statuses_typed (insert_user b a)"
  "keeps statuses_typed (insert_deposit_address u addr)" "keeps statuses_typed (insert_rune r)"
  by (auto simp: keeps_def statuses_typed_def notice_def insert_bridge_def insert_user_def insert_deposit_address_def
      insert_rune_def run_bnd run_sq run_demand run_insert_row run_rune_kv_set)

lemma typed_rows:
  "rd_status d \<in> range rd_code \<Longrightarrow> keeps statuses_typed (insert_rune_deposit d)"
  "rt_status td \<in> range rt_code \<Longrightarrow> keeps statuses_typed (insert_rune_token_deposit td)"
  "it_status tx \<in> range btc_tx_code \<Longrightarrow> keeps statuses_typed (insert_incoming_btc_tx tx)"
  "(\<And>d. rd_status d \<in> range rd_code \<Longrightarrow> rd_status (f d) \<in> range rd_code) \<Longrightarrow> keeps statuses_typed (update_rune_deposit i f)"
  "(\<And>d. rt_status d \<in> range rt_code \<Longrightarrow> rt_status (g d) \<in> range rt_code) \<Longrightarrow> keeps statuses_typed (update_rune_token_deposit i g)"
  "(\<And>t. it_status t \<in> range btc_tx_code \<Longrightarrow> it_status (h t) \<in> range btc_tx_code) \<Longrightarrow> keeps statuses_typed (update_incoming_btc_tx i h)"
  by (auto simp: keeps_def statuses_typed_def insert_rune_deposit_def insert_rune_token_deposit_def
      insert_incoming_btc_tx_def update_rune_deposit_def update_rune_token_deposit_def update_incoming_btc_tx_def
      run_bnd run_sq run_demand run_insert_row update_where_def)

lemma typed_in_tx: "keeps statuses_typed m \<Longrightarrow> keeps statuses_typed (in_tx m)"
  by (rule keeps_in_tx) (auto simp: statuses_typed_def)

lemmas typed_intros = keeps_intros typed_base typed_rows typed_in_tx view_jval view_jint keeps_kv_get

lemma typed_codes [simp]:
  "rd_code s \<in> range rd_code" "rt_code t \<in> range rt_code" "btc_tx_code u \<in> range btc_tx_code"
  by simp_all

lemma typed_accept:
  "x \<in> range rd_code \<Longrightarrow> accept_rune_deposit c x \<in> range rd_code"
  "y \<in> range btc_tx_code \<Longrightarrow> accept_btc_tx c y \<in> range btc_tx_code"
  by (simp_all add: accept_rune_deposit_def accept_btc_tx_def del: rd_code.simps btc_tx_code.simps)

lemma typed_scan: "keeps statuses_typed (scan_rune_deposits sv py ord clock node ca)"
  unfolding scan_rune_deposits_def store_scan_def store_transaction_def store_btc_tx_def store_rune_deposit_def
    index_rune_def Let_def
  by (intro typed_intros) (simp_all add: typed_accept set_deposit_fields_def del: rd_code.simps btc_tx_code.simps)

lemma typed_scan_tokens: "keeps statuses_typed (scan_rune_token_deposits sv py ord logs block)"
proof -
  have kv: "keeps statuses_typed (kv_set db_kv (\<lambda>t db. db\<lparr>db_kv := t\<rparr>) k x)" for k x
    using typed_base(3)[of k x] by (simp add: rune_kv_set_def)
  show ?thesis
    unfolding scan_rune_token_deposits_def scan_new_events_def store_token_deposits_def store_token_deposit_def Let_def
    by (intro typed_intros kv) (simp_all del: rt_code.simps)
qed

lemma typed_confirm: "keeps statuses_typed (confirm_sent_rune_deposit sv evm i)"
  unfolding confirm_sent_rune_deposit_def get_deposit_def deposit_repr_def set_deposit_status_def deposit_user_def
    deposit_rune_def
  by (intro typed_intros) (simp_all del: rd_code.simps)

lemma typed_send: "keeps statuses_typed (send_rune_deposit_to_evm sv evm i)"
  unfolding send_rune_deposit_to_evm_def claim_rune_deposit_def transact_rune_deposit_def
    get_deposit_def query_deposit_def deposit_repr_def set_deposit_status_def deposit_user_def deposit_rune_def Let_def
  by (intro typed_intros typed_confirm) (simp_all del: rd_code.simps)

lemma typed_pay: "keeps statuses_typed (handle_accepted_rune_token_deposit sv py ord m fee fee' node_send asked i)"
proof -
  have sign: "keeps statuses_typed (sign_token_deposit sv py ord m fee fee' asked i)"
    unfolding sign_token_deposit_def answer_sign_rune_token_to_btc_transfer_question_def answer_token_transfers_def
      accepted_token_transfer_def Let_def
    by (intro typed_intros keeps_create_rune_psbt check_token_transfer_keeps)
  have list: "keeps I (case xs of [] \<Rightarrow> g | x # ys \<Rightarrow> f x)" if "keeps I g" "\<And>x. keeps I (f x)"
    for I :: "rune_world \<Rightarrow> bool" and xs :: "bool list" and f and g :: "(rune_world, string) prog"
    using that by (cases xs) simp_all
  have "keeps statuses_typed (broadcast_token_deposit sv m node_send i p)" for p
    unfolding broadcast_token_deposit_def broadcast_psbt_def send_raw_transaction_def get_token_deposit_def
      set_token_deposit_def
    by (intro typed_intros list) (simp_all del: rt_code.simps)
  then show ?thesis unfolding handle_accepted_rune_token_deposit_def by (intro typed_intros sign)
qed

lemma step_typed:
  assumes "rune_step L P w w'" "statuses_typed w"
  shows "statuses_typed w'"
  using assms(1)
proof cases
  case (init sv)
  have "keeps statuses_typed (service_init sv)" unfolding service_init_def by (intro typed_intros)
  from keepsD'[OF this assms(2) init] show ?thesis .
next
  case (generate sv eu derive a)
  have "keeps statuses_typed (generate_deposit_address sv eu derive a)"
    unfolding generate_deposit_address_def by (intro typed_intros)
  from keepsD'[OF this assms(2) generate] show ?thesis .
next
  case scan
  then show ?thesis by (rule keepsD'[OF typed_scan assms(2)])
next
  case scan_tokens
  then show ?thesis by (rule keepsD'[OF typed_scan_tokens assms(2)])
next
  case (confirm sv evm)
  have "keeps statuses_typed (confirm_sent_rune_deposits sv evm)"
    unfolding confirm_sent_rune_deposits_def by (intro typed_intros typed_confirm)
  from keepsD'[OF this assms(2) confirm] show ?thesis .
next
  case (signatures sv evm i h answers)
  have "keeps statuses_typed (update_rune_deposit_signatures sv evm i h answers)"
    unfolding update_rune_deposit_signatures_def query_deposit_def Let_def by (intro typed_intros) simp_all
  from keepsD'[OF this assms(2) signatures] show ?thesis .
next
  case send
  then show ?thesis by (auto intro: keepsD'[OF typed_send assms(2)])
next
  case pay
  then show ?thesis by (auto intro: keepsD'[OF typed_pay assms(2)])
next
  case question
  then show ?thesis by (rule keepsD'[OF typed_base(2) assms(2)])
qed

text \<open>
  C20. The tables stay well typed over any run: primary keys and the unique constraints hold,
  primary keys are below their sequence, and every status column holds the code of a status.
\<close>

theorem tables_well_typed:
  assumes "(rune_step L P)\<^sup>*\<^sup>* w w'" "rune_tables_ok w" "statuses_typed w"
  shows "rune_tables_ok w' \<and> statuses_typed w'"
  using assms(1)
proof (induction rule: rtranclp_induct)
  case base
  then show ?case using assms(2,3) by simp
next
  case (step u v)
  then show ?case using step_tables step_typed by blast
qed

section \<open>An example\<close>

lemma example_send:
  "\<exists>call. transacts (w_effects (snd (send_rune_deposit_to_evm example_service example_evm 1 accepted_world))) = [call]"
proof -
  have gas: "check_gas example_evm = Inr 7"
    using min_balance_one by (simp add: check_gas_def example_evm_def)
  have rel: "deposit_of accepted_world example_deposit \<lparr>us_id = 1, us_bridge_id = 1, us_evm_address = ''0xAA''\<rparr> example_rune_row"
    by (simp add: deposit_of_def accepted_world_def example_world_def example_db_def example_deposit_def example_rune_row_def)
  have bid: "bridge_id example_service = Inr (rd_bridge_id example_deposit)"
    by (simp add: example_facts) (simp add: example_deposit_def)
  have d: "rd_status example_deposit = rd_code RD_ACCEPTED" "1 \<le> length (rd_accept_transfer_signatures example_deposit)"
    by (simp_all add: example_deposit_def)
  have evm: "en_frozen example_evm = Inr False" "en_num_required_federators example_evm = Inr 1"
    "en_transact example_evm call = Inr ''cd''" for call
    by (simp_all add: example_evm_def)
  have "rd_id example_deposit = 1" by (simp add: example_deposit_def)
  moreover have "transacts (w_effects accepted_world) = []" by (simp add: accepted_world_def example_world_def)
  ultimately show ?thesis
    using send_ready[OF accepted_tables_ok bid rel d evm(1,2) gas refl evm(3)] by auto
qed

lemma example_run:
  "(rune_step L (\<lambda>s. ''0x'' @ s))\<^sup>*\<^sup>* accepted_world (snd (send_rune_deposit_to_evm example_service example_evm 1 accepted_world))"
proof -
  have "rune_step L (\<lambda>s. ''0x'' @ s) accepted_world (snd (send_rune_deposit_to_evm example_service example_evm 1 accepted_world))"
    by (rule send[OF prod.collapse[symmetric]]) (simp add: example_evm_def)
  then show ?thesis by (rule r_into_rtranclp)
qed

lemma accepted_no_calls: "transacts (w_effects accepted_world) = []"
  by (simp add: accepted_world_def example_world_def)

text \<open>The example's deposit is sent: one call was made, for its key.\<close>

theorem deposits_transferred_at_most_once_witness:
  "\<exists>k call. transacts (w_effects (snd (send_rune_deposit_to_evm example_service example_evm 1 accepted_world))) = [call] \<and>
    accept_transfer_of (\<lambda>s. ''0x'' @ s) call k"
proof -
  obtain call where c:
    "transacts (w_effects (snd (send_rune_deposit_to_evm example_service example_evm 1 accepted_world))) = [call]"
    using example_send by blast
  from deposits_transferred_at_most_once[OF example_run[of example_wallet_lib] accepted_tables_ok accepted_no_calls] c
  show ?thesis by (auto simp: list_all2_Cons1)
qed

theorem deposit_statuses_follow_machine_witness:
  "\<exists>d' \<in> set (db_rune_deposits (w_db (snd (send_rune_deposit_to_evm example_service example_evm 1 accepted_world)))).
     rd_id d' = 1 \<and> status_step\<^sup>*\<^sup>* (rd_code RD_ACCEPTED) (rd_status d')"
  using deposit_statuses_follow_machine[OF example_run[of example_wallet_lib] accepted_tables_ok accepted_rows(1)]
  by (auto simp: example_deposit_def)

theorem tables_well_typed_witness:
  "statuses_typed (snd (send_rune_deposit_to_evm example_service example_evm 1 accepted_world))"
proof -
  have "rd_code RD_ACCEPTED \<in> range rd_code" by (rule rangeI)
  then have "statuses_typed accepted_world"
    by (simp add: statuses_typed_def accepted_world_def example_world_def example_db_def example_deposit_def)
  from tables_well_typed[OF example_run[of example_wallet_lib] accepted_tables_ok this] show ?thesis by blast
qed

theorem token_deposits_paid_at_most_once_witness:
  "\<exists>w' ks. (rune_step (om_lib example_multisig) id)\<^sup>*\<^sup>* token_world w' \<and> raw_sends (w_effects w') = [''00''] \<and>
     list_all2 (raw_payment_of (om_lib example_multisig) w') [''00''] ks"
proof (rule example_handle)
  fix w'
  assume run: "handle_accepted_rune_token_deposit example_service example_ord_pyord example_outputs_ord
      example_multisig (Inr 2) (Inr 2) (\<lambda>_. Inr ''cd'') (\<lambda>_. Inr []) 1 token_world = (Inr (), w')"
    and sends: "raw_sends (w_effects w') = [''00'']"
  have steps: "(rune_step (om_lib example_multisig) id)\<^sup>*\<^sup>* token_world w'"
    using pay[OF run, of "om_lib example_multisig" id] by blast
  have "raw_sends (w_effects token_world) = []" by (simp add: token_world_def example_world_def)
  from token_deposits_paid_at_most_once[OF steps token_tables_ok this] sends steps show ?thesis by auto
qed

end
