(* ===== verification/Rune_Bridge.thy ===== *)
theory Rune_Bridge
  imports Rune_Lifecycle Handshake
begin

text \<open>
  The loops that drive the services: one iteration of a Rune bridge
  (\<^verbatim>\<open>bridge_node/bridge/bridges/runes/bridge.py\<close>), its wiring (\<^verbatim>\<open>wiring.py\<close>), and the main loop over
  all bridges of a node (\<^verbatim>\<open>bridge_node/bridge/main_bridge.py\<close>). What the outside answers during an
  iteration is a record; while a deposit is handled it may answer differently, so there is one
  such record for each deposit. Asking the other nodes is a function from the question to the
  list of answers; how the network collects them is the theory of the network.
\<close>

section \<open>The outside during an iteration\<close>

record rune_env =
  re_py :: pyord
  re_ord :: ord_server
  re_clock :: "nat \<Rightarrow> rat"
  re_deposit_node :: deposit_node
  re_multisig :: ord_multisig
  re_evm :: evm_node
  re_logs :: "token_transfer_args log_source"
  re_block :: int
  re_fee :: "exn + int"
  re_own_fee :: "exn + int"
  re_balance_at :: "string \<Rightarrow> int \<Rightarrow> pystr \<Rightarrow> exn + int"
  re_send_raw_transaction :: "string \<Rightarrow> exn + string"
  re_ask_to_evm :: "rune_to_evm_transfer \<Rightarrow> exn + sign_rune_to_evm_transfer_answer list"
  re_ask_to_btc :: "sign_rune_token_to_btc_transfer_question \<Rightarrow> exn + sign_rune_token_to_btc_transfer_answer list"

record iteration_env =
  ie_scan :: rune_env
  ie_to_evm :: "int \<Rightarrow> rune_env"
  ie_to_btc :: "int \<Rightarrow> rune_env"

section \<open>The bridge\<close>

record rune_bridge =
  rb_bridge_id :: string
  rb_service :: rune_service

definition sign_rune_to_evm_transfer_question :: "rune_bridge \<Rightarrow> string" where
  "sign_rune_to_evm_transfer_question b = rb_bridge_id b @ '':sign-rune-to-evm-transfer''"

definition sign_rune_token_to_btc_transfer_question_name :: "rune_bridge \<Rightarrow> string" where
  "sign_rune_token_to_btc_transfer_question_name b = rb_bridge_id b @ '':sign-rune-token-to-btc-transfer''"

text \<open>The callbacks that a bridge registers: its two answering methods.\<close>

datatype rune_callback = AnswerToEvm rune_bridge | AnswerToBtc rune_bridge

definition rune_bridge_init ::
  "rune_bridge \<Rightarrow> ('s, rune_callback) pyro_network \<Rightarrow> (rune_bridge \<times> ('s, rune_callback) pyro_network) rune_prog" where
  "rune_bridge_init b network =
     bnd (service_init (rb_service b)) (\<lambda>service.
     let b = b\<lparr>rb_service := service\<rparr> in
     if \<not> is_leader network
     then lift_res
       (rbind (answer_with (sign_rune_to_evm_transfer_question b) (AnswerToEvm b) network) (\<lambda>network.
        rbind (answer_with (sign_rune_token_to_btc_transfer_question_name b) (AnswerToBtc b) network) (\<lambda>network.
        Inr (b, network))))
     else ok (b, network))"

definition service_check :: "rune_env \<Rightarrow> exn + unit" where
  "service_check env = multisig_check (re_multisig env)"

definition is_bridge_frozen :: "rune_env \<Rightarrow> exn + bool" where
  "is_bridge_frozen env = en_frozen (re_evm env)"

text \<open>One deposit; the body of the loop's \<open>try\<close>.\<close>

definition process_rune_deposit :: "rune_bridge \<Rightarrow> rune_env \<Rightarrow> int \<Rightarrow> unit rune_prog" where
  "process_rune_deposit b env deposit_id =
     (let sv = rb_service b; evm = re_evm env in
      bnd (validate_rune_deposit_for_sending sv evm deposit_id) (\<lambda>valid.
      if \<not> valid then ok () else
      bnd (get_sign_rune_to_evm_transfer_question sv deposit_id) (\<lambda>message.
      bnd (lift_res (answer_sign_rune_to_evm_transfer_question sv (re_py env) (re_ord env) evm (re_balance_at env) message))
        (\<lambda>self_response.
      let message_hash = an_message_hash self_response in
      sq (emit (AskSignToEvm message))
     (bnd (lift_res (re_ask_to_evm env message)) (\<lambda>responses.
      bnd (update_rune_deposit_signatures sv evm deposit_id message_hash (self_response # responses)) (\<lambda>ready_to_send.
      if ready_to_send then send_rune_deposit_to_evm sv evm deposit_id else ok ())))))))"

definition handle_rune_transfers_to_evm :: "rune_bridge \<Rightarrow> (int \<Rightarrow> rune_env) \<Rightarrow> unit rune_prog" where
  "handle_rune_transfers_to_evm b envs =
     bnd (get_accepted_rune_deposit_ids (rb_service b)) (\<lambda>ids.
     for_each ids (\<lambda>deposit_id. catch (process_rune_deposit b (envs deposit_id) deposit_id) (\<lambda>e. ok ())))"

definition process_token_deposit :: "rune_bridge \<Rightarrow> rune_env \<Rightarrow> int \<Rightarrow> unit rune_prog" where
  "process_token_deposit b env deposit_id =
     handle_accepted_rune_token_deposit (rb_service b) (re_py env) (re_ord env) (re_multisig env) (re_fee env)
       (re_own_fee env) (re_send_raw_transaction env) (re_ask_to_btc env) deposit_id"

definition handle_rune_token_transfers_to_btc :: "rune_bridge \<Rightarrow> (int \<Rightarrow> rune_env) \<Rightarrow> unit rune_prog" where
  "handle_rune_token_transfers_to_btc b envs =
     bnd (get_accepted_rune_token_deposit_ids (rb_service b)) (\<lambda>ids.
     for_each ids (\<lambda>deposit_id. catch (process_token_deposit b (envs deposit_id) deposit_id) (\<lambda>e. ok ())))"

definition run_iteration :: "rune_bridge \<Rightarrow> bool \<Rightarrow> iteration_env \<Rightarrow> unit rune_prog" where
  "run_iteration b leader env =
     (let sv = rb_service b; now = ie_scan env in
      sq (lift_res (service_check now))
     (bnd (scan_rune_deposits sv (re_py now) (re_ord now) (re_clock now) (re_deposit_node now)
             (change_address (re_multisig now))) (\<lambda>num_rune_deposits.
      bnd (scan_rune_token_deposits sv (re_py now) (re_ord now) (re_logs now) (re_block now)) (\<lambda>num_rune_token_deposits.
      sq (confirm_sent_rune_deposits sv (re_evm now))
     (if \<not> leader then ok () else
      bnd (lift_res (is_bridge_frozen now)) (\<lambda>frozen.
      if frozen then ok () else
      sq (handle_rune_transfers_to_evm b (ie_to_evm env))
         (handle_rune_token_transfers_to_btc b (ie_to_btc env))))))))"

section \<open>Wiring\<close>

text \<open>\<open>urlsplit\<close> and \<open>urlunsplit\<close> are those of the library; a URL is its five parts.\<close>

record url_parts =
  up_scheme :: string
  up_netloc :: string
  up_path :: string
  up_query :: string
  up_fragment :: string

definition add_auth :: "(string \<Rightarrow> url_parts) \<Rightarrow> (url_parts \<Rightarrow> string) \<Rightarrow> string \<Rightarrow> string option \<Rightarrow> string" where
  "add_auth urlsplit urlunsplit url auth =
     (case auth of None \<Rightarrow> url
      | Some [] \<Rightarrow> url
      | Some a \<Rightarrow>
          let parts = urlsplit url;
              netloc = up_netloc parts;
              netloc = (if CHR ''@'' \<in> set netloc then tl (dropWhile (\<lambda>c. c \<noteq> CHR ''@'') netloc) else netloc);
              netloc = a @ ''@'' @ netloc
          in urlunsplit (parts\<lparr>up_netloc := netloc\<rparr>))"

definition min_non_change_rune_utxo_confirmations :: "rune_config \<Rightarrow> int" where
  "min_non_change_rune_utxo_confirmations config =
     rc_btc_min_confirmations config + (if rc_btc_network config = ''mainnet'' then 1 else 0)"

text \<open>Wiring: the multisig is set up with these confirmations, and the service with the configuration.\<close>

definition wire_rune_bridge ::
  "btx \<Rightarrow> wallet_lib \<Rightarrow> runes_lib \<Rightarrow> pyord \<Rightarrow> wallet_node \<Rightarrow> ord_server \<Rightarrow> rune_config \<Rightarrow> string \<Rightarrow> string list \<Rightarrow>
   nat \<Rightarrow> string \<Rightarrow> exn + rune_bridge \<times> ord_multisig" where
  "wire_rune_bridge bx wl rl py node ord config btc_master_xpriv btc_master_xpubs num_required base_path =
     rbind (ord_multisig_init bx wl rl py node ord btc_master_xpriv btc_master_xpubs num_required base_path None
              (min_non_change_rune_utxo_confirmations config)) (\<lambda>multisig.
     Inr (\<lparr>rb_bridge_id = rc_bridge_id config, rb_service = \<lparr>sv_config = config, sv_bridge_id = None\<rparr>\<rparr>, multisig))"

section \<open>The main loop\<close>

record 'w main_state =
  ms_pong_nonce :: int
  ms_world :: 'w

definition on_world :: "('w, 'a) prog \<Rightarrow> ('w main_state, 'a) prog" where
  "on_world m s = (case m (ms_world s) of (r, w) \<Rightarrow> (r, s\<lparr>ms_world := w\<rparr>))"

text \<open>The bridges that are enabled, each with its iteration.\<close>

definition bridges :: "string set \<Rightarrow> 'b \<Rightarrow> 'b \<Rightarrow> 'b \<Rightarrow> 'b list" where
  "bridges enabled tap_rsk_bridge runesrsk_bridge runesbob_bridge =
     (if ''taprsk'' \<in> enabled \<or> ''all'' \<in> enabled then [tap_rsk_bridge] else []) @
     (if ''runesrsk'' \<in> enabled \<or> ''all'' \<in> enabled then [runesrsk_bridge] else []) @
     (if ''runesbob'' \<in> enabled \<or> ''all'' \<in> enabled then [runesbob_bridge] else [])"

text \<open>At the start every bridge is initialised, then pings are answered.\<close>

definition on_network ::
  "(('s, 'cb) pyro_network \<Rightarrow> exn + ('s, 'cb) pyro_network) \<Rightarrow> (('s, 'cb) pyro_network \<times> 'w, unit) prog" where
  "on_network f s = (case s of (network, w) \<Rightarrow>
     (case f network of Inl e \<Rightarrow> (Inl e, s) | Inr network' \<Rightarrow> (Inr (), (network', w))))"

definition main_init ::
  "(('s, 'cb) pyro_network \<times> 'w, unit) prog list \<Rightarrow> 'cb \<Rightarrow> (('s, 'cb) pyro_network \<times> 'w, unit) prog" where
  "main_init inits pong = sq (for_each inits (\<lambda>init. init)) (on_network (answer_with ''main:ping'' pong))"

text \<open>The answers are read when they are logged.\<close>

fun log_pongs :: "pyval list \<Rightarrow> exn + unit" where
  "log_pongs [] = Inr ()"
| "log_pongs (answer # answers) =
     rbind (item answer ''nonce'') (\<lambda>nonce. rbind (item answer ''sender'') (\<lambda>sender. log_pongs answers))"

definition ping :: "(int \<Rightarrow> ('w, pyval list) prog) \<Rightarrow> ('w main_state, unit) prog" where
  "ping ask_ping =
     bnd (reads ms_pong_nonce) (\<lambda>nonce.
     bnd (on_world (ask_ping nonce)) (\<lambda>answers.
     sq (modify (\<lambda>s. s\<lparr>ms_pong_nonce := ms_pong_nonce s + 1\<rparr>))
        (lift_res (log_pongs answers))))"

definition answer_pong :: "string \<Rightarrow> pyval \<Rightarrow> pyval" where
  "answer_pong node_id nonce = PDict [(''message'', PStr ''pong''), (''nonce'', nonce), (''sender'', PStr node_id)]"

definition main_iteration ::
  "bool \<Rightarrow> (int \<Rightarrow> ('w, pyval list) prog) \<Rightarrow> ('w, unit) prog list \<Rightarrow> ('w main_state, unit) prog" where
  "main_iteration leader ask_ping iterations =
     sq (if leader then ping ask_ping else ok ())
        (for_each iterations (\<lambda>iteration. catch (on_world iteration) (\<lambda>e. ok ())))"

text \<open>
  The main loop, for a number of iterations: an exception of an iteration is logged; between two
  iterations it sleeps.
\<close>

fun enter_main_loop ::
  "nat \<Rightarrow> bool \<Rightarrow> (nat \<Rightarrow> int \<Rightarrow> ('w, pyval list) prog) \<Rightarrow> (nat \<Rightarrow> ('w, unit) prog list) \<Rightarrow> ('w main_state, unit) prog" where
  "enter_main_loop 0 leader ask_ping iterations = ok ()"
| "enter_main_loop (Suc n) leader ask_ping iterations =
     sq (catch (main_iteration leader (ask_ping n) (iterations n)) (\<lambda>e. ok ()))
        (enter_main_loop n leader ask_ping iterations)"

section \<open>An iteration is a run of steps\<close>

text \<open>A program that is made of steps, from wherever it starts.\<close>

definition steps :: "wallet_lib \<Rightarrow> (string \<Rightarrow> string) \<Rightarrow> 'a rune_prog \<Rightarrow> bool" where
  "steps L P m \<longleftrightarrow> (\<forall>w. (rune_step L P)\<^sup>*\<^sup>* w (snd (m w)))"

lemma stepsD: "steps L P m \<Longrightarrow> m w = (r, w') \<Longrightarrow> (rune_step L P)\<^sup>*\<^sup>* w w'"
  unfolding steps_def by (metis snd_conv)

lemma steps_one: "(\<And>w. rune_step L P w (snd (m w))) \<Longrightarrow> steps L P m"
  by (simp add: steps_def r_into_rtranclp)

lemma steps_pure: "(\<And>w. keeps (\<lambda>v. v = w) m) \<Longrightarrow> steps L P m"
  unfolding steps_def keeps_def by simp

lemma steps_basic: "steps L P (ok x)" "steps L P (lift_res r)"
  by (simp_all add: steps_def)

lemma steps_bnd:
  assumes "steps L P m" "\<And>x. steps L P (f x)"
  shows "steps L P (bnd m f)"
  unfolding steps_def
proof
  fix w
  obtain r v where m: "m w = (r, v)" by (cases "m w")
  have w: "(rune_step L P)\<^sup>*\<^sup>* w v" using stepsD[OF assms(1) m] .
  show "(rune_step L P)\<^sup>*\<^sup>* w (snd (bnd m f w))"
  proof (cases r)
    case (Inr x)
    have "(rune_step L P)\<^sup>*\<^sup>* v (snd (f x v))" using assms(2)[of x] by (simp add: steps_def)
    with w show ?thesis using m Inr by (simp add: run_bnd)
  qed (use w m in \<open>simp add: run_bnd\<close>)
qed

lemma steps_sq: "steps L P m \<Longrightarrow> steps L P n \<Longrightarrow> steps L P (sq m n)"
  by (simp add: sq_def steps_bnd)

lemma steps_catch:
  assumes "steps L P m"
  shows "steps L P (catch m (\<lambda>e. ok x))"
  unfolding steps_def
proof
  fix w
  obtain r v where m: "m w = (r, v)" by (cases "m w")
  show "(rune_step L P)\<^sup>*\<^sup>* w (snd (catch m (\<lambda>e. ok x) w))"
    using stepsD[OF assms m] m by (cases r) (simp_all add: run_catch)
qed

lemma steps_if: "(b \<Longrightarrow> steps L P m) \<Longrightarrow> (\<not> b \<Longrightarrow> steps L P n) \<Longrightarrow> steps L P (if b then m else n)"
  by simp

lemma steps_let: "steps L P (f x) \<Longrightarrow> steps L P (let y = x in f y)"
  by simp

lemma steps_for_each: "(\<And>x. steps L P (f x)) \<Longrightarrow> steps L P (for_each xs f)"
  by (induction xs) (simp_all add: steps_basic steps_sq)

lemmas steps_intros = steps_basic steps_bnd steps_sq steps_catch steps_if steps_let steps_for_each

lemma pure_related: "keeps (\<lambda>v. v = w) (deposit_repr d)"
  by (simp add: keeps_def deposit_repr_pure)

lemma steps_reads:
  "steps L P (get_accepted_rune_deposit_ids sv)" "steps L P (get_accepted_rune_token_deposit_ids sv)"
  "steps L P (validate_rune_deposit_for_sending sv evm i)" "steps L P (get_sign_rune_to_evm_transfer_question sv i)"
proof -
  show "steps L P (get_accepted_rune_deposit_ids sv)"
    by (rule steps_pure) (unfold get_accepted_rune_deposit_ids_def, intro keeps_intros pure_in_tx pure_related)
  show "steps L P (get_accepted_rune_token_deposit_ids sv)"
    by (rule steps_pure) (unfold get_accepted_rune_token_deposit_ids_def, intro keeps_intros pure_in_tx pure_related)
  show "steps L P (validate_rune_deposit_for_sending sv evm i)"
    by (rule steps_pure) (unfold validate_rune_deposit_for_sending_def query_deposit_def deposit_rune_def,
        intro keeps_intros pure_in_tx pure_related)
  show "steps L P (get_sign_rune_to_evm_transfer_question sv i)"
    by (rule steps_pure) (unfold get_sign_rune_to_evm_transfer_question_def query_deposit_def deposit_rune_def deposit_user_def,
        intro keeps_intros pure_in_tx pure_related)
qed

text \<open>The outside of a node that uses this Bitcoin library and this prefixing function.\<close>

definition env_ok :: "wallet_lib \<Rightarrow> (string \<Rightarrow> string) \<Rightarrow> rune_env \<Rightarrow> bool" where
  "env_ok L P env \<longleftrightarrow> om_lib (re_multisig env) = L \<and> en_add_0x_prefix (re_evm env) = P"

lemma steps_ops:
  "steps L P (scan_rune_deposits sv py ord clock node ca)" "steps L P (scan_rune_token_deposits sv py ord logs block)"
  "steps L P (confirm_sent_rune_deposits sv evm)" "steps L P (update_rune_deposit_signatures sv evm' i h answers)"
  "steps L P (emit (AskSignToEvm q))" "steps L P (service_init sv)"
  "en_add_0x_prefix evm' = P \<Longrightarrow> steps L P (send_rune_deposit_to_evm sv evm' i)"
  "om_lib m = L \<Longrightarrow> steps L P (handle_accepted_rune_token_deposit sv py ord m fee fee' node_send asked i)"
  by (rule steps_one, rule rune_step.intros, rule prod.collapse[symmetric], assumption?)+

lemma steps_process:
  assumes "env_ok L P env"
  shows "steps L P (process_rune_deposit b env i)" "steps L P (process_token_deposit b env i)"
  using assms unfolding process_rune_deposit_def process_token_deposit_def env_ok_def
  by (intro steps_intros steps_reads steps_ops; simp)+

lemma steps_iteration:
  assumes "\<And>i. env_ok L P (ie_to_evm env i)" "\<And>i. env_ok L P (ie_to_btc env i)"
  shows "steps L P (run_iteration b leader env)"
  unfolding run_iteration_def handle_rune_transfers_to_evm_def handle_rune_token_transfers_to_btc_def
  by (intro steps_intros steps_reads steps_ops steps_process assms)

section \<open>Deposits get through\<close>

lemma process_ready:
  assumes w: "rune_tables_ok w" and rel: "deposit_of w d u r" and bid: "bridge_id (rb_service b) = Inr (rd_bridge_id d)"
    and d: "rd_status d = rd_code RD_ACCEPTED" "rc_btc_min_postage_sat (sv_config (rb_service b)) \<le> rd_postage d"
      "distinct (rd_accept_transfer_signers d)"
      "length (rd_accept_transfer_signers d) = length (rd_accept_transfer_signatures d)"
    and am: "calculate_rune_to_evm_transfer_amounts (rc_runes_to_evm_fee_percentage_decimal (sv_config (rb_service b)))
        (rd_transfer_amount_raw d) (re_divisibility (rr_entry response)) = Inr am"
      "amount_raw am = rd_transfer_amount_raw d" "net_amount_raw am = rd_net_amount_raw d" "rd_net_amount_raw d \<noteq> 0"
    and ord: "get_rune (re_ord env) (ru_name r) = Inr (Some response)" "rune_from_str (re_py env) (ru_name r) = Inr (ru_n r)"
      "re_balance_at env (rd_tx_id d) (rd_vout d) (ru_name r) = Inr (rd_transfer_amount_raw d)"
    and evm: "re_evm env = evm" "en_is_rune_registered evm (ru_n r) = Inr True" "en_is_rune_paused evm (ru_n r) = Inr False"
      "en_frozen evm = Inr False" "en_num_required_federators evm = Inr n" "check_gas evm = Inr nonce"
      "en_message_hash evm (us_evm_address u) (ru_n r) (rd_net_amount_raw d) (en_add_0x_prefix evm (rd_tx_id d)) (rd_vout d) = Inr h"
      "en_sign evm h = Inr signature" "\<And>call. en_transact evm call = Inr evm_tx"
    and asked: "\<And>q. re_ask_to_evm env q = Inr responses"
      "answers = \<lparr>an_signature = signature, an_signer = en_address evm, an_message_hash = h\<rparr> # responses"
      "\<forall>a \<in> set answers. (\<exists>b. en_is_federator evm (an_signer a) = Inr b) \<and> (\<exists>s. en_recover evm h (an_signature a) = Inr s)"
      "n \<le> card {an_signer a |a. a \<in> set answers \<and> signature_ok evm h (an_signer a) (an_signature a)}"
  shows "\<exists>res w' signatures. process_rune_deposit b env (rd_id d) w = (res, w') \<and> length signatures = n \<and>
    transacts (w_effects w') = \<lparr>ac_evm_address = us_evm_address u, ac_rune_number = rd_rune_number d,
      ac_net_rune_amount = rd_net_amount_raw d, ac_btc_txid = en_add_0x_prefix evm (rd_tx_id d),
      ac_btc_vout = rd_vout d, ac_signatures = signatures, ac_gas = tx_gas_limit, ac_nonce = nonce\<rparr> # transacts (w_effects w) \<and>
    (\<exists>d' \<in> set (db_rune_deposits (w_db w')). rune_deposit_key d' = rune_deposit_key d \<and>
       status_step\<^sup>*\<^sup>* (rd_code SENT_TO_EVM) (rd_status d'))"
proof -
  let ?sv = "rb_service b"
  have din: "d \<in> set (db_rune_deposits (w_db w))" using rel by (simp add: deposit_of_def)
  have related: "deposit_user d w = (Inr u, w)" "deposit_rune d w = (Inr r, w)"
    by (rule deposit_of_ready[OF w rel]; simp)+
  have q: "query_deposit ?sv (rd_id d) w = (Inr d, w)" by (rule query_ready[OF w bid din])
  obtain net amount where dec: "decimal_amount r (rd_net_amount_raw d) = Inr net"
      "decimal_amount r (rd_transfer_amount_raw d) = Inr amount" using decimal_amount_Inr by metis
  have valid: "validate_rune_deposit_for_sending ?sv evm (rd_id d) w = (Inr True, w)"
    using d evm by (simp add: validate_rune_deposit_for_sending_def in_tx_def run_bnd q run_sq deposit_repr_def related dec)
  define m where "m = \<lparr>te_evm_address = us_evm_address u, te_amount_raw = rd_transfer_amount_raw d,
          te_amount_decimal = amount, te_net_amount_raw = rd_net_amount_raw d,
          te_txid = rd_tx_id d, te_vout = rd_vout d, te_rune_name = ru_name r, te_rune_number = ru_n r\<rparr>"
  have question: "get_sign_rune_to_evm_transfer_question ?sv (rd_id d) w = (Inr m, w)"
    using d by (simp add: get_sign_rune_to_evm_transfer_question_def in_tx_def run_bnd q run_sq run_demand related dec m_def)
  have own: "answer_sign_rune_to_evm_transfer_question ?sv (re_py env) (re_ord env) evm (re_balance_at env) m =
      Inr \<lparr>an_signature = signature, an_signer = en_address evm, an_message_hash = h\<rparr>"
    using am ord evm by (simp add: answer_sign_rune_to_evm_transfer_question_def m_def)
  define v where "v = w\<lparr>w_effects := AskSignToEvm m # w_effects w\<rparr>"
  have v: "rune_tables_ok v" "d \<in> set (db_rune_deposits (w_db v))" using w din by (simp_all add: v_def rune_tables_ok_def)
  obtain signers signatures where sigs: "n \<le> length signatures"
    and upd: "update_rune_deposit_signatures ?sv evm (rd_id d) h answers v =
      (Inr True, v\<lparr>w_db := db_rune_deposits_update (update_where (\<lambda>e. rd_id e = rd_id d)
         (\<lambda>d. d\<lparr>rd_accept_transfer_message_hash := Some h, rd_accept_transfer_signers := signers,
                rd_accept_transfer_signatures := signatures\<rparr>)) (w_db v)\<rparr>)"
    using update_signatures_ready[OF v(1) bid v(2) d(1,3,4) asked(3) evm(5) asked(4)] by blast
  let ?f = "\<lambda>d. d\<lparr>rd_accept_transfer_message_hash := Some h, rd_accept_transfer_signers := signers,
                rd_accept_transfer_signatures := signatures\<rparr>"
  define w2 where "w2 = v\<lparr>w_db := db_rune_deposits_update (update_where (\<lambda>e. rd_id e = rd_id d) ?f) (w_db v)\<rparr>"
  have w2: "rune_tables_ok w2" using keeps_tables_ok[OF keeps_tables_update_signatures v(1)] upd unfolding w2_def by (metis snd_conv)
  have "?f d \<in> set (db_rune_deposits (w_db w2))"
    using update_where_hit[OF v(2), of "\<lambda>e. rd_id e = rd_id d" ?f] by (simp add: w2_def)
  then have rel2: "deposit_of w2 (?f d) u r" using rel by (simp add: deposit_of_def w2_def v_def)
  have same: "rd_id (?f d) = rd_id d" "rd_bridge_id (?f d) = rd_bridge_id d" "rd_status (?f d) = rd_status d"
    "rune_deposit_key (?f d) = rune_deposit_key d" "rd_accept_transfer_signatures (?f d) = signatures"
    by (simp_all add: rune_deposit_key_def)
  let ?call = "\<lparr>ac_evm_address = us_evm_address u, ac_rune_number = rd_rune_number d,
      ac_net_rune_amount = rd_net_amount_raw d, ac_btc_txid = en_add_0x_prefix evm (rd_tx_id d),
      ac_btc_vout = rd_vout d, ac_signatures = take n signatures, ac_gas = tx_gas_limit, ac_nonce = nonce\<rparr>"
  have "\<exists>res w'. send_rune_deposit_to_evm ?sv evm (rd_id (?f d)) w2 = (res, w') \<and>
    transacts (w_effects w') = ?call # transacts (w_effects w2) \<and>
    (\<exists>d' \<in> set (db_rune_deposits (w_db w')). rune_deposit_key d' = rune_deposit_key (?f d) \<and>
       status_step\<^sup>*\<^sup>* (rd_code SENT_TO_EVM) (rd_status d'))"
    by (rule send_ready[OF w2 _ rel2 _ _ evm(4,5,6) _ evm(9)]) (use bid d(1) sigs in simp_all)
  then obtain res w' where sent: "send_rune_deposit_to_evm ?sv evm (rd_id d) w2 = (res, w')"
    "transacts (w_effects w') = ?call # transacts (w_effects w2)"
    "\<exists>d' \<in> set (db_rune_deposits (w_db w')). rune_deposit_key d' = rune_deposit_key d \<and>
       status_step\<^sup>*\<^sup>* (rd_code SENT_TO_EVM) (rd_status d')"
    unfolding same by blast
  have "process_rune_deposit b env (rd_id d) w = (res, w')"
    by (simp add: process_rune_deposit_def Let_def run_bnd run_sq evm(1) valid question own asked(1,2)[symmetric] v_def[symmetric]
        asked(1) upd w2_def[symmetric] sent(1))
  moreover have "transacts (w_effects w2) = transacts (w_effects w)" by (simp add: w2_def v_def)
  ultimately show ?thesis using sent sigs by (intro exI[of _ res] exI[of _ w'] exI[of _ "take n signatures"]) (simp del: rd_code.simps)
qed

section \<open>Who sends\<close>

text \<open>What leaves the node but for notices: calls, raw transactions and questions.\<close>

definition outgoing :: "rune_effect list \<Rightarrow> rune_effect list" where
  "outgoing es = filter (\<lambda>e. case e of Notice title alert \<Rightarrow> False | _ \<Rightarrow> True) es"

definition sent_view :: "rune_effect list \<Rightarrow> rune_world \<Rightarrow> bool" where
  "sent_view v w \<longleftrightarrow> outgoing (w_effects w) = v"

lemma sent_view_intros:
  "keeps (sent_view v) m \<Longrightarrow> keeps (sent_view v) (in_tx m)"
  "keeps (sent_view v) (notice sv title alert)" "keeps (sent_view v) (rune_kv_set k x)"
  "keeps (sent_view v) (kv_set db_kv (\<lambda>t db. db\<lparr>db_kv := t\<rparr>) k x)"
  "keeps (sent_view v) (insert_rune r)" "keeps (sent_view v) (insert_rune_deposit d)"
  "keeps (sent_view v) (insert_rune_token_deposit td)" "keeps (sent_view v) (insert_incoming_btc_tx tx)"
  "keeps (sent_view v) (update_incoming_btc_tx i f)" "keeps (sent_view v) (update_rune_deposit i g)"
proof -
  show "keeps (sent_view v) m \<Longrightarrow> keeps (sent_view v) (in_tx m)"
    by (rule keeps_in_tx) (simp_all add: sent_view_def)
qed (auto simp: keeps_def sent_view_def outgoing_def notice_def run_rune_kv_set kv_set_def insert_rune_def
    insert_rune_deposit_def insert_rune_token_deposit_def insert_incoming_btc_tx_def update_incoming_btc_tx_def
    update_rune_deposit_def run_bnd run_sq run_demand run_insert_row)

lemma sent_view_scan:
  "keeps (sent_view v) (scan_rune_deposits sv py ord clock node ca)"
  "keeps (sent_view v) (scan_rune_token_deposits sv py ord logs block)"
  "keeps (sent_view v) (confirm_sent_rune_deposits sv evm)"
proof -
  show "keeps (sent_view v) (scan_rune_deposits sv py ord clock node ca)"
    unfolding scan_rune_deposits_def store_scan_def store_transaction_def store_btc_tx_def store_rune_deposit_def
      index_rune_def Let_def
    by (intro keeps_intros sent_view_intros view_jval)
  show "keeps (sent_view v) (scan_rune_token_deposits sv py ord logs block)"
    unfolding scan_rune_token_deposits_def scan_new_events_def store_token_deposits_def store_token_deposit_def Let_def
    by (intro keeps_intros sent_view_intros view_jint keeps_kv_get)
  show "keeps (sent_view v) (confirm_sent_rune_deposits sv evm)"
    unfolding confirm_sent_rune_deposits_def confirm_sent_rune_deposit_def get_deposit_def deposit_repr_def
      set_deposit_status_def deposit_user_def deposit_rune_def
    by (intro keeps_intros sent_view_intros)
qed

text \<open>
  C10. Only the leader of a bridge that is not frozen sends: an iteration of any other node, or
  while the contract says that it is frozen or does not answer, makes no call, gives no
  transaction to Bitcoin and asks no question.
\<close>

theorem only_leader_sends:
  assumes "run_iteration b leader env w = (r, w')"
    and "\<not> leader \<or> en_frozen (re_evm (ie_scan env)) \<noteq> Inr False"
  shows "outgoing (w_effects w') = outgoing (w_effects w)"
proof -
  have rest: "keeps (sent_view v) (if \<not> leader then ok () else
      bnd (lift_res (is_bridge_frozen (ie_scan env))) (\<lambda>frozen. if frozen then ok () else m))" for v m
  proof (cases leader)
    case True
    then have "en_frozen (re_evm (ie_scan env)) \<noteq> Inr False" using assms(2) by simp
    then show ?thesis using True
      by (cases "en_frozen (re_evm (ie_scan env))") (auto simp: keeps_def run_bnd is_bridge_frozen_def)
  qed simp
  have "keeps (sent_view (outgoing (w_effects w))) (run_iteration b leader env)"
    unfolding run_iteration_def Let_def
    by (intro keeps_bnd keeps_sq keeps_lift_res sent_view_scan rest)
  from keepsD'[OF this _ assms(1)] show ?thesis by (simp add: sent_view_def)
qed

section \<open>Failures stay with what failed\<close>

lemma for_each_caught:
  "for_each xs (\<lambda>x. catch (f x) (\<lambda>e. ok ())) w = (Inr (), foldl (\<lambda>w x. snd (f x w)) w xs)"
proof (induction xs arbitrary: w)
  case (Cons x xs)
  obtain r v where "f x w = (r, v)" by (cases "f x w")
  then show ?case using Cons by (cases r) (simp_all add: run_sq run_catch)
qed simp

text \<open>
  C31. A deposit that cannot be processed does not hold up the others: the leader processes every
  deposit that is accepted at the start, in the order of their ids, each from the state that the
  one before it has left, whether that one succeeded or failed; and it always gets to the end.
\<close>

theorem every_accepted_deposit_processed:
  "bridge_id (rb_service b) = Inr bid \<Longrightarrow>
   handle_rune_transfers_to_evm b envs w = (Inr (),
     foldl (\<lambda>w i. snd (process_rune_deposit b (envs i) i w)) w
       (map rd_id (sort_key rd_id
          (filter (\<lambda>d. rd_bridge_id d = bid \<and> rd_status d = rd_code RD_ACCEPTED) (db_rune_deposits (w_db w))))))"
  by (simp add: handle_rune_transfers_to_evm_def get_accepted_rune_deposit_ids_def run_bnd run_in_tx run_rows_where
      for_each_caught del: rd_code.simps)

lemma for_each_on_world:
  "for_each ms (\<lambda>m. catch (on_world m) (\<lambda>e. ok ())) s =
     (Inr (), s\<lparr>ms_world := foldl (\<lambda>w m. snd (m w)) (ms_world s) ms\<rparr>)"
proof -
  have "foldl (\<lambda>s m. snd (on_world m s)) s ms = s\<lparr>ms_world := foldl (\<lambda>w m. snd (m w)) (ms_world s) ms\<rparr>" for s
  proof (induction ms arbitrary: s)
    case (Cons m ms)
    then show ?case by (cases "m (ms_world s)") (simp add: on_world_def)
  qed simp
  then show ?thesis by (simp add: for_each_caught)
qed

text \<open>
  A peer can stop the bridges of the leader: if the question \<open>main:ping\<close> raises, as an
  unreadable answer of one peer makes it do, or if one of the answers is no dictionary with a nonce
  and a sender, no bridge gets its turn in that iteration; and this however often the loop runs.
\<close>

theorem bad_pong_stops_bridges:
  assumes "\<And>k nonce w. snd (ask_ping k nonce w) = w"
    and "\<And>k nonce w answers. fst (ask_ping k nonce w) = Inr answers \<Longrightarrow>
      \<exists>a \<in> set answers. \<exists>e. item a ''nonce'' = Inl e \<or> item a ''sender'' = Inl e"
  shows "ms_world (snd (enter_main_loop n True ask_ping iterations s)) = ms_world s"
proof (induction n arbitrary: s)
  case (Suc n)
  have bad: "\<exists>e. log_pongs answers = Inl e"
    if "a \<in> set answers" "item a ''nonce'' = Inl e \<or> item a ''sender'' = Inl e" for a answers e
    using that
  proof (induction answers)
    case (Cons b bs)
    then show ?case
      by (cases "item b ''nonce''"; cases "item b ''sender''") auto
  qed simp
  obtain r w where a: "ask_ping n (ms_pong_nonce s) (ms_world s) = (r, w)" by fastforce
  have w: "w = ms_world s" using assms(1)[of n "ms_pong_nonce s" "ms_world s"] a by simp
  have "\<exists>e s'. main_iteration True (ask_ping n) (iterations n) s = (Inl e, s') \<and> ms_world s' = ms_world s"
  proof (cases r)
    case (Inl e)
    then show ?thesis using a w by (simp add: main_iteration_def ping_def run_sq run_bnd on_world_def)
  next
    case (Inr answers)
    then have "fst (ask_ping n (ms_pong_nonce s) (ms_world s)) = Inr answers" using a by simp
    from assms(2)[OF this] obtain q e' where
      q: "q \<in> set answers" "item q ''nonce'' = Inl e' \<or> item q ''sender'' = Inl e'" by blast
    obtain e where "log_pongs answers = Inl e" using bad[OF q] by blast
    then show ?thesis using a w Inr by (simp add: main_iteration_def ping_def run_sq run_bnd on_world_def)
  qed
  then show ?case using Suc.IH by (auto simp: run_sq run_catch)
qed simp

text \<open>
  C1. The whole node: however often the main loop runs over the Rune bridges that are enabled, with
  or without failures, a deposit is transferred to EVM at most once and a token deposit is paid on
  Bitcoin at most once: the calls that were made belong, one by one, to different deposits of the node's database,
  each with the transaction id, output and rune of its deposit, which is no longer waiting; the transactions that were given to Bitcoin
  belong, one by one, to different token deposits, each being the finalized transaction of its deposit.
\<close>

theorem main_loop_pays_at_most_once:
  assumes "rune_tables_ok (ms_world s)" "transacts (w_effects (ms_world s)) = []" "raw_sends (w_effects (ms_world s)) = []"
    and "\<And>k nonce w. snd (ask_ping k nonce w) = w"
    and "\<And>k. \<forall>m \<in> set (iterations k). \<exists>b env. m = run_iteration b leader env \<and>
       (\<forall>i. env_ok L P (ie_to_evm env i) \<and> env_ok L P (ie_to_btc env i))"
    and "ms_world (snd (enter_main_loop n leader ask_ping iterations s)) = w'"
  shows "(\<exists>ks. distinct ks \<and> list_all2 (accept_transfer_of P) (transacts (w_effects w')) ks \<and>
      (\<forall>k \<in> set ks. \<exists>d \<in> set (db_rune_deposits (w_db w')). rune_deposit_key d = k \<and> \<not> waiting (rd_status d))) \<and>
    (\<exists>ks. distinct ks \<and> list_all2 (raw_payment_of L w') (raw_sends (w_effects w')) ks)"
proof -
  have run: "(rune_step L P)\<^sup>*\<^sup>* (ms_world s) (ms_world (snd (enter_main_loop n leader ask_ping iterations s)))" for s
  proof (induction n arbitrary: s)
    case (Suc n)
    have its: "(rune_step L P)\<^sup>*\<^sup>* w (foldl (\<lambda>w m. snd (m w)) w ms)"
      if "\<forall>m \<in> set ms. steps L P m" for w and ms :: "unit rune_prog list"
      using that
    proof (induction ms arbitrary: w)
      case (Cons m ms)
      then have "(rune_step L P)\<^sup>*\<^sup>* w (snd (m w))" by (simp add: steps_def)
      then show ?case using Cons by (auto intro: rtranclp_trans)
    qed simp
    have ok: "\<forall>m \<in> set (iterations n). steps L P m"
    proof
      fix m assume "m \<in> set (iterations n)"
      then obtain b env where "m = run_iteration b leader env"
        "\<And>i. env_ok L P (ie_to_evm env i)" "\<And>i. env_ok L P (ie_to_btc env i)" using assms(5)[of n] by blast
      then show "steps L P m" using steps_iteration by blast
    qed
    have pinged: "ms_world (snd (ping (ask_ping n) t)) = ms_world t" for t
      using assms(4)[of n "ms_pong_nonce t" "ms_world t"]
      by (cases "ask_ping n (ms_pong_nonce t) (ms_world t)"; cases "fst (ask_ping n (ms_pong_nonce t) (ms_world t))")
        (auto simp: ping_def run_bnd run_sq on_world_def)
    obtain r t where m: "main_iteration leader (ask_ping n) (iterations n) s = (r, t)" by fastforce
    have "(rune_step L P)\<^sup>*\<^sup>* (ms_world s) (ms_world t)"
    proof (cases "fst ((if leader then ping (ask_ping n) else ok ()) s)")
      case (Inl e)
      then have "leader" "t = snd (ping (ask_ping n) s)" using m
        by (auto simp: main_iteration_def run_sq split: prod.splits sum.splits if_splits)
      then show ?thesis using pinged by simp
    next
      case (Inr u)
      then have "ms_world t = foldl (\<lambda>w m. snd (m w)) (ms_world s) (iterations n)" using m pinged[of s]
        by (auto simp: main_iteration_def run_sq for_each_on_world split: prod.splits sum.splits if_splits)
      then show ?thesis using its[OF ok] by simp
    qed
    also have "(rune_step L P)\<^sup>*\<^sup>* (ms_world t) (ms_world (snd (enter_main_loop n leader ask_ping iterations t)))"
      by (rule Suc.IH)
    finally show ?case using m by (cases r) (simp_all add: run_sq run_catch)
  qed simp
  show ?thesis
    using deposits.paid_at_most_once[OF run assms(1) assms(2)] tokens.paid_at_most_once[OF run assms(1) assms(3)]
    unfolding assms(6) deposit_settled_def by blast
qed

text \<open>
  C9. Deposits get through. When the leader processes a deposit that is accepted and not dust, with a fee percentage and amounts
  within the protocol's ranges and the net amount the exact floor (as a scan has stored it), and the outside is as it should be
  (ord knows the rune and the output with just this amount, the contract is not frozen and has the rune, registered and not paused, checking the
  answers raises nothing, among them and the node's own are valid signatures of as many different federators as are required,
  the account can pay for the gas, and the call is taken), then the call of \<open>acceptTransferFromBtc\<close> is made in this turn, once, with the user's address,
  the rune, the exact net amount and the output of this deposit and with as many signatures as required; and the deposit has moved on to sent.
\<close>

theorem accepted_deposit_is_sent:
  fixes f :: int
  assumes w: "rune_tables_ok w" and rel: "deposit_of w d u r" and bid: "bridge_id (rb_service b) = Inr (rd_bridge_id d)"
    and d: "rd_status d = rd_code RD_ACCEPTED" "rc_btc_min_postage_sat (sv_config (rb_service b)) \<le> rd_postage d"
      "distinct (rd_accept_transfer_signers d)"
      "length (rd_accept_transfer_signers d) = length (rd_accept_transfer_signatures d)"
    and fee: "rc_runes_to_evm_fee_percentage_decimal (sv_config (rb_service b)) = Dec f (- int k)" "0 \<le> f" "f \<le> 10 ^ (k + 2)" "k \<le> 36"
    and amounts: "0 \<le> rd_transfer_amount_raw d" "rd_transfer_amount_raw d < 2 ^ 128"
      "rd_net_amount_raw d = rd_transfer_amount_raw d * (10 ^ (k + 2) - f) div 10 ^ (k + 2)" "rd_net_amount_raw d \<noteq> 0"
    and ord: "get_rune (re_ord env) (ru_name r) = Inr (Some response)" "re_divisibility (rr_entry response) \<le> 38"
      "rune_from_str (re_py env) (ru_name r) = Inr (ru_n r)"
      "re_balance_at env (rd_tx_id d) (rd_vout d) (ru_name r) = Inr (rd_transfer_amount_raw d)"
    and evm: "re_evm env = evm" "en_is_rune_registered evm (ru_n r) = Inr True" "en_is_rune_paused evm (ru_n r) = Inr False"
      "en_frozen evm = Inr False" "en_num_required_federators evm = Inr n" "check_gas evm = Inr nonce"
      "en_message_hash evm (us_evm_address u) (ru_n r) (rd_net_amount_raw d) (en_add_0x_prefix evm (rd_tx_id d)) (rd_vout d) = Inr h"
      "en_sign evm h = Inr signature" "\<And>call. en_transact evm call = Inr evm_tx"
    and asked: "\<And>q. re_ask_to_evm env q = Inr responses"
      "answers = \<lparr>an_signature = signature, an_signer = en_address evm, an_message_hash = h\<rparr> # responses"
      "\<forall>a \<in> set answers. (\<exists>b. en_is_federator evm (an_signer a) = Inr b) \<and> (\<exists>s. en_recover evm h (an_signature a) = Inr s)"
      "n \<le> card {an_signer a |a. a \<in> set answers \<and> signature_ok evm h (an_signer a) (an_signature a)}"
  shows "\<exists>res w' signatures. process_rune_deposit b env (rd_id d) w = (res, w') \<and> length signatures = n \<and>
    transacts (w_effects w') = \<lparr>ac_evm_address = us_evm_address u, ac_rune_number = rd_rune_number d,
      ac_net_rune_amount = rd_transfer_amount_raw d * (10 ^ (k + 2) - f) div 10 ^ (k + 2),
      ac_btc_txid = en_add_0x_prefix evm (rd_tx_id d), ac_btc_vout = rd_vout d, ac_signatures = signatures,
      ac_gas = tx_gas_limit, ac_nonce = nonce\<rparr> # transacts (w_effects w) \<and>
    (\<exists>d' \<in> set (db_rune_deposits (w_db w')). rune_deposit_key d' = rune_deposit_key d \<and>
       status_step\<^sup>*\<^sup>* (rd_code SENT_TO_EVM) (rd_status d'))"
proof -
  obtain am where "calculate_rune_to_evm_transfer_amounts (Dec f (- int k)) (rd_transfer_amount_raw d)
      (re_divisibility (rr_entry response)) = Inr am"
    "amount_raw am = rd_transfer_amount_raw d" "net_amount_raw am = rd_net_amount_raw d"
    using transfer_amounts_exact[OF amounts(1,2) ord(2) fee(2,3,4)] amounts(3) by auto
  from process_ready[OF w rel bid d _ this(2,3) amounts(4) ord(1,3,4) evm asked] this(1) show ?thesis
    unfolding fee(1) amounts(3)[symmetric] by blast
qed

section \<open>An example\<close>

text \<open>The node of the earlier examples, with the deposit 1 accepted and signed.\<close>

definition example_bridge :: rune_bridge where
  "example_bridge = \<lparr>rb_bridge_id = ''runes'', rb_service = example_service\<rparr>"

definition example_rune_env :: rune_env where
  "example_rune_env = \<lparr>re_py = example_pyord, re_ord = example_ord, re_clock = (\<lambda>k. of_nat k),
     re_deposit_node = example_node\<lparr>dn_listsinceblock := (\<lambda>b n. Inr \<lparr>ls_lastblock = ''00ff'', ls_transactions = []\<rparr>)\<rparr>,
     re_multisig = example_multisig\<lparr>om_node := (om_node example_multisig)\<lparr>wn_listdescriptors :=
       rbind (get_descriptor example_multisig) (\<lambda>d. Inr [d])\<rparr>\<rparr>, re_evm = example_evm,
     re_logs = (\<lambda>from_block to_block attempt. Inr []), re_block = 1, re_fee = Inr 2, re_own_fee = Inr 2,
     re_balance_at = (\<lambda>address block name. Inr 1000), re_send_raw_transaction = (\<lambda>tx. Inr ''cd''),
     re_ask_to_evm = (\<lambda>q. Inr []), re_ask_to_btc = (\<lambda>q. Inr [])\<rparr>"

definition example_iteration :: iteration_env where
  "example_iteration = \<lparr>ie_scan = example_rune_env, ie_to_evm = (\<lambda>i. example_rune_env), ie_to_btc = (\<lambda>i. example_rune_env)\<rparr>"

lemma example_env_ok: "env_ok (om_lib example_multisig) (\<lambda>s. ''0x'' @ s) example_rune_env"
  by (simp add: env_ok_def example_rune_env_def example_evm_def)

lemma example_iteration_ok:
  "env_ok (om_lib example_multisig) (\<lambda>s. ''0x'' @ s) (ie_to_evm example_iteration i)"
  "env_ok (om_lib example_multisig) (\<lambda>s. ''0x'' @ s) (ie_to_btc example_iteration i)"
  using example_env_ok by (simp_all add: example_iteration_def)

theorem only_leader_sends_witness:
  "outgoing (w_effects (snd (run_iteration example_bridge False example_iteration accepted_world))) = []"
  using only_leader_sends[OF prod.collapse[symmetric], of False example_iteration example_bridge accepted_world]
  by (simp add: outgoing_def accepted_world_def example_world_def)

theorem every_accepted_deposit_processed_witness:
  "handle_rune_transfers_to_evm example_bridge (\<lambda>i. example_rune_env) accepted_world =
     (Inr (), snd (process_rune_deposit example_bridge example_rune_env 1 accepted_world))"
proof -
  have "bridge_id (rb_service example_bridge) = Inr 1" by (simp add: example_bridge_def example_facts)
  from every_accepted_deposit_processed[OF this] show ?thesis
    by (simp add: accepted_rows del: rd_code.simps) (simp add: example_deposit_def)
qed

text \<open>Bridges that count their turns: a peer that answers pings with a string stops the count.\<close>

theorem bad_pong_stops_bridges_witness:
  "ms_world (snd (enter_main_loop 5 True (\<lambda>k nonce. ok [PStr ''pong'']) (\<lambda>k. [modify (\<lambda>w :: int. w + 1)])
     \<lparr>ms_pong_nonce = 0, ms_world = 0\<rparr>)) = 0 \<and>
   ms_world (snd (enter_main_loop 5 True (\<lambda>k nonce. ok [answer_pong ''b'' (PInt nonce)]) (\<lambda>k. [modify (\<lambda>w :: int. w + 1)])
     \<lparr>ms_pong_nonce = 0, ms_world = 0\<rparr>)) = 5"
proof
  show "ms_world (snd (enter_main_loop 5 True (\<lambda>k nonce. ok [PStr ''pong'']) (\<lambda>k. [modify (\<lambda>w :: int. w + 1)])
     \<lparr>ms_pong_nonce = 0, ms_world = 0\<rparr>)) = 0"
    by (subst bad_pong_stops_bridges) simp_all
  show "ms_world (snd (enter_main_loop 5 True (\<lambda>k nonce. ok [answer_pong ''b'' (PInt nonce)]) (\<lambda>k. [modify (\<lambda>w :: int. w + 1)])
     \<lparr>ms_pong_nonce = 0, ms_world = 0\<rparr>)) = 5"
    by (simp add: numeral_eq_Suc main_iteration_def ping_def on_world_def prog_simps answer_pong_def)
qed

text \<open>The outside is as it should be for the example's deposit.\<close>

lemma example_outside:
  "bridge_id (rb_service example_bridge) = Inr (rd_bridge_id example_deposit)"
  "check_gas example_evm = Inr 7" "signature_ok example_evm ''h'' ''f1'' ''s1''"
  "get_rune example_ord [65] = Inr (Some \<lparr>rr_entry = example_entry, rr_id = ''1:1''\<rparr>)"
proof -
  show "bridge_id (rb_service example_bridge) = Inr (rd_bridge_id example_deposit)"
    by (simp add: example_bridge_def example_facts) (simp add: example_deposit_def)
  show "check_gas example_evm = Inr 7"
    using min_balance_one by (simp add: check_gas_def example_evm_def)
qed (simp_all add: signature_ok_def example_evm_def get_rune_def ord_request_def http_ok_def example_ord_def example_entry_def)

lemma example_readings:
  "re_py example_rune_env = example_pyord" "re_ord example_rune_env = example_ord" "re_evm example_rune_env = example_evm"
  "re_balance_at example_rune_env x y z = Inr 1000" "re_ask_to_evm example_rune_env q = Inr []"
  "en_is_rune_registered example_evm n = Inr True" "en_is_rune_paused example_evm n = Inr False"
  "en_frozen example_evm = Inr False" "en_num_required_federators example_evm = Inr 1"
  "en_message_hash example_evm a n m t v = Inr ''h''" "en_sign example_evm ''h'' = Inr ''s1''"
  "en_transact example_evm call = Inr ''cd''" "en_address example_evm = ''f1''"
  "\<exists>b. en_is_federator example_evm a = Inr b" "\<exists>s. en_recover example_evm t a = Inr s"
  "rd_transfer_amount_raw example_deposit = 1000" "rd_net_amount_raw example_deposit = 996" "rd_id example_deposit = 1"
  "ru_name example_rune_row = [65]" "ru_n example_rune_row = 0" "rd_status example_deposit = rd_code RD_ACCEPTED"
  "rd_postage example_deposit = 10000" "rd_accept_transfer_signers example_deposit = [''f1'']"
  "rd_accept_transfer_signatures example_deposit = [''s1'']" "re_divisibility example_entry = 2"
  "rc_runes_to_evm_fee_percentage_decimal (sv_config (rb_service example_bridge)) = Dec 4 (- int 1)"
  "rc_btc_min_postage_sat (sv_config (rb_service example_bridge)) = 10000"
  by (simp_all add: example_rune_env_def example_evm_def example_deposit_def example_rune_row_def example_entry_def
      example_bridge_def example_facts example_config_def)

lemma example_deposit_of:
  assumes "db_users (w_db w) = db_users example_db" "db_runes (w_db w) = [example_rune_row]"
    "db_rune_deposits (w_db w) = [example_deposit]"
  shows "deposit_of w example_deposit \<lparr>us_id = 1, us_bridge_id = 1, us_evm_address = ''0xAA''\<rparr> example_rune_row"
  by (simp add: deposit_of_def assms example_db_def example_deposit_def example_rune_row_def)

theorem accepted_deposit_is_sent_witness:
  "\<exists>res w' call. process_rune_deposit example_bridge example_rune_env 1 accepted_world = (res, w') \<and>
    transacts (w_effects w') = [call] \<and> ac_net_rune_amount call = 996"
proof -
  have rel: "deposit_of accepted_world example_deposit \<lparr>us_id = 1, us_bridge_id = 1, us_evm_address = ''0xAA''\<rparr> example_rune_row"
    by (rule example_deposit_of) (simp_all add: accepted_world_def example_world_def)
  note run = accepted_deposit_is_sent[OF accepted_tables_ok rel example_outside(1), where env = example_rune_env and evm = example_evm
      and f = 4 and k = 1 and n = 1 and nonce = 7 and h = "''h''" and signature = "''s1''" and evm_tx = "''cd''" and responses = "[]"
      and answers = "[\<lparr>an_signature = ''s1'', an_signer = ''f1'', an_message_hash = ''h''\<rparr>]"
      and response = "\<lparr>rr_entry = example_entry, rr_id = ''1:1''\<rparr>"]
  obtain res w' signatures where "process_rune_deposit example_bridge example_rune_env 1 accepted_world = (res, w')"
    "transacts (w_effects w') = \<lparr>ac_evm_address = ''0xAA'', ac_rune_number = rd_rune_number example_deposit,
      ac_net_rune_amount = 996, ac_btc_txid = en_add_0x_prefix example_evm (rd_tx_id example_deposit),
      ac_btc_vout = rd_vout example_deposit, ac_signatures = signatures, ac_gas = tx_gas_limit, ac_nonce = 7\<rparr> # transacts (w_effects accepted_world)"
    using run by (simp add: example_readings example_outside example_rune del: rd_code.simps) blast
  then show ?thesis by (simp add: accepted_no_calls)
qed

text \<open>A turn of the leader, in which the deposit is sent.\<close>

lemma example_processed:
  assumes w: "rune_tables_ok w" and db: "db_users (w_db w) = db_users example_db" "db_runes (w_db w) = [example_rune_row]"
      "db_rune_deposits (w_db w) = [example_deposit]"
  shows "\<exists>res w' call. process_rune_deposit example_bridge example_rune_env 1 w = (res, w') \<and>
    transacts (w_effects w') = call # transacts (w_effects w)"
proof -
  obtain am where am: "calculate_rune_to_evm_transfer_amounts (Dec 4 (- int 1)) 1000 2 = Inr am" "amount_raw am = 1000" "net_amount_raw am = 996"
    using transfer_amounts_exact[of 1000 2 4 1] by auto
  note run = process_ready[OF w example_deposit_of[OF db] example_outside(1), where env = example_rune_env and evm = example_evm and am = am
      and n = 1 and nonce = 7 and h = "''h''" and signature = "''s1''" and evm_tx = "''cd''" and responses = "[]"
      and answers = "[\<lparr>an_signature = ''s1'', an_signer = ''f1'', an_message_hash = ''h''\<rparr>]"
      and response = "\<lparr>rr_entry = example_entry, rr_id = ''1:1''\<rparr>"]
  show ?thesis
    using run am by (simp add: example_readings example_outside example_rune del: rd_code.simps) blast
qed

lemma example_checked: "service_check example_rune_env = Inr ()"
proof -
  have "\<not> isl (get_descriptor example_multisig)" by code_simp
  then obtain d where d: "get_descriptor example_multisig = Inr d" by (cases "get_descriptor example_multisig") simp_all
  moreover have "get_descriptor (example_multisig\<lparr>om_node := x\<rparr>) = get_descriptor example_multisig" for x
    by (simp add: get_descriptor_def descriptor_of_keys_def ranged_derivation_path_def)
  ultimately show ?thesis by (simp add: service_check_def multisig_check_def example_rune_env_def)
qed

lemma example_scans:
  "\<exists>w. scan_rune_deposits example_service example_pyord example_ord (\<lambda>k. of_nat k) (re_deposit_node example_rune_env) ca accepted_world = (Inr 0, w) \<and>
    scan_rune_token_deposits example_service example_pyord example_ord (re_logs example_rune_env) 1 w = (Inr 0, w) \<and>
    confirm_sent_rune_deposits example_service evm w = (Inr (), w) \<and>
    rune_tables_ok w \<and> db_users (w_db w) = db_users example_db \<and> db_runes (w_db w) = [example_rune_row] \<and>
    db_rune_deposits (w_db w) = [example_deposit] \<and> w_effects w = []"
proof -
  define w where "w = accepted_world\<lparr>w_db := (w_db accepted_world)\<lparr>db_kv := [last_block_key example_service \<mapsto> JStr ''00ff'']\<rparr>\<rparr>"
  have kv: "db_kv (w_db accepted_world) = Map.empty" by (simp add: accepted_world_def example_world_def example_db_def)
  have list: "dn_listsinceblock (re_deposit_node example_rune_env) b n = Inr \<lparr>ls_lastblock = ''00ff'', ls_transactions = []\<rparr>" for b n
    by (simp add: example_rune_env_def)
  have sync: "sync_ord_with_bitcoind example_ord (\<lambda>k. of_nat k) (re_deposit_node example_rune_env) = Inr ()"
    using example_fetch(2) by (simp add: sync_ord_with_bitcoind_def example_rune_env_def)
  have scan: "scan_rune_deposits example_service example_pyord example_ord (\<lambda>k. of_nat k) (re_deposit_node example_rune_env) ca accepted_world = (Inr 0, w)"
    by (simp add: scan_rune_deposits_def Let_def run_in_tx prog_simps kv get_value_def example_facts example_config_def jval_true_def
        list sync store_scan_def w_def set_value_def)
  have key: "last_block_key example_service \<noteq> sc_last_scanned_block_key (token_scanner example_service)"
    by (simp add: last_block_key_def token_scanner_def)
  have tokens: "scan_rune_token_deposits example_service example_pyord example_ord (re_logs example_rune_env) 1 w = (Inr 0, w)"
    using key by (simp add: scan_rune_token_deposits_def scan_new_events_def run_in_tx prog_simps w_def get_value_def Let_def)
      (simp add: token_scanner_def example_facts example_config_def)
  have db: "db_users (w_db w) = db_users example_db" "db_runes (w_db w) = [example_rune_row]"
    "db_rune_deposits (w_db w) = [example_deposit]" "w_effects w = []"
    by (simp_all add: w_def accepted_world_def example_world_def)
  have none: "filter (\<lambda>d. rd_bridge_id d = 1 \<and> rd_status d = rd_code SENT_TO_EVM) [example_deposit] = []"
    by (simp add: example_deposit_def)
  have confirm: "confirm_sent_rune_deposits example_service evm w = (Inr (), w)"
    by (simp add: confirm_sent_rune_deposits_def run_in_tx prog_simps example_facts db none del: rd_code.simps filter.simps)
  have "rune_tables_ok w" using accepted_tables_ok by (simp add: w_def rune_tables_ok_def Let_def)
  with scan tokens confirm db show ?thesis by blast
qed

text \<open>What pays the token deposits makes no call on the EVM chain.\<close>

lemma tokens_keep_calls:
  "transacts (w_effects (snd (handle_rune_token_transfers_to_btc b envs w))) = transacts (w_effects w)"
proof -
  have "keeps (deposits_view v) (handle_rune_token_transfers_to_btc b envs)" for v
    unfolding handle_rune_token_transfers_to_btc_def process_token_deposit_def get_accepted_rune_token_deposit_ids_def
    by (intro keeps_intros deposits_view_pay keeps_in_tx) (simp_all add: deposits_view_def)
  from this[of "(db_rune_deposits (w_db w), transacts (w_effects w))"] show ?thesis
    by (simp add: keeps_def deposits_view_def)
qed

lemma example_turn:
  "\<exists>call. transacts (w_effects (snd (run_iteration example_bridge True example_iteration accepted_world))) = [call]"
proof -
  let ?ca = "change_address (re_multisig example_rune_env)"
  obtain w where scans: "scan_rune_deposits example_service example_pyord example_ord (\<lambda>k. of_nat k) (re_deposit_node example_rune_env) ?ca accepted_world = (Inr 0, w)"
    "scan_rune_token_deposits example_service example_pyord example_ord (re_logs example_rune_env) 1 w = (Inr 0, w)"
    "confirm_sent_rune_deposits example_service example_evm w = (Inr (), w)"
    and w: "rune_tables_ok w" "db_users (w_db w) = db_users example_db" "db_runes (w_db w) = [example_rune_row]"
      "db_rune_deposits (w_db w) = [example_deposit]" "w_effects w = []"
    using example_scans by blast
  obtain res w' call where p: "process_rune_deposit example_bridge example_rune_env 1 w = (res, w')"
    "transacts (w_effects w') = [call]"
    using example_processed[OF w(1-4)] w(5) by auto
  have ids: "filter (\<lambda>d. rd_bridge_id d = 1 \<and> rd_status d = rd_code RD_ACCEPTED) [example_deposit] = [example_deposit]"
    "rd_id example_deposit = 1" by (simp_all add: example_deposit_def)
  have sv: "rb_service example_bridge = example_service" by (simp add: example_bridge_def)
  have handled: "handle_rune_transfers_to_evm example_bridge (\<lambda>i. example_rune_env) w = (Inr (), w')"
    using p(1) by (cases res)
      (simp_all add: handle_rune_transfers_to_evm_def get_accepted_rune_deposit_ids_def run_bnd run_in_tx run_rows_where sv example_facts
        w(4) ids run_sq run_catch del: rd_code.simps filter.simps)
  have env: "re_py example_rune_env = example_pyord" "re_ord example_rune_env = example_ord" "re_clock example_rune_env = (\<lambda>k. of_nat k)"
    "re_evm example_rune_env = example_evm" "re_block example_rune_env = 1" "en_frozen example_evm = Inr False"
    by (simp_all add: example_rune_env_def example_evm_def)
  have it: "ie_scan example_iteration = example_rune_env" "ie_to_evm example_iteration = (\<lambda>i. example_rune_env)" by (simp_all add: example_iteration_def)
  have "run_iteration example_bridge True example_iteration accepted_world =
      handle_rune_token_transfers_to_btc example_bridge (ie_to_btc example_iteration) w'"
    by (simp add: run_iteration_def Let_def run_bnd run_sq it env sv example_checked scans handled is_bridge_frozen_def)
  then show ?thesis using p(2) by (simp add: tokens_keep_calls)
qed

theorem main_loop_pays_at_most_once_witness:
  "\<exists>w' call k d. ms_world (snd (enter_main_loop 1 True (\<lambda>k nonce. ok [])
      (\<lambda>k. [run_iteration example_bridge True example_iteration]) \<lparr>ms_pong_nonce = 0, ms_world = accepted_world\<rparr>)) = w' \<and>
    transacts (w_effects w') = [call] \<and> accept_transfer_of (\<lambda>s. ''0x'' @ s) call k \<and>
    d \<in> set (db_rune_deposits (w_db w')) \<and> rune_deposit_key d = k \<and> \<not> waiting (rd_status d)"
proof -
  let ?s = "\<lparr>ms_pong_nonce = 0, ms_world = accepted_world\<rparr>"
  let ?w' = "ms_world (snd (enter_main_loop 1 True (\<lambda>k nonce. ok [])
      (\<lambda>k. [run_iteration example_bridge True example_iteration]) ?s))"
  have "?w' = snd (run_iteration example_bridge True example_iteration accepted_world)"
    by (cases "run_iteration example_bridge True example_iteration accepted_world"; cases "fst (run_iteration example_bridge True example_iteration accepted_world)")
      (simp_all add: main_iteration_def ping_def on_world_def prog_simps)
  then obtain call where call: "transacts (w_effects ?w') = [call]" using example_turn by auto
  have its: "\<forall>m \<in> set [run_iteration example_bridge True example_iteration]. \<exists>b env. m = run_iteration b True env \<and>
       (\<forall>i. env_ok (om_lib example_multisig) (\<lambda>s. ''0x'' @ s) (ie_to_evm env i) \<and> env_ok (om_lib example_multisig) (\<lambda>s. ''0x'' @ s) (ie_to_btc env i))" for k :: nat
    using example_iteration_ok by auto
  have start: "rune_tables_ok (ms_world ?s)" "transacts (w_effects (ms_world ?s)) = []" "raw_sends (w_effects (ms_world ?s)) = []"
    using accepted_tables_ok by (simp_all add: accepted_world_def example_world_def)
  from main_loop_pays_at_most_once[OF start _ its refl, of "\<lambda>k nonce. ok []" 1]
  obtain ks where "list_all2 (accept_transfer_of (\<lambda>s. ''0x'' @ s)) (transacts (w_effects ?w')) ks"
    "\<forall>k \<in> set ks. \<exists>d \<in> set (db_rune_deposits (w_db ?w')). rune_deposit_key d = k \<and> \<not> waiting (rd_status d)"
    by auto
  with call obtain k d where "accept_transfer_of (\<lambda>s. ''0x'' @ s) call k" "d \<in> set (db_rune_deposits (w_db ?w'))"
    "rune_deposit_key d = k" "\<not> waiting (rd_status d)"
    by (cases ks) (simp_all only: call list_all2_Cons list_all2_Nil list.set simp_thms, blast+)
  with call show ?thesis by blast
qed

end
