(* ===== verification/Tap_Client.thy ===== *)
theory Tap_Client
  imports Handshake Ord_Types
begin

text \<open>
  The client of the Taproot Assets daemon, from \<^verbatim>\<open>bridge_node/bridge/common/tap/client.py\<close>: its
  HTTP requests and what it reads out of the answers, which are JSON values. The daemon is a
  parameter, a function from requests to answers; as an operation of the client sends no request
  twice, it may answer as it likes.
\<close>

section \<open>JSON values\<close>

text \<open>
  \<open>for x in v\<close>, \<open>k in v\<close>, \<open>len(v)\<close>, \<open>v.items()\<close> and \<open>int(v)\<close>. Of the strings that \<open>int\<close> reads, those
  with blanks or underscores are left out.
\<close>

fun py_iter :: "pyval \<Rightarrow> exn + pyval list" where
  "py_iter (PList vs) = Inr vs"
| "py_iter (PStr s) = Inr (map (\<lambda>c. PStr [c]) s)"
| "py_iter (PDict kvs) = Inr (map (\<lambda>(k, v). PStr k) kvs)"
| "py_iter _ = Inl TypeError"

fun is_part_of :: "string \<Rightarrow> string \<Rightarrow> bool" where
  "is_part_of k [] = (k = [])"
| "is_part_of k (c # s) = (take (length k) (c # s) = k \<or> is_part_of k s)"

fun py_contains :: "string \<Rightarrow> pyval \<Rightarrow> exn + bool" where
  "py_contains k (PDict kvs) = Inr (k \<in> fst ` set kvs)"
| "py_contains k (PList vs) = Inr (PStr k \<in> set vs)"
| "py_contains k (PStr s) = Inr (is_part_of k s)"
| "py_contains k _ = Inl TypeError"

definition py_len :: "pyval \<Rightarrow> exn + nat" where
  "py_len v = rbind (py_iter v) (\<lambda>vs. Inr (length vs))"

fun py_items :: "pyval \<Rightarrow> exn + (string \<times> pyval) list" where
  "py_items (PDict kvs) = Inr kvs"
| "py_items _ = Inl AttributeError"

fun py_int :: "pyval \<Rightarrow> exn + int" where
  "py_int (PInt n) = Inr n"
| "py_int (PBool b) = Inr (of_bool b)"
| "py_int (PDecimal d) = Inr (dec_int d)"
| "py_int (PStr s) = int_of_str s"
| "py_int _ = Inl TypeError"

text \<open>\<open>v.get(k)\<close>.\<close>

fun json_get :: "pyval \<Rightarrow> string \<Rightarrow> exn + pyval" where
  "json_get (PDict kvs) k = Inr (case map_of kvs k of Some v \<Rightarrow> v | None \<Rightarrow> PNone)"
| "json_get _ k = Inl AttributeError"

text \<open>\<open>v[0]\<close> on a list.\<close>

fun first_item :: "pyval \<Rightarrow> exn + pyval" where
  "first_item (PList []) = Inl IndexError"
| "first_item (PList (v # vs)) = Inr v"
| "first_item (PStr []) = Inl IndexError"
| "first_item (PStr (c # s)) = Inr (PStr [c])"
| "first_item (PDict kvs) = Inl KeyError"
| "first_item _ = Inl TypeError"

section \<open>Requests\<close>

text \<open>\<open>urllib.parse.quote_plus\<close> of the characters up to 255, in UTF-8, and \<open>urlencode\<close>.\<close>

definition is_unreserved :: "char \<Rightarrow> bool" where
  "is_unreserved c \<longleftrightarrow> c \<in> set ''ABCDEFGHIJKLMNOPQRSTUVWXYZabcdefghijklmnopqrstuvwxyz0123456789_.-~''"

definition hex_upper :: "nat \<Rightarrow> string" where
  "hex_upper b = [''0123456789ABCDEF'' ! (b div 16), ''0123456789ABCDEF'' ! (b mod 16)]"

definition utf8 :: "char \<Rightarrow> nat list" where
  "utf8 c = (let n = of_char c in if n < 128 then [n] else [192 + n div 64, 128 + n mod 64])"

definition quote_char :: "char \<Rightarrow> string" where
  "quote_char c = (if is_unreserved c then [c] else if c = CHR '' '' then ''+''
     else concat (map (\<lambda>b. ''%'' @ hex_upper b) (utf8 c)))"

definition quote_plus :: "string \<Rightarrow> string" where
  "quote_plus s = concat (map quote_char s)"

fun urlencode :: "(string \<times> string) list \<Rightarrow> string" where
  "urlencode [] = []"
| "urlencode [(k, v)] = quote_plus k @ ''='' @ quote_plus v"
| "urlencode ((k, v) # kvs) = quote_plus k @ ''='' @ quote_plus v @ ''&'' @ urlencode kvs"

record http_request =
  rq_method :: string
  rq_url :: string
  rq_headers :: "(string \<times> string) list"
  rq_json :: "pyval option"
  rq_verify :: string

type_synonym tap_server = "http_request \<Rightarrow> exn + pyval http_response"

record tap_client =
  tc_base_url :: string
  tc_macaroon :: string
  tc_tls_cert_path :: string
  tc_public_universe_host :: "string option"

text \<open>\<open>read_bytes\<close> reads the file with the macaroon.\<close>

definition tap_client_init ::
  "(string \<Rightarrow> exn + nat list) \<Rightarrow> string \<Rightarrow> string \<Rightarrow> string \<Rightarrow> string option \<Rightarrow> exn + tap_client" where
  "tap_client_init read_bytes rest_host macaroon_path tls_cert_path public_universe_host =
     rbind (read_bytes macaroon_path) (\<lambda>macaroon.
     Inr \<lparr>tc_base_url = ''https://'' @ rest_host @ ''/v1/taproot-assets/'', tc_macaroon = bytes_hex macaroon,
          tc_tls_cert_path = tls_cert_path, tc_public_universe_host = public_universe_host\<rparr>)"

definition tap_request ::
  "tap_client \<Rightarrow> tap_server \<Rightarrow> string \<Rightarrow> string \<Rightarrow> pyval option \<Rightarrow> (string \<times> string) list option \<Rightarrow> exn + pyval" where
  "tap_request c server http_method path data query =
     (let path = (case path of [] \<Rightarrow> [] | d # rest \<Rightarrow> if d = CHR ''/'' then rest else path);
          url = tc_base_url c @ path;
          url = (case query of None \<Rightarrow> url | Some q \<Rightarrow> if q = [] then url else url @ ''?'' @ urlencode q);
          headers = [(''Grpc-Metadata-macaroon'', tc_macaroon c)];
          headers = (if http_method = ''POST'' then dict_set ''Content-Type'' ''application/json'' headers else headers)
      in rbind (server \<lparr>rq_method = http_method, rq_url = url, rq_headers = headers, rq_json = data,
                        rq_verify = tc_tls_cert_path c\<rparr>) (\<lambda>r.
         if \<not> http_ok r then Inl TapRestError else hr_json r))"

definition tap_get :: "tap_client \<Rightarrow> tap_server \<Rightarrow> string \<Rightarrow> (string \<times> string) list option \<Rightarrow> exn + pyval" where
  "tap_get c server path query = tap_request c server ''GET'' path None query"

definition tap_post :: "tap_client \<Rightarrow> tap_server \<Rightarrow> (string \<times> string) list option \<Rightarrow> string \<Rightarrow> pyval option \<Rightarrow> exn + pyval" where
  "tap_post c server query path data = tap_request c server ''POST'' path data query"

definition tap_put :: "tap_client \<Rightarrow> tap_server \<Rightarrow> (string \<times> string) list option \<Rightarrow> string \<Rightarrow> pyval option \<Rightarrow> exn + pyval" where
  "tap_put c server query path data = tap_request c server ''PUT'' path data query"

definition tap_delete :: "tap_client \<Rightarrow> tap_server \<Rightarrow> string \<Rightarrow> (string \<times> string) list option \<Rightarrow> exn + pyval" where
  "tap_delete c server path query = tap_request c server ''DELETE'' path None query"

section \<open>Assets\<close>

fun read_balances :: "(string \<times> pyval) list \<Rightarrow> (string \<times> int) list \<Rightarrow> exn + (string \<times> int) list" where
  "read_balances [] balances = Inr balances"
| "read_balances ((asset_id, d) # kvs) balances =
     rbind (item d ''balance'') (\<lambda>b. rbind (py_int b) (\<lambda>n. read_balances kvs (dict_set asset_id n balances)))"

definition get_balances_by_asset_id :: "tap_client \<Rightarrow> tap_server \<Rightarrow> exn + (string \<times> int) list" where
  "get_balances_by_asset_id c server =
     rbind (tap_get c server ''/assets/balance'' (Some [(''asset_id'', ''1'')])) (\<lambda>response.
     rbind (item response ''asset_balances'') (\<lambda>balances.
     rbind (py_items balances) (\<lambda>kvs. read_balances kvs [])))"

definition get_asset_balance :: "tap_client \<Rightarrow> tap_server \<Rightarrow> string \<Rightarrow> exn + int" where
  "get_asset_balance c server asset_id =
     rbind (get_balances_by_asset_id c server) (\<lambda>balances.
     Inr (case map_of balances asset_id of None \<Rightarrow> 0 | Some n \<Rightarrow> n))"

definition send_assets :: "tap_client \<Rightarrow> tap_server \<Rightarrow> string list \<Rightarrow> exn + pyval" where
  "send_assets c server tap_addresses =
     tap_post c server None ''/send'' (Some (PDict [(''tap_addrs'', PList (map PStr tap_addresses))]))"

text \<open>An \<open>Asset\<close> is its dictionary.\<close>

definition asset_name :: "pyval \<Rightarrow> exn + pyval" where
  "asset_name asset = rbind (item asset ''asset_genesis'') (\<lambda>g. item g ''name'')"

definition asset_id_of :: "pyval \<Rightarrow> exn + pyval" where
  "asset_id_of asset = rbind (item asset ''asset_genesis'') (\<lambda>g. item g ''asset_id'')"

definition list_assets :: "tap_client \<Rightarrow> tap_server \<Rightarrow> exn + pyval list" where
  "list_assets c server = rbind (tap_get c server ''/assets'' None) (\<lambda>response.
     rbind (item response ''assets'') py_iter)"

definition finalize_minting_batch :: "tap_client \<Rightarrow> tap_server \<Rightarrow> exn + pyval" where
  "finalize_minting_batch c server =
     rbind (tap_post c server None ''/assets/mint/finalize'' None) (\<lambda>response. item response ''batch'')"

fun mint_candidates :: "string \<Rightarrow> pyval \<Rightarrow> pyval list \<Rightarrow> exn + pyval list" where
  "mint_candidates name batch_key [] = Inr []"
| "mint_candidates name batch_key (a # assets) =
     rbind (asset_name a) (\<lambda>n.
     rbind (if n \<noteq> PStr name then Inr False
            else rbind (item a ''chain_anchor'') (\<lambda>anchor.
                 rbind (item anchor ''internal_key'') (\<lambda>key. Inr (key = batch_key)))) (\<lambda>found.
     rbind (mint_candidates name batch_key assets) (\<lambda>rest. Inr (if found then a # rest else rest))))"

definition mint_asset ::
  "tap_client \<Rightarrow> tap_server \<Rightarrow> string \<Rightarrow> int \<Rightarrow> string \<Rightarrow> string \<Rightarrow> bool \<Rightarrow> exn + pyval" where
  "mint_asset c server name amount asset_version asset_type finalize =
     rbind (tap_post c server None ''/assets'' (Some (PDict [(''asset'', PDict
        [(''asset_version'', PStr asset_version), (''asset_type'', PStr asset_type), (''name'', PStr name),
         (''amount'', PInt amount)])]))) (\<lambda>mint_response.
     rbind (item mint_response ''pending_batch'') (\<lambda>pending_batch.
     rbind (item pending_batch ''batch_key'') (\<lambda>batch_key.
     rbind (if finalize then finalize_minting_batch c server else Inr PNone) (\<lambda>finalized.
     rbind (list_assets c server) (\<lambda>assets.
     rbind (mint_candidates name batch_key assets) (\<lambda>candidates.
     case candidates of [a] \<Rightarrow> Inr a | _ \<Rightarrow> Inl ValueError))))))"

section \<open>Addresses, proofs and the universe\<close>

definition next_script_key :: "tap_client \<Rightarrow> tap_server \<Rightarrow> int \<Rightarrow> exn + pyval" where
  "next_script_key c server key_family =
     rbind (tap_post c server None ''/wallet/script-key/next'' (Some (PDict [(''key_family'', PInt key_family)]))) (\<lambda>r.
     item r ''script_key'')"

definition next_internal_key :: "tap_client \<Rightarrow> tap_server \<Rightarrow> int \<Rightarrow> exn + pyval" where
  "next_internal_key c server key_family =
     rbind (tap_post c server None ''/wallet/internal-key/next'' (Some (PDict [(''key_family'', PInt key_family)]))) (\<lambda>r.
     item r ''internal_key'')"

record create_address_response =
  cr_address :: pyval
  cr_asset_id :: pyval
  cr_amount :: int
  cr_group_key :: pyval
  cr_script_key :: pyval
  cr_internal_key :: pyval
  cr_tapscript_sibling :: pyval
  cr_taproot_output_key :: pyval
  cr_proof_courier_addr :: pyval
  cr_asset_version :: pyval

definition create_address ::
  "tap_client \<Rightarrow> tap_server \<Rightarrow> string \<Rightarrow> int \<Rightarrow> pyval option \<Rightarrow> pyval option \<Rightarrow> exn + create_address_response" where
  "create_address c server asset_id amount script_key internal_key =
     rbind (case script_key of None \<Rightarrow> next_script_key c server 212 | Some k \<Rightarrow> Inr k) (\<lambda>script_key.
     rbind (case internal_key of None \<Rightarrow> next_internal_key c server 212 | Some k \<Rightarrow> Inr k) (\<lambda>internal_key.
     rbind (tap_post c server None ''/addrs'' (Some (PDict
        [(''asset_id'', PStr asset_id), (''amt'', PInt amount), (''script_key'', script_key),
         (''internal_key'', internal_key), (''asset_version'', PStr ''ASSET_VERSION_V0'')]))) (\<lambda>response.
     rbind (item response ''encoded'') (\<lambda>address.
     rbind (item response ''asset_id'') (\<lambda>asset_id.
     rbind (item response ''amount'') (\<lambda>a.
     rbind (py_int a) (\<lambda>amount.
     rbind (item response ''group_key'') (\<lambda>group_key.
     rbind (item response ''tapscript_sibling'') (\<lambda>tapscript_sibling.
     rbind (item response ''taproot_output_key'') (\<lambda>taproot_output_key.
     rbind (item response ''proof_courier_addr'') (\<lambda>proof_courier_addr.
     rbind (item response ''asset_version'') (\<lambda>asset_version.
     Inr \<lparr>cr_address = address, cr_asset_id = asset_id, cr_amount = amount, cr_group_key = group_key,
          cr_script_key = script_key, cr_internal_key = internal_key, cr_tapscript_sibling = tapscript_sibling,
          cr_taproot_output_key = taproot_output_key, cr_proof_courier_addr = proof_courier_addr,
          cr_asset_version = asset_version\<rparr>))))))))))))"

definition list_receives :: "tap_client \<Rightarrow> tap_server \<Rightarrow> pyval option \<Rightarrow> string option \<Rightarrow> exn + pyval" where
  "list_receives c server address status =
     (let body = (case address of None \<Rightarrow> [] | Some a \<Rightarrow> [(''filter_addr'', a)]);
          body = (case status of None \<Rightarrow> body | Some s \<Rightarrow> body @ [(''filter_status'', PStr s)])
      in tap_post c server None ''/addrs/receives'' (Some (PDict body)))"

definition export_proof :: "tap_client \<Rightarrow> tap_server \<Rightarrow> string \<Rightarrow> string \<Rightarrow> exn + pyval" where
  "export_proof c server asset_id script_key_pubkey =
     tap_post c server None ''/proofs/export''
       (Some (PDict [(''asset_id'', PStr asset_id), (''script_key'', PStr script_key_pubkey)]))"

definition sync_universe :: "tap_client \<Rightarrow> tap_server \<Rightarrow> string \<Rightarrow> bool \<Rightarrow> exn + pyval" where
  "sync_universe c server universe_host issuance_only =
     tap_post c server None ''/universe/sync'' (Some (PDict [(''universe_host'', PStr universe_host),
       (''sync_mode'', PStr (if issuance_only then ''SYNC_ISSUANCE_ONLY'' else ''SYNC_FULL''))]))"

fun utxos_of_asset :: "string \<Rightarrow> (string \<times> pyval) list \<Rightarrow> exn + (string \<times> pyval) list" where
  "utxos_of_asset asset_id [] = Inr []"
| "utxos_of_asset asset_id ((key, v) # kvs) =
     rbind (item v ''assets'') (\<lambda>assets.
     rbind (py_len assets) (\<lambda>n.
     if n \<noteq> 1 then Inl AssertionError else
     rbind (first_item assets) (\<lambda>asset.
     rbind (asset_id_of asset) (\<lambda>i.
     rbind (utxos_of_asset asset_id kvs) (\<lambda>rest.
     Inr (if i \<noteq> PStr asset_id then rest else (key, v) # rest))))))"

definition list_asset_utxos :: "tap_client \<Rightarrow> tap_server \<Rightarrow> string \<Rightarrow> exn + (string \<times> pyval) list" where
  "list_asset_utxos c server asset_id =
     rbind (tap_get c server ''/assets/utxos'' None) (\<lambda>utxos_response.
     rbind (item utxos_response ''managed_utxos'') (\<lambda>utxos_by_outpoint.
     rbind (py_items utxos_by_outpoint) (utxos_of_asset asset_id)))"

end
