(* ===== verification/Tap_Models.thy ===== *)
theory Tap_Models
  imports Tap_Client Tables Key_Value_Store
begin

text \<open>
  The tables of the Tap bridge, from \<^verbatim>\<open>bridge_node/bridge/bridges/tap_rsk/models.py\<close>: deposit
  addresses, transfers in both directions and the batches they are sent in. Rows, sequences and
  unique constraints are as in the Rune bridge; a relationship ordered by a column that is the
  same in several rows keeps them in the order of insertion.
\<close>

section \<open>Statuses\<close>

datatype rsk_to_tap_batch_status = RTT_CREATED | RTT_SENDING_TO_TAP | RTT_SENT_TO_TAP | RTT_FINALIZED

fun rtt_code :: "rsk_to_tap_batch_status \<Rightarrow> int" where
  "rtt_code RTT_CREATED = 1"
| "rtt_code RTT_SENDING_TO_TAP = 4"
| "rtt_code RTT_SENT_TO_TAP = 5"
| "rtt_code RTT_FINALIZED = 8"

datatype tap_to_rsk_batch_status =
  TTR_CREATED | TTR_SIGNATURES_COLLECTED | TTR_SENDING_TO_RSK | TTR_SENT_TO_RSK | TTR_MINED | TTR_FINALIZED

fun ttr_code :: "tap_to_rsk_batch_status \<Rightarrow> int" where
  "ttr_code TTR_CREATED = 1"
| "ttr_code TTR_SIGNATURES_COLLECTED = 2"
| "ttr_code TTR_SENDING_TO_RSK = 3"
| "ttr_code TTR_SENT_TO_RSK = 4"
| "ttr_code TTR_MINED = 5"
| "ttr_code TTR_FINALIZED = 7"

text \<open>The names that the API shows; a transfer without a batch has no status.\<close>

definition rtt_status_to_str :: "int option \<Rightarrow> string" where
  "rtt_status_to_str status =
     (if status = Some 1 then ''created'' else if status = Some 4 then ''sending_to_tap''
      else if status = Some 5 then ''sent_to_tap'' else if status = Some 8 then ''finalized'' else ''seen'')"

definition ttr_status_to_str :: "int option \<Rightarrow> string" where
  "ttr_status_to_str status =
     (if status = Some 1 then ''created'' else if status = Some 2 then ''signatures_collected''
      else if status = Some 3 then ''sending_to_rsk'' else if status = Some 4 then ''sent_to_rsk''
      else if status = Some 5 then ''mined'' else if status = Some 7 then ''finalized'' else ''seen'')"

section \<open>Rows\<close>

record rsk_to_tap_batch =
  rtb_id :: int
  rtb_status :: int
  rtb_sending_result :: pyval

record tap_to_rsk_batch =
  ttb_id :: int
  ttb_hash :: "nat list"
  ttb_status :: int
  ttb_signatures :: "(string \<times> pyval) list"
  ttb_executed_tx_hash :: "string option"

record tap_deposit_address =
  tda_id :: int
  tda_rsk_address :: string
  tda_tap_address :: pyval
  tda_tap_asset_id :: string
  tda_rsk_token_address :: string
  tda_tap_amount :: int
  tda_rsk_amount :: int

record rsk_to_tap_transfer =
  rtt_db_id :: int
  rtt_counter :: int
  rtt_recipient_tap_address :: string
  rtt_sender_rsk_address :: string
  rtt_block_number :: int
  rtt_tx_hash :: string
  rtt_tx_index :: int
  rtt_log_index :: int
  rtt_batch_id :: "int option"

record tap_to_rsk_transfer =
  ttr_db_id :: int
  ttr_counter :: "int option"
  ttr_deposit_address_id :: int
  ttr_btc_tx_id :: string
  ttr_btc_tx_vout :: int
  ttr_batch_id :: "int option"

definition rsk_to_tap_transfer_key :: "rsk_to_tap_transfer \<Rightarrow> string \<times> int \<times> int" where
  "rsk_to_tap_transfer_key t = (rtt_tx_hash t, rtt_tx_index t, rtt_log_index t)"

definition tap_to_rsk_transfer_key :: "tap_to_rsk_transfer \<Rightarrow> string \<times> int" where
  "tap_to_rsk_transfer_key t = (ttr_btc_tx_id t, ttr_btc_tx_vout t)"

section \<open>The database and the effects\<close>

record tap_db =
  td_kv :: kv_table
  td_addresses :: "tap_deposit_address list"
  td_rtb :: "rsk_to_tap_batch list"
  td_ttb :: "tap_to_rsk_batch list"
  td_rtt :: "rsk_to_tap_transfer list"
  td_ttr :: "tap_to_rsk_transfer list"

text \<open>The arguments of the contract call \<open>acceptTransferFromTap\<close>.\<close>

record accept_from_tap_call =
  at_rsk_address :: string
  at_tap_address :: pyval
  at_btc_tx_id :: string
  at_btc_tx_vout :: int
  at_signatures :: "pyval list"

datatype tap_effect =
    SendAssets "string list"
  | AcceptTransferFromTap accept_from_tap_call
  | AskSignBatch pyval

type_synonym tap_world = "(tap_db, tap_effect) world"
type_synonym 'a tap_prog = "(tap_world, 'a) prog"

text \<open>What \<open>eth_utils\<close>, \<open>eth_abi\<close> and \<open>hexbytes\<close> compute.\<close>

datatype abi_value = AbiBytes "nat list" | AbiAddress string | AbiString pyval | AbiUint int | AbiList "nat list list"

record tap_lib =
  tl_add_0x_prefix :: "string \<Rightarrow> string"
  tl_remove_0x_prefix :: "string \<Rightarrow> string"
  tl_to_checksum_address :: "string \<Rightarrow> exn + string"
  tl_keccak :: "nat list \<Rightarrow> nat list"
  tl_encode_packed :: "(string \<times> abi_value) list \<Rightarrow> exn + nat list"
  tl_hex_bytes :: "pyval \<Rightarrow> exn + nat list"

section \<open>Hashes and serialization\<close>

definition ascii_bytes :: "string \<Rightarrow> nat list" where
  "ascii_bytes s = map of_char s"

definition deposit_address_of :: "tap_to_rsk_transfer \<Rightarrow> tap_deposit_address tap_prog" where
  "deposit_address_of t = related td_addresses (\<lambda>a. tda_id a = ttr_deposit_address_id t)"

definition transfer_hash :: "tap_lib \<Rightarrow> tap_to_rsk_transfer \<Rightarrow> nat list tap_prog" where
  "transfer_hash lib t =
     bnd (deposit_address_of t) (\<lambda>a.
     bnd (lift_res (tl_hex_bytes lib (PStr (ttr_btc_tx_id t)))) (\<lambda>tx_id.
     bnd (lift_res (tl_encode_packed lib
        [(''bytes32'', AbiBytes (ascii_bytes ''TapToRskTransfer:'')), (''address'', AbiAddress (tda_rsk_address a)),
         (''bytes32'', AbiBytes (ascii_bytes '':'')), (''string'', AbiString (tda_tap_address a)),
         (''bytes32'', AbiBytes (ascii_bytes '':'')), (''bytes32'', AbiBytes tx_id),
         (''bytes32'', AbiBytes (ascii_bytes '':'')), (''uint256'', AbiUint (ttr_btc_tx_vout t))])) (\<lambda>packed.
     ok (tl_keccak lib packed))))"

definition batch_hash :: "tap_lib \<Rightarrow> tap_to_rsk_transfer list \<Rightarrow> nat list tap_prog" where
  "batch_hash lib transfers =
     bnd (collect transfers (transfer_hash lib)) (\<lambda>hashes.
     bnd (lift_res (tl_encode_packed lib
        [(''bytes32'', AbiBytes (ascii_bytes ''TapToRskTransferBatch:'')), (''bytes32[]'', AbiList hashes)])) (\<lambda>packed.
     ok (tl_keccak lib packed)))"

text \<open>\<open>to_hex\<close> of bytes.\<close>

definition to_hex :: "nat list \<Rightarrow> string" where
  "to_hex bs = ''0x'' @ bytes_hex bs"

definition serialize_transfer :: "tap_lib \<Rightarrow> tap_to_rsk_transfer \<Rightarrow> pyval tap_prog" where
  "serialize_transfer lib t =
     bnd (transfer_hash lib t) (\<lambda>hash.
     bnd (deposit_address_of t) (\<lambda>a.
     ok (PDict [(''hash'', PStr (to_hex hash)),
                (''deposit_address'', PDict [(''rsk_address'', PStr (tda_rsk_address a)), (''tap_address'', tda_tap_address a)]),
                (''deposit_btc_tx_id'', PStr (ttr_btc_tx_id t)), (''deposit_btc_tx_vout'', PInt (ttr_btc_tx_vout t))])))"

text \<open>\<open>batch.transfers\<close>, in the order of their counters.\<close>

definition rtb_transfers :: "int \<Rightarrow> rsk_to_tap_transfer list tap_prog" where
  "rtb_transfers i = bnd (rows_where td_rtt (\<lambda>t. rtt_batch_id t = Some i)) (\<lambda>ts. ok (sort_key rtt_counter ts))"

text \<open>The counter of a transfer from Tap is never set: rows without one come last.\<close>

definition by_counter :: "tap_to_rsk_transfer list \<Rightarrow> tap_to_rsk_transfer list" where
  "by_counter ts = sort_key (the \<circ> ttr_counter) (filter (\<lambda>t. ttr_counter t \<noteq> None) ts) @
     filter (\<lambda>t. ttr_counter t = None) ts"

definition ttb_transfers :: "int \<Rightarrow> tap_to_rsk_transfer list tap_prog" where
  "ttb_transfers i = bnd (rows_where td_ttr (\<lambda>t. ttr_batch_id t = Some i)) (\<lambda>ts. ok (by_counter ts))"

definition serialize_batch :: "tap_lib \<Rightarrow> tap_to_rsk_batch \<Rightarrow> pyval tap_prog" where
  "serialize_batch lib b =
     bnd (ttb_transfers (ttb_id b)) (\<lambda>transfers.
     bnd (collect transfers (serialize_transfer lib)) (\<lambda>serialized.
     ok (PDict [(''hash'', PStr (to_hex (ttb_hash b))), (''status'', PInt (ttb_status b)),
                (''signatures'', PDict (ttb_signatures b)), (''transfers'', PList serialized)])))"

section \<open>Inserting and updating\<close>

definition insert_tap_address :: "tap_deposit_address \<Rightarrow> tap_deposit_address tap_prog" where
  "insert_tap_address a = bnd (next_id ''tap_deposit_address'') (\<lambda>i.
     insert_row td_addresses td_addresses_update tda_tap_address (a\<lparr>tda_id := i\<rparr>))"

definition insert_rsk_to_tap_transfer :: "rsk_to_tap_transfer \<Rightarrow> rsk_to_tap_transfer tap_prog" where
  "insert_rsk_to_tap_transfer t = bnd (next_id ''rsk_to_tap_transfer'') (\<lambda>i.
     bnd (db_get td_rtt) (\<lambda>rows.
     sq (demand (rtt_counter t \<notin> rtt_counter ` set rows) IntegrityError)
        (insert_row td_rtt td_rtt_update rsk_to_tap_transfer_key (t\<lparr>rtt_db_id := i\<rparr>))))"

definition insert_tap_to_rsk_transfer :: "tap_to_rsk_transfer \<Rightarrow> tap_to_rsk_transfer tap_prog" where
  "insert_tap_to_rsk_transfer t = bnd (next_id ''tap_to_rsk_transfer'') (\<lambda>i.
     insert_row td_ttr td_ttr_update tap_to_rsk_transfer_key (t\<lparr>ttr_db_id := i\<rparr>))"

definition insert_rtb :: "rsk_to_tap_batch \<Rightarrow> rsk_to_tap_batch tap_prog" where
  "insert_rtb b = bnd (next_id ''rsk_to_tap_transfer_batch'') (\<lambda>i.
     insert_row td_rtb td_rtb_update rtb_id (b\<lparr>rtb_id := i\<rparr>))"

definition insert_ttb :: "tap_to_rsk_batch \<Rightarrow> tap_to_rsk_batch tap_prog" where
  "insert_ttb b = bnd (next_id ''tap_to_rsk_transfer_batch'') (\<lambda>i.
     insert_row td_ttb td_ttb_update ttb_hash (b\<lparr>ttb_id := i\<rparr>))"

definition update_rtb :: "int \<Rightarrow> (rsk_to_tap_batch \<Rightarrow> rsk_to_tap_batch) \<Rightarrow> unit tap_prog" where
  "update_rtb i f = db_put (td_rtb_update (update_where (\<lambda>b. rtb_id b = i) f))"

definition update_ttb :: "int \<Rightarrow> (tap_to_rsk_batch \<Rightarrow> tap_to_rsk_batch) \<Rightarrow> unit tap_prog" where
  "update_ttb i f = db_put (td_ttb_update (update_where (\<lambda>b. ttb_id b = i) f))"

definition assign_rtb :: "int \<Rightarrow> rsk_to_tap_transfer list \<Rightarrow> unit tap_prog" where
  "assign_rtb i ts = db_put (td_rtt_update (update_where (\<lambda>t. rtt_db_id t \<in> rtt_db_id ` set ts) (\<lambda>t. t\<lparr>rtt_batch_id := Some i\<rparr>)))"

definition assign_ttb :: "int \<Rightarrow> tap_to_rsk_transfer list \<Rightarrow> unit tap_prog" where
  "assign_ttb i ts = db_put (td_ttr_update (update_where (\<lambda>t. ttr_db_id t \<in> ttr_db_id ` set ts) (\<lambda>t. t\<lparr>ttr_batch_id := Some i\<rparr>)))"

section \<open>Keys and constraints\<close>

text \<open>Every transfer is in a batch that has been numbered, so that a new batch starts empty.\<close>

definition tap_tables_ok :: "tap_world \<Rightarrow> bool" where
  "tap_tables_ok w \<longleftrightarrow> (let db = w_db w; n = w_seqs w in
     table_ok tda_id tda_tap_address (n ''tap_deposit_address'') (td_addresses db) \<and>
     table_ok rtb_id rtb_id (n ''rsk_to_tap_transfer_batch'') (td_rtb db) \<and>
     table_ok ttb_id ttb_hash (n ''tap_to_rsk_transfer_batch'') (td_ttb db) \<and>
     table_ok rtt_db_id rsk_to_tap_transfer_key (n ''rsk_to_tap_transfer'') (td_rtt db) \<and>
     table_ok ttr_db_id tap_to_rsk_transfer_key (n ''tap_to_rsk_transfer'') (td_ttr db) \<and>
     distinct (map rtt_counter (td_rtt db)) \<and>
     (\<forall>t \<in> set (td_rtt db). \<forall>i. rtt_batch_id t = Some i \<longrightarrow> i < n ''rsk_to_tap_transfer_batch'') \<and>
     (\<forall>t \<in> set (td_ttr db). \<forall>i. ttr_batch_id t = Some i \<longrightarrow> i < n ''tap_to_rsk_transfer_batch''))"

lemma tap_tables_ok_seqs:
  assumes "tap_tables_ok w" "\<And>t. w_seqs w t \<le> w_seqs v t" "w_db v = w_db w"
  shows "tap_tables_ok v"
  using assms(1,3) unfolding tap_tables_ok_def Let_def
  by (auto elim!: table_ok_mono simp: assms(2) intro: order.strict_trans2[OF _ assms(2)])

interpretation tap: table_laws tap_tables_ok
  by unfold_locales (rule tap_tables_ok_seqs)

lemma keeps_tap_tables_inserts:
  "tap.keeps_tables (insert_tap_address a)" "tap.keeps_tables (insert_rtb b)" "tap.keeps_tables (insert_ttb c)"
  "rtt_batch_id t = None \<Longrightarrow> tap.keeps_tables (insert_rsk_to_tap_transfer t)"
  "ttr_batch_id u = None \<Longrightarrow> tap.keeps_tables (insert_tap_to_rsk_transfer u)"
  by (auto simp: tap.keeps_tables_def keeps_def insert_tap_address_def insert_rtb_def insert_ttb_def
      insert_rsk_to_tap_transfer_def insert_tap_to_rsk_transfer_def run_bnd run_sq run_demand run_insert_row
      rsk_to_tap_transfer_key_def tap_to_rsk_transfer_key_def
      tap.tables_since_def tap_tables_ok_def Let_def table_ok_insert elim!: table_ok_mono
      intro: order_trans less_le_trans)

end
