(* ===== verification/Tap_Scan.thy ===== *)
theory Tap_Scan
  imports Tap_Models Evm_Events Rune_Models
begin

text \<open>
  The scans of the Tap bridge and its deposit addresses: transfers from RSK, from the events of the
  bridge contract (\<^verbatim>\<open>bridge_node/bridge/bridges/tap_rsk/rsk_scanner.py\<close>), and deposits on Tap, from
  what the Tap daemon has received (\<^verbatim>\<open>bridge_node/bridge/bridges/tap_rsk/tap_deposits.py\<close>).
\<close>

section \<open>Events on RSK\<close>

record transfer_to_tap_args =
  ta_counter :: int
  ta_from :: string
  ta_tap_address :: string

definition store_transfer_to_tap :: "transfer_to_tap_args event \<Rightarrow> unit tap_prog" where
  "store_transfer_to_tap event =
     (if ev_name event = ''TransferToTap''
      then bnd (insert_rsk_to_tap_transfer
             \<lparr>rtt_db_id = 0, rtt_counter = ta_counter (ev_args event),
              rtt_recipient_tap_address = ta_tap_address (ev_args event), rtt_sender_rsk_address = ta_from (ev_args event),
              rtt_block_number = ev_block event, rtt_tx_hash = ev_tx_hash event, rtt_tx_index = ev_tx_index event,
              rtt_log_index = ev_log_index event, rtt_batch_id = None\<rparr>) (\<lambda>t. ok ())
      else ok ())"

definition scan_events_callback :: "transfer_to_tap_args event list \<Rightarrow> unit tap_prog" where
  "scan_events_callback events = for_each events store_transfer_to_tap"

record tap_config =
  tp_evm_block_safety_margin :: int
  tp_evm_start_block :: int

definition rsk_scanner :: "tap_config \<Rightarrow> scanner_config" where
  "rsk_scanner config =
     \<lparr>sc_block_safety_margin = tp_evm_block_safety_margin config, sc_default_start_block = tp_evm_start_block config,
      sc_last_scanned_block_key = ''tap_rsk_bridge:evm:events:last-scanned-block''\<rparr>"

definition scan_new_rsk_events :: "tap_config \<Rightarrow> transfer_to_tap_args log_source \<Rightarrow> int \<Rightarrow> unit tap_prog" where
  "scan_new_rsk_events config logs current_block =
     scan_new_events (rsk_scanner config) td_kv (\<lambda>t db. db\<lparr>td_kv := t\<rparr>) [logs] current_block scan_events_callback"

section \<open>Deposit addresses\<close>

text \<open>An asset as the contract returns it; the asset id is bytes or a string.\<close>

datatype asset_id = AssetBytes "nat list" | AssetStr string

record contract_asset =
  as_rsk_token :: string
  as_tap_asset_id :: asset_id
  as_tap_amount_divisor :: int
  as_tap_native :: bool
  as_tap_asset_name :: string

record bridgeable_asset =
  ba_rsk_token :: string
  ba_tap_asset_id :: string
  ba_tap_amount_divisor :: int
  ba_tap_native :: bool
  ba_tap_asset_name :: string

record asset_registry =
  ar_by_rsk_token :: "string \<Rightarrow> exn + contract_asset"
  ar_by_tap_asset_id :: "string \<Rightarrow> exn + contract_asset"

definition ADDRESS_ZERO :: string where
  "ADDRESS_ZERO = ''0x'' @ replicate 40 (CHR ''0'')"

definition is_given :: "string option \<Rightarrow> bool" where
  "is_given s \<longleftrightarrow> s \<noteq> None \<and> s \<noteq> Some []"

definition get_bridgeable_asset ::
  "tap_lib \<Rightarrow> asset_registry \<Rightarrow> string option \<Rightarrow> string option \<Rightarrow> exn + bridgeable_asset" where
  "get_bridgeable_asset lib registry rsk_token tap_asset_id =
     (if is_given rsk_token \<and> is_given tap_asset_id then Inl ValueError else
      rbind (if is_given rsk_token
             then rbind (tl_to_checksum_address lib (the rsk_token)) (ar_by_rsk_token registry)
             else (case tap_asset_id of None \<Rightarrow> Inl TypeError
                   | Some i \<Rightarrow> ar_by_tap_asset_id registry (tl_add_0x_prefix lib i))) (\<lambda>asset.
      if as_rsk_token asset = ADDRESS_ZERO then Inl ValueError
      else Inr \<lparr>ba_rsk_token = as_rsk_token asset,
                ba_tap_asset_id = tl_remove_0x_prefix lib
                  (case as_tap_asset_id asset of AssetBytes bs \<Rightarrow> bytes_hex bs | AssetStr s \<Rightarrow> s),
                ba_tap_amount_divisor = as_tap_amount_divisor asset, ba_tap_native = as_tap_native asset,
                ba_tap_asset_name = as_tap_asset_name asset\<rparr>))"

text \<open>Both amounts, of which one is given.\<close>

definition both_amounts :: "int \<Rightarrow> int option \<Rightarrow> int option \<Rightarrow> exn + int \<times> int" where
  "both_amounts divisor tap_amount rsk_amount =
     (case rsk_amount of
        Some r \<Rightarrow> if divisor = 0 then Inl ZeroDivisionError
                  else if r mod divisor \<noteq> 0 then Inl ValueError else Inr (r div divisor, r)
      | None \<Rightarrow> (case tap_amount of Some t \<Rightarrow> Inr (t, t * divisor) | None \<Rightarrow> Inl TypeError))"

definition generate_tap_deposit_address ::
  "tap_lib \<Rightarrow> asset_registry \<Rightarrow> tap_client \<Rightarrow> tap_server \<Rightarrow> string \<Rightarrow> int option \<Rightarrow> string option \<Rightarrow> int option \<Rightarrow>
   string option \<Rightarrow> tap_deposit_address tap_prog" where
  "generate_tap_deposit_address lib registry client server user_rsk_address tap_amount tap_asset_id rsk_amount rsk_token_address =
     (if tap_amount = None \<and> rsk_amount = None then throw ValueError
      else if tap_amount \<noteq> None \<and> rsk_amount \<noteq> None then throw ValueError
      else if tap_asset_id = None \<and> rsk_token_address = None then throw ValueError
      else if tap_asset_id \<noteq> None \<and> rsk_token_address \<noteq> None then throw ValueError
      else
        let tap_asset_id = (case tap_asset_id of None \<Rightarrow> None
              | Some i \<Rightarrow> if take 2 i = ''0x'' then Some (tl_remove_0x_prefix lib i) else Some i) in
        bnd (lift_res (if rsk_token_address \<noteq> None then get_bridgeable_asset lib registry rsk_token_address None
                       else get_bridgeable_asset lib registry None tap_asset_id)) (\<lambda>asset.
        bnd (lift_res (both_amounts (ba_tap_amount_divisor asset) tap_amount rsk_amount)) (\<lambda>(tap_amount, rsk_amount).
        bnd (lift_res (tl_to_checksum_address lib user_rsk_address)) (\<lambda>user_rsk_address.
        bnd (lift_res (create_address client server (ba_tap_asset_id asset) tap_amount None None)) (\<lambda>response.
        insert_tap_address
          \<lparr>tda_id = 0, tda_rsk_address = user_rsk_address, tda_tap_address = cr_address response,
           tda_tap_asset_id = ba_tap_asset_id asset, tda_rsk_token_address = ba_rsk_token asset,
           tda_tap_amount = tap_amount, tda_rsk_amount = rsk_amount\<rparr>)))))"

definition get_deposit_addresses :: "tap_deposit_address list tap_prog" where
  "get_deposit_addresses = db_get td_addresses"

section \<open>Deposits on Tap\<close>

text \<open>\<open>"txid:vout"\<close>, unpacked.\<close>

definition parse_outpoint :: "pyval \<Rightarrow> exn + string \<times> int" where
  "parse_outpoint outpoint_raw =
     (case outpoint_raw of
        PStr s \<Rightarrow> (case split_on (CHR '':'') s of
                     [txid, vout] \<Rightarrow> rbind (py_int (PStr vout)) (\<lambda>n. Inr (txid, n))
                   | _ \<Rightarrow> Inl ValueError)
      | _ \<Rightarrow> Inl AttributeError)"

definition store_receive ::
  "tap_deposit_address \<Rightarrow> pyval \<Rightarrow> (string \<times> int) set \<Rightarrow> (string \<times> int) set tap_prog" where
  "store_receive deposit_address event previous_outpoints =
     bnd (lift_res (item event ''outpoint'')) (\<lambda>outpoint_raw.
     bnd (lift_res (parse_outpoint outpoint_raw)) (\<lambda>outpoint.
     if outpoint \<in> previous_outpoints then ok previous_outpoints else
     bnd (lift_res (item event ''addr'')) (\<lambda>addr.
     bnd (lift_res (item addr ''encoded'')) (\<lambda>encoded.
     if encoded \<noteq> tda_tap_address deposit_address then throw ValueError else
     bnd (lift_res (item event ''status'')) (\<lambda>status.
     if status \<noteq> PStr ''ADDR_EVENT_STATUS_COMPLETED'' then throw ValueError else
     bnd (insert_tap_to_rsk_transfer
           \<lparr>ttr_db_id = 0, ttr_counter = None, ttr_deposit_address_id = tda_id deposit_address,
            ttr_btc_tx_id = fst outpoint, ttr_btc_tx_vout = snd outpoint, ttr_batch_id = None\<rparr>) (\<lambda>t.
     ok (insert outpoint previous_outpoints)))))))"

definition scan_address ::
  "tap_client \<Rightarrow> tap_server \<Rightarrow> tap_deposit_address \<Rightarrow> (string \<times> int) set \<Rightarrow> (string \<times> int) set tap_prog" where
  "scan_address client server deposit_address previous_outpoints =
     bnd (lift_res (list_receives client server (Some (tda_tap_address deposit_address)) (Some ''ADDR_EVENT_STATUS_COMPLETED'')))
       (\<lambda>result.
     bnd (lift_res (item result ''events'')) (\<lambda>events.
     bnd (lift_res (py_iter events)) (\<lambda>events.
     fold_prog (store_receive deposit_address) events previous_outpoints)))"

definition scan_new_deposits :: "tap_client \<Rightarrow> tap_server \<Rightarrow> unit tap_prog" where
  "scan_new_deposits client server =
     bnd (db_get (\<lambda>db. set (map (\<lambda>t. (ttr_btc_tx_id t, ttr_btc_tx_vout t)) (td_ttr db)))) (\<lambda>previous_outpoints.
     bnd get_deposit_addresses (\<lambda>deposit_addresses.
     bnd (fold_prog (scan_address client server) deposit_addresses previous_outpoints) (\<lambda>previous_outpoints.
     ok ())))"

section \<open>What a deposit address promises\<close>

text \<open>
  The two amounts of a deposit address agree: the RSK amount is the Tap amount times the
  divisor of the asset in the contract, exactly; one of them is the amount that was asked for; the
  address is the one that the daemon made for this asset and this Tap amount. An RSK amount that
  is no multiple of the divisor is refused.
\<close>

theorem tap_deposit_amounts:
  assumes "generate_tap_deposit_address lib registry client server user tap_amount asset_id rsk_amount token w = (Inr a, w')"
  shows "\<exists>asset response. get_bridgeable_asset lib registry token (if token = None then map_option (\<lambda>i.
            if take 2 i = ''0x'' then tl_remove_0x_prefix lib i else i) asset_id else None) = Inr asset \<and>
      tda_rsk_amount a = tda_tap_amount a * ba_tap_amount_divisor asset \<and>
      (tap_amount = Some (tda_tap_amount a) \<or> rsk_amount = Some (tda_rsk_amount a)) \<and>
      create_address client server (tda_tap_asset_id a) (tda_tap_amount a) None None = Inr response \<and>
      tda_tap_address a = cr_address response \<and> tda_tap_asset_id a = ba_tap_asset_id asset \<and>
      tda_rsk_token_address a = ba_rsk_token asset \<and> tl_to_checksum_address lib user = Inr (tda_rsk_address a) \<and>
      td_addresses (w_db w') = td_addresses (w_db w) @ [a]"
proof -
  let ?i = "case asset_id of None \<Rightarrow> None
     | Some i \<Rightarrow> if take 2 i = ''0x'' then Some (tl_remove_0x_prefix lib i) else Some i"
  have i: "?i = map_option (\<lambda>i. if take 2 i = ''0x'' then tl_remove_0x_prefix lib i else i) asset_id"
    by (cases asset_id) auto
  have given: "tap_amount \<noteq> None \<or> rsk_amount \<noteq> None" "tap_amount = None \<or> rsk_amount = None"
      "asset_id = None \<or> token = None"
    using assms by (auto simp: generate_tap_deposit_address_def split: if_splits)
  obtain asset t r checksum response u where
    asset: "(if token \<noteq> None then get_bridgeable_asset lib registry token None else get_bridgeable_asset lib registry None ?i) = Inr asset"
    and amounts: "both_amounts (ba_tap_amount_divisor asset) tap_amount rsk_amount = Inr (t, r)"
    and checksum: "tl_to_checksum_address lib user = Inr checksum"
    and response: "create_address client server (ba_tap_asset_id asset) t None None = Inr response"
    and ins: "insert_tap_address \<lparr>tda_id = 0, tda_rsk_address = checksum, tda_tap_address = cr_address response,
           tda_tap_asset_id = ba_tap_asset_id asset, tda_rsk_token_address = ba_rsk_token asset,
           tda_tap_amount = t, tda_rsk_amount = r\<rparr> w = (Inr a, w')"
    using assms unfolding generate_tap_deposit_address_def Let_def
    by (auto simp: ran_ok split: if_splits)
  have "r = t * ba_tap_amount_divisor asset" "tap_amount = Some t \<or> rsk_amount = Some r"
    using amounts by (auto simp: both_amounts_def split: option.splits if_splits)
  moreover have "a = \<lparr>tda_id = w_seqs w ''tap_deposit_address'', tda_rsk_address = checksum, tda_tap_address = cr_address response,
           tda_tap_asset_id = ba_tap_asset_id asset, tda_rsk_token_address = ba_rsk_token asset,
           tda_tap_amount = t, tda_rsk_amount = r\<rparr>" "td_addresses (w_db w') = td_addresses (w_db w) @ [a]"
    using ins by (auto simp: insert_tap_address_def run_bnd run_insert_row split: if_splits)
  moreover have "get_bridgeable_asset lib registry token (if token = None then map_option (\<lambda>i.
            if take 2 i = ''0x'' then tl_remove_0x_prefix lib i else i) asset_id else None) = Inr asset"
    using asset i by (cases token) simp_all
  ultimately show ?thesis using checksum response by auto
qed

section \<open>What a scan finds\<close>

text \<open>The events that the daemon returns for an address, and the output that an event is about.\<close>

definition received_events :: "tap_client \<Rightarrow> tap_server \<Rightarrow> tap_deposit_address \<Rightarrow> exn + pyval list" where
  "received_events client server a =
     rbind (list_receives client server (Some (tda_tap_address a)) (Some ''ADDR_EVENT_STATUS_COMPLETED'')) (\<lambda>result.
     rbind (item result ''events'') py_iter)"

definition event_outpoint :: "pyval \<Rightarrow> exn + string \<times> int" where
  "event_outpoint event = rbind (item event ''outpoint'') parse_outpoint"

definition completed :: "tap_deposit_address \<Rightarrow> pyval \<Rightarrow> bool" where
  "completed a event \<longleftrightarrow> item event ''status'' = Inr (PStr ''ADDR_EVENT_STATUS_COMPLETED'') \<and>
     rbind (item event ''addr'') (\<lambda>addr. item addr ''encoded'') = Inr (tda_tap_address a)"

definition deposit_found :: "tap_client \<Rightarrow> tap_server \<Rightarrow> tap_deposit_address list \<Rightarrow> tap_to_rsk_transfer \<Rightarrow> bool" where
  "deposit_found client server addresses t \<longleftrightarrow> ttr_batch_id t = None \<and>
     (\<exists>a \<in> set addresses. tda_id a = ttr_deposit_address_id t \<and>
       (\<exists>events. received_events client server a = Inr events \<and>
         (\<exists>event \<in> set events. event_outpoint event = Inr (tap_to_rsk_transfer_key t) \<and> completed a event)))"

text \<open>Rows with \<open>P\<close> are added to the transfers from Tap, and nothing else happens to the tables.\<close>

definition adds_ttr :: "(tap_to_rsk_transfer \<Rightarrow> bool) \<Rightarrow> tap_world \<Rightarrow> tap_world \<Rightarrow> bool" where
  "adds_ttr P w w' \<longleftrightarrow> (\<exists>new. w_db w' = (w_db w)\<lparr>td_ttr := td_ttr (w_db w) @ new\<rparr> \<and> (\<forall>t \<in> set new. P t)) \<and>
     w_effects w' = w_effects w"

lemma adds_ttr_refl: "adds_ttr P w w"
  unfolding adds_ttr_def by (auto intro: exI[of _ "[]"])

lemma adds_ttr_trans:
  assumes "adds_ttr P u v" "adds_ttr P v w"
  shows "adds_ttr P u w"
proof -
  obtain n m where n: "w_db v = (w_db u)\<lparr>td_ttr := td_ttr (w_db u) @ n\<rparr>" "\<forall>t \<in> set n. P t"
    and m: "w_db w = (w_db v)\<lparr>td_ttr := td_ttr (w_db v) @ m\<rparr>" "\<forall>t \<in> set m. P t"
    using assms unfolding adds_ttr_def by blast
  have "w_db w = (w_db u)\<lparr>td_ttr := td_ttr (w_db u) @ (n @ m)\<rparr>" using n(1) m(1) by simp
  then show ?thesis using n(2) m(2) assms unfolding adds_ttr_def by (intro conjI exI[of _ "n @ m"]) auto
qed

definition ttr_keys :: "tap_world \<Rightarrow> (string \<times> int) set" where
  "ttr_keys w = tap_to_rsk_transfer_key ` set (td_ttr (w_db w))"

lemma adds_ttr_keys: "adds_ttr P w w' \<Longrightarrow> ttr_keys w \<subseteq> ttr_keys w'"
  by (auto simp: adds_ttr_def ttr_keys_def)

lemma store_receive_Inr:
  assumes "store_receive a event (ttr_keys w) w = (Inr ks, w')"
  shows "ks = ttr_keys w' \<and> adds_ttr (\<lambda>t. ttr_batch_id t = None \<and> tda_id a = ttr_deposit_address_id t \<and>
       event_outpoint event = Inr (tap_to_rsk_transfer_key t) \<and> completed a event) w w' \<and>
     (\<exists>outpoint. event_outpoint event = Inr outpoint \<and> outpoint \<in> ttr_keys w')"
proof -
  obtain raw where raw: "item event ''outpoint'' = Inr raw" using assms by (auto simp: store_receive_def ran_ok)
  obtain txid vout where "parse_outpoint raw = Inr (txid, vout)" using assms raw by (auto simp: store_receive_def ran_ok)
  with raw have o: "event_outpoint event = Inr (txid, vout)" by (simp add: event_outpoint_def)
  show ?thesis
  proof (cases "(txid, vout) \<in> ttr_keys w")
    case True
    then have "ks = ttr_keys w" "w' = w"
      using assms raw o by (auto simp: store_receive_def ran_ok event_outpoint_def)
    then show ?thesis using o True adds_ttr_refl by auto
  next
    case False
    let ?t = "\<lparr>ttr_db_id = w_seqs w ''tap_to_rsk_transfer'', ttr_counter = None, ttr_deposit_address_id = tda_id a,
      ttr_btc_tx_id = txid, ttr_btc_tx_vout = vout, ttr_batch_id = None\<rparr>"
    obtain t where c: "completed a event" and s: "ks = insert (txid, vout) (ttr_keys w)"
      and ins: "insert_tap_to_rsk_transfer (?t\<lparr>ttr_db_id := 0\<rparr>) w = (Inr t, w')"
      using assms raw o False
      by (auto simp: store_receive_def ran_ok event_outpoint_def completed_def split: if_splits)
    have w: "w_db w' = (w_db w)\<lparr>td_ttr := td_ttr (w_db w) @ [?t]\<rparr>" "w_effects w' = w_effects w"
      using ins by (auto simp: insert_tap_to_rsk_transfer_def run_bnd run_insert_row split: if_splits)
    have keys: "ttr_keys w' = insert (txid, vout) (ttr_keys w)"
      by (auto simp: ttr_keys_def w(1) tap_to_rsk_transfer_key_def)
    have "adds_ttr (\<lambda>t. ttr_batch_id t = None \<and> tda_id a = ttr_deposit_address_id t \<and>
       event_outpoint event = Inr (tap_to_rsk_transfer_key t) \<and> completed a event) w w'"
      unfolding adds_ttr_def using w o c
      by (intro conjI exI[of _ "[?t]"]) (simp_all add: tap_to_rsk_transfer_key_def)
    then show ?thesis using s keys o by simp
  qed
qed

text \<open>A fold whose items each add rows with \<open>P\<close> and see to it that \<open>Q\<close> of them holds for the rest.\<close>

lemma fold_adds:
  assumes "fold_prog f xs (ttr_keys w) w = (Inr ks, w')"
    and "\<And>x w ks w'. x \<in> set xs \<Longrightarrow> f x (ttr_keys w) w = (Inr ks, w') \<Longrightarrow>
      ks = ttr_keys w' \<and> adds_ttr P w w' \<and> Q x (ttr_keys w')"
    and "\<And>x K K'. Q x K \<Longrightarrow> K \<subseteq> K' \<Longrightarrow> Q x K'"
  shows "ks = ttr_keys w' \<and> adds_ttr P w w' \<and> (\<forall>x \<in> set xs. Q x (ttr_keys w'))"
  using assms(1,2)
proof (induction xs arbitrary: w)
  case Nil
  then show ?case using adds_ttr_refl by auto
next
  case (Cons x xs)
  then obtain ks1 u where x: "f x (ttr_keys w) w = (Inr ks1, u)" and xs: "fold_prog f xs ks1 u = (Inr ks, w')"
    by (auto simp: ran_ok)
  note 1 = Cons.prems(2)[OF _ x, simplified]
  then have "fold_prog f xs (ttr_keys u) u = (Inr ks, w')" using xs by simp
  from Cons.IH[OF this Cons.prems(2)] have 2: "ks = ttr_keys w' \<and> adds_ttr P u w' \<and> (\<forall>x \<in> set xs. Q x (ttr_keys w'))" by simp
  then show ?case using 1 adds_ttr_trans adds_ttr_keys assms(3) by (metis set_ConsD)
qed

lemma adds_ttr_mono: "adds_ttr P w w' \<Longrightarrow> (\<And>t. P t \<Longrightarrow> P' t) \<Longrightarrow> adds_ttr P' w w'"
  unfolding adds_ttr_def by blast

lemma scan_address_Inr:
  assumes "scan_address client server a (ttr_keys w) w = (Inr ks, w')" "a \<in> set addresses"
  shows "ks = ttr_keys w' \<and> adds_ttr (deposit_found client server addresses) w w' \<and>
     (\<exists>events. received_events client server a = Inr events \<and>
       (\<forall>event \<in> set events. \<exists>outpoint. event_outpoint event = Inr outpoint \<and> outpoint \<in> ttr_keys w'))"
proof -
  obtain events where e: "received_events client server a = Inr events"
    and f: "fold_prog (store_receive a) events (ttr_keys w) w = (Inr ks, w')"
    using assms(1) by (auto simp: scan_address_def received_events_def ran_ok)
  have "ks = ttr_keys w' \<and> adds_ttr (deposit_found client server addresses) w w' \<and>
     (\<forall>event \<in> set events. \<exists>outpoint. event_outpoint event = Inr outpoint \<and> outpoint \<in> ttr_keys w')"
  proof (rule fold_adds[OF f, where Q = "\<lambda>event K. \<exists>outpoint. event_outpoint event = Inr outpoint \<and> outpoint \<in> K"])
    fix event w ks w' assume event: "event \<in> set events" and run: "store_receive a event (ttr_keys w) w = (Inr ks, w')"
    have "adds_ttr (deposit_found client server addresses) w w'"
      by (rule adds_ttr_mono) (use store_receive_Inr[OF run] assms(2) e event in \<open>unfold deposit_found_def, blast+\<close>)
    then show "ks = ttr_keys w' \<and> adds_ttr (deposit_found client server addresses) w w' \<and>
        (\<exists>outpoint. event_outpoint event = Inr outpoint \<and> outpoint \<in> ttr_keys w')"
      using store_receive_Inr[OF run] by blast
  qed blast
  then show ?thesis using e by blast
qed

text \<open>
  C25. A scan that ends has seen every deposit: each event that the daemon returns for a deposit
  address has its output among the transfers afterwards, once; and it adds no transfer but for such an
  output, of a completed event for the address that the transfer refers to, in no batch yet. Nothing
  else changes.
\<close>

theorem scan_new_deposits_exact:
  assumes "scan_new_deposits client server w = (Inr (), w')"
    and "distinct (map tap_to_rsk_transfer_key (td_ttr (w_db w)))"
  shows "(\<exists>new. w_db w' = (w_db w)\<lparr>td_ttr := td_ttr (w_db w) @ new\<rparr> \<and>
       list_all (deposit_found client server (td_addresses (w_db w))) new) \<and>
     distinct (map tap_to_rsk_transfer_key (td_ttr (w_db w'))) \<and>
     (\<forall>a \<in> set (td_addresses (w_db w)). \<exists>events. received_events client server a = Inr events \<and>
       (\<forall>event \<in> set events. \<exists>t \<in> set (td_ttr (w_db w')). event_outpoint event = Inr (tap_to_rsk_transfer_key t)))"
proof -
  have keys: "set (map (\<lambda>t. (ttr_btc_tx_id t, ttr_btc_tx_vout t)) (td_ttr (w_db w))) = ttr_keys w"
    by (auto simp: ttr_keys_def tap_to_rsk_transfer_key_def)
  obtain ks where f: "fold_prog (scan_address client server) (td_addresses (w_db w)) (ttr_keys w) w = (Inr ks, w')"
    using assms(1) unfolding keys[symmetric] by (auto simp: scan_new_deposits_def get_deposit_addresses_def ran_ok)
  have r: "ks = ttr_keys w' \<and> adds_ttr (deposit_found client server (td_addresses (w_db w))) w w' \<and>
     (\<forall>a \<in> set (td_addresses (w_db w)). \<exists>events. received_events client server a = Inr events \<and>
       (\<forall>event \<in> set events. \<exists>outpoint. event_outpoint event = Inr outpoint \<and> outpoint \<in> ttr_keys w'))"
  proof (rule fold_adds[OF f, where Q = "\<lambda>a K. \<exists>events. received_events client server a = Inr events \<and>
      (\<forall>event \<in> set events. \<exists>outpoint. event_outpoint event = Inr outpoint \<and> outpoint \<in> K)"])
    fix a v ks v' assume "a \<in> set (td_addresses (w_db w))" "scan_address client server a (ttr_keys v) v = (Inr ks, v')"
    then show "ks = ttr_keys v' \<and> adds_ttr (deposit_found client server (td_addresses (w_db w))) v v' \<and>
       (\<exists>events. received_events client server a = Inr events \<and>
         (\<forall>event \<in> set events. \<exists>outpoint. event_outpoint event = Inr outpoint \<and> outpoint \<in> ttr_keys v'))"
      using scan_address_Inr by blast
  qed blast
  have "keeps (\<lambda>w. distinct (map tap_to_rsk_transfer_key (td_ttr (w_db w)))) (insert_tap_to_rsk_transfer t)" for t
    by (auto simp: keeps_def insert_tap_to_rsk_transfer_def run_bnd run_insert_row tap_to_rsk_transfer_key_def)
  then have "keeps (\<lambda>w. distinct (map tap_to_rsk_transfer_key (td_ttr (w_db w)))) (scan_new_deposits client server)"
    unfolding scan_new_deposits_def scan_address_def store_receive_def get_deposit_addresses_def
    by (intro keeps_intros)
  from keepsD'[OF this assms(2,1)] have d: "distinct (map tap_to_rsk_transfer_key (td_ttr (w_db w')))" .
  have "\<exists>events. received_events client server a = Inr events \<and>
      (\<forall>event \<in> set events. \<exists>t \<in> set (td_ttr (w_db w')). event_outpoint event = Inr (tap_to_rsk_transfer_key t))"
    if "a \<in> set (td_addresses (w_db w))" for a
  proof -
    obtain events where "received_events client server a = Inr events"
      "\<forall>event \<in> set events. \<exists>outpoint. event_outpoint event = Inr outpoint \<and> outpoint \<in> ttr_keys w'" using r \<open>a \<in> _\<close> by blast
    then show ?thesis unfolding ttr_keys_def by (metis image_iff)
  qed
  moreover have "\<exists>new. w_db w' = (w_db w)\<lparr>td_ttr := td_ttr (w_db w) @ new\<rparr> \<and>
      list_all (deposit_found client server (td_addresses (w_db w))) new"
    using r unfolding adds_ttr_def list_all_iff by blast
  ultimately show ?thesis using d by blast
qed

section \<open>An example\<close>

definition example_tap_lib :: tap_lib where
  "example_tap_lib =
     \<lparr>tl_add_0x_prefix = (\<lambda>s. ''0x'' @ s), tl_remove_0x_prefix = (\<lambda>s. drop 2 s), tl_to_checksum_address = Inr,
      tl_keccak = (\<lambda>bs. bs), tl_encode_packed = (\<lambda>values. Inr [1]), tl_hex_bytes = (\<lambda>v. Inr [1])\<rparr>"

definition example_registry :: asset_registry where
  "example_registry = (let a = \<lparr>as_rsk_token = ''0xT'', as_tap_asset_id = AssetStr ''0xaa'', as_tap_amount_divisor = 100,
       as_tap_native = True, as_tap_asset_name = ''T''\<rparr>
     in \<lparr>ar_by_rsk_token = (\<lambda>token. Inr a), ar_by_tap_asset_id = (\<lambda>i. Inr a)\<rparr>)"

definition example_tap_client :: tap_client where
  "example_tap_client =
     \<lparr>tc_base_url = ''https://tap/v1/taproot-assets/'', tc_macaroon = ''00'', tc_tls_cert_path = ''tls.cert'',
      tc_public_universe_host = None\<rparr>"

definition example_receive :: pyval where
  "example_receive = PDict
     [(''outpoint'', PStr ''ab:1''), (''status'', PStr ''ADDR_EVENT_STATUS_COMPLETED''),
      (''addr'', PDict [(''encoded'', PStr ''taprt1'')])]"

definition example_tap_server :: tap_server where
  "example_tap_server q = Inr \<lparr>hr_status_code = 200, hr_json = Inr (PDict
     [(''script_key'', PStr ''sk''), (''internal_key'', PStr ''ik''), (''encoded'', PStr ''taprt1''),
      (''asset_id'', PStr ''aa''), (''amount'', PInt 5), (''group_key'', PNone), (''tapscript_sibling'', PNone),
      (''taproot_output_key'', PNone), (''proof_courier_addr'', PNone), (''asset_version'', PNone),
      (''events'', PList [example_receive])])\<rparr>"

definition empty_tap_world :: tap_world where
  "empty_tap_world = \<lparr>w_db = \<lparr>td_kv = (\<lambda>k. None), td_addresses = [], td_rtb = [], td_ttb = [], td_rtt = [], td_ttr = []\<rparr>,
     w_seqs = (\<lambda>t. 1), w_effects = []\<rparr>"

definition example_tap_address :: tap_deposit_address where
  "example_tap_address =
     \<lparr>tda_id = 1, tda_rsk_address = ''0xU'', tda_tap_address = PStr ''taprt1'', tda_tap_asset_id = ''aa'',
      tda_rsk_token_address = ''0xT'', tda_tap_amount = 5, tda_rsk_amount = 500\<rparr>"

lemma example_post: "tap_post example_tap_client example_tap_server None path data = rbind (example_tap_server undefined) hr_json"
  by (simp add: tap_post_def tap_request_def example_tap_server_def http_ok_def Let_def)

lemma example_created_address: "\<exists>r. create_address example_tap_client example_tap_server i n None None = Inr r \<and> cr_address r = PStr ''taprt1''"
  by (simp add: create_address_def next_script_key_def next_internal_key_def example_post example_tap_server_def)

lemma example_outpoint: "parse_outpoint (PStr ''ab:1'') = Inr (''ab'', 1)"
  by code_simp

lemma example_asset: "get_bridgeable_asset example_tap_lib example_registry None (Some ''aa'') =
  Inr \<lparr>ba_rsk_token = ''0xT'', ba_tap_asset_id = ''aa'', ba_tap_amount_divisor = 100, ba_tap_native = True,
       ba_tap_asset_name = ''T''\<rparr>"
  by (simp add: get_bridgeable_asset_def is_given_def example_tap_lib_def example_registry_def ADDRESS_ZERO_def Let_def numeral_eq_Suc)

lemma example_lib: "tl_remove_0x_prefix example_tap_lib = (\<lambda>s. drop 2 s)" "tl_to_checksum_address example_tap_lib = Inr"
  by (simp_all add: example_tap_lib_def)

text \<open>Five units on Tap for an asset with the divisor 100.\<close>

theorem tap_deposit_amounts_witness:
  "\<exists>a w'. generate_tap_deposit_address example_tap_lib example_registry example_tap_client example_tap_server
       ''0xU'' None (Some ''0xaa'') (Some 500) None empty_tap_world = (Inr a, w') \<and>
     tda_rsk_amount a = tda_tap_amount a * 100 \<and> tda_rsk_amount a = 500 \<and> td_addresses (w_db w') = [a]"
proof -
  let ?run = "generate_tap_deposit_address example_tap_lib example_registry example_tap_client example_tap_server
       ''0xU'' None (Some ''0xaa'') (Some 500) None empty_tap_world"
  obtain response where "create_address example_tap_client example_tap_server ''aa'' 5 None None = Inr response"
    using example_created_address by blast
  then have "\<exists>a w'. ?run = (Inr a, w')"
    by (simp add: generate_tap_deposit_address_def run_bnd example_lib example_asset both_amounts_def
        insert_tap_address_def run_next_id run_insert_row empty_tap_world_def)
  then obtain a w' where run: "?run = (Inr a, w')" by blast
  then show ?thesis using tap_deposit_amounts[OF run]
    by (auto simp: example_lib example_asset empty_tap_world_def)
qed

definition example_tap_world :: tap_world where
  "example_tap_world = \<lparr>w_db = \<lparr>td_kv = (\<lambda>k. None), td_addresses = [example_tap_address], td_rtb = [], td_ttb = [],
       td_rtt = [\<lparr>rtt_db_id = 1, rtt_counter = 1, rtt_recipient_tap_address = ''taprt2'', rtt_sender_rsk_address = ''0xU'',
         rtt_block_number = 9, rtt_tx_hash = ''0xh'', rtt_tx_index = 0, rtt_log_index = 0, rtt_batch_id = None\<rparr>],
       td_ttr = []\<rparr>, w_seqs = (\<lambda>t. 2), w_effects = []\<rparr>"

theorem scan_new_deposits_exact_witness:
  "\<exists>w'. scan_new_deposits example_tap_client example_tap_server example_tap_world = (Inr (), w') \<and>
     map tap_to_rsk_transfer_key (td_ttr (w_db w')) = [(''ab'', 1)]"
proof -
  have "\<exists>w'. scan_new_deposits example_tap_client example_tap_server example_tap_world = (Inr (), w') \<and>
      length (td_ttr (w_db w')) = 1"
    by (simp add: scan_new_deposits_def get_deposit_addresses_def scan_address_def store_receive_def prog_simps
        list_receives_def example_post example_tap_server_def example_receive_def example_outpoint example_tap_world_def
        example_tap_address_def insert_tap_to_rsk_transfer_def run_insert_row)
  then obtain w' where run: "scan_new_deposits example_tap_client example_tap_server example_tap_world = (Inr (), w')"
    and len: "length (td_ttr (w_db w')) = 1" by blast
  have "distinct (map tap_to_rsk_transfer_key (td_ttr (w_db example_tap_world)))" by (simp add: example_tap_world_def)
  from scan_new_deposits_exact[OF run this]
  have "\<exists>t \<in> set (td_ttr (w_db w')). event_outpoint example_receive = Inr (tap_to_rsk_transfer_key t)"
    by (auto simp: example_tap_world_def received_events_def list_receives_def example_post example_tap_server_def)
  moreover have "event_outpoint example_receive = Inr (''ab'', 1)"
    by (simp add: event_outpoint_def example_receive_def example_outpoint)
  ultimately show ?thesis using run len by (auto simp: length_Suc_conv)
qed

end
