(* ===== verification/Tap_Transfers.thy ===== *)
theory Tap_Transfers
  imports Tap_Scan
begin

text \<open>
  The transfers of the Tap bridge in both directions, in batches:
  \<^verbatim>\<open>bridge_node/bridge/bridges/tap_rsk/rsk_to_tap.py\<close>, \<^verbatim>\<open>bridge_node/bridge/bridges/tap_rsk/tap_to_rsk.py\<close> and the
  iteration of \<^verbatim>\<open>bridge_node/bridge/bridges/tap_rsk/bridge.py\<close>. The Tap daemon, the bridge contract and the
  other nodes are parameters.
\<close>

section \<open>From RSK to Tap\<close>

definition batch_limit :: nat where
  "batch_limit = 10"

definition get_or_create_rtb :: "rsk_to_tap_batch option tap_prog" where
  "get_or_create_rtb =
     bnd (rows_where td_rtb (\<lambda>b. rtb_status b \<noteq> rtt_code RTT_FINALIZED)) (\<lambda>batches.
     case first_row (sort_key rtb_id batches) of
       Some b \<Rightarrow> ok (Some b)
     | None \<Rightarrow>
         bnd (rows_where td_rtt (\<lambda>t. rtt_batch_id t = None)) (\<lambda>ts.
         let transfers = take batch_limit (sort_key rtt_counter ts) in
         if transfers = [] then ok None else
         bnd (insert_rtb \<lparr>rtb_id = 0, rtb_status = rtt_code RTT_CREATED, rtb_sending_result = PDict []\<rparr>) (\<lambda>b.
         sq (assign_rtb (rtb_id b) transfers) (ok (Some b)))))"

definition get_rtb :: "int \<Rightarrow> rsk_to_tap_batch tap_prog" where
  "get_rtb i = related td_rtb (\<lambda>b. rtb_id b = i)"

definition claim_rtb :: "int \<Rightarrow> int \<Rightarrow> string list tap_prog" where
  "claim_rtb batch_id status = in_tx
     (bnd (get_rtb batch_id) (\<lambda>b.
      sq (asserting (rtb_status b = status))
     (sq (update_rtb batch_id (\<lambda>b. b\<lparr>rtb_status := rtt_code RTT_SENDING_TO_TAP\<rparr>))
     (bnd (rtb_transfers batch_id) (\<lambda>ts. ok (map rtt_recipient_tap_address ts))))))"

definition send_rtb :: "(string list \<Rightarrow> exn + pyval) \<Rightarrow> int \<Rightarrow> string list \<Rightarrow> unit tap_prog" where
  "send_rtb send batch_id recipients =
     sq (in_tx (bnd (query_one td_rtb (\<lambda>b. rtb_id b = batch_id)) (\<lambda>b.
           asserting (rtb_status b = rtt_code RTT_SENDING_TO_TAP))))
    (sq (emit (SendAssets recipients))
    (bnd (lift_res (send recipients)) (\<lambda>send_result.
     in_tx (bnd (get_rtb batch_id) (\<lambda>b.
       sq (asserting (rtb_status b = rtt_code RTT_SENDING_TO_TAP))
          (update_rtb batch_id (\<lambda>b. b\<lparr>rtb_status := rtt_code RTT_SENT_TO_TAP, rtb_sending_result := send_result\<rparr>)))))))"

definition finalize_rtb :: "int \<Rightarrow> unit tap_prog" where
  "finalize_rtb batch_id = in_tx
     (bnd (get_rtb batch_id) (\<lambda>b.
      sq (asserting (rtb_status b = rtt_code RTT_SENT_TO_TAP))
         (update_rtb batch_id (\<lambda>b. b\<lparr>rtb_status := rtt_code RTT_FINALIZED\<rparr>))))"

definition process_rtb :: "(string list \<Rightarrow> exn + pyval) \<Rightarrow> unit tap_prog" where
  "process_rtb send =
     bnd (in_tx get_or_create_rtb) (\<lambda>current_batch.
     case current_batch of None \<Rightarrow> ok ()
     | Some b \<Rightarrow>
         let batch_id = rtb_id b; status = rtb_status b in
         bnd (if status = rtt_code RTT_CREATED
              then bnd (claim_rtb batch_id status) (\<lambda>recipients.
                   sq (send_rtb send batch_id recipients) (ok (rtt_code RTT_SENT_TO_TAP)))
              else ok status) (\<lambda>status.
         sq (demand (status \<noteq> rtt_code RTT_SENDING_TO_TAP) RuntimeError)
            (if status = rtt_code RTT_SENT_TO_TAP then finalize_rtb batch_id else ok ())))"

text \<open>The transfers of an address that are in a batch, with its status.\<close>

definition rtt_transfers_by_address :: "string \<Rightarrow> (string \<times> int \<times> int) list tap_prog" where
  "rtt_transfers_by_address address = in_tx
     (db_get (\<lambda>db. concat (map (\<lambda>t. map (\<lambda>b. (rtt_sender_rsk_address t, rtt_db_id t, rtb_status b))
        (filter (\<lambda>b. rtt_batch_id t = Some (rtb_id b)) (td_rtb db)))
        (filter (\<lambda>t. rtt_sender_rsk_address t = address) (td_rtt db)))))"

section \<open>From Tap to RSK\<close>

text \<open>The bridge contract and the node's account there; a receipt's status is its argument.\<close>

record tap_contract =
  tk_federators :: "exn + string list"
  tk_num_required_signers :: "exn + int"
  tk_message_hash :: "pyval \<Rightarrow> pyval \<Rightarrow> string \<Rightarrow> pyval \<Rightarrow> exn + nat list"
  tk_is_processed :: "string \<Rightarrow> pyval \<Rightarrow> exn + bool"
  tk_transact :: "accept_from_tap_call \<Rightarrow> exn + string"
  tk_receipt :: "string option \<Rightarrow> exn + bool"
  tk_account :: eth_account
  tk_privkey :: string
  tk_address :: string

definition get_or_create_ttb :: "tap_lib \<Rightarrow> tap_to_rsk_batch option tap_prog" where
  "get_or_create_ttb lib =
     bnd (rows_where td_ttb (\<lambda>b. ttb_status b \<noteq> ttr_code TTR_FINALIZED)) (\<lambda>batches.
     case first_row (sort_key ttb_id batches) of
       Some b \<Rightarrow> ok (Some b)
     | None \<Rightarrow>
         bnd (rows_where td_ttr (\<lambda>t. ttr_batch_id t = None)) (\<lambda>ts.
         let transfers = take batch_limit (by_counter ts) in
         if transfers = [] then ok None else
         bnd (batch_hash lib transfers) (\<lambda>hash.
         bnd (insert_ttb \<lparr>ttb_id = 0, ttb_hash = hash, ttb_status = ttr_code TTR_CREATED, ttb_signatures = [],
                          ttb_executed_tx_hash = None\<rparr>) (\<lambda>b.
         sq (assign_ttb (ttb_id b) transfers) (ok (Some b))))))"

definition get_ttb :: "int \<Rightarrow> tap_to_rsk_batch tap_prog" where
  "get_ttb i = related td_ttb (\<lambda>b. ttb_id b = i)"

definition add_0x_prefix :: "tap_lib \<Rightarrow> pyval \<Rightarrow> exn + string" where
  "add_0x_prefix lib v = (case v of PStr s \<Rightarrow> Inr (tl_add_0x_prefix lib s) | _ \<Rightarrow> Inl TypeError)"

text \<open>The message that is signed for a serialized transfer.\<close>

definition transfer_message :: "tap_lib \<Rightarrow> tap_contract \<Rightarrow> pyval \<Rightarrow> exn + nat list" where
  "transfer_message lib k transfer =
     rbind (item transfer ''deposit_address'') (\<lambda>a.
     rbind (item a ''rsk_address'') (\<lambda>rsk_address.
     rbind (item a ''tap_address'') (\<lambda>tap_address.
     rbind (rbind (item transfer ''deposit_btc_tx_id'') (add_0x_prefix lib)) (\<lambda>tx_id.
     rbind (item transfer ''deposit_btc_tx_vout'') (\<lambda>vout.
     tk_message_hash k rsk_address tap_address tx_id vout)))))"

text \<open>Whether all signatures are the signer's, as far as both lists go.\<close>

fun signatures_valid :: "tap_lib \<Rightarrow> tap_contract \<Rightarrow> pyval \<Rightarrow> pyval list \<Rightarrow> pyval list \<Rightarrow> exn + bool" where
  "signatures_valid lib k signer (transfer # transfers) (signature # signatures) =
     rbind (transfer_message lib k transfer) (\<lambda>message.
     rbind (ea_recover (tk_account k) message signature) (\<lambda>recovered.
     if PStr recovered \<noteq> signer then Inr False else signatures_valid lib k signer transfers signatures))"
| "signatures_valid lib k signer _ _ = Inr True"

fun add_batch_signatures ::
  "tap_lib \<Rightarrow> tap_contract \<Rightarrow> string list \<Rightarrow> pyval list \<Rightarrow> nat \<Rightarrow> pyval list \<Rightarrow> (string \<times> pyval) list \<Rightarrow>
   exn + (string \<times> pyval) list" where
  "add_batch_signatures lib k federators transfers num_transfers [] by_signer = Inr by_signer"
| "add_batch_signatures lib k federators transfers num_transfers (response # responses) by_signer =
     rbind (item response ''signer'') (\<lambda>signer.
     if signer \<notin> PStr ` set federators
     then add_batch_signatures lib k federators transfers num_transfers responses by_signer else
     rbind (item response ''signatures'') (\<lambda>signatures.
     rbind (py_len signatures) (\<lambda>n.
     if n \<noteq> num_transfers
     then add_batch_signatures lib k federators transfers num_transfers responses by_signer else
     rbind (py_iter signatures) (\<lambda>sigs.
     rbind (signatures_valid lib k signer transfers sigs) (\<lambda>valid.
     add_batch_signatures lib k federators transfers num_transfers responses
       (if valid then (case signer of PStr s \<Rightarrow> dict_set s signatures by_signer | _ \<Rightarrow> by_signer) else by_signer))))))"

text \<open>\<open>zip(*lists)\<close>: the columns, up to the end of the shortest list; none without lists.\<close>

definition zip_star :: "'a list list \<Rightarrow> 'a list list" where
  "zip_star rows = (case rows of [] \<Rightarrow> []
     | r # rs \<Rightarrow> map (\<lambda>i. map (\<lambda>row. row ! i) rows) [0..<foldl min (length r) (map length rs)])"

definition collect_batch_signatures ::
  "tap_lib \<Rightarrow> tap_contract \<Rightarrow> (pyval \<Rightarrow> exn + pyval list) \<Rightarrow> int \<Rightarrow> nat \<Rightarrow> (string \<times> pyval) list \<Rightarrow> pyval \<Rightarrow>
   ((string \<times> pyval) list \<times> bool) tap_prog" where
  "collect_batch_signatures lib k asked batch_id num_transfers by_signer serialized_batch =
     bnd (lift_res (tk_federators k)) (\<lambda>federators.
     bnd (lift_res (tk_num_required_signers k)) (\<lambda>num_required_signers.
     sq (emit (AskSignBatch serialized_batch))
    (bnd (lift_res (asked serialized_batch)) (\<lambda>responses.
     bnd (lift_res (rbind (item serialized_batch ''transfers'') py_iter)) (\<lambda>transfers.
     bnd (lift_res (add_batch_signatures lib k federators transfers num_transfers responses by_signer)) (\<lambda>by_signer.
     in_tx (bnd (get_ttb batch_id) (\<lambda>b.
       let enough = (int (length by_signer) \<ge> num_required_signers - 1) in
       sq (update_ttb batch_id (\<lambda>b. b\<lparr>ttb_signatures := by_signer,
             ttb_status := (if enough then ttr_code TTR_SIGNATURES_COLLECTED else ttb_status b)\<rparr>))
          (ok (by_signer, enough))))))))))"

definition accept_call :: "tap_lib \<Rightarrow> tap_to_rsk_transfer \<Rightarrow> pyval list \<Rightarrow> accept_from_tap_call tap_prog" where
  "accept_call lib t signatures = bnd (deposit_address_of t) (\<lambda>a.
     ok \<lparr>at_rsk_address = tda_rsk_address a, at_tap_address = tda_tap_address a,
         at_btc_tx_id = tl_add_0x_prefix lib (ttr_btc_tx_id t), at_btc_tx_vout = ttr_btc_tx_vout t,
         at_signatures = signatures\<rparr>)"

text \<open>The calls of a batch, which is then being sent.\<close>

definition claim_ttb :: "tap_lib \<Rightarrow> int \<Rightarrow> (string \<times> pyval) list \<Rightarrow> accept_from_tap_call list tap_prog" where
  "claim_ttb lib batch_id by_signer = in_tx
     (bnd (get_ttb batch_id) (\<lambda>b.
      bnd (ttb_transfers batch_id) (\<lambda>transfers.
      bnd (collect by_signer (\<lambda>(signer, sigs). lift_res (py_iter sigs))) (\<lambda>rows.
      bnd (collect (zip transfers (zip_star rows)) (\<lambda>(t, signatures). accept_call lib t signatures)) (\<lambda>calls.
      sq (update_ttb batch_id (\<lambda>b. b\<lparr>ttb_status := ttr_code TTR_SENDING_TO_RSK\<rparr>))
         (ok calls))))))"

definition submit_calls :: "tap_contract \<Rightarrow> accept_from_tap_call list \<Rightarrow> string list tap_prog" where
  "submit_calls k calls = collect calls (\<lambda>call.
     sq (emit (AcceptTransferFromTap call)) (lift_res (tk_transact k call)))"

definition send_ttb :: "tap_lib \<Rightarrow> tap_contract \<Rightarrow> int \<Rightarrow> (string \<times> pyval) list \<Rightarrow> unit tap_prog" where
  "send_ttb lib k batch_id by_signer =
     bnd (claim_ttb lib batch_id by_signer) (\<lambda>calls.
     bnd (submit_calls k calls) (\<lambda>tx_hashes.
     in_tx (bnd (get_ttb batch_id) (\<lambda>b.
       if tx_hashes = [] then throw IndexError else
       update_ttb batch_id (\<lambda>b. b\<lparr>ttb_status := ttr_code TTR_SENT_TO_RSK,
         ttb_executed_tx_hash := Some (last tx_hashes)\<rparr>)))))"

definition finalize_ttb :: "tap_contract \<Rightarrow> int \<Rightarrow> unit tap_prog" where
  "finalize_ttb k batch_id =
     bnd (in_tx (bnd (get_ttb batch_id) (\<lambda>b. ok (ttb_executed_tx_hash b)))) (\<lambda>tx_hash.
     bnd (lift_res (tk_receipt k tx_hash)) (\<lambda>success.
     if \<not> success then throw ValueError else
     in_tx (bnd (get_ttb batch_id) (\<lambda>b.
       update_ttb batch_id (\<lambda>b. b\<lparr>ttb_status := ttr_code TTR_FINALIZED\<rparr>)))))"

definition current_ttb :: "tap_lib \<Rightarrow> (tap_to_rsk_batch \<times> nat \<times> pyval) option tap_prog" where
  "current_ttb lib = in_tx
     (bnd (get_or_create_ttb lib) (\<lambda>current_batch.
      case current_batch of None \<Rightarrow> ok None
      | Some b \<Rightarrow>
          bnd (ttb_transfers (ttb_id b)) (\<lambda>transfers.
          bnd (serialize_batch lib b) (\<lambda>serialized. ok (Some (b, length transfers, serialized))))))"

definition process_ttb :: "tap_lib \<Rightarrow> tap_contract \<Rightarrow> (pyval \<Rightarrow> exn + pyval list) \<Rightarrow> unit tap_prog" where
  "process_ttb lib k asked =
     bnd (current_ttb lib) (\<lambda>current_batch.
     case current_batch of None \<Rightarrow> ok ()
     | Some (b, num_transfers, serialized_batch) \<Rightarrow>
         let batch_id = ttb_id b in
         bnd (if ttb_status b = ttr_code TTR_CREATED
              then bnd (collect_batch_signatures lib k asked batch_id num_transfers (ttb_signatures b) serialized_batch)
                     (\<lambda>(by_signer, enough).
                   ok (by_signer, if enough then ttr_code TTR_SIGNATURES_COLLECTED else ttb_status b))
              else ok (ttb_signatures b, ttb_status b)) (\<lambda>(by_signer, status).
         bnd (if status = ttr_code TTR_SIGNATURES_COLLECTED
              then sq (send_ttb lib k batch_id by_signer) (ok (ttr_code TTR_SENT_TO_RSK))
              else ok status) (\<lambda>status.
         sq (demand (status \<noteq> ttr_code TTR_SENDING_TO_RSK) ValueError)
            (if status = ttr_code TTR_SENT_TO_RSK then finalize_ttb k batch_id else ok ()))))"

text \<open>A node that is not the leader signs; \<open>v == n\<close> for an integer \<open>n\<close>.\<close>

fun py_equals_int :: "pyval \<Rightarrow> int \<Rightarrow> bool" where
  "py_equals_int (PInt m) n = (m = n)"
| "py_equals_int (PBool b) n = (of_bool b = n)"
| "py_equals_int _ n = False"

definition sign_transfer :: "tap_lib \<Rightarrow> tap_contract \<Rightarrow> pyval \<Rightarrow> exn + string" where
  "sign_transfer lib k transfer =
     rbind (item transfer ''deposit_btc_tx_id'') (\<lambda>btc_tx_id.
     rbind (item transfer ''deposit_btc_tx_vout'') (\<lambda>btc_tx_vout.
     rbind (rbind (add_0x_prefix lib btc_tx_id) (\<lambda>tx_id. tk_is_processed k tx_id btc_tx_vout)) (\<lambda>processed.
     if processed then Inl ValueError else
     rbind (transfer_message lib k transfer) (\<lambda>message. Inr (ea_sign (tk_account k) (tk_privkey k) message)))))"

fun sign_transfers :: "tap_lib \<Rightarrow> tap_contract \<Rightarrow> pyval list \<Rightarrow> exn + pyval list" where
  "sign_transfers lib k [] = Inr []"
| "sign_transfers lib k (transfer # transfers) =
     rbind (sign_transfer lib k transfer) (\<lambda>signature.
     rbind (sign_transfers lib k transfers) (\<lambda>signatures. Inr (PStr signature # signatures)))"

definition batch_answer :: "tap_contract \<Rightarrow> pyval \<Rightarrow> pyval" where
  "batch_answer k signatures = PDict [(''signatures'', signatures), (''signer'', PStr (tk_address k))]"

definition answer_sign_transfer_batch :: "tap_lib \<Rightarrow> tap_contract \<Rightarrow> bool \<Rightarrow> pyval \<Rightarrow> pyval tap_prog" where
  "answer_sign_transfer_batch lib k leader serialized_batch =
     (if leader then throw ValueError else
      bnd (lift_res (item serialized_batch ''status'')) (\<lambda>status.
      if \<not> py_equals_int status (ttr_code TTR_CREATED) then throw ValueError else
      bnd (lift_res (item serialized_batch ''signatures'')) (\<lambda>by_signer.
      bnd (lift_res (py_contains (tk_address k) by_signer)) (\<lambda>signed.
      if signed
      then bnd (lift_res (item by_signer (tk_address k))) (\<lambda>signatures. ok (batch_answer k signatures))
      else in_tx
        (bnd (lift_res (rbind (item serialized_batch ''hash'') (tl_hex_bytes lib))) (\<lambda>hash.
         bnd (query_first td_ttb (\<lambda>b. ttb_hash b = hash)) (\<lambda>existing_batch.
         case existing_batch of
           Some b \<Rightarrow> (case map_of (ttb_signatures b) (tk_address k) of
                        None \<Rightarrow> throw KeyError | Some signatures \<Rightarrow> ok (batch_answer k signatures))
         | None \<Rightarrow>
             bnd (lift_res (case by_signer of PDict kvs \<Rightarrow> Inr kvs | _ \<Rightarrow> Inl TypeError)) (\<lambda>kvs.
             bnd (lift_res (rbind (item serialized_batch ''transfers'') py_iter)) (\<lambda>transfers.
             bnd (lift_res (sign_transfers lib k transfers)) (\<lambda>my_signatures.
             bnd (insert_ttb \<lparr>ttb_id = 0, ttb_hash = hash, ttb_status = ttr_code TTR_CREATED,
                    ttb_signatures = dict_set (tk_address k) (PList my_signatures) kvs, ttb_executed_tx_hash = None\<rparr>) (\<lambda>b.
             ok (batch_answer k (PList my_signatures)))))))))))))"

text \<open>The transfers to an address, with the status of their batch if they are in one.\<close>

definition ttr_transfers_by_address :: "pyval \<Rightarrow> (pyval \<times> int \<times> int option) list tap_prog" where
  "ttr_transfers_by_address address = in_tx
     (db_get (\<lambda>db. concat (map (\<lambda>a. concat (map (\<lambda>t.
        (case filter (\<lambda>b. ttr_batch_id t = Some (ttb_id b)) (td_ttb db) of
           [] \<Rightarrow> [(tda_tap_address a, ttr_db_id t, None)]
         | bs \<Rightarrow> map (\<lambda>b. (tda_tap_address a, ttr_db_id t, Some (ttb_status b))) bs))
        (filter (\<lambda>t. ttr_deposit_address_id t = tda_id a) (td_ttr db))))
        (filter (\<lambda>a. tda_tap_address a = address) (td_addresses db)))))"

section \<open>The bridge\<close>

definition tap_bridge_init :: "'cb \<Rightarrow> ('s, 'cb) pyro_network \<Rightarrow> exn + ('s, 'cb) pyro_network" where
  "tap_bridge_init callback network = answer_with ''taprsk-sign-tap-to-rsk'' callback network"

definition tap_scans ::
  "tap_config \<Rightarrow> transfer_to_tap_args log_source \<Rightarrow> int \<Rightarrow> tap_client \<Rightarrow> tap_server \<Rightarrow> unit tap_prog" where
  "tap_scans config logs current_block client server =
     in_tx (sq (scan_new_rsk_events config logs current_block) (scan_new_deposits client server))"

definition tap_iteration ::
  "tap_lib \<Rightarrow> tap_config \<Rightarrow> transfer_to_tap_args log_source \<Rightarrow> int \<Rightarrow> tap_client \<Rightarrow> tap_server \<Rightarrow> tap_contract \<Rightarrow>
   (string list \<Rightarrow> exn + pyval) \<Rightarrow> (pyval \<Rightarrow> exn + pyval list) \<Rightarrow> bool \<Rightarrow> unit tap_prog" where
  "tap_iteration lib config logs current_block client server k send asked leader =
     sq (tap_scans config logs current_block client server)
    (if \<not> leader then ok () else
     sq (catch (process_rtb send) (\<lambda>e. ok ())) (catch (process_ttb lib k asked) (\<lambda>e. ok ())))"

end
