(* ===== verification/Tap_Lifecycle.thy ===== *)
theory Tap_Lifecycle
  imports Tap_Transfers Payouts
begin

text \<open>
  Everything that changes the state of the Tap bridge of a node, as one step relation. What is shown: the
  tables keep their keys and constraints; in each direction a transfer is paid at most once, over any
  run; what the leader submits carries verified signatures; and where a batch gets stuck.
\<close>

section \<open>Steps\<close>

text \<open>
  One step is one operation of the Tap bridge. \<open>P\<close> is the function that prefixes transaction ids; all
  other answers of the outside are arbitrary.
\<close>

inductive tap_step :: "(string \<Rightarrow> string) \<Rightarrow> tap_world \<Rightarrow> tap_world \<Rightarrow> bool" for P :: "string \<Rightarrow> string" where
  scans: "tap_scans config logs current_block client server w = (r, w') \<Longrightarrow> tap_step P w w'"
| new_address: "generate_tap_deposit_address lib registry client server user ta ai ra rt w = (r', w') \<Longrightarrow> tap_step P w w'"
| to_tap: "process_rtb send w = (r, w') \<Longrightarrow> tap_step P w w'"
| to_rsk: "process_ttb lib k asked w = (r, w') \<Longrightarrow> tl_add_0x_prefix lib = P \<Longrightarrow> tap_step P w w'"
| answer: "answer_sign_transfer_batch lib k leader q w = (r'', w') \<Longrightarrow> tap_step P w w'"

section \<open>Keys and constraints are kept\<close>

lemma keeps_tap_tables_updates:
  "(\<And>b. rtb_id (f b) = rtb_id b) \<Longrightarrow> tap.keeps_tables (update_rtb i f)"
  "(\<And>b. ttb_id (g b) = ttb_id b) \<Longrightarrow> (\<And>b. ttb_hash (g b) = ttb_hash b) \<Longrightarrow> tap.keeps_tables (update_ttb i g)"
  by (auto simp: tap.keeps_tables_def keeps_def update_rtb_def update_ttb_def tap.tables_since_def tap_tables_ok_def
      Let_def table_ok_update)

lemma keeps_tap_tables_emit: "tap.keeps_tables (emit e)"
  by (auto simp: tap.keeps_tables_def keeps_def tap.tables_since_def tap_tables_ok_def)

lemma keeps_tap_tables_kv: "tap.keeps_tables (kv_set td_kv (\<lambda>t db. db\<lparr>td_kv := t\<rparr>) key v)" "tap.keeps_tables (kv_get td_kv key d)"
  by (auto simp: tap.keeps_tables_def keeps_def tap.tables_since_def tap_tables_ok_def run_kv_set run_kv_get Let_def)

text \<open>A new batch and the transfers in it.\<close>

lemma tables_since_assign:
  assumes "tap.tables_since n w" "i < w_seqs w ''rsk_to_tap_transfer_batch''"
  shows "tap.tables_since n (snd (assign_rtb i ts w))"
proof -
  let ?rows = "update_where (\<lambda>t. rtt_db_id t \<in> rtt_db_id ` set ts) (\<lambda>t. t\<lparr>rtt_batch_id := Some i\<rparr>) (td_rtt (w_db w))"
  have "table_ok rtt_db_id rsk_to_tap_transfer_key (w_seqs w ''rsk_to_tap_transfer'') ?rows"
    using assms(1) by (intro table_ok_update) (simp_all add: tap.tables_since_def tap_tables_ok_def Let_def rsk_to_tap_transfer_key_def)
  moreover have "map rtt_counter ?rows = map rtt_counter (td_rtt (w_db w))" by (rule update_where_map) simp
  then have "distinct (map rtt_counter ?rows)"
    using assms(1) unfolding tap.tables_since_def tap_tables_ok_def Let_def by metis
  moreover have "\<forall>t \<in> set ?rows. \<forall>j. rtt_batch_id t = Some j \<longrightarrow> j < w_seqs w ''rsk_to_tap_transfer_batch''"
    using assms by (auto simp: tap.tables_since_def tap_tables_ok_def Let_def set_update_where split: if_splits)
  ultimately show ?thesis using assms(1)
    by (simp add: tap.tables_since_def tap_tables_ok_def Let_def assign_rtb_def)
qed

lemma tables_since_assign_ttb:
  assumes "tap.tables_since n w" "i < w_seqs w ''tap_to_rsk_transfer_batch''"
  shows "tap.tables_since n (snd (assign_ttb i ts w))"
proof -
  let ?rows = "update_where (\<lambda>t. ttr_db_id t \<in> ttr_db_id ` set ts) (\<lambda>t. t\<lparr>ttr_batch_id := Some i\<rparr>) (td_ttr (w_db w))"
  have "table_ok ttr_db_id tap_to_rsk_transfer_key (w_seqs w ''tap_to_rsk_transfer'') ?rows"
    using assms(1) by (intro table_ok_update) (simp_all add: tap.tables_since_def tap_tables_ok_def Let_def tap_to_rsk_transfer_key_def)
  moreover have "\<forall>t \<in> set ?rows. \<forall>j. ttr_batch_id t = Some j \<longrightarrow> j < w_seqs w ''tap_to_rsk_transfer_batch''"
    using assms by (auto simp: tap.tables_since_def tap_tables_ok_def Let_def set_update_where split: if_splits)
  ultimately show ?thesis using assms(1)
    by (simp add: tap.tables_since_def tap_tables_ok_def Let_def assign_ttb_def)
qed

lemma keeps_tap_tables_new_batch:
  "tap.keeps_tables (bnd (insert_rtb b) (\<lambda>b. sq (assign_rtb (rtb_id b) ts) (ok (Some b))))"
  "tap.keeps_tables (bnd (insert_ttb c) (\<lambda>b. sq (assign_ttb (ttb_id b) us) (ok (Some b))))"
proof -
  show "tap.keeps_tables (bnd (insert_rtb b) (\<lambda>b. sq (assign_rtb (rtb_id b) ts) (ok (Some b))))"
  proof (rule tap.keeps_tablesI, rule keepsI)
    fix n w assume w: "tap.tables_since n w"
    obtain r v where i: "insert_rtb b w = (r, v)" by fastforce
    have v: "tap.tables_since n v" using keepsD'[OF tap.keeps_tablesD[OF keeps_tap_tables_inserts(2)] w i] .
    show "tap.tables_since n (snd (bnd (insert_rtb b) (\<lambda>b. sq (assign_rtb (rtb_id b) ts) (ok (Some b))) w))"
    proof (cases r)
      case (Inr x)
      have "rtb_id x < w_seqs v ''rsk_to_tap_transfer_batch''"
        using i Inr by (auto simp: insert_rtb_def run_bnd run_insert_row split: if_splits)
      from tables_since_assign[OF v this, of ts] show ?thesis using i Inr
        by (simp add: run_bnd run_sq assign_rtb_def)
    qed (use v i in \<open>simp add: run_bnd\<close>)
  qed
  show "tap.keeps_tables (bnd (insert_ttb c) (\<lambda>b. sq (assign_ttb (ttb_id b) us) (ok (Some b))))"
  proof (rule tap.keeps_tablesI, rule keepsI)
    fix n w assume w: "tap.tables_since n w"
    obtain r v where i: "insert_ttb c w = (r, v)" by fastforce
    have v: "tap.tables_since n v" using keepsD'[OF tap.keeps_tablesD[OF keeps_tap_tables_inserts(3)] w i] .
    show "tap.tables_since n (snd (bnd (insert_ttb c) (\<lambda>b. sq (assign_ttb (ttb_id b) us) (ok (Some b))) w))"
    proof (cases r)
      case (Inr x)
      have "ttb_id x < w_seqs v ''tap_to_rsk_transfer_batch''"
        using i Inr by (auto simp: insert_ttb_def run_bnd run_insert_row split: if_splits)
      from tables_since_assign_ttb[OF v this, of us] show ?thesis using i Inr
        by (simp add: run_bnd run_sq assign_ttb_def)
    qed (use v i in \<open>simp add: run_bnd\<close>)
  qed
qed

lemma keeps_tap_tables_hash: "tap.keeps_tables (transfer_hash lib t)" "tap.keeps_tables (batch_hash lib ts)"
    "tap.keeps_tables (serialize_transfer lib t)" "tap.keeps_tables (serialize_batch lib b)" "tap.keeps_tables (accept_call lib t sigs)"
proof -
  show h: "tap.keeps_tables (transfer_hash lib t)" for t
    unfolding transfer_hash_def deposit_address_of_def by (intro tap.keeps_tables_rules)
  show "tap.keeps_tables (batch_hash lib ts)"
    unfolding batch_hash_def by (intro tap.keeps_tables_rules h)
  show s: "tap.keeps_tables (serialize_transfer lib t)" for t
    unfolding serialize_transfer_def deposit_address_of_def by (intro tap.keeps_tables_rules h)
  show "tap.keeps_tables (serialize_batch lib b)"
    unfolding serialize_batch_def ttb_transfers_def by (intro tap.keeps_tables_rules s)
  show "tap.keeps_tables (accept_call lib t sigs)"
    unfolding accept_call_def deposit_address_of_def by (intro tap.keeps_tables_rules)
qed

lemmas tap_tables_intros = tap.keeps_tables_rules keeps_tap_tables_emit keeps_tap_tables_kv keeps_tap_tables_hash

lemma tap_jint: "(\<And>n. tap.keeps_tables (f n)) \<Longrightarrow> tap.keeps_tables g \<Longrightarrow>
   tap.keeps_tables (case v of JInt n \<Rightarrow> f n | _ \<Rightarrow> g)"
  by (cases v) auto

lemma step_tap_tables:
  assumes "tap_step P w w'" "tap_tables_ok w"
  shows "tap_tables_ok w'"
proof -
  have kept: "tap_tables_ok w'" if "tap.keeps_tables m" "m w = (x, w')" for m :: "'x tap_prog" and x
    using tap.keeps_tables_ok[OF that(1) assms(2)] that(2) by simp
  have upd: "tap.keeps_tables (update_rtb i (\<lambda>b. b\<lparr>rtb_status := s\<rparr>))"
      "tap.keeps_tables (update_rtb i (\<lambda>b. b\<lparr>rtb_status := s, rtb_sending_result := r\<rparr>))"
      "tap.keeps_tables (update_ttb i (\<lambda>b. b\<lparr>ttb_status := s\<rparr>))"
      "tap.keeps_tables (update_ttb i (\<lambda>b. b\<lparr>ttb_status := s, ttb_executed_tx_hash := h\<rparr>))"
      "tap.keeps_tables (update_ttb i (\<lambda>b. b\<lparr>ttb_signatures := sg, ttb_status := (if q then s else ttb_status b)\<rparr>))"
    for i s r h sg q by (rule keeps_tap_tables_updates; simp)+
  show ?thesis using assms(1)
  proof cases
    case (scans config logs current_block client server r)
    have "tap.keeps_tables (tap_scans config logs current_block client server)"
      unfolding tap_scans_def scan_new_rsk_events_def scan_new_events_def scan_events_callback_def store_transfer_to_tap_def
        scan_new_deposits_def scan_address_def store_receive_def get_deposit_addresses_def Let_def
      by (intro tap_tables_intros tap_jint keeps_tap_tables_inserts) simp_all
    from kept[OF this scans] show ?thesis .
  next
    case (new_address lib registry client server user ta ai ra rt r')
    have "tap.keeps_tables (generate_tap_deposit_address lib registry client server user ta ai ra rt)"
      unfolding generate_tap_deposit_address_def Let_def
      by (intro tap_tables_intros keeps_tap_tables_inserts)
    from kept[OF this new_address] show ?thesis .
  next
    case (to_tap send r)
    have "tap.keeps_tables (process_rtb send)"
      unfolding process_rtb_def get_or_create_rtb_def claim_rtb_def send_rtb_def finalize_rtb_def get_rtb_def rtb_transfers_def Let_def
      by (intro tap_tables_intros keeps_tap_tables_new_batch upd)
    from kept[OF this to_tap] show ?thesis .
  next
    case (to_rsk lib k asked r)
    have "tap.keeps_tables (process_ttb lib k asked)"
      unfolding process_ttb_def current_ttb_def get_or_create_ttb_def collect_batch_signatures_def send_ttb_def claim_ttb_def
        submit_calls_def finalize_ttb_def get_ttb_def ttb_transfers_def Let_def
      by (intro tap_tables_intros keeps_tap_tables_new_batch upd)
    from kept[OF this to_rsk(1)] show ?thesis .
  next
    case (answer lib k leader q r'')
    have "tap.keeps_tables (answer_sign_transfer_batch lib k leader q)"
      unfolding answer_sign_transfer_batch_def by (intro tap_tables_intros keeps_tap_tables_inserts)
    from kept[OF this answer] show ?thesis .
  qed
qed

section \<open>Progress\<close>

text \<open>
  What every step keeps of the transfers to Tap: they stay with their recipient, in the batch that they
  are in, and a batch does not become new again.
\<close>

definition rtt_progress :: "tap_world \<Rightarrow> tap_world \<Rightarrow> bool" where
  "rtt_progress w w' \<longleftrightarrow>
     (\<forall>t \<in> set (td_rtt (w_db w)). \<exists>t' \<in> set (td_rtt (w_db w')). rsk_to_tap_transfer_key t' = rsk_to_tap_transfer_key t \<and>
        rtt_recipient_tap_address t' = rtt_recipient_tap_address t \<and> rtt_batch_id t \<in> {None, rtt_batch_id t'}) \<and>
     (\<forall>b \<in> set (td_rtb (w_db w)). \<exists>b' \<in> set (td_rtb (w_db w')). rtb_id b' = rtb_id b \<and>
        (rtb_status b \<noteq> rtt_code RTT_CREATED \<longrightarrow> rtb_status b' \<noteq> rtt_code RTT_CREATED))"

definition rtt_settled :: "tap_world \<Rightarrow> string \<times> int \<times> int \<Rightarrow> bool" where
  "rtt_settled w k \<longleftrightarrow> (\<exists>t \<in> set (td_rtt (w_db w)). rsk_to_tap_transfer_key t = k \<and>
     (\<exists>b \<in> set (td_rtb (w_db w)). rtt_batch_id t = Some (rtb_id b) \<and> rtb_status b \<noteq> rtt_code RTT_CREATED))"

definition pays_recipient :: "tap_world \<Rightarrow> string \<Rightarrow> string \<times> int \<times> int \<Rightarrow> bool" where
  "pays_recipient w a k \<longleftrightarrow> (\<exists>t \<in> set (td_rtt (w_db w)). rsk_to_tap_transfer_key t = k \<and> rtt_recipient_tap_address t = a)"

text \<open>The recipients that assets were sent to, newest first.\<close>

definition sent_recipients :: "tap_effect list \<Rightarrow> string list" where
  "sent_recipients es = concat (map (\<lambda>e. case e of SendAssets recipients \<Rightarrow> rev recipients | _ \<Rightarrow> []) es)"

lemma sent_recipients_simps [simp]:
  "sent_recipients [] = []" "sent_recipients (SendAssets rs # es) = rev rs @ sent_recipients es"
  "sent_recipients (AcceptTransferFromTap c # es) = sent_recipients es" "sent_recipients (AskSignBatch q # es) = sent_recipients es"
  by (simp_all add: sent_recipients_def)

lemma rtt_progress_same: "td_rtt (w_db w') = td_rtt (w_db w) \<Longrightarrow> td_rtb (w_db w') = td_rtb (w_db w) \<Longrightarrow> rtt_progress w w'"
  by (auto simp: rtt_progress_def)

lemma rtt_progress_trans:
  assumes "rtt_progress u v" "rtt_progress v w"
  shows "rtt_progress u w"
  unfolding rtt_progress_def
proof (intro conjI ballI)
  fix t assume "t \<in> set (td_rtt (w_db u))"
  then obtain t1 where 1: "t1 \<in> set (td_rtt (w_db v))" "rsk_to_tap_transfer_key t1 = rsk_to_tap_transfer_key t"
    "rtt_recipient_tap_address t1 = rtt_recipient_tap_address t" "rtt_batch_id t \<in> {None, rtt_batch_id t1}"
    using assms(1) unfolding rtt_progress_def by blast
  then obtain t2 where "t2 \<in> set (td_rtt (w_db w))" "rsk_to_tap_transfer_key t2 = rsk_to_tap_transfer_key t1"
    "rtt_recipient_tap_address t2 = rtt_recipient_tap_address t1" "rtt_batch_id t1 \<in> {None, rtt_batch_id t2}"
    using assms(2) unfolding rtt_progress_def by blast
  then show "\<exists>t' \<in> set (td_rtt (w_db w)). rsk_to_tap_transfer_key t' = rsk_to_tap_transfer_key t \<and>
      rtt_recipient_tap_address t' = rtt_recipient_tap_address t \<and> rtt_batch_id t \<in> {None, rtt_batch_id t'}"
    using 1 by (intro bexI[of _ t2]) auto
next
  fix b assume "b \<in> set (td_rtb (w_db u))"
  then obtain b1 where "b1 \<in> set (td_rtb (w_db v))" "rtb_id b1 = rtb_id b"
    "rtb_status b \<noteq> rtt_code RTT_CREATED \<longrightarrow> rtb_status b1 \<noteq> rtt_code RTT_CREATED"
    using assms(1) unfolding rtt_progress_def by blast
  then show "\<exists>b' \<in> set (td_rtb (w_db w)). rtb_id b' = rtb_id b \<and>
      (rtb_status b \<noteq> rtt_code RTT_CREATED \<longrightarrow> rtb_status b' \<noteq> rtt_code RTT_CREATED)"
    using assms(2) unfolding rtt_progress_def by metis
qed

lemma rtt_settled_progress: "rtt_progress w w' \<Longrightarrow> rtt_settled w k \<Longrightarrow> rtt_settled w' k"
proof -
  assume p: "rtt_progress w w'" and "rtt_settled w k"
  then obtain t b where t: "t \<in> set (td_rtt (w_db w))" "rsk_to_tap_transfer_key t = k" "rtt_batch_id t = Some (rtb_id b)"
    and b: "b \<in> set (td_rtb (w_db w))" "rtb_status b \<noteq> rtt_code RTT_CREATED" unfolding rtt_settled_def by blast
  obtain t' where t': "t' \<in> set (td_rtt (w_db w'))" "rsk_to_tap_transfer_key t' = k" "rtt_batch_id t' = Some (rtb_id b)"
    using p t unfolding rtt_progress_def by force
  obtain b' where "b' \<in> set (td_rtb (w_db w'))" "rtb_id b' = rtb_id b" "rtb_status b' \<noteq> rtt_code RTT_CREATED"
    using p b unfolding rtt_progress_def by blast
  with t' show ?thesis unfolding rtt_settled_def by metis
qed

lemma pays_recipient_progress: "rtt_progress w w' \<Longrightarrow> pays_recipient w a k \<Longrightarrow> pays_recipient w' a k"
  unfolding pays_recipient_def rtt_progress_def by metis

text \<open>A program that leaves the transfers to Tap and their batches alone, and sends nothing to Tap.\<close>

definition rtt_view :: "rsk_to_tap_transfer list \<times> rsk_to_tap_batch list \<times> string list \<Rightarrow> tap_world \<Rightarrow> bool" where
  "rtt_view v w \<longleftrightarrow> (td_rtt (w_db w), td_rtb (w_db w), sent_recipients (w_effects w)) = v"

lemma rtt_view_intros:
  "keeps (rtt_view v) m \<Longrightarrow> keeps (rtt_view v) (in_tx m)"
  "keeps (rtt_view v) (insert_ttb b)" "keeps (rtt_view v) (insert_tap_address a)" "keeps (rtt_view v) (insert_tap_to_rsk_transfer t)"
  "keeps (rtt_view v) (update_ttb i f)" "keeps (rtt_view v) (assign_ttb i ts)"
  "keeps (rtt_view v) (emit (AcceptTransferFromTap c))" "keeps (rtt_view v) (emit (AskSignBatch q))"
proof -
  show "keeps (rtt_view v) m \<Longrightarrow> keeps (rtt_view v) (in_tx m)"
    by (rule keeps_in_tx) (cases v, auto simp: rtt_view_def)
qed (auto simp: keeps_def rtt_view_def insert_ttb_def insert_tap_address_def insert_tap_to_rsk_transfer_def update_ttb_def
    assign_ttb_def run_bnd run_insert_row)

lemma rtt_view_hash: "keeps I (transfer_hash lib t)" "keeps I (batch_hash lib ts)" "keeps I (serialize_transfer lib t)"
    "keeps I (serialize_batch lib b)" "keeps I (accept_call lib t sigs)"
  unfolding transfer_hash_def batch_hash_def serialize_transfer_def serialize_batch_def accept_call_def deposit_address_of_def
    ttb_transfers_def
  by (intro keeps_intros)+

lemma rtt_view_ops:
  "keeps (rtt_view v) (process_ttb lib k asked)" "keeps (rtt_view v) (answer_sign_transfer_batch lib k leader q)"
  "keeps (rtt_view v) (generate_tap_deposit_address lib registry client server user ta ai ra rt)"
  "keeps (rtt_view v) (scan_new_deposits client server)"
proof -
  show "keeps (rtt_view v) (process_ttb lib k asked)"
    unfolding process_ttb_def current_ttb_def get_or_create_ttb_def collect_batch_signatures_def send_ttb_def claim_ttb_def
      submit_calls_def finalize_ttb_def get_ttb_def ttb_transfers_def Let_def
    by (intro keeps_intros rtt_view_intros rtt_view_hash)
  show "keeps (rtt_view v) (answer_sign_transfer_batch lib k leader q)"
    unfolding answer_sign_transfer_batch_def by (intro keeps_intros rtt_view_intros)
  show "keeps (rtt_view v) (generate_tap_deposit_address lib registry client server user ta ai ra rt)"
    unfolding generate_tap_deposit_address_def Let_def by (intro keeps_intros rtt_view_intros)
  show "keeps (rtt_view v) (scan_new_deposits client server)"
    unfolding scan_new_deposits_def scan_address_def store_receive_def get_deposit_addresses_def
    by (intro keeps_intros rtt_view_intros)
qed

text \<open>Scanning adds transfers.\<close>

definition rtt_grown :: "rsk_to_tap_transfer set \<times> rsk_to_tap_batch list \<times> string list \<Rightarrow> tap_world \<Rightarrow> bool" where
  "rtt_grown v w \<longleftrightarrow> fst v \<subseteq> set (td_rtt (w_db w)) \<and>
     td_rtb (w_db w) = fst (snd v) \<and> sent_recipients (w_effects w) = snd (snd v)"

lemma rtt_grown_scans:
  "keeps (rtt_grown v) (tap_scans config logs current_block client server)"
proof -
  have tx: "keeps (rtt_grown v) m \<Longrightarrow> keeps (rtt_grown v) (in_tx m)" for m :: "unit tap_prog"
    by (rule keeps_in_tx) (auto simp: rtt_grown_def)
  have kv: "keeps (rtt_grown v) (kv_set td_kv (\<lambda>t db. db\<lparr>td_kv := t\<rparr>) key x)" for key x
    by (auto simp: keeps_def rtt_grown_def run_kv_set)
  have ins: "keeps (rtt_grown v) (insert_rsk_to_tap_transfer t)" "keeps (rtt_grown v) (insert_tap_to_rsk_transfer u)" for t u
    by (auto simp: keeps_def rtt_grown_def insert_rsk_to_tap_transfer_def insert_tap_to_rsk_transfer_def
        run_bnd run_sq run_demand run_insert_row)
  have jint: "keeps (rtt_grown v) (case x of JInt n \<Rightarrow> f n | _ \<Rightarrow> g)"
    if "\<And>n. keeps (rtt_grown v) (f n)" "keeps (rtt_grown v) g" for f and g :: "unit tap_prog" and x
    using that by (cases x) auto
  show ?thesis
    unfolding tap_scans_def scan_new_rsk_events_def scan_new_events_def scan_events_callback_def store_transfer_to_tap_def
        scan_new_deposits_def scan_address_def store_receive_def get_deposit_addresses_def Let_def
    by (intro tx keeps_intros jint kv ins keeps_kv_get)
qed

section \<open>A batch to Tap\<close>

lemma rtb_of_id:
  assumes "tap_tables_ok w" "b \<in> set (td_rtb (w_db w))" "b' \<in> set (td_rtb (w_db w))" "rtb_id b = rtb_id b'"
  shows "b = b'"
  using assms by (auto simp: tap_tables_ok_def table_ok_def Let_def distinct_map dest: inj_onD)

lemma ttb_of_id:
  assumes "tap_tables_ok w" "b \<in> set (td_ttb (w_db w))" "b' \<in> set (td_ttb (w_db w))" "ttb_id b = ttb_id b'"
  shows "b = b'"
  using assms by (auto simp: tap_tables_ok_def table_ok_def Let_def distinct_map dest: inj_onD)

lemma get_or_create_rtb_result:
  assumes "in_tx get_or_create_rtb w = (r, w')" "tap_tables_ok w"
  shows "rtt_progress w w' \<and> w_effects w' = w_effects w \<and>
    (\<forall>b. r = Inr (Some b) \<longrightarrow> b \<in> set (td_rtb (w_db w')))"
proof (cases r)
  case (Inl e)
  have "keeps (\<lambda>v. w_effects v = w_effects w) (in_tx get_or_create_rtb)"
  proof (rule keeps_in_tx)
    have "keeps (\<lambda>v. w_effects v = w_effects w) (insert_rtb b)" "keeps (\<lambda>v. w_effects v = w_effects w) (assign_rtb i ts)" for b i ts
      by (auto simp: keeps_def insert_rtb_def assign_rtb_def run_bnd run_insert_row)
    then show "keeps (\<lambda>v. w_effects v = w_effects w) get_or_create_rtb"
      unfolding get_or_create_rtb_def Let_def by (intro keeps_intros)
  qed simp
  from keepsD'[OF this refl assms(1)] have "w_effects w' = w_effects w" .
  moreover have "w_db w' = w_db w" using assms(1) Inl by (auto simp: run_in_tx split: prod.splits sum.splits)
  ultimately show ?thesis using Inl by (simp add: rtt_progress_same)
next
  case (Inr x)
  then have run: "get_or_create_rtb w = (Inr x, w')" using assms(1) by (simp add: in_tx_eq_Inr)
  let ?open = "filter (\<lambda>b. rtb_status b \<noteq> rtt_code RTT_FINALIZED) (td_rtb (w_db w))"
  let ?ts = "take batch_limit (sort_key rtt_counter (filter (\<lambda>t. rtt_batch_id t = None) (td_rtt (w_db w))))"
  show ?thesis
  proof (cases "first_row (sort_key rtb_id ?open)")
    case (Some b)
    then have "b \<in> set (td_rtb (w_db w))" using first_row_SomeD[OF Some] by simp
    moreover have "x = Some b" "w' = w" using run Some by (simp_all add: get_or_create_rtb_def run_bnd run_rows_where)
    ultimately show ?thesis using Inr by (simp add: rtt_progress_same)
  next
    case None
    show ?thesis
    proof (cases "?ts = []")
      case True
      then have "x = None" "w' = w" using run None by (simp_all add: get_or_create_rtb_def run_bnd run_rows_where)
      then show ?thesis using Inr by (simp add: rtt_progress_same)
    next
      case False
      let ?i = "w_seqs w ''rsk_to_tap_transfer_batch''"
      let ?b = "\<lparr>rtb_id = ?i, rtb_status = rtt_code RTT_CREATED, rtb_sending_result = PDict []\<rparr>"
      have "x = Some ?b \<and> w_effects w' = w_effects w \<and> td_rtb (w_db w') = td_rtb (w_db w) @ [?b] \<and>
        td_rtt (w_db w') = update_where (\<lambda>t. rtt_db_id t \<in> rtt_db_id ` set ?ts) (\<lambda>t. t\<lparr>rtt_batch_id := Some ?i\<rparr>) (td_rtt (w_db w))"
        using run None False
        by (auto simp: get_or_create_rtb_def run_bnd run_sq run_rows_where insert_rtb_def run_insert_row assign_rtb_def Let_def
            simp del: rtt_code.simps split: if_splits)
      note out = this
      have free: "rtt_batch_id t = None" if t: "t \<in> set (td_rtt (w_db w))" "rtt_db_id t \<in> rtt_db_id ` set ?ts" for t
      proof -
        obtain u where u: "u \<in> set ?ts" "rtt_db_id t = rtt_db_id u" using t(2) by blast
        have "u \<in> set (td_rtt (w_db w))" "rtt_batch_id u = None" using in_set_takeD[OF u(1)] by simp_all
        moreover have "inj_on rtt_db_id (set (td_rtt (w_db w)))"
          using assms(2) by (simp add: tap_tables_ok_def table_ok_def Let_def distinct_map)
        ultimately show ?thesis using t(1) u(2) by (metis inj_onD)
      qed
      have "rtt_progress w w'"
        unfolding rtt_progress_def
      proof (intro conjI ballI)
        fix t assume t: "t \<in> set (td_rtt (w_db w))"
        let ?t = "if rtt_db_id t \<in> rtt_db_id ` set ?ts then t\<lparr>rtt_batch_id := Some ?i\<rparr> else t"
        have "?t \<in> set (td_rtt (w_db w'))" using t out by (auto simp: set_update_where)
        moreover have "rsk_to_tap_transfer_key ?t = rsk_to_tap_transfer_key t" "rtt_recipient_tap_address ?t = rtt_recipient_tap_address t"
          by (simp_all add: rsk_to_tap_transfer_key_def)
        moreover have "rtt_batch_id t \<in> {None, rtt_batch_id ?t}" using free[OF t] by simp
        ultimately show "\<exists>t' \<in> set (td_rtt (w_db w')). rsk_to_tap_transfer_key t' = rsk_to_tap_transfer_key t \<and>
            rtt_recipient_tap_address t' = rtt_recipient_tap_address t \<and> rtt_batch_id t \<in> {None, rtt_batch_id t'}" by blast
      next
        fix b assume "b \<in> set (td_rtb (w_db w))"
        then show "\<exists>b' \<in> set (td_rtb (w_db w')). rtb_id b' = rtb_id b \<and>
            (rtb_status b \<noteq> rtt_code RTT_CREATED \<longrightarrow> rtb_status b' \<noteq> rtt_code RTT_CREATED)" using out by auto
      qed
      then show ?thesis using out Inr by simp
    qed
  qed
qed

text \<open>Moving a batch forward.\<close>

definition rtt_moved :: "tap_world \<Rightarrow> string list \<Rightarrow> tap_world \<Rightarrow> bool" where
  "rtt_moved w s v \<longleftrightarrow> rtt_progress w v \<and> sent_recipients (w_effects v) = s"

lemma rtt_progress_db: "w_db v = w_db v' \<Longrightarrow> rtt_progress w v = rtt_progress w v'"
  by (simp add: rtt_progress_def)

lemma rtt_moved_in_tx: "keeps (rtt_moved w s) m \<Longrightarrow> keeps (rtt_moved w s) (in_tx m)"
  by (rule keeps_in_tx) (auto simp: rtt_moved_def rtt_progress_def)

lemma rtt_moved_update:
  assumes "\<And>b. rtb_id (f b) = rtb_id b \<and> rtb_status (f b) \<noteq> rtt_code RTT_CREATED"
  shows "keeps (rtt_moved w s) (update_rtb i f)"
proof (rule keepsI)
  fix v assume v: "rtt_moved w s v"
  have "rtt_progress v (snd (update_rtb i f v))"
    unfolding rtt_progress_def update_rtb_def
  proof (intro conjI ballI)
    fix b assume "b \<in> set (td_rtb (w_db v))"
    then have "(if rtb_id b = i then f b else b) \<in> set (td_rtb (w_db (snd (db_put (td_rtb_update (update_where (\<lambda>b. rtb_id b = i) f)) v))))"
      by (auto simp: set_update_where)
    then show "\<exists>b' \<in> set (td_rtb (w_db (snd (db_put (td_rtb_update (update_where (\<lambda>b. rtb_id b = i) f)) v)))). rtb_id b' = rtb_id b \<and>
        (rtb_status b \<noteq> rtt_code RTT_CREATED \<longrightarrow> rtb_status b' \<noteq> rtt_code RTT_CREATED)"
      by (rule rev_bexI) (use assms in auto)
  qed auto
  then show "rtt_moved w s (snd (update_rtb i f v))"
    using v rtt_progress_trans unfolding rtt_moved_def by (auto simp: update_rtb_def)
qed

lemma finalize_rtb_moved: "keeps (rtt_moved w s) (finalize_rtb i)"
  unfolding finalize_rtb_def get_rtb_def
  by (intro rtt_moved_in_tx keeps_intros rtt_moved_update) simp

lemma claim_rtb_moved: "keeps (rtt_moved w s) (claim_rtb i status)"
  unfolding claim_rtb_def get_rtb_def rtb_transfers_def
  by (intro rtt_moved_in_tx keeps_intros rtt_moved_update) simp

lemma claim_rtb_Inr:
  assumes "claim_rtb i status w = (Inr recipients, w')"
  shows "recipients = map rtt_recipient_tap_address (sort_key rtt_counter (filter (\<lambda>t. rtt_batch_id t = Some i) (td_rtt (w_db w)))) \<and>
    td_rtt (w_db w') = td_rtt (w_db w) \<and> w_effects w' = w_effects w \<and>
    (\<exists>b \<in> set (td_rtb (w_db w')). rtb_id b = i \<and> rtb_status b = rtt_code RTT_SENDING_TO_TAP)"
proof -
  obtain b v where b: "get_rtb i w = (Inr b, w)" and v: "update_rtb i (\<lambda>b. b\<lparr>rtb_status := rtt_code RTT_SENDING_TO_TAP\<rparr>) w = (Inr (), v)"
    and rest: "bnd (rtb_transfers i) (\<lambda>ts. ok (map rtt_recipient_tap_address ts)) v = (Inr recipients, w')"
    using assms by (auto simp: claim_rtb_def in_tx_eq_Inr ran_ok get_rtb_def related_eq_Inr)
  have "b \<in> set (td_rtb (w_db w))" "rtb_id b = i"
    using b first_row_SomeD by (fastforce simp: get_rtb_def related_eq_Inr)+
  moreover have "w' = v" "td_rtt (w_db v) = td_rtt (w_db w)" "w_effects v = w_effects w"
      "td_rtb (w_db v) = update_where (\<lambda>b. rtb_id b = i) (\<lambda>b. b\<lparr>rtb_status := rtt_code RTT_SENDING_TO_TAP\<rparr>) (td_rtb (w_db w))"
    using v rest by (auto simp: update_rtb_def rtb_transfers_def run_bnd run_rows_where)
  moreover have "b\<lparr>rtb_status := rtt_code RTT_SENDING_TO_TAP\<rparr> \<in> set (td_rtb (w_db v))"
    using calculation by (force simp: set_update_where)
  ultimately show ?thesis using rest
    by (auto simp: rtb_transfers_def run_bnd run_rows_where simp del: rtt_code.simps intro: rev_bexI)
qed

lemma send_rtb_moved:
  assumes "send_rtb send i recipients w = (r, w')"
  shows "rtt_progress w w' \<and>
    sent_recipients (w_effects w') \<in> {sent_recipients (w_effects w), rev recipients @ sent_recipients (w_effects w)}"
proof -
  let ?check = "in_tx (bnd (query_one td_rtb (\<lambda>b. rtb_id b = i)) (\<lambda>b. asserting (rtb_status b = rtt_code RTT_SENDING_TO_TAP)))"
  let ?rest = "bnd (lift_res (send recipients)) (\<lambda>send_result.
     in_tx (bnd (get_rtb i) (\<lambda>b. sq (asserting (rtb_status b = rtt_code RTT_SENDING_TO_TAP))
       (update_rtb i (\<lambda>b. b\<lparr>rtb_status := rtt_code RTT_SENT_TO_TAP, rtb_sending_result := send_result\<rparr>)))))"
  let ?v = "w\<lparr>w_effects := SendAssets recipients # w_effects w\<rparr>"
  have "keeps (\<lambda>v. v = w) ?check" by (intro pure_in_tx keeps_intros)
  from keepsD[OF this] have check: "snd (?check w) = w" by simp
  show ?thesis
  proof (cases "fst (?check w)")
    case (Inl e)
    then have "w' = w" using assms check by (simp add: send_rtb_def run_sq split: prod.splits)
    then show ?thesis by (simp add: rtt_progress_same)
  next
    case (Inr u)
    then have run: "?rest ?v = (r, w')" using assms check
      by (auto simp: send_rtb_def run_sq split: prod.splits)
    have "keeps (rtt_moved w (sent_recipients (w_effects ?v))) ?rest"
      unfolding get_rtb_def by (intro rtt_moved_in_tx keeps_intros rtt_moved_update) simp
    moreover have "rtt_moved w (sent_recipients (w_effects ?v)) ?v" by (simp add: rtt_moved_def rtt_progress_same)
    ultimately have "rtt_moved w (sent_recipients (w_effects ?v)) w'" using run keepsD' by fastforce
    then show ?thesis by (simp add: rtt_moved_def)
  qed
qed

text \<open>The transfers of a batch that was new and is no longer: sending to them is for open entries.\<close>

lemma sends_batch:
  assumes "tap_tables_ok u" "rtt_progress w u" "b \<in> set (td_rtb (w_db u))" "rtb_status b = rtt_code RTT_CREATED"
    and "td_rtt (w_db v) = td_rtt (w_db u)" "rtt_progress v w'"
    and "\<exists>b' \<in> set (td_rtb (w_db v)). rtb_id b' = rtb_id b \<and> rtb_status b' = rtt_code RTT_SENDING_TO_TAP"
    and ts: "ts = sort_key rtt_counter (filter (\<lambda>t. rtt_batch_id t = Some (rtb_id b)) (td_rtt (w_db u)))"
  shows "sends_for (rtt_settled w) (rtt_settled w') (pays_recipient w') s (rev (map rtt_recipient_tap_address ts) @ s)"
proof -
  have inj: "inj_on rsk_to_tap_transfer_key (set (td_rtt (w_db u)))"
    using assms(1) by (simp add: tap_tables_ok_def table_ok_def Let_def distinct_map)
  have "distinct (map rsk_to_tap_transfer_key ts)"
    using assms(1) inj_on_subset[OF inj, of "set ts"] unfolding ts
    by (auto simp: tap_tables_ok_def table_ok_def Let_def distinct_map)
  moreover have t: "pays_recipient w' (rtt_recipient_tap_address t) (rsk_to_tap_transfer_key t)"
      "rtt_settled w' (rsk_to_tap_transfer_key t)" "\<not> rtt_settled w (rsk_to_tap_transfer_key t)"
    if "t \<in> set ts" for t
  proof -
    have row: "t \<in> set (td_rtt (w_db u))" "rtt_batch_id t = Some (rtb_id b)" using that by (simp_all add: ts)
    have "pays_recipient v (rtt_recipient_tap_address t) (rsk_to_tap_transfer_key t)"
      using row assms(5) by (auto simp: pays_recipient_def)
    then show "pays_recipient w' (rtt_recipient_tap_address t) (rsk_to_tap_transfer_key t)"
      by (rule pays_recipient_progress[OF assms(6)])
    obtain b' where "b' \<in> set (td_rtb (w_db v))" "rtb_id b' = rtb_id b" "rtb_status b' = rtt_code RTT_SENDING_TO_TAP"
      using assms(7) by blast
    then have "rtt_settled v (rsk_to_tap_transfer_key t)"
      unfolding rtt_settled_def by (intro bexI[of _ t] conjI bexI[of _ b']) (use row assms(5) in auto)
    then show "rtt_settled w' (rsk_to_tap_transfer_key t)" by (rule rtt_settled_progress[OF assms(6)])
    show "\<not> rtt_settled w (rsk_to_tap_transfer_key t)"
    proof
      assume "rtt_settled w (rsk_to_tap_transfer_key t)"
      from rtt_settled_progress[OF assms(2) this] obtain t' b'' where
        t': "t' \<in> set (td_rtt (w_db u))" "rsk_to_tap_transfer_key t' = rsk_to_tap_transfer_key t"
        and b'': "b'' \<in> set (td_rtb (w_db u))" "rtt_batch_id t' = Some (rtb_id b'')" "rtb_status b'' \<noteq> rtt_code RTT_CREATED"
        unfolding rtt_settled_def by blast
      have "t' = t" using inj_onD[OF inj t'(2) t'(1) row(1)] .
      then have "rtb_id b'' = rtb_id b" using b''(2) row(2) by simp
      then show False using rtb_of_id[OF assms(1) b''(1) assms(3)] b''(3) assms(4) by simp
    qed
  qed
  ultimately show ?thesis
    unfolding sends_for_def
    by (intro exI[of _ "rev (map rtt_recipient_tap_address ts)"] exI[of _ "rev (map rsk_to_tap_transfer_key ts)"])
      (auto simp: list_all2_conv_all_nth rev_nth)
qed

text \<open>The whole operation: if it sends, it sends to the transfers of a batch that was new.\<close>

lemma after_rtb:
  "keeps (rtt_moved w s) (sq (demand (status \<noteq> rtt_code RTT_SENDING_TO_TAP) RuntimeError)
     (if status = rtt_code RTT_SENT_TO_TAP then finalize_rtb i else ok ()))"
  by (intro keeps_intros finalize_rtb_moved)

lemma process_new_rtb:
  assumes "bnd (bnd (claim_rtb i status) (\<lambda>recipients. sq (send_rtb send i recipients) (ok (rtt_code RTT_SENT_TO_TAP))))
      (\<lambda>status. sq (demand (status \<noteq> rtt_code RTT_SENDING_TO_TAP) RuntimeError)
        (if status = rtt_code RTT_SENT_TO_TAP then finalize_rtb i else ok ())) u = (r, w')"
  shows "rtt_moved u (sent_recipients (w_effects u)) w' \<or>
    (\<exists>recipients v. claim_rtb i status u = (Inr recipients, v) \<and> rtt_progress u v \<and> rtt_progress v w' \<and>
      sent_recipients (w_effects w') = rev recipients @ sent_recipients (w_effects u))"
proof -
  obtain c v where v: "claim_rtb i status u = (c, v)" by fastforce
  have "rtt_moved u (sent_recipients (w_effects u)) u" by (simp add: rtt_moved_def rtt_progress_same)
  note v_moved = keepsD'[OF claim_rtb_moved this v]
  show ?thesis
  proof (cases c)
    case (Inl e)
    then have "w' = v" using assms v by (simp add: run_bnd)
    then show ?thesis using v_moved by simp
  next
    case (Inr recipients)
    obtain d x where x: "send_rtb send i recipients v = (d, x)" by fastforce
    note sent = send_rtb_moved[OF x]
    have x_moved: "rtt_moved v (sent_recipients (w_effects x)) x" using sent by (simp add: rtt_moved_def)
    have "rtt_moved v (sent_recipients (w_effects x)) w'"
    proof (cases d)
      case (Inl e)
      then have "w' = x" using assms v \<open>c = Inr recipients\<close> x by (simp add: run_bnd run_sq)
      then show ?thesis using x_moved by simp
    next
      case (Inr y)
      have run: "sq (demand (rtt_code RTT_SENT_TO_TAP \<noteq> rtt_code RTT_SENDING_TO_TAP) RuntimeError)
          (if rtt_code RTT_SENT_TO_TAP = rtt_code RTT_SENT_TO_TAP then finalize_rtb i else ok ()) x = (r, w')"
        using assms v \<open>c = Inr recipients\<close> x Inr by (simp add: run_bnd run_sq del: rtt_code.simps)
      show ?thesis by (rule keepsD'[OF after_rtb x_moved run])
    qed
    then have w': "rtt_progress v w'" "sent_recipients (w_effects w') = sent_recipients (w_effects x)"
      by (simp_all add: rtt_moved_def)
    have vs: "rtt_progress u v" "sent_recipients (w_effects v) = sent_recipients (w_effects u)"
      using v_moved by (simp_all add: rtt_moved_def)
    consider "sent_recipients (w_effects x) = sent_recipients (w_effects v)"
      | "sent_recipients (w_effects x) = rev recipients @ sent_recipients (w_effects v)" using sent by blast
    then show ?thesis
    proof cases
      case 1
      have "rtt_progress u w'" using rtt_progress_trans[OF vs(1) w'(1)] .
      then show ?thesis using 1 w'(2) vs(2) by (simp add: rtt_moved_def)
    next
      case 2
      then show ?thesis using v \<open>c = Inr recipients\<close> w' vs by auto
    qed
  qed
qed

lemma process_rtb_sends:
  assumes "process_rtb send w = (r, w')" "tap_tables_ok w"
  shows "rtt_progress w w' \<and>
    sends_for (rtt_settled w) (rtt_settled w') (pays_recipient w') (sent_recipients (w_effects w)) (sent_recipients (w_effects w'))"
proof -
  obtain q u where u: "in_tx get_or_create_rtb w = (q, u)" by fastforce
  note created = get_or_create_rtb_result[OF u assms(2)]
  have p: "rtt_progress w u" "w_effects u = w_effects w" using created by simp_all
  have "tap.keeps_tables (in_tx get_or_create_rtb)" unfolding get_or_create_rtb_def Let_def
    by (intro tap_tables_intros keeps_tap_tables_new_batch)
  from tap.keeps_tables_ok[OF this assms(2)] have u_ok: "tap_tables_ok u" using u by simp
  have calm: ?thesis if "rtt_moved u (sent_recipients (w_effects w)) w'"
    using that rtt_progress_trans[OF p(1)] sends_nothing by (simp add: rtt_moved_def)
  have u_moved: "rtt_moved u (sent_recipients (w_effects w)) u" using p(2) by (simp add: rtt_moved_def rtt_progress_same)
  show ?thesis
  proof (cases "\<exists>b. q = Inr (Some b)")
    case False
    then have "w' = u" using assms(1) u by (auto simp: process_rtb_def run_bnd split: sum.splits option.splits)
    then show ?thesis using calm u_moved by simp
  next
    case True
    then obtain b where b: "q = Inr (Some b)" by blast
    note run = assms(1)[unfolded process_rtb_def run_bnd[of "in_tx get_or_create_rtb"] u b, simplified, unfolded Let_def]
    show ?thesis
    proof (cases "rtb_status b = rtt_code RTT_CREATED")
      case False
      then have "sq (demand (rtb_status b \<noteq> rtt_code RTT_SENDING_TO_TAP) RuntimeError)
        (if rtb_status b = rtt_code RTT_SENT_TO_TAP then finalize_rtb (rtb_id b) else ok ()) u = (r, w')"
        using run by (simp add: run_bnd)
      then show ?thesis using calm keepsD'[OF after_rtb u_moved] by blast
    next
      case new: True
      have "rtt_moved u (sent_recipients (w_effects u)) w' \<or>
        (\<exists>recipients v. claim_rtb (rtb_id b) (rtb_status b) u = (Inr recipients, v) \<and> rtt_progress u v \<and> rtt_progress v w' \<and>
          sent_recipients (w_effects w') = rev recipients @ sent_recipients (w_effects u))"
        by (rule process_new_rtb[where r = r and send = send]) (use run new in simp)
      then show ?thesis
      proof (elim disjE exE conjE, goal_cases)
        case 1
        then show ?case using calm p(2) by simp
      next
        case (2 recipients v)
        note c = claim_rtb_Inr[OF 2(1)]
        have "rtt_progress w w'" using rtt_progress_trans[OF rtt_progress_trans[OF p(1) 2(2)] 2(3)] .
        moreover have "sends_for (rtt_settled w) (rtt_settled w') (pays_recipient w') (sent_recipients (w_effects w))
            (rev recipients @ sent_recipients (w_effects w))"
          using sends_batch[OF u_ok p(1) _ new _ 2(3) _ refl, of "sent_recipients (w_effects w)"] c created b by auto
        ultimately show ?case using 2(4) p(2) by simp
      qed
    qed
  qed
qed

lemma step_rtt:
  assumes "tap_step P w w'" "tap_tables_ok w"
  shows "rtt_progress w w' \<and>
    sends_for (rtt_settled w) (rtt_settled w') (pays_recipient w') (sent_recipients (w_effects w)) (sent_recipients (w_effects w'))"
proof -
  have calm: ?thesis if "keeps (rtt_view (td_rtt (w_db w), td_rtb (w_db w), sent_recipients (w_effects w))) m" "m w = (x, w')"
    for m :: "'x tap_prog" and x
    using keepsD'[OF that(1) _ that(2)] sends_nothing by (simp add: rtt_view_def rtt_progress_same)
  show ?thesis using assms(1)
  proof cases
    case (scans config logs current_block client server r)
    have "rtt_grown (set (td_rtt (w_db w)), td_rtb (w_db w), sent_recipients (w_effects w)) w'"
      by (rule keepsD'[OF rtt_grown_scans _ scans]) (simp add: rtt_grown_def)
    then have "rtt_progress w w'" "sent_recipients (w_effects w') = sent_recipients (w_effects w)"
      by (auto simp: rtt_grown_def rtt_progress_def)
    then show ?thesis using sends_nothing by simp
  next
    case new_address
    then show ?thesis by (rule calm[OF rtt_view_ops(3)])
  next
    case to_tap
    then show ?thesis by (rule process_rtb_sends[OF _ assms(2)])
  next
    case to_rsk
    then show ?thesis by (intro calm[OF rtt_view_ops(1)])
  next
    case answer
    then show ?thesis by (rule calm[OF rtt_view_ops(2)])
  qed
qed

interpretation to_tap: payouts "tap_step P" tap_tables_ok rtt_settled "\<lambda>w. sent_recipients (w_effects w)" pays_recipient for P
proof (unfold_locales, goal_cases)
  case 1
  then show ?case by (rule step_tap_tables)
next
  case 2
  then show ?case using step_rtt rtt_settled_progress by blast
next
  case 3
  then show ?case using step_rtt pays_recipient_progress by blast
next
  case 4
  then show ?case using step_rtt by blast
qed

text \<open>
  C5. Every transfer from RSK is sent to Tap at most once, over any run of the operations of a node in any
  order, whatever the Tap daemon, the contract and the other nodes answer: the addresses that
  assets were sent to belong, one by one, to different transfers, each with this address as its
  recipient and in a batch that has left the state it was created in.
\<close>

theorem rsk_transfers_sent_to_tap_at_most_once:
  assumes "(tap_step P)\<^sup>*\<^sup>* w w'" "tap_tables_ok w" "sent_recipients (w_effects w) = []"
  shows "\<exists>ks. distinct ks \<and> list_all2 (pays_recipient w') (sent_recipients (w_effects w')) ks \<and>
    (\<forall>k \<in> set ks. \<exists>t \<in> set (td_rtt (w_db w')). rsk_to_tap_transfer_key t = k \<and>
       (\<exists>b \<in> set (td_rtb (w_db w')). rtt_batch_id t = Some (rtb_id b) \<and> rtb_status b \<noteq> rtt_code RTT_CREATED))"
  using to_tap.paid_at_most_once[OF assms] unfolding rtt_settled_def .

section \<open>A batch to RSK\<close>

text \<open>The same for the other direction; here a batch is sent by one call for each of its transfers.\<close>

definition ttb_open :: "tap_to_rsk_batch \<Rightarrow> bool" where
  "ttb_open b \<longleftrightarrow> ttb_status b \<in> {ttr_code TTR_CREATED, ttr_code TTR_SIGNATURES_COLLECTED}"

definition ttr_progress :: "tap_world \<Rightarrow> tap_world \<Rightarrow> bool" where
  "ttr_progress w w' \<longleftrightarrow>
     (\<forall>t \<in> set (td_ttr (w_db w)). \<exists>t' \<in> set (td_ttr (w_db w')). tap_to_rsk_transfer_key t' = tap_to_rsk_transfer_key t \<and>
        ttr_batch_id t \<in> {None, ttr_batch_id t'}) \<and>
     (\<forall>b \<in> set (td_ttb (w_db w)). \<exists>b' \<in> set (td_ttb (w_db w')). ttb_id b' = ttb_id b \<and> (\<not> ttb_open b \<longrightarrow> \<not> ttb_open b'))"

definition ttr_settled :: "tap_world \<Rightarrow> string \<times> int \<Rightarrow> bool" where
  "ttr_settled w k \<longleftrightarrow> (\<exists>t \<in> set (td_ttr (w_db w)). tap_to_rsk_transfer_key t = k \<and>
     (\<exists>b \<in> set (td_ttb (w_db w)). ttr_batch_id t = Some (ttb_id b) \<and> \<not> ttb_open b))"

definition accepts_transfer :: "(string \<Rightarrow> string) \<Rightarrow> accept_from_tap_call \<Rightarrow> string \<times> int \<Rightarrow> bool" where
  "accepts_transfer P call k \<longleftrightarrow> at_btc_tx_id call = P (fst k) \<and> at_btc_tx_vout call = snd k"

definition accept_calls :: "tap_effect list \<Rightarrow> accept_from_tap_call list" where
  "accept_calls es = concat (map (\<lambda>e. case e of AcceptTransferFromTap c \<Rightarrow> [c] | _ \<Rightarrow> []) es)"

lemma accept_calls_simps [simp]:
  "accept_calls [] = []" "accept_calls (AcceptTransferFromTap c # es) = c # accept_calls es"
  "accept_calls (SendAssets rs # es) = accept_calls es" "accept_calls (AskSignBatch q # es) = accept_calls es"
  by (simp_all add: accept_calls_def)

lemma ttr_progress_same: "td_ttr (w_db w') = td_ttr (w_db w) \<Longrightarrow> td_ttb (w_db w') = td_ttb (w_db w) \<Longrightarrow> ttr_progress w w'"
  by (auto simp: ttr_progress_def)

lemma ttr_progress_trans:
  assumes "ttr_progress u v" "ttr_progress v w"
  shows "ttr_progress u w"
  unfolding ttr_progress_def
proof (intro conjI ballI)
  fix t assume "t \<in> set (td_ttr (w_db u))"
  then obtain t1 where 1: "t1 \<in> set (td_ttr (w_db v))" "tap_to_rsk_transfer_key t1 = tap_to_rsk_transfer_key t"
    "ttr_batch_id t \<in> {None, ttr_batch_id t1}"
    using assms(1) unfolding ttr_progress_def by blast
  then obtain t2 where "t2 \<in> set (td_ttr (w_db w))" "tap_to_rsk_transfer_key t2 = tap_to_rsk_transfer_key t1"
    "ttr_batch_id t1 \<in> {None, ttr_batch_id t2}"
    using assms(2) unfolding ttr_progress_def by blast
  then show "\<exists>t' \<in> set (td_ttr (w_db w)). tap_to_rsk_transfer_key t' = tap_to_rsk_transfer_key t \<and>
      ttr_batch_id t \<in> {None, ttr_batch_id t'}"
    using 1 by (intro bexI[of _ t2]) auto
next
  fix b assume "b \<in> set (td_ttb (w_db u))"
  then obtain b1 where "b1 \<in> set (td_ttb (w_db v))" "ttb_id b1 = ttb_id b" "\<not> ttb_open b \<longrightarrow> \<not> ttb_open b1"
    using assms(1) unfolding ttr_progress_def by blast
  then show "\<exists>b' \<in> set (td_ttb (w_db w)). ttb_id b' = ttb_id b \<and> (\<not> ttb_open b \<longrightarrow> \<not> ttb_open b')"
    using assms(2) unfolding ttr_progress_def by metis
qed

lemma ttr_settled_progress: "ttr_progress w w' \<Longrightarrow> ttr_settled w k \<Longrightarrow> ttr_settled w' k"
proof -
  assume p: "ttr_progress w w'" and "ttr_settled w k"
  then obtain t b where t: "t \<in> set (td_ttr (w_db w))" "tap_to_rsk_transfer_key t = k" "ttr_batch_id t = Some (ttb_id b)"
    and b: "b \<in> set (td_ttb (w_db w))" "\<not> ttb_open b" unfolding ttr_settled_def by blast
  obtain t' where t': "t' \<in> set (td_ttr (w_db w'))" "tap_to_rsk_transfer_key t' = k" "ttr_batch_id t' = Some (ttb_id b)"
    using p t unfolding ttr_progress_def by force
  obtain b' where "b' \<in> set (td_ttb (w_db w'))" "ttb_id b' = ttb_id b" "\<not> ttb_open b'"
    using p b unfolding ttr_progress_def by blast
  with t' show ?thesis unfolding ttr_settled_def by metis
qed

definition ttr_moved :: "tap_world \<Rightarrow> accept_from_tap_call list \<Rightarrow> tap_world \<Rightarrow> bool" where
  "ttr_moved w s v \<longleftrightarrow> ttr_progress w v \<and> accept_calls (w_effects v) = s"

lemma ttr_moved_in_tx: "keeps (ttr_moved w s) m \<Longrightarrow> keeps (ttr_moved w s) (in_tx m)"
  by (rule keeps_in_tx) (auto simp: ttr_moved_def ttr_progress_def)

lemma ttr_progress_of_rows:
  assumes "\<forall>t \<in> set (td_ttr (w_db w)). t \<in> set (td_ttr (w_db v))" "\<forall>b \<in> set (td_ttb (w_db w)). b \<in> set (td_ttb (w_db v))"
  shows "ttr_progress w v"
  using assms unfolding ttr_progress_def by blast

lemma ttr_moved_intros:
  "keeps (ttr_moved w s) (insert_ttb b)" "keeps (ttr_moved w s) (insert_tap_address a)"
  "keeps (ttr_moved w s) (insert_tap_to_rsk_transfer t)" "keeps (ttr_moved w s) (insert_rsk_to_tap_transfer u)"
  "keeps (ttr_moved w s) (insert_rtb c)" "keeps (ttr_moved w s) (update_rtb i f)" "keeps (ttr_moved w s) (assign_rtb i ts)"
  "keeps (ttr_moved w s) (kv_set td_kv (\<lambda>t db. db\<lparr>td_kv := t\<rparr>) key x)"
  "keeps (ttr_moved w s) (emit (SendAssets rs))" "keeps (ttr_moved w s) (emit (AskSignBatch q))"
proof -
  have rows: "ttr_moved w s v'" if "ttr_moved w s v" "set (td_ttr (w_db v)) \<subseteq> set (td_ttr (w_db v'))"
    "set (td_ttb (w_db v)) \<subseteq> set (td_ttb (w_db v'))" "accept_calls (w_effects v') = accept_calls (w_effects v)" for v v'
    using that ttr_progress_trans[OF _ ttr_progress_of_rows[of v v']] unfolding ttr_moved_def by blast
  show "keeps (ttr_moved w s) (insert_ttb b)" "keeps (ttr_moved w s) (insert_tap_address a)"
    "keeps (ttr_moved w s) (insert_tap_to_rsk_transfer t)" "keeps (ttr_moved w s) (insert_rsk_to_tap_transfer u)"
    "keeps (ttr_moved w s) (insert_rtb c)" "keeps (ttr_moved w s) (update_rtb i f)" "keeps (ttr_moved w s) (assign_rtb i ts)"
    "keeps (ttr_moved w s) (kv_set td_kv (\<lambda>t db. db\<lparr>td_kv := t\<rparr>) key x)"
    "keeps (ttr_moved w s) (emit (SendAssets rs))" "keeps (ttr_moved w s) (emit (AskSignBatch q))"
    by (rule keepsI, erule rows;
        auto simp: insert_ttb_def insert_tap_address_def insert_tap_to_rsk_transfer_def insert_rsk_to_tap_transfer_def
          insert_rtb_def update_rtb_def assign_rtb_def run_bnd run_sq run_demand run_insert_row run_kv_set)+
qed

lemma ttr_moved_update:
  assumes "\<And>b. ttb_id (f b) = ttb_id b \<and> (\<not> ttb_open b \<longrightarrow> \<not> ttb_open (f b))"
  shows "keeps (ttr_moved w s) (update_ttb i f)"
proof (rule keepsI)
  fix v assume v: "ttr_moved w s v"
  have "ttr_progress v (snd (update_ttb i f v))"
    unfolding ttr_progress_def update_ttb_def
  proof (intro conjI ballI)
    fix b assume "b \<in> set (td_ttb (w_db v))"
    then have "(if ttb_id b = i then f b else b) \<in> set (td_ttb (w_db (snd (db_put (td_ttb_update (update_where (\<lambda>b. ttb_id b = i) f)) v))))"
      by (auto simp: set_update_where)
    then show "\<exists>b' \<in> set (td_ttb (w_db (snd (db_put (td_ttb_update (update_where (\<lambda>b. ttb_id b = i) f)) v)))). ttb_id b' = ttb_id b \<and>
        (\<not> ttb_open b \<longrightarrow> \<not> ttb_open b')"
      by (rule rev_bexI) (use assms in auto)
  qed auto
  then show "ttr_moved w s (snd (update_ttb i f v))"
    using v ttr_progress_trans unfolding ttr_moved_def by (auto simp: update_ttb_def)
qed

lemma ttr_moved_ops:
  "keeps (ttr_moved w s) (process_rtb send)" "keeps (ttr_moved w s) (answer_sign_transfer_batch lib k leader q)"
  "keeps (ttr_moved w s) (generate_tap_deposit_address lib registry client server user ta ai ra rt)"
  "keeps (ttr_moved w s) (tap_scans config logs current_block client server)"
proof -
  have jint: "keeps (ttr_moved w s) (case x of JInt n \<Rightarrow> f n | _ \<Rightarrow> g)"
    if "\<And>n. keeps (ttr_moved w s) (f n)" "keeps (ttr_moved w s) g" for f and g :: "unit tap_prog" and x
    using that by (cases x) auto
  show "keeps (ttr_moved w s) (process_rtb send)"
    unfolding process_rtb_def get_or_create_rtb_def claim_rtb_def send_rtb_def finalize_rtb_def get_rtb_def rtb_transfers_def Let_def
    by (intro ttr_moved_in_tx keeps_intros ttr_moved_intros)
  show "keeps (ttr_moved w s) (answer_sign_transfer_batch lib k leader q)"
    unfolding answer_sign_transfer_batch_def by (intro ttr_moved_in_tx keeps_intros ttr_moved_intros)
  show "keeps (ttr_moved w s) (generate_tap_deposit_address lib registry client server user ta ai ra rt)"
    unfolding generate_tap_deposit_address_def Let_def by (intro keeps_intros ttr_moved_intros)
  show "keeps (ttr_moved w s) (tap_scans config logs current_block client server)"
    unfolding tap_scans_def scan_new_rsk_events_def scan_new_events_def scan_events_callback_def store_transfer_to_tap_def
        scan_new_deposits_def scan_address_def store_receive_def get_deposit_addresses_def Let_def
    by (intro ttr_moved_in_tx keeps_intros jint ttr_moved_intros keeps_kv_get)
qed

text \<open>While signatures are collected, the batch is open.\<close>

definition ttr_open_moved :: "tap_world \<Rightarrow> accept_from_tap_call list \<Rightarrow> int \<Rightarrow> tap_world \<Rightarrow> bool" where
  "ttr_open_moved w s i v \<longleftrightarrow> ttr_moved w s v \<and> (\<forall>b \<in> set (td_ttb (w_db v)). ttb_id b = i \<longrightarrow> ttb_open b)"

lemma collect_signatures_moved: "keeps (ttr_open_moved w s i) (collect_batch_signatures lib k asked i n sg q)"
proof -
  have emit: "keeps (ttr_open_moved w s i) (emit (AskSignBatch q))"
    by (auto simp: keeps_def ttr_open_moved_def ttr_moved_def ttr_progress_def)
  have tx: "keeps (ttr_open_moved w s i) m \<Longrightarrow> keeps (ttr_open_moved w s i) (in_tx m)" for m :: "'x tap_prog"
    by (rule keeps_in_tx) (auto simp: ttr_open_moved_def ttr_moved_def ttr_progress_def)
  have upd: "keeps (ttr_open_moved w s i) (update_ttb i f)" if f: "\<And>b. ttb_id (f b) = ttb_id b" "\<And>b. ttb_open b \<Longrightarrow> ttb_open (f b)" for f
  proof (rule keepsI)
    fix v assume v: "ttr_open_moved w s i v"
    let ?rows = "update_where (\<lambda>b. ttb_id b = i) f (td_ttb (w_db v))"
    have "\<exists>b' \<in> set ?rows. ttb_id b' = ttb_id b \<and> (\<not> ttb_open b \<longrightarrow> \<not> ttb_open b')" if b: "b \<in> set (td_ttb (w_db v))" for b
    proof -
      have "(if ttb_id b = i then f b else b) \<in> set ?rows" using b by (auto simp: set_update_where)
      moreover have "ttb_id b = i \<Longrightarrow> ttb_open b" using b v by (simp add: ttr_open_moved_def)
      ultimately show ?thesis by (elim rev_bexI) (auto simp: f(1))
    qed
    then have "ttr_progress v (snd (update_ttb i f v))" by (auto simp: ttr_progress_def update_ttb_def)
    then have "ttr_progress w (snd (update_ttb i f v))"
      using v ttr_progress_trans unfolding ttr_open_moved_def ttr_moved_def by blast
    moreover have "ttb_open b'" if b': "b' \<in> set ?rows" "ttb_id b' = i" for b'
    proof -
      obtain b where "b \<in> set (td_ttb (w_db v))" "b' = (if ttb_id b = i then f b else b)"
        using b'(1) by (auto simp: set_update_where)
      then show ?thesis using v b'(2) f by (cases "ttb_id b = i") (simp_all add: ttr_open_moved_def)
    qed
    ultimately show "ttr_open_moved w s i (snd (update_ttb i f v))"
      using v by (simp add: ttr_open_moved_def ttr_moved_def update_ttb_def)
  qed
  show ?thesis
    unfolding collect_batch_signatures_def get_ttb_def Let_def
    by (intro tx keeps_intros emit upd) (simp_all add: ttb_open_def)
qed

lemma finalize_ttb_moved: "keeps (ttr_moved w s) (finalize_ttb k i)"
  unfolding finalize_ttb_def get_ttb_def
  by (intro ttr_moved_in_tx keeps_intros ttr_moved_update) (simp add: ttb_open_def)

lemma claim_ttb_moved: "keeps (ttr_moved w s) (claim_ttb lib i sg)"
  unfolding claim_ttb_def get_ttb_def ttb_transfers_def
  by (intro ttr_moved_in_tx keeps_intros ttr_moved_update rtt_view_hash) (simp add: ttb_open_def)

lemma claim_ttb_Inr:
  assumes "claim_ttb lib i sg w = (Inr calls, w')" "tl_add_0x_prefix lib = P"
  shows "\<exists>ts. set ts \<subseteq> set (filter (\<lambda>t. ttr_batch_id t = Some i) (td_ttr (w_db w))) \<and>
    (distinct (map tap_to_rsk_transfer_key (td_ttr (w_db w))) \<longrightarrow> distinct (map tap_to_rsk_transfer_key ts)) \<and>
    list_all2 (accepts_transfer P) calls (map tap_to_rsk_transfer_key ts) \<and>
    td_ttr (w_db w') = td_ttr (w_db w) \<and> w_effects w' = w_effects w \<and>
    (\<exists>b \<in> set (td_ttb (w_db w')). ttb_id b = i \<and> \<not> ttb_open b)"
proof -
  let ?ts = "by_counter (filter (\<lambda>t. ttr_batch_id t = Some i) (td_ttr (w_db w)))"
  let ?upd = "update_ttb i (\<lambda>b. b\<lparr>ttb_status := ttr_code TTR_SENDING_TO_RSK\<rparr>)"
  have pure: "keeps (\<lambda>v. v = u) (collect xs (\<lambda>(t, sigs). accept_call lib t sigs))"
      "keeps (\<lambda>v. v = u) (collect sg (\<lambda>(signer, sigs). lift_res (py_iter sigs)))" for xs u
    by (intro keeps_intros rtt_view_hash)+
  obtain b rows where b: "get_ttb i w = (Inr b, w)"
    and rows: "collect sg (\<lambda>(signer, sigs). lift_res (py_iter sigs)) w = (Inr rows, w)"
    and calls: "collect (zip ?ts (zip_star rows)) (\<lambda>(t, sigs). accept_call lib t sigs) w = (Inr calls, w)"
    and upd: "?upd w = (Inr (), w')"
  proof -
    obtain b u1 rows u2 u3 where *: "get_ttb i w = (Inr b, u1)" "collect sg (\<lambda>(signer, sigs). lift_res (py_iter sigs)) u1 = (Inr rows, u2)"
      "collect (zip (by_counter (filter (\<lambda>t. ttr_batch_id t = Some i) (td_ttr (w_db u1)))) (zip_star rows))
         (\<lambda>(t, sigs). accept_call lib t sigs) u2 = (Inr calls, u3)" "?upd u3 = (Inr (), w')"
      using assms(1) by (auto simp: claim_ttb_def in_tx_eq_Inr ran_ok ttb_transfers_def run_rows_where)
    have 1: "u1 = w" using *(1) by (simp add: get_ttb_def related_eq_Inr)
    have 2: "u2 = u1" by (rule keepsD'[OF pure(2) refl *(2)])
    have 3: "u3 = u2" by (rule keepsD'[OF pure(1) refl *(3)])
    show ?thesis using that * 1 2 3 by blast
  qed
  have call: "list_all2 (\<lambda>call x. accepts_transfer P call (tap_to_rsk_transfer_key (fst x))) calls xs"
    if "collect xs (\<lambda>(t, sigs). accept_call lib t sigs) w = (Inr calls, w)" for xs calls
    using that
  proof (induction xs arbitrary: calls)
    case (Cons x xs)
    obtain t sigs where x: "x = (t, sigs)" by fastforce
    obtain c cs u where c: "accept_call lib t sigs w = (Inr c, u)" and cs: "collect xs (\<lambda>(t, sigs). accept_call lib t sigs) u = (Inr cs, w)"
      "calls = c # cs" using Cons.prems x by (auto simp: ran_ok)
    have "u = w" by (rule keepsD'[OF rtt_view_hash(5) refl c])
    moreover have "accepts_transfer P c (tap_to_rsk_transfer_key t)"
      using c assms(2) by (auto simp: accept_call_def ran_ok accepts_transfer_def tap_to_rsk_transfer_key_def)
    ultimately show ?case using Cons.IH cs x by simp
  qed simp
  define ts where "ts = map fst (zip ?ts (zip_star rows))"
  have prefix: "ts = take (min (length ?ts) (length (zip_star rows))) ?ts" unfolding ts_def by (rule map_fst_zip_take)
  have "set ts \<subseteq> set (filter (\<lambda>t. ttr_batch_id t = Some i) (td_ttr (w_db w)))"
    using set_take_subset[of "min (length ?ts) (length (zip_star rows))" ?ts] unfolding prefix by (auto simp: by_counter_def)
  moreover have "distinct (map tap_to_rsk_transfer_key ts)" if d: "distinct (map tap_to_rsk_transfer_key (td_ttr (w_db w)))"
  proof -
    have "distinct (map tap_to_rsk_transfer_key ?ts)"
      using d by (auto simp: by_counter_def distinct_map inj_on_def)
    then show ?thesis unfolding prefix by (simp add: take_map[symmetric] distinct_take)
  qed
  moreover have "list_all2 (accepts_transfer P) calls (map tap_to_rsk_transfer_key ts)"
    using call[OF calls] by (simp add: ts_def list_all2_map2 comp_def)
  moreover have "b \<in> set (td_ttb (w_db w))" "ttb_id b = i"
    using b first_row_SomeD by (fastforce simp: get_ttb_def related_eq_Inr)+
  then have "b\<lparr>ttb_status := ttr_code TTR_SENDING_TO_RSK\<rparr> \<in> set (td_ttb (w_db w'))"
    using upd by (force simp: update_ttb_def set_update_where)
  then have "\<exists>b \<in> set (td_ttb (w_db w')). ttb_id b = i \<and> \<not> ttb_open b"
    by (rule rev_bexI) (simp add: ttb_open_def \<open>ttb_id b = i\<close>)
  moreover have "td_ttr (w_db w') = td_ttr (w_db w)" "w_effects w' = w_effects w" using upd by (auto simp: update_ttb_def)
  ultimately show ?thesis by blast
qed

lemma submit_calls_result:
  assumes "submit_calls k calls w = (r, w')"
  shows "w_db w' = w_db w \<and> (\<exists>n. accept_calls (w_effects w') = rev (take n calls) @ accept_calls (w_effects w))"
proof -
  define f where "f = (\<lambda>call. sq (emit (AcceptTransferFromTap call)) (lift_res (tk_transact k call)) :: string tap_prog)"
  have f: "f c w = (tk_transact k c, w\<lparr>w_effects := AcceptTransferFromTap c # w_effects w\<rparr>)" for c w
    by (simp add: f_def run_sq)
  have "w_db w' = w_db w \<and> (\<exists>n. accept_calls (w_effects w') = rev (take n calls) @ accept_calls (w_effects w))"
    if "collect calls f w = (r, w')" for calls r w w'
    using that
  proof (induction calls arbitrary: w r)
    case Nil
    then show ?case by simp
  next
    case (Cons c calls)
    let ?v = "w\<lparr>w_effects := AcceptTransferFromTap c # w_effects w\<rparr>"
    show ?case
    proof (cases "tk_transact k c")
      case (Inl e)
      then have "w' = ?v" using Cons.prems by (simp add: run_bnd f[of c w])
      then show ?thesis by (auto intro: exI[of _ 1])
    next
      case (Inr h)
      obtain q u where u: "collect calls f ?v = (q, u)" by fastforce
      then have u': "w' = u" using Cons.prems Inr by (cases q) (simp_all add: run_bnd f[of c w])
      moreover obtain n where "accept_calls (w_effects u) = rev (take n calls) @ accept_calls (w_effects ?v)" "w_db u = w_db ?v"
        using Cons.IH[OF u[folded u']] u' by blast
      ultimately show ?thesis by (auto intro: exI[of _ "Suc n"])
    qed
  qed
  from this[of calls w r] show ?thesis using assms unfolding submit_calls_def f_def by blast
qed

lemma send_ttb_result:
  assumes "send_ttb lib k i sg v = (d, x)"
  shows "ttr_moved v (accept_calls (w_effects v)) x \<or>
    (\<exists>calls y n. claim_ttb lib i sg v = (Inr calls, y) \<and> ttr_progress y x \<and>
      accept_calls (w_effects x) = rev (take n calls) @ accept_calls (w_effects v))"
proof -
  obtain c y where y: "claim_ttb lib i sg v = (c, y)" by fastforce
  have "ttr_moved v (accept_calls (w_effects v)) v" by (simp add: ttr_moved_def ttr_progress_same)
  note y_moved = keepsD'[OF claim_ttb_moved this y]
  show ?thesis
  proof (cases c)
    case (Inl e)
    then have "x = y" using assms y by (simp add: send_ttb_def run_bnd)
    then show ?thesis using y_moved by simp
  next
    case (Inr calls)
    obtain q z where z: "submit_calls k calls y = (q, z)" by fastforce
    obtain n where n: "w_db z = w_db y" "accept_calls (w_effects z) = rev (take n calls) @ accept_calls (w_effects y)"
      using submit_calls_result[OF z] by blast
    have z_moved: "ttr_moved y (accept_calls (w_effects z)) z" using n(1) by (simp add: ttr_moved_def ttr_progress_same)
    have "ttr_moved y (accept_calls (w_effects z)) x"
    proof (cases q)
      case (Inl e)
      then have "x = z" using assms y Inr z by (simp add: send_ttb_def run_bnd)
      then show ?thesis using z_moved by simp
    next
      case hs: (Inr hs)
      have "in_tx (bnd (get_ttb i) (\<lambda>b. if hs = [] then throw IndexError else
          update_ttb i (\<lambda>b. b\<lparr>ttb_status := ttr_code TTR_SENT_TO_RSK, ttb_executed_tx_hash := Some (last hs)\<rparr>))) z = (d, x)"
        using assms y Inr z hs by (simp add: send_ttb_def run_bnd del: ttr_code.simps)
      moreover have "keeps (ttr_moved y (accept_calls (w_effects z))) (in_tx (bnd (get_ttb i) (\<lambda>b. if hs = [] then throw IndexError else
          update_ttb i (\<lambda>b. b\<lparr>ttb_status := ttr_code TTR_SENT_TO_RSK, ttb_executed_tx_hash := Some (last hs)\<rparr>))))"
        unfolding get_ttb_def by (intro ttr_moved_in_tx keeps_intros ttr_moved_update) (simp add: ttb_open_def)
      ultimately show ?thesis using keepsD' z_moved by fastforce
    qed
    then have "ttr_progress y x" "accept_calls (w_effects x) = rev (take n calls) @ accept_calls (w_effects v)"
      using n(2) y_moved by (simp_all add: ttr_moved_def)
    then show ?thesis using y Inr by blast
  qed
qed

lemma after_ttb:
  "keeps (ttr_moved w s) (sq (demand (status \<noteq> ttr_code TTR_SENDING_TO_RSK) ValueError)
     (if status = ttr_code TTR_SENT_TO_RSK then finalize_ttb k i else ok ()))"
  by (intro keeps_intros finalize_ttb_moved)

lemma send_stage:
  assumes "bnd (if status = ttr_code TTR_SIGNATURES_COLLECTED
      then sq (send_ttb lib k i sg) (ok (ttr_code TTR_SENT_TO_RSK)) else ok status) (\<lambda>status.
    sq (demand (status \<noteq> ttr_code TTR_SENDING_TO_RSK) ValueError)
      (if status = ttr_code TTR_SENT_TO_RSK then finalize_ttb k i else ok ())) v = (r, w')"
  shows "ttr_moved v (accept_calls (w_effects v)) w' \<or>
    (\<exists>calls y n. status = ttr_code TTR_SIGNATURES_COLLECTED \<and> claim_ttb lib i sg v = (Inr calls, y) \<and> ttr_progress y w' \<and>
      accept_calls (w_effects w') = rev (take n calls) @ accept_calls (w_effects v))"
proof (cases "status = ttr_code TTR_SIGNATURES_COLLECTED")
  case False
  have "ttr_moved v (accept_calls (w_effects v)) v" by (simp add: ttr_moved_def ttr_progress_same)
  moreover have "sq (demand (status \<noteq> ttr_code TTR_SENDING_TO_RSK) ValueError)
      (if status = ttr_code TTR_SENT_TO_RSK then finalize_ttb k i else ok ()) v = (r, w')"
    using assms unfolding if_not_P[OF False] by (simp add: run_bnd del: ttr_code.simps)
  ultimately show ?thesis using keepsD'[OF after_ttb] by blast
next
  case True
  obtain d x where x: "send_ttb lib k i sg v = (d, x)" by fastforce
  have x_moved: "ttr_moved x (accept_calls (w_effects x)) x" by (simp add: ttr_moved_def ttr_progress_same)
  have "ttr_moved x (accept_calls (w_effects x)) w'"
  proof (cases d)
    case (Inl e)
    then have "w' = x" using assms x unfolding if_P[OF True] by (simp add: run_bnd run_sq)
    then show ?thesis using x_moved by simp
  next
    case (Inr u)
    have "sq (demand (ttr_code TTR_SENT_TO_RSK \<noteq> ttr_code TTR_SENDING_TO_RSK) ValueError)
      (if ttr_code TTR_SENT_TO_RSK = ttr_code TTR_SENT_TO_RSK then finalize_ttb k i else ok ()) x = (r, w')"
      using assms x Inr unfolding if_P[OF True] by (simp add: run_bnd run_sq del: ttr_code.simps)
    then show ?thesis using keepsD'[OF after_ttb x_moved] by blast
  qed
  then have xw: "ttr_progress x w'" "accept_calls (w_effects w') = accept_calls (w_effects x)" by (simp_all add: ttr_moved_def)
  from send_ttb_result[OF x] show ?thesis
  proof (elim disjE exE conjE, goal_cases)
    case 1
    then show ?case using xw ttr_progress_trans by (auto simp: ttr_moved_def)
  next
    case (2 calls y n)
    then show ?case using xw True ttr_progress_trans[OF 2(2) xw(1)] by auto
  qed
qed

text \<open>The transfers of a batch that was open and is no longer.\<close>

lemma sends_ttb:
  assumes "tap_tables_ok v" "ttr_progress w v" "\<forall>b \<in> set (td_ttb (w_db v)). ttb_id b = i \<longrightarrow> ttb_open b"
    and "claim_ttb lib i sg v = (Inr calls, y)" "tl_add_0x_prefix lib = P" "ttr_progress y w'"
  shows "sends_for (ttr_settled w) (ttr_settled w') (accepts_transfer P) s (rev (take n calls) @ s)"
proof -
  obtain ts where ts: "set ts \<subseteq> set (filter (\<lambda>t. ttr_batch_id t = Some i) (td_ttr (w_db v)))"
    "distinct (map tap_to_rsk_transfer_key (td_ttr (w_db v))) \<Longrightarrow> distinct (map tap_to_rsk_transfer_key ts)"
    "list_all2 (accepts_transfer P) calls (map tap_to_rsk_transfer_key ts)"
    and y: "td_ttr (w_db y) = td_ttr (w_db v)" "\<exists>b \<in> set (td_ttb (w_db y)). ttb_id b = i \<and> \<not> ttb_open b"
    using claim_ttb_Inr[OF assms(4,5)] by blast
  have d: "distinct (map tap_to_rsk_transfer_key (td_ttr (w_db v)))"
    using assms(1) by (simp add: tap_tables_ok_def table_ok_def Let_def)
  then have inj: "inj_on tap_to_rsk_transfer_key (set (td_ttr (w_db v)))" by (simp add: distinct_map)
  have t: "ttr_settled w' (tap_to_rsk_transfer_key t)" "\<not> ttr_settled w (tap_to_rsk_transfer_key t)" if "t \<in> set ts" for t
  proof -
    have row: "t \<in> set (td_ttr (w_db v))" "ttr_batch_id t = Some i" using that ts(1) by auto
    have "ttr_settled y (tap_to_rsk_transfer_key t)" using row y unfolding ttr_settled_def by metis
    then show "ttr_settled w' (tap_to_rsk_transfer_key t)" by (rule ttr_settled_progress[OF assms(6)])
    show "\<not> ttr_settled w (tap_to_rsk_transfer_key t)"
    proof
      assume "ttr_settled w (tap_to_rsk_transfer_key t)"
      from ttr_settled_progress[OF assms(2) this] obtain t' b where
        t': "t' \<in> set (td_ttr (w_db v))" "tap_to_rsk_transfer_key t' = tap_to_rsk_transfer_key t"
        and b: "b \<in> set (td_ttb (w_db v))" "ttr_batch_id t' = Some (ttb_id b)" "\<not> ttb_open b"
        unfolding ttr_settled_def by blast
      have "t' = t" using inj_onD[OF inj t'(2) t'(1) row(1)] .
      then show False using b row(2) assms(3) by simp
    qed
  qed
  define ks where "ks = map tap_to_rsk_transfer_key (take n ts)"
  have "list_all2 (accepts_transfer P) (take n calls) ks"
    using list_all2_takeI[OF ts(3), of n] by (simp add: ks_def take_map)
  then have "list_all2 (accepts_transfer P) (rev (take n calls)) (rev ks)" by simp
  moreover have "distinct ks" using ts(2)[OF d] by (simp add: ks_def take_map[symmetric] distinct_take)
  moreover have "\<forall>k \<in> set ks. \<not> ttr_settled w k \<and> ttr_settled w' k"
    using t unfolding ks_def by (auto dest: in_set_takeD)
  ultimately show ?thesis unfolding sends_for_def
    by (intro exI[of _ "rev (take n calls)"] exI[of _ "rev ks"]) simp
qed

lemma current_ttb_result:
  assumes "current_ttb lib w = (r, w')" "tap_tables_ok w"
  shows "ttr_progress w w' \<and> w_effects w' = w_effects w \<and>
    (\<forall>b n q. r = Inr (Some (b, n, q)) \<longrightarrow> b \<in> set (td_ttb (w_db w')))"
proof (cases r)
  case (Inl e)
  have "keeps (\<lambda>v. w_effects v = w_effects w) (current_ttb lib)"
    unfolding current_ttb_def
  proof (rule keeps_in_tx)
    have "keeps (\<lambda>v. w_effects v = w_effects w) (insert_ttb b)" "keeps (\<lambda>v. w_effects v = w_effects w) (assign_ttb i ts)" for b i ts
      by (auto simp: keeps_def insert_ttb_def assign_ttb_def run_bnd run_insert_row)
    then show "keeps (\<lambda>v. w_effects v = w_effects w) (bnd (get_or_create_ttb lib) (\<lambda>current_batch.
        case current_batch of None \<Rightarrow> ok None
        | Some b \<Rightarrow> bnd (ttb_transfers (ttb_id b)) (\<lambda>transfers.
            bnd (serialize_batch lib b) (\<lambda>serialized. ok (Some (b, length transfers, serialized))))))"
      unfolding get_or_create_ttb_def Let_def ttb_transfers_def by (intro keeps_intros rtt_view_hash)
  qed simp
  from keepsD'[OF this refl assms(1)] have "w_effects w' = w_effects w" .
  moreover have "w_db w' = w_db w" using assms(1) Inl by (auto simp: current_ttb_def run_in_tx split: prod.splits sum.splits)
  ultimately show ?thesis using Inl by (simp add: ttr_progress_same)
next
  case (Inr x)
  have "keeps (\<lambda>v. v = u) (bnd (ttb_transfers (ttb_id b)) (\<lambda>transfers.
      bnd (serialize_batch lib b) (\<lambda>serialized. ok (Some (b, length transfers, serialized)))))" for u b
    unfolding ttb_transfers_def by (intro keeps_intros rtt_view_hash)
  note pure = this
  obtain c where run: "get_or_create_ttb lib w = (Inr c, w')" and c': "\<And>b n q. x = Some (b, n, q) \<Longrightarrow> c = Some b"
  proof -
    obtain c u where c: "get_or_create_ttb lib w = (Inr c, u)" and rest: "(case c of None \<Rightarrow> ok None
        | Some b \<Rightarrow> bnd (ttb_transfers (ttb_id b)) (\<lambda>transfers.
            bnd (serialize_batch lib b) (\<lambda>serialized. ok (Some (b, length transfers, serialized))))) u = (Inr x, w')"
      using assms(1) Inr by (auto simp: current_ttb_def in_tx_eq_Inr ran_ok)
    have "w' = u"
    proof (cases c)
      case None
      then show ?thesis using rest by simp
    next
      case (Some b)
      then show ?thesis using rest keepsD'[OF pure refl] by simp
    qed
    moreover have "c = Some b" if "x = Some (b, n, q)" for b n q
      using rest that by (cases c) (auto simp: ran_ok)
    ultimately show ?thesis using that c by blast
  qed
  let ?open = "filter (\<lambda>b. ttb_status b \<noteq> ttr_code TTR_FINALIZED) (td_ttb (w_db w))"
  let ?ts = "take batch_limit (by_counter (filter (\<lambda>t. ttr_batch_id t = None) (td_ttr (w_db w))))"
  show ?thesis
  proof (cases "first_row (sort_key ttb_id ?open)")
    case (Some b)
    then have "w' = w" "c = Some b" using run by (simp_all add: get_or_create_ttb_def run_bnd run_rows_where)
    moreover have "b \<in> set (td_ttb (w_db w))" using first_row_SomeD[OF Some] by simp
    ultimately show ?thesis using Inr c' by (auto simp: ttr_progress_same)
  next
    case None
    show ?thesis
    proof (cases "?ts = []")
      case True
      then have "w' = w" "c = None" using run None by (simp_all add: get_or_create_ttb_def run_bnd run_rows_where)
      then show ?thesis using Inr c' by (auto simp: ttr_progress_same)
    next
      case False
      obtain hash where h: "batch_hash lib ?ts w = (Inr hash, w)"
      proof -
        obtain hash u where "batch_hash lib ?ts w = (Inr hash, u)"
          using run None False by (auto simp: get_or_create_ttb_def ran_ok run_bnd[of "rows_where _ _"] run_rows_where Let_def)
        moreover have "u = w" by (rule keepsD'[OF rtt_view_hash(2) refl calculation])
        ultimately show ?thesis using that by blast
      qed
      let ?i = "w_seqs w ''tap_to_rsk_transfer_batch''"
      have out: "w_effects w' = w_effects w \<and> (\<forall>b. c = Some b \<longrightarrow> b \<in> set (td_ttb (w_db w'))) \<and> set (td_ttb (w_db w)) \<subseteq> set (td_ttb (w_db w')) \<and>
        td_ttr (w_db w') = update_where (\<lambda>t. ttr_db_id t \<in> ttr_db_id ` set ?ts) (\<lambda>t. t\<lparr>ttr_batch_id := Some ?i\<rparr>) (td_ttr (w_db w))"
        using run None False h
        by (auto simp: get_or_create_ttb_def run_bnd run_sq run_rows_where insert_ttb_def run_insert_row assign_ttb_def Let_def
            simp del: ttr_code.simps split: if_splits)
      have free: "ttr_batch_id t = None" if t: "t \<in> set (td_ttr (w_db w))" "ttr_db_id t \<in> ttr_db_id ` set ?ts" for t
      proof -
        obtain u where u: "u \<in> set ?ts" "ttr_db_id t = ttr_db_id u" using t(2) by blast
        have "u \<in> set (td_ttr (w_db w))" "ttr_batch_id u = None" using in_set_takeD[OF u(1)] by (auto simp: by_counter_def)
        moreover have "inj_on ttr_db_id (set (td_ttr (w_db w)))"
          using assms(2) by (simp add: tap_tables_ok_def table_ok_def Let_def distinct_map)
        ultimately show ?thesis using t(1) u(2) by (metis inj_onD)
      qed
      have "ttr_progress w w'"
        unfolding ttr_progress_def
      proof (intro conjI ballI)
        fix t assume t: "t \<in> set (td_ttr (w_db w))"
        let ?t = "if ttr_db_id t \<in> ttr_db_id ` set ?ts then t\<lparr>ttr_batch_id := Some ?i\<rparr> else t"
        have "?t \<in> set (td_ttr (w_db w'))" using t out by (auto simp: set_update_where)
        moreover have "tap_to_rsk_transfer_key ?t = tap_to_rsk_transfer_key t" by (simp add: tap_to_rsk_transfer_key_def)
        moreover have "ttr_batch_id t \<in> {None, ttr_batch_id ?t}" using free[OF t] by simp
        ultimately show "\<exists>t' \<in> set (td_ttr (w_db w')). tap_to_rsk_transfer_key t' = tap_to_rsk_transfer_key t \<and>
            ttr_batch_id t \<in> {None, ttr_batch_id t'}" by blast
      qed (use out in auto)
      then show ?thesis using out Inr c' by auto
    qed
  qed
qed

lemma keeps_tap_tables_ttb:
  "tap.keeps_tables (current_ttb lib)" "tap.keeps_tables (collect_batch_signatures lib k asked i n sg q)"
proof -
  have upd: "tap.keeps_tables (update_ttb i (\<lambda>b. b\<lparr>ttb_signatures := sg, ttb_status := (if q then s else ttb_status b)\<rparr>))"
    for i s sg q by (rule keeps_tap_tables_updates; simp)
  show "tap.keeps_tables (current_ttb lib)"
    unfolding current_ttb_def get_or_create_ttb_def ttb_transfers_def Let_def
    by (intro tap_tables_intros keeps_tap_tables_new_batch)
  show "tap.keeps_tables (collect_batch_signatures lib k asked i n sg q)"
    unfolding collect_batch_signatures_def get_ttb_def Let_def by (intro tap_tables_intros upd)
qed

text \<open>The first stage, in which signatures are collected if the batch is new.\<close>

definition signing_stage where
  "signing_stage lib k asked b n serialized =
     (if ttb_status b = ttr_code TTR_CREATED
      then bnd (collect_batch_signatures lib k asked (ttb_id b) n (ttb_signatures b) serialized) (\<lambda>(by_signer, enough).
           ok (by_signer, if enough then ttr_code TTR_SIGNATURES_COLLECTED else ttb_status b))
      else ok (ttb_signatures b, ttb_status b))"

lemma signing_stage_moved:
  assumes "signing_stage lib k asked b n serialized u = (r, v)" "tap_tables_ok u" "b \<in> set (td_ttb (w_db u))"
  shows "ttr_moved u (accept_calls (w_effects u)) v \<and> tap_tables_ok v \<and>
    (\<forall>sg. r = Inr (sg, ttr_code TTR_SIGNATURES_COLLECTED) \<longrightarrow> (\<forall>b' \<in> set (td_ttb (w_db v)). ttb_id b' = ttb_id b \<longrightarrow> ttb_open b'))"
proof -
  have same: "ttr_moved u (accept_calls (w_effects u)) u" by (simp add: ttr_moved_def ttr_progress_same)
  have unique: "b' = b" if "b' \<in> set (td_ttb (w_db u))" "ttb_id b' = ttb_id b" for b'
    using ttb_of_id[OF assms(2) that(1) assms(3) that(2)] .
  show ?thesis
  proof (cases "ttb_status b = ttr_code TTR_CREATED")
    case False
    then have "v = u" "r = Inr (ttb_signatures b, ttb_status b)" using assms(1) by (simp_all add: signing_stage_def)
    moreover have "ttb_open b" if "ttb_status b = ttr_code TTR_SIGNATURES_COLLECTED" using that by (simp add: ttb_open_def)
    ultimately show ?thesis using same assms(2) unique by (auto simp del: ttr_code.simps)
  next
    case True
    let ?collect = "collect_batch_signatures lib k asked (ttb_id b) n (ttb_signatures b) serialized"
    have "snd (?collect u) = v"
      using assms(1) unfolding signing_stage_def if_P[OF True] by (auto simp: run_bnd split: prod.splits sum.splits)
    then obtain q where run: "?collect u = (q, v)" by (metis prod.collapse)
    have "ttb_open b" using True by (simp add: ttb_open_def)
    then have "ttr_open_moved u (accept_calls (w_effects u)) (ttb_id b) u"
      using same unique unfolding ttr_open_moved_def by blast
    note keepsD'[OF collect_signatures_moved this run]
    moreover have "tap_tables_ok v"
      using tap.keeps_tables_ok[OF keeps_tap_tables_ttb(2) assms(2)] run by (metis snd_conv)
    ultimately show ?thesis by (simp add: ttr_open_moved_def)
  qed
qed

lemma process_ttb_sends:
  assumes "process_ttb lib k asked w = (r, w')" "tap_tables_ok w" "tl_add_0x_prefix lib = P"
  shows "ttr_progress w w' \<and>
    sends_for (ttr_settled w) (ttr_settled w') (accepts_transfer P) (accept_calls (w_effects w)) (accept_calls (w_effects w'))"
proof -
  obtain c u where u: "current_ttb lib w = (c, u)" by fastforce
  note created = current_ttb_result[OF u assms(2)]
  have p: "ttr_progress w u" "w_effects u = w_effects w" using created by simp_all
  have u_ok: "tap_tables_ok u" using tap.keeps_tables_ok[OF keeps_tap_tables_ttb(1) assms(2)] u by (metis snd_conv)
  have calm: ?thesis if "ttr_moved u (accept_calls (w_effects w)) w'"
    using that ttr_progress_trans[OF p(1)] sends_nothing by (simp add: ttr_moved_def)
  have u_moved: "ttr_moved u (accept_calls (w_effects w)) u" using p(2) by (simp add: ttr_moved_def ttr_progress_same)
  show ?thesis
  proof (cases "\<exists>b n q. c = Inr (Some (b, n, q))")
    case False
    then have "w' = u" using assms(1) u by (auto simp: process_ttb_def run_bnd split: sum.splits option.splits)
    then show ?thesis using calm u_moved by simp
  next
    case True
    then obtain b n q where b: "c = Inr (Some (b, n, q))" by blast
    then have row: "b \<in> set (td_ttb (w_db u))" using created by blast
    let ?rest = "\<lambda>(by_signer, status). bnd (if status = ttr_code TTR_SIGNATURES_COLLECTED
              then sq (send_ttb lib k (ttb_id b) by_signer) (ok (ttr_code TTR_SENT_TO_RSK))
              else ok status) (\<lambda>status.
         sq (demand (status \<noteq> ttr_code TTR_SENDING_TO_RSK) ValueError)
            (if status = ttr_code TTR_SENT_TO_RSK then finalize_ttb k (ttb_id b) else ok ()))"
    have run: "bnd (signing_stage lib k asked b n q) ?rest u = (r, w')"
      using assms(1) u b unfolding process_ttb_def signing_stage_def Let_def run_bnd[of "current_ttb lib"] by simp
    obtain d v where v: "signing_stage lib k asked b n q u = (d, v)" by fastforce
    have v_moved: "ttr_progress u v" "accept_calls (w_effects v) = accept_calls (w_effects w)" "tap_tables_ok v"
      and v_open: "\<And>sg. d = Inr (sg, ttr_code TTR_SIGNATURES_COLLECTED) \<Longrightarrow>
        \<forall>b' \<in> set (td_ttb (w_db v)). ttb_id b' = ttb_id b \<longrightarrow> ttb_open b'"
      using signing_stage_moved[OF v u_ok row] p(2) unfolding ttr_moved_def by auto
    show ?thesis
    proof (cases d)
      case (Inl e)
      then have "w' = v" using run v by (simp add: run_bnd)
      then show ?thesis using calm v_moved by (simp add: ttr_moved_def)
    next
      case (Inr z)
      obtain sg status where z: "z = (sg, status)" by fastforce
      have "?rest (sg, status) v = (r, w')" using run v Inr z by (simp add: run_bnd[of "signing_stage lib k asked b n q"])
      from send_stage[OF this[simplified prod.case]] show ?thesis
      proof (elim disjE exE conjE, goal_cases)
        case 1
        then show ?case using calm v_moved ttr_progress_trans by (auto simp: ttr_moved_def)
      next
        case (2 calls y m)
        have wv: "ttr_progress w v" using ttr_progress_trans[OF p(1) v_moved(1)] .
        have "ttr_progress v y"
          using keepsD'[OF claim_ttb_moved _ 2(2), of v "accept_calls (w_effects v)"] by (simp add: ttr_moved_def ttr_progress_same)
        then have "ttr_progress w w'" using wv 2(3) ttr_progress_trans by blast
        moreover have "sends_for (ttr_settled w) (ttr_settled w') (accepts_transfer P) (accept_calls (w_effects w))
            (rev (take m calls) @ accept_calls (w_effects w))"
          by (rule sends_ttb[OF v_moved(3) wv v_open 2(2) assms(3) 2(3)]) (use Inr z 2(1) in simp)
        ultimately show ?case using 2(4) v_moved(2) by simp
      qed
    qed
  qed
qed

lemma step_ttr:
  assumes "tap_step P w w'" "tap_tables_ok w"
  shows "ttr_progress w w' \<and>
    sends_for (ttr_settled w) (ttr_settled w') (accepts_transfer P) (accept_calls (w_effects w)) (accept_calls (w_effects w'))"
proof -
  have calm: ?thesis if "keeps (ttr_moved w (accept_calls (w_effects w))) m" "m w = (x, w')" for m :: "'x tap_prog" and x
    using keepsD'[OF that(1) _ that(2)] sends_nothing by (simp add: ttr_moved_def ttr_progress_same)
  show ?thesis using assms(1)
  proof cases
    case scans
    then show ?thesis by (rule calm[OF ttr_moved_ops(4)])
  next
    case new_address
    then show ?thesis by (rule calm[OF ttr_moved_ops(3)])
  next
    case to_tap
    then show ?thesis by (rule calm[OF ttr_moved_ops(1)])
  next
    case to_rsk
    then show ?thesis by (intro process_ttb_sends[OF _ assms(2)])
  next
    case answer
    then show ?thesis by (rule calm[OF ttr_moved_ops(2)])
  qed
qed

interpretation to_rsk: payouts "tap_step P" tap_tables_ok ttr_settled "\<lambda>w. accept_calls (w_effects w)"
  "\<lambda>w. accepts_transfer P" for P
proof (unfold_locales, goal_cases)
  case 1
  then show ?case by (rule step_tap_tables)
next
  case 2
  then show ?case using step_ttr ttr_settled_progress by blast
next
  case 3
  then show ?case by blast
next
  case 4
  then show ?case using step_ttr by blast
qed

text \<open>
  C4. Every transfer from Tap is submitted to the bridge contract on RSK at most once, over any run of the
  operations of a node in any order, whatever the contract, the Tap daemon and the other nodes answer: the
  calls that were made belong, one by one, to different transfers, each call with the transaction id and
  the output index of its transfer, and each transfer in a batch that is no longer being signed.
\<close>

theorem tap_transfers_accepted_at_most_once:
  assumes "(tap_step P)\<^sup>*\<^sup>* w w'" "tap_tables_ok w" "accept_calls (w_effects w) = []"
  shows "\<exists>ks. distinct ks \<and>
    list_all2 (\<lambda>call (tx_id, vout). at_btc_tx_id call = P tx_id \<and> at_btc_tx_vout call = vout) (accept_calls (w_effects w')) ks \<and>
    (\<forall>k \<in> set ks. \<exists>t \<in> set (td_ttr (w_db w')). (ttr_btc_tx_id t, ttr_btc_tx_vout t) = k \<and>
       (\<exists>b \<in> set (td_ttb (w_db w')). ttr_batch_id t = Some (ttb_id b) \<and>
          ttb_status b \<notin> {ttr_code TTR_CREATED, ttr_code TTR_SIGNATURES_COLLECTED}))"
proof -
  have "accepts_transfer P = (\<lambda>call (tx_id, vout). at_btc_tx_id call = P tx_id \<and> at_btc_tx_vout call = vout)"
    by (auto simp: accepts_transfer_def fun_eq_iff)
  then show ?thesis
    using to_rsk.paid_at_most_once[OF assms] unfolding ttr_settled_def ttb_open_def tap_to_rsk_transfer_key_def by simp
qed

section \<open>Where a batch is stuck\<close>

text \<open>The batch that is worked on: the oldest that is not finalized.\<close>

definition oldest_open_ttb :: "tap_world \<Rightarrow> tap_to_rsk_batch option" where
  "oldest_open_ttb w = first_row (sort_key ttb_id (filter (\<lambda>b. ttb_status b \<noteq> ttr_code TTR_FINALIZED) (td_ttb (w_db w))))"

lemma current_ttb_open:
  assumes "oldest_open_ttb w = Some b"
  shows "current_ttb lib w = (case serialize_batch lib b w of (Inl e, v) \<Rightarrow> (Inl e, w)
    | (Inr q, v) \<Rightarrow> (Inr (Some (b, length (filter (\<lambda>t. ttr_batch_id t = Some (ttb_id b)) (td_ttr (w_db w))), q)), w))"
proof -
  have created: "get_or_create_ttb lib w = (Inr (Some b), w)"
    using assms by (simp add: get_or_create_ttb_def oldest_open_ttb_def run_bnd run_rows_where)
  have pure: "snd (serialize_batch lib b w) = w" by (rule keepsD[OF rtt_view_hash(4)[of "\<lambda>v. v = w"] refl])
  have len: "length (by_counter ts) = length ts" for ts
    using sum_length_filter_compl[of "\<lambda>t. ttr_counter t \<noteq> None" ts] by (simp add: by_counter_def)
  obtain r where "serialize_batch lib b w = (r, w)" using pure by (metis prod.collapse)
  then show ?thesis
    by (cases r) (simp_all add: current_ttb_def run_in_tx run_bnd created ttb_transfers_def run_rows_where len)
qed

lemma sending_ttb_blocks:
  assumes "oldest_open_ttb w = Some b" "ttb_status b = ttr_code TTR_SENDING_TO_RSK"
  shows "\<exists>e. process_ttb lib k asked w = (Inl e, w)"
proof (cases "fst (serialize_batch lib b w)")
  case (Inl e)
  then show ?thesis using current_ttb_open[OF assms(1), of lib]
    by (simp add: process_ttb_def run_bnd split: prod.splits)
next
  case (Inr q)
  then have "\<exists>x. current_ttb lib w = (Inr (Some (b, x)), w)" using current_ttb_open[OF assms(1), of lib]
    by (simp split: prod.splits)
  then show ?thesis using assms(2) by (auto simp: process_ttb_def Let_def run_bnd run_sq run_demand)
qed

text \<open>A change of the batch that does not finalize it leaves it the oldest open one.\<close>

lemma oldest_open_update:
  assumes "oldest_open_ttb w = Some b" "tap_tables_ok w" "td_ttb (w_db w') = update_where (\<lambda>r. ttb_id r = ttb_id b) f (td_ttb (w_db w))"
    "\<And>r. ttb_id (f r) = ttb_id r" "ttb_status (f b) \<noteq> ttr_code TTR_FINALIZED"
  shows "oldest_open_ttb w' = Some (f b)"
proof -
  let ?rows = "td_ttb (w_db w)"
  let ?g = "\<lambda>r. if ttb_id r = ttb_id b then f r else r"
  let ?open = "\<lambda>r. ttb_status r \<noteq> ttr_code TTR_FINALIZED"
  have b: "b \<in> set ?rows" "?open b"
    using first_row_SomeD[OF assms(1)[unfolded oldest_open_ttb_def]] by simp_all
  have same: "?open (?g r) = ?open r" if "r \<in> set ?rows" for r
    using ttb_of_id[OF assms(2) that b(1)] b(2) assms(5) by auto
  have "filter ?open (map ?g ?rows) = map ?g (filter (?open \<circ> ?g) ?rows)" by (rule filter_map)
  also have "filter (?open \<circ> ?g) ?rows = filter ?open ?rows"
    by (rule filter_cong[OF refl]) (unfold comp_def, rule same)
  finally have "filter ?open (map ?g ?rows) = map ?g (filter ?open ?rows)" .
  moreover have "sort_key ttb_id (map ?g rs) = map ?g (sort_key ttb_id rs)" for rs
  proof (induction rs)
    case (Cons r rs)
    have "insort_key ttb_id (?g r) (map ?g xs) = map ?g (insort_key ttb_id r xs)" for xs
      by (induction xs) (auto simp: assms(4))
    then show ?case using Cons by (simp add: sort_key_def)
  qed simp
  moreover have "first_row (map ?g xs) = map_option ?g (first_row xs)" for xs by (cases xs) simp_all
  ultimately show ?thesis using assms(1,3) by (simp add: oldest_open_ttb_def update_where_def)
qed

lemma get_ttb_update:
  assumes "tap_tables_ok w" "oldest_open_ttb w = Some b" "td_ttb (w_db v) = td_ttb (w_db w)" "\<And>r. ttb_id (f r) = ttb_id r"
  shows "get_ttb (ttb_id b) v = (Inr b, v)"
    and "get_ttb (ttb_id b) (snd (update_ttb (ttb_id b) f v)) = (Inr (f b), snd (update_ttb (ttb_id b) f v))"
proof -
  let ?rows = "td_ttb (w_db w)"
  have b: "b \<in> set ?rows" using first_row_SomeD[OF assms(2)[unfolded oldest_open_ttb_def]] by simp
  have "first_row (filter (\<lambda>r. ttb_id r = ttb_id b) ?rows) = Some b"
  proof (cases "first_row (filter (\<lambda>r. ttb_id r = ttb_id b) ?rows)")
    case None
    then show ?thesis using b by (auto simp: filter_empty_conv)
  next
    case (Some c)
    from first_row_SomeD[OF this] have "c = b" using ttb_of_id[OF assms(1) _ b] by simp
    then show ?thesis using Some by simp
  qed
  then show "get_ttb (ttb_id b) v = (Inr b, v)"
    using assms(3) by (simp add: get_ttb_def related_eq_Inr)
  have "filter (\<lambda>r. ttb_id r = ttb_id b) (update_where (\<lambda>r. ttb_id r = ttb_id b) f rows)
      = map f (filter (\<lambda>r. ttb_id r = ttb_id b) rows)" for rows
    by (induction rows) (auto simp: update_where_def assms(4))
  moreover have "first_row (map f xs) = map_option f (first_row xs)" for xs :: "tap_to_rsk_batch list" by (cases xs) simp_all
  ultimately show "get_ttb (ttb_id b) (snd (update_ttb (ttb_id b) f v)) = (Inr (f b), snd (update_ttb (ttb_id b) f v))"
    using assms(3) \<open>first_row _ = Some b\<close> by (simp add: get_ttb_def related_eq_Inr update_ttb_def)
qed

text \<open>
  C24. If the contract requires one signature and no other node signs, a batch from Tap is lost: the leader
  commits it as being sent, but the signatures it has collected are empty and so is what \<open>zip\<close> makes
  of them, so that no transfer is submitted and the last of the transaction hashes is an \<open>IndexError\<close>; from
  then on every attempt to process the transfers from Tap raises an error and changes nothing, whatever
  the contract and the other nodes answer.
\<close>

theorem single_signer_batch_is_stuck:
  assumes "tap_tables_ok w" "oldest_open_ttb w = Some b" "ttb_status b = ttr_code TTR_CREATED" "ttb_signatures b = []"
    and "serialize_batch lib b w = (Inr q, w)" "tk_federators k = Inr federators" "tk_num_required_signers k = Inr 1"
    and "asked q = Inr []"
  shows "\<exists>w'. process_ttb lib k asked w = (Inl IndexError, w') \<and> accept_calls (w_effects w') = accept_calls (w_effects w) \<and>
    (\<forall>lib' k' asked'. \<exists>e. process_ttb lib' k' asked' w' = (Inl e, w'))"
proof -
  let ?i = "ttb_id b"
  let ?n = "length (filter (\<lambda>t. ttr_batch_id t = Some ?i) (td_ttr (w_db w)))"
  define f :: "tap_to_rsk_batch \<Rightarrow> tap_to_rsk_batch"
    where "f = (\<lambda>b. b\<lparr>ttb_signatures := [], ttb_status := ttr_code TTR_SIGNATURES_COLLECTED\<rparr>)"
  define g :: "tap_to_rsk_batch \<Rightarrow> tap_to_rsk_batch" where "g = (\<lambda>b. b\<lparr>ttb_status := ttr_code TTR_SENDING_TO_RSK\<rparr>)"
  define u where "u = w\<lparr>w_effects := AskSignBatch q # w_effects w\<rparr>"
  define v where "v = snd (update_ttb ?i f u)"
  define y where "y = snd (update_ttb ?i g v)"
  have upd: "update_ttb i h x = (Inr (), snd (update_ttb i h x))" for i h x by (simp add: update_ttb_def)
  have ids: "ttb_id (f r) = ttb_id r" "ttb_id (g r) = ttb_id r" for r by (simp_all add: f_def g_def)
  have u: "get_ttb ?i u = (Inr b, u)" "td_ttb (w_db u) = td_ttb (w_db w)" "tap_tables_ok u"
    using get_ttb_update(1)[OF assms(1,2) _ ids(1), of u] assms(1) by (simp_all add: u_def tap_tables_ok_def)
  have v: "get_ttb ?i v = (Inr (f b), v)" using get_ttb_update(2)[OF assms(1,2) u(2) ids(1)] by (simp add: v_def)
  have v_open: "oldest_open_ttb v = Some (f b)"
    by (rule oldest_open_update[OF assms(2,1)]) (simp_all add: v_def u_def update_ttb_def ids(1) f_def)
  have "tap.keeps_tables (update_ttb ?i f)" by (rule keeps_tap_tables_updates) (simp_all add: f_def)
  from tap.keeps_tables_ok[OF this u(3)] have v_ok: "tap_tables_ok v" by (simp add: v_def)
  have y: "get_ttb ?i y = (Inr (g (f b)), y)" using get_ttb_update(2)[OF v_ok v_open refl ids(2)] by (simp add: y_def ids(1))
  have y_open: "oldest_open_ttb y = Some (g (f b))"
    by (rule oldest_open_update[OF v_open v_ok]) (simp_all add: y_def update_ttb_def ids g_def)
  obtain ts where q: "rbind (item q ''transfers'') py_iter = Inr ts"
    using assms(5) by (auto simp: serialize_batch_def ran_ok)
  have "(\<lambda>c. c\<lparr>ttb_signatures := [], ttb_status := (if True then ttr_code TTR_SIGNATURES_COLLECTED else ttb_status c)\<rparr>) = f"
    by (simp add: f_def)
  then have "collect_batch_signatures lib k asked ?i ?n [] q w = (Inr ([], True), v)"
    using assms(6,7,8) q u(1) upd[of ?i f u]
    by (simp add: collect_batch_signatures_def run_bnd run_sq run_in_tx Let_def u_def[symmetric] v_def[symmetric])
  moreover have "current_ttb lib w = (Inr (Some (b, ?n, q)), w)"
    using current_ttb_open[OF assms(2), of lib] assms(5) by simp
  moreover have "claim_ttb lib ?i [] v = (Inr [], y)"
    using v upd[of ?i g v] unfolding claim_ttb_def g_def[symmetric]
    by (simp add: run_bnd run_sq run_in_tx ttb_transfers_def run_rows_where zip_star_def y_def[symmetric])
  then have "send_ttb lib k ?i [] v = (Inl IndexError, y)"
    using y by (simp add: send_ttb_def submit_calls_def run_bnd run_in_tx)
  ultimately have run: "process_ttb lib k asked w = (Inl IndexError, y)"
    using assms(3,4) by (simp add: process_ttb_def run_bnd run_sq Let_def)
  have "\<exists>e. process_ttb lib' k' asked' y = (Inl e, y)" for lib' k' asked'
    by (rule sending_ttb_blocks[OF y_open]) (simp add: g_def)
  moreover have "accept_calls (w_effects y) = accept_calls (w_effects w)"
    by (simp add: y_def v_def u_def update_ttb_def)
  ultimately show ?thesis using run by blast
qed

section \<open>What is submitted\<close>

text \<open>The signatures \<open>sigs\<close> of a signer for the transfers: so many, each over the message of its transfer.\<close>

definition signed_by :: "tap_lib \<Rightarrow> tap_contract \<Rightarrow> pyval list \<Rightarrow> nat \<Rightarrow> string \<Rightarrow> pyval \<Rightarrow> bool" where
  "signed_by lib k transfers n signer sigs \<longleftrightarrow> py_len sigs = Inr n \<and>
     (\<exists>ss. py_iter sigs = Inr ss \<and> (\<forall>j < min (length transfers) (length ss). \<exists>m.
        transfer_message lib k (transfers ! j) = Inr m \<and> ea_recover (tk_account k) m (ss ! j) = Inr signer))"

lemma signatures_valid_True:
  "signatures_valid lib k (PStr signer) transfers ss = Inr True \<Longrightarrow> j < min (length transfers) (length ss) \<Longrightarrow>
   \<exists>m. transfer_message lib k (transfers ! j) = Inr m \<and> ea_recover (tk_account k) m (ss ! j) = Inr signer"
proof (induction lib k "PStr signer" transfers ss arbitrary: j rule: signatures_valid.induct)
  case (1 lib k transfer transfers signature signatures)
  from 1(2) obtain m where m: "transfer_message lib k transfer = Inr m" "ea_recover (tk_account k) m signature = Inr signer"
    "signatures_valid lib k (PStr signer) transfers signatures = Inr True"
    by (auto simp: rbind_eq_Inr split: if_splits)
  show ?case
  proof (cases j)
    case 0
    then show ?thesis using m by simp
  next
    case (Suc j')
    have "\<not> PStr signer \<noteq> PStr signer" by simp
    from 1(1)[OF this m(3), of j'] show ?thesis using Suc 1(3) by simp
  qed
qed auto

lemma dict_set_entry: "x \<in> set (dict_set k v d) \<Longrightarrow> x = (k, v) \<or> x \<in> set d"
  by (induction k v d rule: dict_set.induct) (auto split: if_splits)

text \<open>One response adds nothing, or the signatures of a federator.\<close>

lemma add_batch_signatures_step:
  assumes "add_batch_signatures lib k federators transfers n (response # responses) sg = Inr by_signer"
  shows "\<exists>sg'. add_batch_signatures lib k federators transfers n responses sg' = Inr by_signer \<and>
    (\<forall>(signer, sigs) \<in> set sg'. (signer, sigs) \<in> set sg \<or> signer \<in> set federators \<and> signed_by lib k transfers n signer sigs)"
proof -
  let ?rest = "add_batch_signatures lib k federators transfers n responses"
  obtain s where s: "item response ''signer'' = Inr s" using assms by (auto simp: rbind_eq_Inr)
  show ?thesis
  proof (cases "\<exists>f \<in> set federators. s = PStr f")
    case False
    then have "s \<notin> PStr ` set federators" by blast
    then show ?thesis using assms s by (intro exI[of _ sg]) auto
  next
    case True
    then obtain f where f: "f \<in> set federators" "s = PStr f" by blast
    obtain sigs m where sigs: "item response ''signatures'' = Inr sigs" "py_len sigs = Inr m"
      using assms s f by (auto simp: rbind_eq_Inr)
    show ?thesis
    proof (cases "m = n")
      case False
      then show ?thesis using assms s f sigs by (intro exI[of _ sg]) auto
    next
      case True
      obtain ss valid where ss: "py_iter sigs = Inr ss" "signatures_valid lib k (PStr f) transfers ss = Inr valid"
        and rest: "?rest (if valid then dict_set f sigs sg else sg) = Inr by_signer"
        using assms s f sigs True by (auto simp: rbind_eq_Inr cong: if_cong)
      have "signed_by lib k transfers n f sigs" if valid
        unfolding signed_by_def using sigs(2) True ss that signatures_valid_True by auto
      then show ?thesis using rest f(1)
        by (intro exI[of _ "if valid then dict_set f sigs sg else sg"]) (auto dest: dict_set_entry)
    qed
  qed
qed

lemma add_batch_signatures_verified:
  assumes "add_batch_signatures lib k federators transfers n responses sg = Inr by_signer" "(signer, sigs) \<in> set by_signer"
  shows "(signer, sigs) \<in> set sg \<or> signer \<in> set federators \<and> signed_by lib k transfers n signer sigs"
  using assms
proof (induction responses arbitrary: sg)
  case (Cons response responses)
  obtain sg' where "add_batch_signatures lib k federators transfers n responses sg' = Inr by_signer"
    "\<forall>(signer, sigs) \<in> set sg'. (signer, sigs) \<in> set sg \<or> signer \<in> set federators \<and> signed_by lib k transfers n signer sigs"
    using add_batch_signatures_step[OF Cons.prems(1)] by blast
  then show ?case using Cons.IH Cons.prems(2) by blast
qed simp

text \<open>
  C13. The signatures that the leader keeps for a batch from Tap and later submits are those it had or new ones;
  every new one comes from a federator of the bridge contract, has as many entries as the batch has
  transfers, and each entry is a signature of this federator over the contract's message for the
  transfer at the same position.
\<close>

theorem collected_signatures_verified:
  assumes "collect_batch_signatures lib k asked i n sg serialized w = (Inr (by_signer, enough), w')"
    and "tk_federators k = Inr federators" "item serialized ''transfers'' = Inr (PList transfers)"
    and "(signer, sigs) \<in> set by_signer" "(signer, sigs) \<notin> set sg"
  shows "signer \<in> set federators \<and> py_len sigs = Inr n \<and>
     (\<exists>ss. py_iter sigs = Inr ss \<and> (\<forall>j < min (length transfers) (length ss). \<exists>m.
        transfer_message lib k (transfers ! j) = Inr m \<and> ea_recover (tk_account k) m (ss ! j) = Inr signer))"
proof -
  obtain responses where "add_batch_signatures lib k federators transfers n responses sg = Inr by_signer"
    using assms(1,2,3) by (auto simp: collect_batch_signatures_def ran_ok in_tx_eq_Inr Let_def)
  from add_batch_signatures_verified[OF this assms(4)] show ?thesis
    using assms(5) unfolding signed_by_def by blast
qed

section \<open>An example\<close>

lemma example_tap_tables: "tap_tables_ok example_tap_world"
  by (simp add: tap_tables_ok_def table_ok_def Let_def example_tap_world_def example_tap_address_def)

lemma example_process_rtb:
  "sent_recipients (w_effects (snd (process_rtb (\<lambda>recipients. Inr PNone) example_tap_world))) = [''taprt2'']"
  by (simp add: process_rtb_def get_or_create_rtb_def claim_rtb_def send_rtb_def finalize_rtb_def get_rtb_def prog_simps
     example_tap_world_def batch_limit_def insert_rtb_def assign_rtb_def update_where_def update_rtb_def
     query_one_def rtb_transfers_def)

text \<open>The transfer of the example is sent to its recipient.\<close>

theorem rsk_transfers_sent_to_tap_at_most_once_witness:
  "\<exists>k. (tap_step id)\<^sup>*\<^sup>* example_tap_world (snd (process_rtb (\<lambda>recipients. Inr PNone) example_tap_world)) \<and>
     pays_recipient (snd (process_rtb (\<lambda>recipients. Inr PNone) example_tap_world)) ''taprt2'' k"
proof -
  let ?w' = "snd (process_rtb (\<lambda>recipients. Inr PNone) example_tap_world)"
  have run: "(tap_step id)\<^sup>*\<^sup>* example_tap_world ?w'" by (rule r_into_rtranclp, rule to_tap[OF prod.collapse[symmetric]])
  have "sent_recipients (w_effects example_tap_world) = []" by (simp add: example_tap_world_def)
  from rsk_transfers_sent_to_tap_at_most_once[OF run example_tap_tables this] run show ?thesis
    unfolding example_process_rtb by (auto simp: list_all2_Cons1)
qed

text \<open>A transfer from Tap in a batch with the status and the signatures that are given.\<close>

definition example_ttb :: "tap_to_rsk_batch_status \<Rightarrow> (string \<times> pyval) list \<Rightarrow> tap_to_rsk_batch" where
  "example_ttb status sg = \<lparr>ttb_id = 1, ttb_hash = [1], ttb_status = ttr_code status, ttb_signatures = sg, ttb_executed_tx_hash = None\<rparr>"

definition example_ttb_world :: "tap_to_rsk_batch_status \<Rightarrow> (string \<times> pyval) list \<Rightarrow> tap_world" where
  "example_ttb_world status sg = \<lparr>w_db = \<lparr>td_kv = (\<lambda>k. None), td_addresses = [example_tap_address], td_rtb = [],
       td_ttb = [example_ttb status sg], td_rtt = [],
       td_ttr = [\<lparr>ttr_db_id = 1, ttr_counter = None, ttr_deposit_address_id = 1, ttr_btc_tx_id = ''ab'', ttr_btc_tx_vout = 1,
         ttr_batch_id = Some 1\<rparr>]\<rparr>, w_seqs = (\<lambda>t. 2), w_effects = []\<rparr>"

definition example_tap_contract :: "int \<Rightarrow> tap_contract" where
  "example_tap_contract required =
     \<lparr>tk_federators = Inr [''0xF'', ''0xL''], tk_num_required_signers = Inr required,
      tk_message_hash = (\<lambda>rsk tap tx_id vout. Inr [7]), tk_is_processed = (\<lambda>tx_id vout. Inr False),
      tk_transact = (\<lambda>call. Inr ''0xh''), tk_receipt = (\<lambda>h. Inr True),
      tk_account = \<lparr>ea_hash = (\<lambda>m. ''''), ea_sign = (\<lambda>key m. ''s''), ea_recover = (\<lambda>m s. Inr ''0xF'')\<rparr>,
      tk_privkey = ''key'', tk_address = ''0xL''\<rparr>"

lemma example_ttb_tables: "tap_tables_ok (example_ttb_world status sg)"
  by (simp add: tap_tables_ok_def table_ok_def Let_def example_ttb_world_def example_ttb_def example_tap_address_def)

lemma example_oldest: "status \<noteq> TTR_FINALIZED \<Longrightarrow> oldest_open_ttb (example_ttb_world status sg) = Some (example_ttb status sg)"
  by (cases status) (simp_all add: oldest_open_ttb_def example_ttb_world_def example_ttb_def)

lemma example_serialized:
  "\<exists>t. serialize_batch example_tap_lib (example_ttb status sg) (example_ttb_world status sg) =
     (Inr (PDict [(''hash'', PStr ''0x01''), (''status'', PInt (ttr_code status)), (''signatures'', PDict sg), (''transfers'', PList [t])]),
      example_ttb_world status sg) \<and> transfer_message example_tap_lib (example_tap_contract n) t = Inr [7]"
  by (simp add: serialize_batch_def ttb_transfers_def serialize_transfer_def prog_simps deposit_address_of_def
      example_ttb_world_def example_ttb_def example_tap_address_def by_counter_def transfer_hash_def example_tap_lib_def
      transfer_message_def add_0x_prefix_def example_tap_contract_def to_hex_def bytes_hex_def hex_digit_def)

text \<open>A collected batch is submitted in one call.\<close>

lemma example_process_ttb:
  "map at_btc_tx_id (accept_calls (w_effects (snd (process_ttb example_tap_lib (example_tap_contract 2) (\<lambda>q. Inr [])
     (example_ttb_world TTR_SIGNATURES_COLLECTED [(''0xF'', PList [PStr ''s''])]))))) = [''0xab'']"
proof -
  let ?sg = "[(''0xF'', PList [PStr ''s''])]"
  let ?w = "example_ttb_world TTR_SIGNATURES_COLLECTED ?sg"
  obtain q where "serialize_batch example_tap_lib (example_ttb TTR_SIGNATURES_COLLECTED ?sg) ?w = (Inr q, ?w)"
    using example_serialized by blast
  then have "current_ttb example_tap_lib ?w = (Inr (Some (example_ttb TTR_SIGNATURES_COLLECTED ?sg, 1, q)), ?w)"
    using current_ttb_open[OF example_oldest, of TTR_SIGNATURES_COLLECTED example_tap_lib ?sg]
    by (simp add: example_ttb_world_def example_ttb_def)
  then show ?thesis
    by (simp add: process_ttb_def prog_simps Let_def send_ttb_def claim_ttb_def get_ttb_def ttb_transfers_def by_counter_def
        zip_star_def accept_call_def deposit_address_of_def submit_calls_def finalize_ttb_def update_ttb_def update_where_def
        example_ttb_world_def example_ttb_def example_tap_address_def example_tap_contract_def example_tap_lib_def)
qed

theorem tap_transfers_accepted_at_most_once_witness:
  "\<exists>w' call. (tap_step (\<lambda>s. ''0x'' @ s))\<^sup>*\<^sup>*
       (example_ttb_world TTR_SIGNATURES_COLLECTED [(''0xF'', PList [PStr ''s''])]) w' \<and>
     accept_calls (w_effects w') = [call] \<and>
     (\<exists>t \<in> set (td_ttr (w_db w')). at_btc_tx_id call = ''0x'' @ ttr_btc_tx_id t)"
proof -
  let ?w = "example_ttb_world TTR_SIGNATURES_COLLECTED [(''0xF'', PList [PStr ''s''])]"
  let ?w' = "snd (process_ttb example_tap_lib (example_tap_contract 2) (\<lambda>q. Inr []) ?w)"
  have run: "(tap_step (\<lambda>s. ''0x'' @ s))\<^sup>*\<^sup>* ?w ?w'"
    by (rule r_into_rtranclp, rule to_rsk[OF prod.collapse[symmetric]]) (simp add: example_tap_lib_def)
  have "accept_calls (w_effects ?w) = []" by (simp add: example_ttb_world_def)
  note paid = tap_transfers_accepted_at_most_once[OF run example_ttb_tables this]
  obtain call where call: "accept_calls (w_effects ?w') = [call]" using example_process_ttb by blast
  with paid have "\<exists>t \<in> set (td_ttr (w_db ?w')). at_btc_tx_id call = ''0x'' @ ttr_btc_tx_id t"
    by (auto simp: list_all2_Cons1)
  then show ?thesis using run call by blast
qed

theorem single_signer_batch_is_stuck_witness:
  "\<exists>w'. process_ttb example_tap_lib (example_tap_contract 1) (\<lambda>q. Inr []) (example_ttb_world TTR_CREATED []) = (Inl IndexError, w') \<and>
     (\<exists>e. process_ttb example_tap_lib (example_tap_contract 2) (\<lambda>q. Inr []) w' = (Inl e, w'))"
proof -
  obtain q where "serialize_batch example_tap_lib (example_ttb TTR_CREATED []) (example_ttb_world TTR_CREATED []) =
      (Inr q, example_ttb_world TTR_CREATED [])" using example_serialized by blast
  from single_signer_batch_is_stuck[OF example_ttb_tables example_oldest _ _ this, where k = "example_tap_contract 1"
      and asked = "\<lambda>q. Inr []" and federators = "[''0xF'', ''0xL'']"]
  show ?thesis by (auto simp: example_ttb_def example_tap_contract_def)
qed

text \<open>One federator signs.\<close>

theorem collected_signatures_verified_witness:
  "\<exists>q w'. collect_batch_signatures example_tap_lib (example_tap_contract 2)
       (\<lambda>q. Inr [PDict [(''signer'', PStr ''0xF''), (''signatures'', PList [PStr ''s''])]])
       1 1 [] q (example_ttb_world TTR_CREATED []) = (Inr ([(''0xF'', PList [PStr ''s''])], True), w') \<and>
     ''0xF'' \<in> set [''0xF'', ''0xL''] \<and> py_len (PList [PStr ''s'']) = Inr 1"
proof -
  obtain t where t: "transfer_message example_tap_lib (example_tap_contract 2) t = Inr [7]" using example_serialized by blast
  let ?q = "PDict [(''transfers'', PList [t])]"
  have "\<exists>w'. collect_batch_signatures example_tap_lib (example_tap_contract 2)
       (\<lambda>q. Inr [PDict [(''signer'', PStr ''0xF''), (''signatures'', PList [PStr ''s''])]])
       1 1 [] ?q (example_ttb_world TTR_CREATED []) = (Inr ([(''0xF'', PList [PStr ''s''])], True), w')"
    using t by (simp add: collect_batch_signatures_def prog_simps Let_def py_len_def get_ttb_def update_ttb_def
        example_ttb_world_def example_ttb_def example_tap_contract_def)
  then obtain w' where run: "collect_batch_signatures example_tap_lib (example_tap_contract 2)
       (\<lambda>q. Inr [PDict [(''signer'', PStr ''0xF''), (''signatures'', PList [PStr ''s''])]])
       1 1 [] ?q (example_ttb_world TTR_CREATED []) = (Inr ([(''0xF'', PList [PStr ''s''])], True), w')" by blast
  from collected_signatures_verified[OF run, of "[''0xF'', ''0xL'']" "[t]" "''0xF''" "PList [PStr ''s'']"] run
  show ?thesis by (auto simp: example_tap_contract_def)
qed

end
