(* ===== verification/Simple_Wallet.thy ===== *)
theory Simple_Wallet
  imports Ord_Sync Multisig_Utils Network "HOL-Library.Sublist"
begin

text \<open>
  The wallet without multisig, from \<^verbatim>\<open>bridge_node/bridge/common/ord/simple_wallet.py\<close>: balances, and
  sending runes. The Bitcoin library, \<open>pyord\<close>, the node and the ord server are parameters. An
  output asks ord once and keeps the answer, so that the server's answer to the first question
  about it is its answer for as long as the output is used.
\<close>

section \<open>The libraries and the node\<close>

record simple_edict =
  se_id :: int
  se_amount :: int
  se_output :: nat

record simple_tx =
  st_inputs :: "outpoint list"
  st_outputs :: "txout list"

text \<open>
  \<open>sl_script_of\<close> is \<open>CCoinAddress(a).to_scriptPubKey()\<close>; \<open>sl_edict\<close> fails if \<open>Edict\<close> does not take its
  fields; \<open>sl_runestone_script\<close> is the script of a runestone with these edicts and this default output.
\<close>

record simple_lib =
  sl_parse_decimal :: "string \<Rightarrow> exn + decimal"
  sl_script_of :: "string \<Rightarrow> exn + bytes"
  sl_rune_id_num :: "int \<Rightarrow> int \<Rightarrow> exn + int"
  sl_edict :: "simple_edict \<Rightarrow> exn + unit"
  sl_runestone_script :: "simple_edict list \<Rightarrow> nat \<Rightarrow> exn + bytes"
  sl_serialize :: "simple_tx \<Rightarrow> exn + string"

record simple_node =
  sn_getblockcount :: "exn + int"
  sn_listunspent :: "exn + listed_unspent list"
  sn_getnewaddress :: "exn + string"
  sn_signrawtransactionwithwallet :: "string \<Rightarrow> exn + string"
  sn_sendrawtransaction :: "string \<Rightarrow> exn + string"

record simple_wallet =
  sw_lib :: simple_lib
  sw_node :: simple_node
  sw_ord :: ord_server
  sw_clock :: "nat \<Rightarrow> rat"

datatype wallet_call = GetNewAddress | SignRawTransaction string | SendRawTransaction string

type_synonym 'a wallet_prog = "((unit, wallet_call) world, 'a) prog"

definition TARGET_POSTAGE :: int where
  "TARGET_POSTAGE = 10000"

section \<open>Outputs\<close>

record runic_utxo =
  rx_rune_name :: pystr
  rx_amount_decimal :: decimal
  rx_amount_raw :: int

record lazy_utxo =
  lz_txid :: string
  lz_vout :: nat
  lz_amount_sat :: int
  lz_confirmations :: int

definition make_lazy_utxo :: "simple_lib \<Rightarrow> listed_unspent \<Rightarrow> exn + lazy_utxo" where
  "make_lazy_utxo lib raw = rbind (decimal_of (sl_parse_decimal lib) (lu_amount raw)) (\<lambda>amount_decimal.
     Inr \<lparr>lz_txid = lu_txid raw, lz_vout = lu_vout raw,
          lz_amount_sat = dec_int (dec_mul PRECISION amount_decimal (dec_of_int (10 ^ 8))),
          lz_confirmations = lu_confirmations raw\<rparr>)"

definition lazy_ord_response :: "simple_wallet \<Rightarrow> lazy_utxo \<Rightarrow> exn + output_response" where
  "lazy_ord_response w u = ord_request (os_output (sw_ord w) (lz_txid u) (int (lz_vout u)) 0)"

fun read_runic_utxos :: "(pystr \<times> rune_balance_entry) list \<Rightarrow> exn + runic_utxo list" where
  "read_runic_utxos [] = Inr []"
| "read_runic_utxos ((rune_name, e) # runes) =
     rbind (to_decimal (rb_amount e) (rb_divisibility e)) (\<lambda>d.
     rbind (read_runic_utxos runes) (\<lambda>rest.
     Inr (\<lparr>rx_rune_name = rune_name, rx_amount_decimal = d, rx_amount_raw = rb_amount e\<rparr> # rest)))"

definition runic_utxos :: "simple_wallet \<Rightarrow> lazy_utxo \<Rightarrow> exn + runic_utxo list" where
  "runic_utxos w u = rbind (lazy_ord_response w u) (\<lambda>r. read_runic_utxos (or_runes r))"

definition inscription_utxos :: "simple_wallet \<Rightarrow> lazy_utxo \<Rightarrow> exn + string list" where
  "inscription_utxos w u = rbind (lazy_ord_response w u) (\<lambda>r. Inr (or_inscriptions r))"

definition lazy_has_ord_balances :: "simple_wallet \<Rightarrow> lazy_utxo \<Rightarrow> exn + bool" where
  "lazy_has_ord_balances w u =
     rbind (runic_utxos w u) (\<lambda>runes.
     if runes \<noteq> [] then Inr True else rbind (inscription_utxos w u) (\<lambda>inscriptions. Inr (inscriptions \<noteq> [])))"

definition lazy_get_rune_balance :: "simple_wallet \<Rightarrow> lazy_utxo \<Rightarrow> pystr \<Rightarrow> exn + int" where
  "lazy_get_rune_balance w u rune_name =
     rbind (runic_utxos w u) (\<lambda>runes.
     Inr (sum_list (map rx_amount_raw (filter (\<lambda>r. rx_rune_name r = rune_name) runes))))"

definition lazy_outpoint :: "lazy_utxo \<Rightarrow> exn + outpoint" where
  "lazy_outpoint u = rbind (unhexlify (lz_txid u)) (\<lambda>bs. Inr \<lparr>op_hash = rev bs, op_n = lz_vout u\<rparr>)"

section \<open>The wallet\<close>

definition wait_for_ord_sync :: "simple_wallet \<Rightarrow> int \<Rightarrow> exn + unit" where
  "wait_for_ord_sync w block_count = sync_loop (sw_ord w) (sw_clock w) 60 block_count 0 61"

fun make_lazy_utxos :: "simple_lib \<Rightarrow> listed_unspent list \<Rightarrow> exn + lazy_utxo list" where
  "make_lazy_utxos lib [] = Inr []"
| "make_lazy_utxos lib (raw # raws) =
     rbind (make_lazy_utxo lib raw) (\<lambda>u. rbind (make_lazy_utxos lib raws) (\<lambda>us. Inr (u # us)))"

definition simple_list_utxos :: "simple_wallet \<Rightarrow> exn + lazy_utxo list" where
  "simple_list_utxos w =
     rbind (sn_getblockcount (sw_node w)) (\<lambda>block_count.
     rbind (sn_listunspent (sw_node w)) (\<lambda>utxos.
     rbind (wait_for_ord_sync w block_count) (\<lambda>_.
     rbind (make_lazy_utxos (sw_lib w) utxos) (\<lambda>utxos.
     Inr (sort_key (\<lambda>u. - lz_confirmations u) utxos)))))"

definition generate_address :: "simple_wallet \<Rightarrow> string wallet_prog" where
  "generate_address w = sq (emit GetNewAddress) (lift_res (sn_getnewaddress (sw_node w)))"

text \<open>The sum reads \<open>utxo.amount\<close>, which an output does not have.\<close>

fun sum_btc_amounts :: "simple_wallet \<Rightarrow> lazy_utxo list \<Rightarrow> decimal \<Rightarrow> exn + decimal" where
  "sum_btc_amounts w [] acc = Inr acc"
| "sum_btc_amounts w (u # us) acc =
     rbind (lazy_has_ord_balances w u) (\<lambda>ord_balances.
     if ord_balances then sum_btc_amounts w us acc else Inl AttributeError)"

definition simple_get_btc_balance :: "simple_wallet \<Rightarrow> exn + decimal" where
  "simple_get_btc_balance w = rbind (simple_list_utxos w) (\<lambda>utxos. sum_btc_amounts w utxos (dec_of_int 0))"

fun sum_rune_balances :: "simple_wallet \<Rightarrow> pystr \<Rightarrow> lazy_utxo list \<Rightarrow> decimal \<Rightarrow> exn + decimal" where
  "sum_rune_balances w rune_name [] acc = Inr acc"
| "sum_rune_balances w rune_name (u # us) acc =
     rbind (lazy_get_rune_balance w u rune_name) (\<lambda>b.
     sum_rune_balances w rune_name us (dec_add PRECISION acc (dec_of_int b)))"

definition simple_get_rune_balance :: "simple_wallet \<Rightarrow> pystr \<Rightarrow> exn + decimal" where
  "simple_get_rune_balance w rune_name =
     rbind (simple_list_utxos w) (\<lambda>utxos. sum_rune_balances w rune_name utxos (dec_of_int 0))"

section \<open>Sending runes\<close>

text \<open>The inputs so far, what they hold of the rune, and their satoshis; a loop that is not left early fails.\<close>

fun take_rune_inputs ::
  "simple_wallet \<Rightarrow> pystr \<Rightarrow> int \<Rightarrow> lazy_utxo list \<Rightarrow> outpoint list \<times> int \<times> int \<Rightarrow> exn + outpoint list \<times> int \<times> int" where
  "take_rune_inputs w rune_name amount_raw [] acc = Inl ValueError"
| "take_rune_inputs w rune_name amount_raw (u # us) (inputs, total_runes_in, total_sat_in) =
     rbind (lazy_get_rune_balance w u rune_name) (\<lambda>rune_balance_at_utxo.
     if rune_balance_at_utxo > 0
     then rbind (lazy_outpoint u) (\<lambda>prevout.
       let acc = (inputs @ [prevout], total_runes_in + rune_balance_at_utxo, total_sat_in + lz_amount_sat u)
       in if total_runes_in + rune_balance_at_utxo \<ge> amount_raw then Inr acc
          else take_rune_inputs w rune_name amount_raw us acc)
     else take_rune_inputs w rune_name amount_raw us (inputs, total_runes_in, total_sat_in))"

fun take_fee_inputs ::
  "simple_wallet \<Rightarrow> int \<Rightarrow> lazy_utxo list \<Rightarrow> outpoint list \<times> int \<Rightarrow> exn + outpoint list \<times> int" where
  "take_fee_inputs w target_sats_out [] acc = Inl ValueError"
| "take_fee_inputs w target_sats_out (u # us) (inputs, total_sat_in) =
     rbind (lazy_has_ord_balances w u) (\<lambda>ord_balances.
     if ord_balances then take_fee_inputs w target_sats_out us (inputs, total_sat_in)
     else rbind (lazy_outpoint u) (\<lambda>prevout.
       let acc = (inputs @ [prevout], total_sat_in + lz_amount_sat u)
       in if total_sat_in + lz_amount_sat u \<ge> target_sats_out then Inr acc
          else take_fee_inputs w target_sats_out us acc))"

text \<open>\<open>map(int, rune["id"].split(":"))\<close>, unpacked into two.\<close>

definition parse_rune_id :: "string \<Rightarrow> exn + int \<times> int" where
  "parse_rune_id i = (case split_on (CHR '':'') i of
       [a, b] \<Rightarrow> rbind (int_of_str a) (\<lambda>block_height. rbind (int_of_str b) (\<lambda>tx_index. Inr (block_height, tx_index)))
     | _ \<Rightarrow> Inl ValueError)"

definition simple_send_runes :: "simple_wallet \<Rightarrow> pystr \<Rightarrow> decimal \<Rightarrow> string \<Rightarrow> string wallet_prog" where
  "simple_send_runes w rune_name amount receiver_address =
     bnd (lift_res (get_rune (sw_ord w) rune_name)) (\<lambda>rune.
     case rune of None \<Rightarrow> throw ValueError | Some rune \<Rightarrow>
     if coeff amount < 0 then throw ValueError else
     bnd (lift_res (sl_script_of (sw_lib w) receiver_address)) (\<lambda>receiver.
     let amount_raw = dec_int (dec_mul PRECISION amount (dec_of_int (10 ^ re_divisibility (rr_entry rune)))) in
     bnd (lift_res (parse_rune_id (rr_id rune))) (\<lambda>(block_height, tx_index).
     bnd (lift_res (sl_rune_id_num (sw_lib w) block_height tx_index)) (\<lambda>rune_id.
     bnd (lift_res (simple_list_utxos w)) (\<lambda>utxos.
     bnd (lift_res (take_rune_inputs w rune_name amount_raw utxos ([], 0, 0))) (\<lambda>(inputs, total_runes_in, total_sat_in).
     let fee = TARGET_POSTAGE; target_sats_out = TARGET_POSTAGE + fee in
     bnd (if total_sat_in < target_sats_out
          then lift_res (take_fee_inputs w target_sats_out utxos (inputs, total_sat_in))
          else ok (inputs, total_sat_in)) (\<lambda>(inputs, total_sat_in).
     let edict = \<lparr>se_id = rune_id, se_amount = amount_raw, se_output = 1\<rparr> in
     sq (lift_res (sl_edict (sw_lib w) edict))
    (bnd (generate_address w) (\<lambda>address.
     bnd (lift_res (sl_script_of (sw_lib w) address)) (\<lambda>change_script.
     bnd (lift_res (sl_runestone_script (sw_lib w) [edict] 2)) (\<lambda>runestone_script.
     let tx = \<lparr>st_inputs = inputs, st_outputs =
            [\<lparr>to_value = 0, to_script = runestone_script\<rparr>, \<lparr>to_value = TARGET_POSTAGE, to_script = receiver\<rparr>,
             \<lparr>to_value = total_sat_in - TARGET_POSTAGE - fee, to_script = change_script\<rparr>]\<rparr> in
     bnd (lift_res (sl_serialize (sw_lib w) tx)) (\<lambda>hex.
     sq (emit (SignRawTransaction hex))
    (bnd (lift_res (sn_signrawtransactionwithwallet (sw_node w) hex)) (\<lambda>signed_hex.
     sq (emit (SendRawTransaction signed_hex))
        (lift_res (sn_sendrawtransaction (sw_node w) signed_hex))))))))))))))))"

section \<open>What is sent\<close>

text \<open>The satoshis of an output are those that the node lists.\<close>

lemma satoshis_exact:
  assumes "0 \<le> n" "n < 10 ^ 20"
  shows "dec_int (dec_mul PRECISION (Dec n (- 8)) (dec_of_int (10 ^ 8))) = n"
proof -
  have v: "dec_val (Dec n (- 8)) * dec_val (dec_of_int (10 ^ 8)) = of_int n"
    by (simp add: dec_val_def dec_of_int_def power_int_minus field_simps)
  have "(10::int) ^ 20 < 10 ^ 80" by simp
  then have small: "\<bar>n\<bar> < 10 ^ PRECISION" using assms unfolding PRECISION_def by linarith
  have "representable PRECISION (of_int n)" by (rule representableI[where x = 0, OF _ small]) simp
  with v have "dec_val (dec_mul PRECISION (Dec n (- 8)) (dec_of_int (10 ^ 8))) = of_int n"
    using dec_mul_exact[of PRECISION] by (simp add: PRECISION_def)
  then show ?thesis by (rule dec_int_val) (rule assms)
qed

definition holds_rune :: "simple_wallet \<Rightarrow> pystr \<Rightarrow> lazy_utxo \<Rightarrow> int \<Rightarrow> bool" where
  "holds_rune w rune_name u b \<longleftrightarrow> lazy_get_rune_balance w u rune_name = Inr b \<and> b > 0"

lemma holds_rune_ord: "holds_rune w rune_name u b \<Longrightarrow> lazy_has_ord_balances w u \<noteq> Inr False"
  by (auto simp: holds_rune_def lazy_get_rune_balance_def lazy_has_ord_balances_def rbind_eq_Inr)

lemma take_rune_inputs_Inr:
  assumes "take_rune_inputs w rune_name amount us (inputs, runes, sat) = Inr (inputs', runes', sat')"
  shows "amount \<le> runes' \<and> (\<exists>taken bs new. subseq taken us \<and> list_all2 (holds_rune w rune_name) taken bs \<and>
    list_all2 (\<lambda>u p. lazy_outpoint u = Inr p) taken new \<and> inputs' = inputs @ new \<and>
    runes' = runes + sum_list bs \<and> sat' = sat + sum_list (map lz_amount_sat taken))"
  using assms
proof (induction us arbitrary: inputs runes sat)
  case (Cons u us)
  obtain b where b: "lazy_get_rune_balance w u rune_name = Inr b" using Cons.prems by (auto simp: rbind_eq_Inr)
  show ?case
  proof (cases "b > 0")
    case False
    then obtain taken bs new where "amount \<le> runes'" "subseq taken us" "list_all2 (holds_rune w rune_name) taken bs"
      "list_all2 (\<lambda>u p. lazy_outpoint u = Inr p) taken new" "inputs' = inputs @ new"
      "runes' = runes + sum_list bs" "sat' = sat + sum_list (map lz_amount_sat taken)"
      using Cons.IH[of inputs runes sat] Cons.prems b by auto
    then show ?thesis by (intro conjI exI[of _ taken] exI[of _ bs] exI[of _ new]) (auto intro: list_emb_Cons)
  next
    case True
    then have h: "holds_rune w rune_name u b" using b by (simp add: holds_rune_def)
    obtain p where p: "lazy_outpoint u = Inr p" using Cons.prems b True by (auto simp: rbind_eq_Inr)
    show ?thesis
    proof (cases "amount \<le> runes + b")
      case True
      then have "inputs' = inputs @ [p]" "runes' = runes + b" "sat' = sat + lz_amount_sat u"
        using Cons.prems b p \<open>b > 0\<close> by auto
      then show ?thesis using True h p
        by (intro conjI exI[of _ "[u]"] exI[of _ "[b]"] exI[of _ "[p]"]) auto
    next
      case False
      then obtain taken bs new where "amount \<le> runes'" "subseq taken us" "list_all2 (holds_rune w rune_name) taken bs"
        "list_all2 (\<lambda>u p. lazy_outpoint u = Inr p) taken new" "inputs' = (inputs @ [p]) @ new"
        "runes' = runes + b + sum_list bs" "sat' = sat + lz_amount_sat u + sum_list (map lz_amount_sat taken)"
        using Cons.IH[of "inputs @ [p]" "runes + b" "sat + lz_amount_sat u"] Cons.prems b p \<open>b > 0\<close> by auto
      then show ?thesis using h p
        by (intro conjI exI[of _ "u # taken"] exI[of _ "b # bs"] exI[of _ "p # new"]) auto
    qed
  qed
qed simp

lemma take_fee_inputs_Inr:
  assumes "take_fee_inputs w target us (inputs, sat) = Inr (inputs', sat')"
  shows "target \<le> sat' \<and> (\<exists>taken new. subseq taken us \<and> (\<forall>u \<in> set taken. lazy_has_ord_balances w u = Inr False) \<and>
    list_all2 (\<lambda>u p. lazy_outpoint u = Inr p) taken new \<and> inputs' = inputs @ new \<and>
    sat' = sat + sum_list (map lz_amount_sat taken))"
  using assms
proof (induction us arbitrary: inputs sat)
  case (Cons u us)
  obtain h where h: "lazy_has_ord_balances w u = Inr h" using Cons.prems by (auto simp: rbind_eq_Inr)
  show ?case
  proof (cases h)
    case True
    then obtain taken new where "target \<le> sat'" "subseq taken us" "\<forall>u \<in> set taken. lazy_has_ord_balances w u = Inr False"
      "list_all2 (\<lambda>u p. lazy_outpoint u = Inr p) taken new" "inputs' = inputs @ new"
      "sat' = sat + sum_list (map lz_amount_sat taken)"
      using Cons.IH[of inputs sat] Cons.prems h by auto
    then show ?thesis by (intro conjI exI[of _ taken] exI[of _ new]) (auto intro: list_emb_Cons)
  next
    case none: False
    obtain p where p: "lazy_outpoint u = Inr p" using Cons.prems h none by (auto simp: rbind_eq_Inr)
    show ?thesis
    proof (cases "target \<le> sat + lz_amount_sat u")
      case True
      then have "inputs' = inputs @ [p]" "sat' = sat + lz_amount_sat u" using Cons.prems h p none by auto
      then show ?thesis using True h p none by (intro conjI exI[of _ "[u]"] exI[of _ "[p]"]) auto
    next
      case False
      then obtain taken new where "target \<le> sat'" "subseq taken us" "\<forall>u \<in> set taken. lazy_has_ord_balances w u = Inr False"
        "list_all2 (\<lambda>u p. lazy_outpoint u = Inr p) taken new" "inputs' = (inputs @ [p]) @ new"
        "sat' = sat + lz_amount_sat u + sum_list (map lz_amount_sat taken)"
        using Cons.IH[of "inputs @ [p]" "sat + lz_amount_sat u"] Cons.prems h p none by auto
      then show ?thesis using h p none
        by (intro conjI exI[of _ "u # taken"] exI[of _ "p # new"]) auto
    qed
  qed
qed simp

text \<open>The coins: those with the rune, and further ones without anything on them if these do not suffice.\<close>

definition chosen_coins ::
  "simple_wallet \<Rightarrow> pystr \<Rightarrow> int \<Rightarrow> lazy_utxo list \<Rightarrow> lazy_utxo list \<Rightarrow> lazy_utxo list \<Rightarrow> outpoint list \<Rightarrow> int \<Rightarrow> bool" where
  "chosen_coins w rune_name amount_raw utxos rune_coins fee_coins inputs sat \<longleftrightarrow>
     subseq rune_coins utxos \<and> subseq fee_coins utxos \<and> set rune_coins \<inter> set fee_coins = {} \<and>
     (\<exists>bs. list_all2 (holds_rune w rune_name) rune_coins bs \<and> amount_raw \<le> sum_list bs) \<and>
     (\<forall>u \<in> set fee_coins. lazy_has_ord_balances w u = Inr False) \<and>
     list_all2 (\<lambda>u p. lazy_outpoint u = Inr p) (rune_coins @ fee_coins) inputs \<and>
     sat = sum_list (map lz_amount_sat (rune_coins @ fee_coins)) \<and> sat \<ge> 2 * TARGET_POSTAGE"

lemma chosen_coins_Inr:
  assumes "take_rune_inputs w rune_name amount us ([], 0, 0) = Inr (inputs, runes, sat)"
    and "(if sat < 2 * TARGET_POSTAGE then take_fee_inputs w (2 * TARGET_POSTAGE) us (inputs, sat) else Inr (inputs, sat)) =
      Inr (inputs', sat')"
  shows "\<exists>rune_coins fee_coins. chosen_coins w rune_name amount us rune_coins fee_coins inputs' sat'"
proof -
  obtain taken bs where t: "amount \<le> runes" "subseq taken us" "list_all2 (holds_rune w rune_name) taken bs"
    "list_all2 (\<lambda>u p. lazy_outpoint u = Inr p) taken inputs" "runes = sum_list bs"
    "sat = sum_list (map lz_amount_sat taken)"
    using take_rune_inputs_Inr[OF assms(1)] by auto
  show ?thesis
  proof (cases "sat < 2 * TARGET_POSTAGE")
    case False
    then show ?thesis using t assms(2) by (intro exI[of _ taken] exI[of _ "[]"]) (auto simp: chosen_coins_def)
  next
    case True
    then obtain more new where m: "2 * TARGET_POSTAGE \<le> sat'" "subseq more us"
      "\<forall>u \<in> set more. lazy_has_ord_balances w u = Inr False"
      "list_all2 (\<lambda>u p. lazy_outpoint u = Inr p) more new" "inputs' = inputs @ new"
      "sat' = sat + sum_list (map lz_amount_sat more)"
      using take_fee_inputs_Inr[of w "2 * TARGET_POSTAGE" us inputs sat inputs' sat'] assms(2) by auto
    have "u \<notin> set more" if "u \<in> set taken" for u
    proof -
      obtain i where "i < length taken" "u = taken ! i" using \<open>u \<in> set taken\<close> by (metis in_set_conv_nth)
      then have "holds_rune w rune_name u (bs ! i)" using t(3) by (auto simp: list_all2_conv_all_nth)
      from holds_rune_ord[OF this] m(3) show ?thesis by blast
    qed
    then show ?thesis using t m
      by (intro exI[of _ taken] exI[of _ more]) (auto simp: chosen_coins_def list_all2_appendI)
  qed
qed

text \<open>
  C29. What the simple wallet signs and broadcasts when it sends runes: one transaction whose inputs are
  coins of the wallet, each once; coins with the rune, which together hold the amount, the
  exact product rounded down, and if their satoshis do not suffice coins with no rune and no
  inscription. Its outputs are a runestone that gives the amount to the receiver's output and all else to
  the change, the postage for the receiver, and as change all satoshis but postage and fee, never less than none. The
  edict is of the rune that was asked for, under the id that ord has for it; the receiver's output has the script of the
  receiver's address, the change the script of the new address that the wallet gave.
\<close>

theorem simple_send_runes_balanced:
  assumes "simple_send_runes w rune_name amount receiver v = (Inr txid, v')"
  shows "\<exists>rune utxos rune_coins fee_coins inputs sat height index i address receiver_script change_script runestone hex signed_hex.
    get_rune (sw_ord w) rune_name = Inr (Some rune) \<and> simple_list_utxos w = Inr utxos \<and>
    parse_rune_id (rr_id rune) = Inr (height, index) \<and> sl_rune_id_num (sw_lib w) height index = Inr i \<and>
    sn_getnewaddress (sw_node w) = Inr address \<and> sl_script_of (sw_lib w) address = Inr change_script \<and>
    (let amount_raw = dec_int (dec_mul PRECISION amount (dec_of_int (10 ^ re_divisibility (rr_entry rune)))) in
     chosen_coins w rune_name amount_raw utxos rune_coins fee_coins inputs sat \<and>
     sl_script_of (sw_lib w) receiver = Inr receiver_script \<and>
     sl_runestone_script (sw_lib w) [\<lparr>se_id = i, se_amount = amount_raw, se_output = 1\<rparr>] 2 = Inr runestone \<and>
     sl_serialize (sw_lib w) \<lparr>st_inputs = inputs, st_outputs =
        [\<lparr>to_value = 0, to_script = runestone\<rparr>, \<lparr>to_value = TARGET_POSTAGE, to_script = receiver_script\<rparr>,
         \<lparr>to_value = sat - 2 * TARGET_POSTAGE, to_script = change_script\<rparr>]\<rparr> = Inr hex) \<and>
    0 \<le> sat - 2 * TARGET_POSTAGE \<and> sn_signrawtransactionwithwallet (sw_node w) hex = Inr signed_hex \<and>
    w_effects v' = [SendRawTransaction signed_hex, SignRawTransaction hex, GetNewAddress] @ w_effects v"
proof -
  obtain rune where rune: "get_rune (sw_ord w) rune_name = Inr (Some rune)"
    using assms by (auto simp: simple_send_runes_def ran_ok split: option.splits)
  define raw where "raw = dec_int (dec_mul PRECISION amount (dec_of_int (10 ^ re_divisibility (rr_entry rune))))"
  have pos: "\<not> coeff amount < 0" using assms rune by (auto simp: simple_send_runes_def ran_ok)
  have lift: "(if c then lift_res x else ok y) = lift_res (if c then x else Inr y)"
    for c and x :: "exn + outpoint list \<times> int" and y by (auto simp: fun_eq_iff)
  have two: "TARGET_POSTAGE + TARGET_POSTAGE = 2 * TARGET_POSTAGE" by simp
  obtain receiver_script height index i utxos inputs runes sat inputs' sat' address change_script runestone hex signed_hex where
    "parse_rune_id (rr_id rune) = Inr (height, index)" "sl_rune_id_num (sw_lib w) height index = Inr i"
    "sn_getnewaddress (sw_node w) = Inr address" "sl_script_of (sw_lib w) address = Inr change_script"
    "sl_script_of (sw_lib w) receiver = Inr receiver_script" "simple_list_utxos w = Inr utxos"
    "take_rune_inputs w rune_name raw utxos ([], 0, 0) = Inr (inputs, runes, sat)"
    "(if sat < 2 * TARGET_POSTAGE then take_fee_inputs w (2 * TARGET_POSTAGE) utxos (inputs, sat) else Inr (inputs, sat)) =
      Inr (inputs', sat')"
    "sl_runestone_script (sw_lib w) [\<lparr>se_id = i, se_amount = raw, se_output = 1\<rparr>] 2 = Inr runestone"
    "sl_serialize (sw_lib w) \<lparr>st_inputs = inputs', st_outputs =
        [\<lparr>to_value = 0, to_script = runestone\<rparr>, \<lparr>to_value = TARGET_POSTAGE, to_script = receiver_script\<rparr>,
         \<lparr>to_value = sat' - TARGET_POSTAGE - TARGET_POSTAGE, to_script = change_script\<rparr>]\<rparr> = Inr hex"
    "sn_signrawtransactionwithwallet (sw_node w) hex = Inr signed_hex"
    "w_effects v' = [SendRawTransaction signed_hex, SignRawTransaction hex, GetNewAddress] @ w_effects v"
    using assms rune pos unfolding simple_send_runes_def Let_def two
    by (auto simp: ran_ok Let_def generate_address_def raw_def[symmetric] two lift)
  note out = this
  obtain rune_coins fee_coins where c: "chosen_coins w rune_name raw utxos rune_coins fee_coins inputs' sat'"
    using chosen_coins_Inr[OF out(7,8)] by blast
  then have "0 \<le> sat' - 2 * TARGET_POSTAGE" by (simp add: chosen_coins_def)
  moreover have "sat' - TARGET_POSTAGE - TARGET_POSTAGE = sat' - 2 * TARGET_POSTAGE" by simp
  ultimately have "get_rune (sw_ord w) rune_name = Inr (Some rune) \<and> simple_list_utxos w = Inr utxos \<and>
    parse_rune_id (rr_id rune) = Inr (height, index) \<and> sl_rune_id_num (sw_lib w) height index = Inr i \<and>
    sn_getnewaddress (sw_node w) = Inr address \<and> sl_script_of (sw_lib w) address = Inr change_script \<and>
    (chosen_coins w rune_name raw utxos rune_coins fee_coins inputs' sat' \<and>
     sl_script_of (sw_lib w) receiver = Inr receiver_script \<and>
     sl_runestone_script (sw_lib w) [\<lparr>se_id = i, se_amount = raw, se_output = 1\<rparr>] 2 = Inr runestone \<and>
     sl_serialize (sw_lib w) \<lparr>st_inputs = inputs', st_outputs =
        [\<lparr>to_value = 0, to_script = runestone\<rparr>, \<lparr>to_value = TARGET_POSTAGE, to_script = receiver_script\<rparr>,
         \<lparr>to_value = sat' - 2 * TARGET_POSTAGE, to_script = change_script\<rparr>]\<rparr> = Inr hex) \<and>
    0 \<le> sat' - 2 * TARGET_POSTAGE \<and> sn_signrawtransactionwithwallet (sw_node w) hex = Inr signed_hex \<and>
    w_effects v' = [SendRawTransaction signed_hex, SignRawTransaction hex, GetNewAddress] @ w_effects v"
    using out c rune by (simp only: simp_thms)
  note all = this[unfolded raw_def]
  show ?thesis unfolding Let_def by (rule exI)+ (rule all)
qed

section \<open>An example\<close>

definition example_simple_ord :: ord_server where
  "example_simple_ord =
     \<lparr>os_rune = (\<lambda>name. Inr \<lparr>hr_status_code = 200, hr_json = Inr \<lparr>rr_entry =
        \<lparr>re_spaced_rune = name, re_symbol = [], re_divisibility = 2, re_turbo = False\<rparr>, rr_id = ''5:1''\<rparr>\<rparr>),
      os_output = (\<lambda>txid vout attempt. Inr \<lparr>hr_status_code = 200, hr_json = Inr
        \<lparr>or_indexed = True, or_spent = False, or_transaction = txid, or_value = 10000,
         or_runes = (if txid = ''aa'' then [(pys ''R'', \<lparr>rb_amount = 500, rb_divisibility = 2\<rparr>)] else []), or_inscriptions = []\<rparr>\<rparr>),
      os_blockcount = (\<lambda>k. Inr \<lparr>hr_status_code = 200, hr_json = Inr 7\<rparr>)\<rparr>"

definition example_coin :: "string \<Rightarrow> int \<Rightarrow> listed_unspent" where
  "example_coin txid sat =
     \<lparr>lu_txid = txid, lu_vout = 0, lu_amount = BtcDecimal (Dec sat (- 8)), lu_confirmations = 3, lu_spendable = True,
      lu_solvable = True, lu_safe = True, lu_desc = None, lu_address = None, lu_witness_script = None\<rparr>"

definition example_simple_wallet :: simple_wallet where
  "example_simple_wallet =
     \<lparr>sw_lib = \<lparr>sl_parse_decimal = (\<lambda>s. Inl ValueError), sl_script_of = (\<lambda>a. Inr [1]), sl_rune_id_num = (\<lambda>h i. Inr (h * 65536 + i)),
        sl_edict = (\<lambda>e. Inr ()), sl_runestone_script = (\<lambda>es d. Inr [2]), sl_serialize = (\<lambda>tx. Inr ''00'')\<rparr>,
      sw_node = \<lparr>sn_getblockcount = Inr 7, sn_listunspent = Inr [example_coin ''aa'' 10000, example_coin ''bb'' 100000000],
        sn_getnewaddress = Inr ''bc1c'', sn_signrawtransactionwithwallet = (\<lambda>hex. Inr ''01''),
        sn_sendrawtransaction = (\<lambda>hex. Inr ''cd'')\<rparr>,
      sw_ord = example_simple_ord, sw_clock = (\<lambda>k. of_nat k)\<rparr>"

lemma example_ord_synced: "wait_for_ord_sync example_simple_wallet 7 = Inr ()"
proof -
  have "sync_loop example_simple_ord (\<lambda>k. of_nat k) 60 7 0 (Suc 60) = Inr ()"
    by (subst sync_loop.simps(2)) (simp add: example_simple_ord_def ord_request_def http_ok_def)
  then show ?thesis by (simp add: wait_for_ord_sync_def example_simple_wallet_def)
qed

lemma example_simple_utxos:
  "simple_list_utxos example_simple_wallet = Inr
     [\<lparr>lz_txid = ''aa'', lz_vout = 0, lz_amount_sat = 10000, lz_confirmations = 3\<rparr>,
      \<lparr>lz_txid = ''bb'', lz_vout = 0, lz_amount_sat = 100000000, lz_confirmations = 3\<rparr>]"
proof -
  have coin: "make_lazy_utxo lib (example_coin txid sat) = Inr \<lparr>lz_txid = txid, lz_vout = 0,
      lz_amount_sat = dec_int (dec_mul PRECISION (Dec sat (- 8)) (dec_of_int (10 ^ 8))), lz_confirmations = 3\<rparr>" for lib txid sat
    unfolding make_lazy_utxo_def example_coin_def decimal_of_def by (simp del: power_numeral)
  have "sn_getblockcount (sw_node example_simple_wallet) = Inr 7"
    "sn_listunspent (sw_node example_simple_wallet) = Inr [example_coin ''aa'' 10000, example_coin ''bb'' 100000000]"
    by (simp_all add: example_simple_wallet_def)
  moreover have "dec_int (dec_mul PRECISION (Dec 10000 (- 8)) (dec_of_int (10 ^ 8))) = 10000"
    "dec_int (dec_mul PRECISION (Dec 100000000 (- 8)) (dec_of_int (10 ^ 8))) = 100000000"
    by (rule satoshis_exact; simp)+
  ultimately show ?thesis using example_ord_synced by (simp add: simple_list_utxos_def coin del: power_numeral)
qed

lemma example_balances:
  "lazy_get_rune_balance example_simple_wallet \<lparr>lz_txid = ''aa'', lz_vout = 0, lz_amount_sat = s, lz_confirmations = c\<rparr> (pys ''R'') = Inr 500"
  "lazy_has_ord_balances example_simple_wallet \<lparr>lz_txid = ''aa'', lz_vout = 0, lz_amount_sat = s, lz_confirmations = c\<rparr> = Inr True"
  "lazy_has_ord_balances example_simple_wallet \<lparr>lz_txid = ''bb'', lz_vout = 0, lz_amount_sat = s, lz_confirmations = c\<rparr> = Inr False"
proof -
  obtain d where "to_decimal 500 2 = Inr d"
    using dec_div_Inr[of "dec_of_int (10 ^ 2)" PRECISION "dec_of_int 500"] by (auto simp: to_decimal_def dec_of_int_def)
  then show "lazy_get_rune_balance example_simple_wallet \<lparr>lz_txid = ''aa'', lz_vout = 0, lz_amount_sat = s, lz_confirmations = c\<rparr> (pys ''R'') = Inr 500"
    "lazy_has_ord_balances example_simple_wallet \<lparr>lz_txid = ''aa'', lz_vout = 0, lz_amount_sat = s, lz_confirmations = c\<rparr> = Inr True"
    "lazy_has_ord_balances example_simple_wallet \<lparr>lz_txid = ''bb'', lz_vout = 0, lz_amount_sat = s, lz_confirmations = c\<rparr> = Inr False"
    by (simp_all add: lazy_get_rune_balance_def lazy_has_ord_balances_def runic_utxos_def inscription_utxos_def lazy_ord_response_def
        example_simple_wallet_def example_simple_ord_def ord_request_def http_ok_def)
qed

text \<open>
  A thousandth of the rune's unit with two digits is no amount at all, and yet it is sent, as an edict of amount 0, which
  by the rules of runes stands for all that is left.
\<close>

lemma example_nothing: "dec_int (dec_mul PRECISION (Dec 1 (- 3)) (dec_of_int 100)) = 0"
  by code_simp

theorem simple_send_runes_balanced_witness:
  "\<exists>v' inputs sat utxos rune_coins fee_coins. simple_send_runes example_simple_wallet (pys ''R'') (Dec 1 (- 3)) ''bc1r''
       \<lparr>w_db = (), w_seqs = (\<lambda>t. 1), w_effects = []\<rparr> = (Inr ''cd'', v') \<and>
     chosen_coins example_simple_wallet (pys ''R'') 0 utxos rune_coins fee_coins inputs sat \<and>
     sl_runestone_script (sw_lib example_simple_wallet) [\<lparr>se_id = 327681, se_amount = 0, se_output = 1\<rparr>] 2 = Inr [2]"
proof -
  let ?run = "simple_send_runes example_simple_wallet (pys ''R'') (Dec 1 (- 3)) ''bc1r'' \<lparr>w_db = (), w_seqs = (\<lambda>t. 1), w_effects = []\<rparr>"
  have rune: "get_rune (sw_ord example_simple_wallet) (pys ''R'') = Inr (Some \<lparr>rr_entry =
        \<lparr>re_spaced_rune = pys ''R'', re_symbol = [], re_divisibility = 2, re_turbo = False\<rparr>, rr_id = ''5:1''\<rparr>)"
    by (simp add: get_rune_def example_simple_wallet_def example_simple_ord_def ord_request_def http_ok_def)
  have ids: "parse_rune_id ''5:1'' = Inr (5, 1)" by code_simp
  have out: "\<exists>p. lazy_outpoint \<lparr>lz_txid = ''aa'', lz_vout = 0, lz_amount_sat = s, lz_confirmations = c\<rparr> = Inr p"
    "\<exists>p. lazy_outpoint \<lparr>lz_txid = ''bb'', lz_vout = 0, lz_amount_sat = s, lz_confirmations = c\<rparr> = Inr p" for s c
    by (simp_all add: lazy_outpoint_def hex_value_def)
  have lib: "sl_script_of (sw_lib example_simple_wallet) = (\<lambda>a. Inr [1])" "sl_rune_id_num (sw_lib example_simple_wallet) = (\<lambda>h i. Inr (h * 65536 + i))"
    "sl_edict (sw_lib example_simple_wallet) = (\<lambda>e. Inr ())" "sl_runestone_script (sw_lib example_simple_wallet) = (\<lambda>es d. Inr [2])"
    "sl_serialize (sw_lib example_simple_wallet) = (\<lambda>tx. Inr ''00'')" "sn_getnewaddress (sw_node example_simple_wallet) = Inr ''bc1c''"
    "sn_signrawtransactionwithwallet (sw_node example_simple_wallet) = (\<lambda>hex. Inr ''01'')"
    "sn_sendrawtransaction (sw_node example_simple_wallet) = (\<lambda>hex. Inr ''cd'')"
    by (simp_all add: example_simple_wallet_def)
  have "\<exists>v'. ?run = (Inr ''cd'', v')"
    using out[of 10000 3] out[of 100000000 3]
    by (auto simp: simple_send_runes_def run_bnd run_sq rune ids lib example_simple_utxos example_balances example_nothing
        generate_address_def TARGET_POSTAGE_def Let_def)
  then obtain v' where run: "?run = (Inr ''cd'', v')" by blast
  obtain inputs sat utxos rune_coins fee_coins where
    "chosen_coins example_simple_wallet (pys ''R'') 0 utxos rune_coins fee_coins inputs sat"
    "sl_runestone_script (sw_lib example_simple_wallet) [\<lparr>se_id = 327681, se_amount = 0, se_output = 1\<rparr>] 2 = Inr [2]"
    using simple_send_runes_balanced[OF run] unfolding rune by (auto simp: example_nothing Let_def ids lib)
  with run show ?thesis by blast
qed

end
