(* ===== verification/Transactions.thy ===== *)
theory Transactions
  imports Prelude
begin

text \<open>
  The transaction manager, from \<^verbatim>\<open>bridge_node/bridge/common/services/transactions.py\<close>,
  and the transaction of an API request, from \<^verbatim>\<open>bridge_node/bridge/api/app.py\<close>. What the
  dependency container and the database session do is a parameter; that a block in a
  transaction is what \<open>in_tx\<close> of theory \<open>Prelude\<close> says is proved from what the session documents.
\<close>

section \<open>Transactions\<close>

text \<open>
  \<open>te_new_container\<close> is \<open>Container(registry, parent)\<close>, \<open>te_get\<close> its method \<open>get\<close>, \<open>te_session\<close>
  that method at the interface \<open>Session\<close>; the state \<open>'w\<close> is that of database and outside world.
\<close>

record ('c, 's, 'w) tx_env =
  te_new_container :: "('w, 'c) prog"
  te_get :: "'c \<Rightarrow> string \<Rightarrow> ('w, string) prog"
  te_session :: "'c \<Rightarrow> ('w, 's) prog"
  te_begin :: "'s \<Rightarrow> ('w, unit) prog"
  te_commit :: "'s \<Rightarrow> ('w, unit) prog"
  te_rollback :: "'s \<Rightarrow> ('w, unit) prog"

record ('c, 's) transaction =
  transaction_container :: "'c option"
  transaction_dbsession :: "'s option"

text \<open>\<open>TransactionManager.transaction()\<close>.\<close>

definition new_transaction :: "('c, 's) transaction" where
  "new_transaction = \<lparr>transaction_container = None, transaction_dbsession = None\<rparr>"

type_synonym ('c, 's, 'w, 'a) tx_prog = "(('c, 's) transaction \<times> 'w, 'a) prog"

text \<open>What a step on the world does next to a transaction, and a change of the transaction.\<close>

definition on_world :: "('w, 'a) prog \<Rightarrow> ('t \<times> 'w, 'a) prog" where
  "on_world m = (\<lambda>(t, w). case m w of (r, w') \<Rightarrow> (r, (t, w')))"

definition set_transaction :: "('t \<Rightarrow> 't) \<Rightarrow> ('t \<times> 'w, unit) prog" where
  "set_transaction f = modify (\<lambda>(t, w). (f t, w))"

definition ensure_transaction :: "('c, 's, 'w, 'c) tx_prog" where
  "ensure_transaction = bnd (reads (\<lambda>s. transaction_container (fst s)))
     (\<lambda>c. case c of None \<Rightarrow> throw RuntimeError | Some c \<Rightarrow> ok c)"

text \<open>A method of \<open>self._dbsession\<close>; of no session it is an attribute of \<open>None\<close>.\<close>

definition on_dbsession :: "('s \<Rightarrow> ('w, unit) prog) \<Rightarrow> ('c, 's, 'w, unit) tx_prog" where
  "on_dbsession m = bnd (reads (\<lambda>s. transaction_dbsession (fst s)))
     (\<lambda>d. case d of None \<Rightarrow> throw AttributeError | Some d \<Rightarrow> on_world (m d))"

definition tx_container :: "('c, 's, 'w, 'c) tx_prog" where
  "tx_container = ensure_transaction"

definition find_service :: "('c, 's, 'w) tx_env \<Rightarrow> string \<Rightarrow> ('c, 's, 'w, string) tx_prog" where
  "find_service env interface = bnd ensure_transaction (\<lambda>c. on_world (te_get env c interface))"

definition tx_begin :: "('c, 's, 'w) tx_env \<Rightarrow> ('c, 's, 'w, unit) tx_prog" where
  "tx_begin env =
     bnd (reads (\<lambda>s. transaction_container (fst s))) (\<lambda>c.
     if c \<noteq> None then throw RuntimeError else
     bnd (on_world (te_new_container env)) (\<lambda>c.
     sq (set_transaction (\<lambda>t. t\<lparr>transaction_container := Some c\<rparr>))
    (bnd (on_world (te_session env c)) (\<lambda>d.
     sq (set_transaction (\<lambda>t. t\<lparr>transaction_dbsession := Some d\<rparr>))
        (on_dbsession (te_begin env))))))"

definition close_transaction :: "('c, 's, 'w, unit) tx_prog" where
  "close_transaction = set_transaction (\<lambda>t. t\<lparr>transaction_container := None, transaction_dbsession := None\<rparr>)"

definition tx_commit :: "('c, 's, 'w) tx_env \<Rightarrow> ('c, 's, 'w, unit) tx_prog" where
  "tx_commit env = bnd ensure_transaction (\<lambda>_. sq (on_dbsession (te_commit env)) close_transaction)"

definition tx_rollback :: "('c, 's, 'w) tx_env \<Rightarrow> ('c, 's, 'w, unit) tx_prog" where
  "tx_rollback env = bnd (reads (\<lambda>s. transaction_container (fst s))) (\<lambda>c.
     if c = None then throw RuntimeError else sq (on_dbsession (te_rollback env)) close_transaction)"

definition tx_exit :: "('c, 's, 'w) tx_env \<Rightarrow> exn option \<Rightarrow> ('c, 's, 'w, unit) tx_prog" where
  "tx_exit env exc = (if exc = None then tx_commit env else tx_rollback env)"

text \<open>\<open>with tx: body\<close>: \<open>__exit__\<close> returns nothing, so that an exception of the body goes on.\<close>

definition with_tx :: "('c, 's, 'w) tx_env \<Rightarrow> ('c, 's, 'w, 'a) tx_prog \<Rightarrow> ('c, 's, 'w, 'a) tx_prog" where
  "with_tx env body = sq (tx_begin env)
     (bnd (catch body (\<lambda>e. sq (tx_exit env (Some e)) (throw e))) (\<lambda>x. sq (tx_exit env None) (ok x)))"

section \<open>The transaction of a request\<close>

text \<open>
  A request keeps its container once it has one (\<open>reify\<close>), and the transaction to finish in the end.
\<close>

record ('c, 's) request =
  request_container :: "'c option"
  request_transaction :: "('c, 's) transaction option"

definition new_request :: "('c, 's) request" where
  "new_request = \<lparr>request_container = None, request_transaction = None\<rparr>"

definition get_request_container :: "('c, 's, 'w) tx_env \<Rightarrow> (('c, 's) request \<times> 'w, 'c) prog" where
  "get_request_container env = (\<lambda>(rq, w). case request_container rq of Some c \<Rightarrow> (Inr c, (rq, w)) | None \<Rightarrow>
     (case tx_begin env (new_transaction, w) of
        (Inl e, (t, w)) \<Rightarrow> (Inl e, (rq, w))
      | (Inr _, (t, w)) \<Rightarrow>
          (let rq = rq\<lparr>request_transaction := Some t\<rparr> in
           case tx_container (t, w) of
             (Inl e, (t, w)) \<Rightarrow> (Inl e, (rq, w))
           | (Inr c, (t, w)) \<Rightarrow> (Inr c, (rq\<lparr>request_container := Some c\<rparr>, w)))))"

text \<open>\<open>commit_callback\<close>, called when the request has finished, with the exception of the request.\<close>

definition commit_callback :: "('c, 's, 'w) tx_env \<Rightarrow> exn option \<Rightarrow> (('c, 's) request \<times> 'w, unit) prog" where
  "commit_callback env exc = (\<lambda>(rq, w). case request_transaction rq of None \<Rightarrow> (Inr (), (rq, w)) | Some t \<Rightarrow>
     (case (if exc \<noteq> None then tx_rollback env else tx_commit env) (t, w) of
        (r, (t, w)) \<Rightarrow> (r, (rq\<lparr>request_transaction := Some t\<rparr>, w))))"

section \<open>What the database session promises\<close>

text \<open>
  The database as it is committed, and the world as the session sees it. A session begins with what is committed; a commit
  that succeeds makes what it sees the committed database, a roll back makes it see the committed database again; each may
  fail, and then nothing is committed.
\<close>

record ('db, 'eff) store =
  st_committed :: 'db
  st_world :: "('db, 'eff) world"

definition on_session :: "(('db, 'eff) world, 'a) prog \<Rightarrow> (('db, 'eff) store, 'a) prog" where
  "on_session m = (\<lambda>w. case m (st_world w) of (r, v) \<Rightarrow> (r, w\<lparr>st_world := v\<rparr>))"

definition see_committed :: "('db, 'eff) store \<Rightarrow> ('db, 'eff) store" where
  "see_committed w = w\<lparr>st_world := (st_world w)\<lparr>w_db := st_committed w\<rparr>\<rparr>"

definition keeps_committed :: "('db, 'eff) store \<Rightarrow> ('db, 'eff) store \<Rightarrow> bool" where
  "keeps_committed w w' \<longleftrightarrow> st_committed w' = st_committed w \<and> w_effects (st_world w') = w_effects (st_world w)"

definition session_laws :: "('c, 's, ('db, 'eff) store) tx_env \<Rightarrow> bool" where
  "session_laws env \<longleftrightarrow>
     (\<forall>w. snd (te_new_container env w) = w) \<and>
     (\<forall>c w. snd (te_session env c w) = w) \<and>
     (\<forall>d w. case te_begin env d w of (Inl e, w') \<Rightarrow> keeps_committed w w' | (Inr _, w') \<Rightarrow> w' = see_committed w) \<and>
     (\<forall>d w. case te_commit env d w of (Inl e, w') \<Rightarrow> keeps_committed w w'
                                  | (Inr _, w') \<Rightarrow> w' = w\<lparr>st_committed := w_db (st_world w)\<rparr>) \<and>
     (\<forall>d w. case te_rollback env d w of (Inl e, w') \<Rightarrow> keeps_committed w w' | (Inr _, w') \<Rightarrow> w' = see_committed w)"

definition session_never_fails :: "('c, 's, 'w) tx_env \<Rightarrow> bool" where
  "session_never_fails env \<longleftrightarrow>
     (\<forall>w e. fst (te_new_container env w) \<noteq> Inl e) \<and> (\<forall>c w e. fst (te_session env c w) \<noteq> Inl e) \<and>
     (\<forall>d w e. fst (te_begin env d w) \<noteq> Inl e) \<and> (\<forall>d w e. fst (te_commit env d w) \<noteq> Inl e) \<and>
     (\<forall>d w e. fst (te_rollback env d w) \<noteq> Inl e)"

section \<open>Lemmas\<close>

lemma run_on_world [prog_simps]: "on_world m (t, w) = (fst (m w), (t, snd (m w)))"
  by (simp add: on_world_def split_beta)

lemma run_set_transaction [prog_simps]: "set_transaction f (t, w) = (Inr (), (f t, w))"
  by (simp add: set_transaction_def)

definition opened :: "'c \<Rightarrow> 's \<Rightarrow> ('c, 's) transaction" where
  "opened c d = \<lparr>transaction_container = Some c, transaction_dbsession = Some d\<rparr>"

lemma opened_simps [simp]:
  "transaction_container (opened c d) = Some c" "transaction_dbsession (opened c d) = Some d"
  "opened c d\<lparr>transaction_container := None, transaction_dbsession := None\<rparr> = new_transaction"
  by (simp_all add: opened_def new_transaction_def)

lemma run_on_dbsession [prog_simps]: "on_dbsession m (opened c d, w) = (fst (m d w), (opened c d, snd (m d w)))"
  by (simp add: on_dbsession_def run_bnd run_on_world)

lemma session_laws_simps:
  assumes "session_laws env"
  shows "snd (te_new_container env w) = w" "snd (te_session env c w) = w"
    "te_begin env d w = (Inr u, w') \<Longrightarrow> w' = see_committed w" "te_begin env d w = (Inl e, w') \<Longrightarrow> keeps_committed w w'"
    "te_commit env d w = (Inr u, w') \<Longrightarrow> w' = w\<lparr>st_committed := w_db (st_world w)\<rparr>"
    "te_commit env d w = (Inl e, w') \<Longrightarrow> keeps_committed w w'"
    "te_rollback env d w = (Inr u, w') \<Longrightarrow> w' = see_committed w" "te_rollback env d w = (Inl e, w') \<Longrightarrow> keeps_committed w w'"
  using assms unfolding session_laws_def by (fastforce split: prod.splits sum.splits dest: spec[of _ w])+

lemma session_never_fails_Inl:
  assumes "session_never_fails env"
  shows "te_new_container env w \<noteq> (Inl e, w')" "te_session env c w \<noteq> (Inl e, w')" "te_begin env d w \<noteq> (Inl e, w')"
    "te_commit env d w \<noteq> (Inl e, w')" "te_rollback env d w \<noteq> (Inl e, w')"
  using assms unfolding session_never_fails_def by (metis fst_conv)+

lemma run_tx_begin:
  "tx_begin env (new_transaction, w) =
    (case te_new_container env w of (Inl e, w) \<Rightarrow> (Inl e, (new_transaction, w)) | (Inr c, w) \<Rightarrow>
    (case te_session env c w of (Inl e, w) \<Rightarrow> (Inl e, (\<lparr>transaction_container = Some c, transaction_dbsession = None\<rparr>, w)) | (Inr d, w) \<Rightarrow>
    (case te_begin env d w of (r, w) \<Rightarrow> (r, (opened c d, w)))))"
  by (simp add: tx_begin_def run_bnd run_sq run_on_world run_set_transaction new_transaction_def opened_def
      run_on_dbsession[unfolded opened_def] split_beta split: sum.splits)

lemma tx_begin_outcome:
  assumes laws: "session_laws env" and run: "tx_begin env (new_transaction, w) = (r, (t, w'))"
  obtains (failed) e where "r = Inl e" "keeps_committed w w'" "\<not> session_never_fails env"
  | (begun) c d where "r = Inr ()" "t = opened c d" "w' = see_committed w"
proof (cases "te_new_container env w")
  case (Pair cr v)
  with session_laws_simps(1)[OF laws, of w] have v: "v = w" by simp
  show ?thesis
  proof (cases cr)
    case (Inl e)
    with Pair v run session_never_fails_Inl(1)[of env w e] show ?thesis
      by (intro failed[of e]) (auto simp: run_tx_begin keeps_committed_def)
  next
    case c: (Inr c)
    show ?thesis
    proof (cases "te_session env c w")
      case s: (Pair dr u)
      with session_laws_simps(2)[OF laws, of c w] have u: "u = w" by simp
      show ?thesis
      proof (cases dr)
        case (Inl e)
        with Pair v c s u run session_never_fails_Inl(2)[of env c w e] show ?thesis
          by (intro failed[of e]) (auto simp: run_tx_begin keeps_committed_def)
      next
        case (Inr d)
        obtain br x where b: "te_begin env d w = (br, x)" by (cases "te_begin env d w")
        with Pair v c s u Inr run have eq: "r = br" "t = opened c d" "w' = x" by (simp_all add: run_tx_begin)
        show ?thesis
        proof (cases br)
          case (Inl e)
          with b eq session_laws_simps(4)[OF laws] session_never_fails_Inl(3)[of env d w e x] show ?thesis by (intro failed[of e]) auto
        next
          case (Inr _)
          with b eq session_laws_simps(3)[OF laws] show ?thesis by (intro begun[of c d]) auto
        qed
      qed
    qed
  qed
qed

lemma run_tx_commit:
  "tx_commit env (opened c d, w) = (case te_commit env d w of
     (Inl e, w) \<Rightarrow> (Inl e, (opened c d, w)) | (Inr _, w) \<Rightarrow> (Inr (), (new_transaction, w)))"
  by (simp add: tx_commit_def ensure_transaction_def close_transaction_def run_bnd run_sq run_on_dbsession run_set_transaction
      split_beta split: sum.splits)

lemma run_tx_rollback:
  "tx_rollback env (opened c d, w) = (case te_rollback env d w of
     (Inl e, w) \<Rightarrow> (Inl e, (opened c d, w)) | (Inr _, w) \<Rightarrow> (Inr (), (new_transaction, w)))"
  by (simp add: tx_rollback_def close_transaction_def run_bnd run_sq run_on_dbsession run_set_transaction
      split_beta split: sum.splits)

lemma tx_commit_outcome:
  assumes laws: "session_laws env" and run: "tx_commit env (opened c d, w) = (r, (t, w'))"
  obtains (failed) e where "r = Inl e" "keeps_committed w w'" "\<not> session_never_fails env"
  | (committed) "r = Inr ()" "t = new_transaction" "w' = w\<lparr>st_committed := w_db (st_world w)\<rparr>"
proof (cases "te_commit env d w")
  case (Pair cr v)
  show ?thesis
  proof (cases cr)
    case (Inl e)
    with Pair run session_laws_simps(6)[OF laws, of d w e v] session_never_fails_Inl(4)[of env d w e v] show ?thesis
      by (intro failed[of e]) (auto simp: run_tx_commit)
  next
    case (Inr u)
    with Pair run session_laws_simps(5)[OF laws, of d w u v] show ?thesis by (intro committed) (auto simp: run_tx_commit)
  qed
qed

lemma tx_rollback_outcome:
  assumes laws: "session_laws env" and run: "tx_rollback env (opened c d, w) = (r, (t, w'))"
  obtains (failed) e where "r = Inl e" "keeps_committed w w'" "\<not> session_never_fails env"
  | (rolled_back) "r = Inr ()" "t = new_transaction" "w' = see_committed w"
proof (cases "te_rollback env d w")
  case (Pair cr v)
  show ?thesis
  proof (cases cr)
    case (Inl e)
    with Pair run session_laws_simps(8)[OF laws, of d w e v] session_never_fails_Inl(5)[of env d w e v] show ?thesis
      by (intro failed[of e]) (auto simp: run_tx_rollback)
  next
    case (Inr u)
    with Pair run session_laws_simps(7)[OF laws, of d w u v] show ?thesis by (intro rolled_back) (auto simp: run_tx_rollback)
  qed
qed

lemma run_on_session: "m (st_world w) = (r, v) \<Longrightarrow> on_session m w = (r, w\<lparr>st_world := v\<rparr>)"
  by (simp add: on_session_def)

section \<open>A block in a transaction\<close>

text \<open>
  C11. A block \<open>with transaction_manager.transaction(): m\<close> is \<open>in_tx m\<close>, run on what is
  committed: it returns or raises what \<open>in_tx m\<close> does, leaves the world that \<open>in_tx m\<close> leaves, what is
  committed is that world's database, and the transaction is closed; or a call of the session failed, and then the
  block raises, nothing is committed, and the outside world has seen nothing or what \<open>m\<close> did to it.
\<close>

theorem with_tx_refines_in_tx:
  assumes laws: "session_laws env"
    and run: "with_tx env (on_world (on_session m)) (new_transaction, w) = (r, (t, w'))"
  shows "(r, st_world w') = in_tx m (st_world (see_committed w)) \<and> st_committed w' = w_db (st_world w') \<and> t = new_transaction \<or>
    (\<exists>e. r = Inl e) \<and> \<not> session_never_fails env \<and> st_committed w' = st_committed w \<and>
      (w_effects (st_world w') = w_effects (st_world w) \<or>
       w_effects (st_world w') = w_effects (snd (m (st_world (see_committed w)))))"
proof -
  obtain br bt bw where b: "tx_begin env (new_transaction, w) = (br, (bt, bw))" by (cases "tx_begin env (new_transaction, w)") auto
  from laws b show ?thesis
  proof (cases rule: tx_begin_outcome)
    case (failed e)
    with run b show ?thesis by (auto simp: with_tx_def run_sq keeps_committed_def)
  next
    case (begun c d)
    obtain mr v where m: "m (st_world (see_committed w)) = (mr, v)" by (cases "m (st_world (see_committed w))")
    have body: "on_world (on_session m) (opened c d, see_committed w) = (mr, (opened c d, see_committed w\<lparr>st_world := v\<rparr>))"
      by (simp add: run_on_world run_on_session[of m "see_committed w", OF m])
    have seen: "st_committed (see_committed w) = st_committed w" "w_db (st_world (see_committed w)) = st_committed w"
      by (simp_all add: see_committed_def)
    let ?after = "see_committed w\<lparr>st_world := v\<rparr>"
    show ?thesis
    proof (cases mr)
      case (Inl e)
      obtain cr ct cw where c: "tx_rollback env (opened c d, ?after) = (cr, (ct, cw))"
        by (cases "tx_rollback env (opened c d, ?after)") auto
      then have eq: "r = (case cr of Inl e' \<Rightarrow> Inl e' | Inr _ \<Rightarrow> Inl e)" "t = ct" "w' = cw"
        using run b begun body Inl by (simp_all add: with_tx_def run_sq run_bnd run_catch tx_exit_def split: sum.splits)
      from laws c show ?thesis
        by (cases rule: tx_rollback_outcome) (simp_all add: eq m m[unfolded see_committed_def, simplified] seen Inl run_in_tx see_committed_def keeps_committed_def)
    next
      case (Inr x)
      obtain cr ct cw where c: "tx_commit env (opened c d, ?after) = (cr, (ct, cw))"
        by (cases "tx_commit env (opened c d, ?after)") auto
      then have eq: "r = (case cr of Inl e' \<Rightarrow> Inl e' | Inr _ \<Rightarrow> Inr x)" "t = ct" "w' = cw"
        using run b begun body Inr by (simp_all add: with_tx_def run_sq run_bnd run_catch tx_exit_def split: sum.splits)
      from laws c show ?thesis
        by (cases rule: tx_commit_outcome) (simp_all add: eq m m[unfolded see_committed_def, simplified] seen Inr run_in_tx see_committed_def keeps_committed_def)
    qed
  qed
qed

section \<open>The transaction of a request\<close>

lemma run_request_container:
  "get_request_container env (new_request, w) = (case tx_begin env (new_transaction, w) of
     (Inl e, (t, w)) \<Rightarrow> (Inl e, (new_request, w))
   | (Inr _, (t, w)) \<Rightarrow> (case transaction_container t of
        None \<Rightarrow> (Inl RuntimeError, (\<lparr>request_container = None, request_transaction = Some t\<rparr>, w))
      | Some c \<Rightarrow> (Inr c, (\<lparr>request_container = Some c, request_transaction = Some t\<rparr>, w))))"
  by (simp add: get_request_container_def new_request_def tx_container_def ensure_transaction_def run_bnd Let_def
      split: prod.splits sum.splits option.splits)

lemma run_request_container_again:
  "get_request_container env (\<lparr>request_container = Some c, request_transaction = t\<rparr>, w) =
     (Inr c, (\<lparr>request_container = Some c, request_transaction = t\<rparr>, w))"
  by (simp add: get_request_container_def)

lemma request_container_outcome:
  assumes laws: "session_laws env" and run: "get_request_container env (new_request, w) = (r, (rq, w'))"
  obtains (failed) e where "r = Inl e" "rq = new_request" "keeps_committed w w'" "\<not> session_never_fails env"
  | (begun) c d where "r = Inr c" "rq = \<lparr>request_container = Some c, request_transaction = Some (opened c d)\<rparr>" "w' = see_committed w"
proof -
  obtain br bt bw where b: "tx_begin env (new_transaction, w) = (br, (bt, bw))" by (cases "tx_begin env (new_transaction, w)") auto
  from laws b show thesis
  proof (cases rule: tx_begin_outcome)
    case (failed e)
    with run b show ?thesis by (intro that(1)[of e]) (simp_all add: run_request_container)
  next
    case (begun c d)
    with run b show ?thesis by (intro that(2)[of c d]) (simp_all add: run_request_container)
  qed
qed

text \<open>
  C19. The transaction of a request. The first view that asks for the container begins a transaction, and then sees what is
  committed; whoever asks again during the request gets the same container and begins nothing. Whatever the
  views then do, leaving the session's world as \<open>v\<close>: when the request has finished, the callback commits their changes if no exception was
  raised and drops all of them if one was, keeping the effects on the outside in either case; if that
  fails nothing is committed at all. A request whose transaction could not begin has changed nothing, and its callback does nothing.
\<close>

theorem request_is_atomic:
  assumes laws: "session_laws env"
    and opened: "get_request_container env (new_request, w) = (r, (rq, w1))"
    and finished: "commit_callback env exc (rq, w1\<lparr>st_world := v\<rparr>) = (q, (rq', w'))"
  shows "(\<exists>c. r = Inr c \<and> w1 = see_committed w \<and> (\<forall>x. get_request_container env (rq, x) = (Inr c, (rq, x))) \<and>
      w_effects (st_world w') = w_effects v \<and>
      (if q = Inr () then st_committed w' = (if exc = None then w_db v else st_committed w)
       else st_committed w' = st_committed w \<and> \<not> session_never_fails env)) \<or>
    (\<exists>e. r = Inl e \<and> st_committed w' = st_committed w \<and> q = Inr () \<and> w' = w1\<lparr>st_world := v\<rparr> \<and> \<not> session_never_fails env)"
  using laws opened
proof (cases rule: request_container_outcome)
  case (failed e)
  then have "q = Inr ()" "w' = w1\<lparr>st_world := v\<rparr>"
    using finished by (simp_all add: commit_callback_def new_request_def)
  with failed show ?thesis by (simp add: keeps_committed_def)
next
  case (begun c d)
  have again: "get_request_container env (rq, x) = (Inr c, (rq, x))" for x
    by (simp add: begun run_request_container_again)
  let ?after = "see_committed w\<lparr>st_world := v\<rparr>"
  show ?thesis
  proof (cases exc)
    case None
    obtain cr ct cw where c: "tx_commit env (opened c d, ?after) = (cr, (ct, cw))" by (cases "tx_commit env (opened c d, ?after)") auto
    have eq: "q = cr" "w' = cw" using finished c None by (simp_all add: begun commit_callback_def)
    from laws c show ?thesis
      by (cases rule: tx_commit_outcome) (use None in \<open>simp_all add: eq begun(1,3) again keeps_committed_def see_committed_def\<close>)
  next
    case (Some e)
    obtain cr ct cw where c: "tx_rollback env (opened c d, ?after) = (cr, (ct, cw))" by (cases "tx_rollback env (opened c d, ?after)") auto
    have eq: "q = cr" "w' = cw" using finished c Some by (simp_all add: begun commit_callback_def)
    from laws c show ?thesis
      by (cases rule: tx_rollback_outcome) (use Some in \<open>simp_all add: eq begun(1,3) again keeps_committed_def see_committed_def\<close>)
  qed
qed

text \<open>Outside of \<open>begin\<close> and \<open>commit\<close> a transaction refuses everything but \<open>begin\<close>, and inside only \<open>begin\<close>.\<close>

lemma transaction_misuse:
  "tx_container (new_transaction, w) = (Inl RuntimeError, (new_transaction, w))"
  "find_service env interface (new_transaction, w) = (Inl RuntimeError, (new_transaction, w))"
  "tx_commit env (new_transaction, w) = (Inl RuntimeError, (new_transaction, w))"
  "tx_rollback env (new_transaction, w) = (Inl RuntimeError, (new_transaction, w))"
  "tx_begin env (opened c d, w) = (Inl RuntimeError, (opened c d, w))"
  by (simp_all add: tx_container_def find_service_def tx_commit_def tx_rollback_def tx_begin_def ensure_transaction_def
      run_bnd new_transaction_def)

section \<open>Instances\<close>

text \<open>A session that never fails, on a database that is a number, and a body that raises after a change and an effect.\<close>

definition example_tx_env :: "(unit, unit, (nat, string) store) tx_env" where
  "example_tx_env = \<lparr>te_new_container = ok (), te_get = (\<lambda>c i. ok i), te_session = (\<lambda>c. ok ()),
     te_begin = (\<lambda>d. modify see_committed), te_commit = (\<lambda>d. modify (\<lambda>w. w\<lparr>st_committed := w_db (st_world w)\<rparr>)),
     te_rollback = (\<lambda>d. modify see_committed)\<rparr>"

lemma example_session: "session_laws example_tx_env" "session_never_fails example_tx_env"
  by (simp_all add: session_laws_def session_never_fails_def example_tx_env_def)

definition example_store :: "(nat, string) store" where
  "example_store = \<lparr>st_committed = 5, st_world = \<lparr>w_db = 3, w_seqs = (\<lambda>_. 1), w_effects = []\<rparr>\<rparr>"

definition example_tx_body :: "((nat, string) world, nat) prog" where
  "example_tx_body = sq (db_put Suc) (sq (emit ''sent'') (throw ValueError))"

theorem with_tx_refines_in_tx_witness:
  "\<exists>r t w'. with_tx example_tx_env (on_world (on_session example_tx_body)) (new_transaction, example_store) = (r, (t, w')) \<and>
     r = Inl ValueError \<and> st_committed w' = 5 \<and> w_effects (st_world w') = [''sent''] \<and> t = new_transaction"
proof -
  obtain r t w' where run: "with_tx example_tx_env (on_world (on_session example_tx_body)) (new_transaction, example_store) = (r, (t, w'))"
    by (cases "with_tx example_tx_env (on_world (on_session example_tx_body)) (new_transaction, example_store)") auto
  have "in_tx example_tx_body (st_world (see_committed example_store)) =
      (Inl ValueError, \<lparr>w_db = 5, w_seqs = (\<lambda>_. 1), w_effects = [''sent'']\<rparr>)"
    by (simp add: run_in_tx example_tx_body_def run_sq see_committed_def example_store_def)
  with with_tx_refines_in_tx[OF example_session(1) run] example_session(2) run show ?thesis by auto
qed

theorem request_is_atomic_witness:
  "\<exists>rq w1 rq' w'. get_request_container example_tx_env (new_request, example_store) = (Inr (), (rq, w1)) \<and>
     commit_callback example_tx_env (Some ValueError) (rq, w1\<lparr>st_world := snd (example_tx_body (st_world w1))\<rparr>) = (Inr (), (rq', w')) \<and>
     st_committed w' = 5 \<and> w_effects (st_world w') = [''sent'']"
proof -
  obtain r rq w1 where opened: "get_request_container example_tx_env (new_request, example_store) = (r, (rq, w1))"
    by (cases "get_request_container example_tx_env (new_request, example_store)") auto
  let ?v = "snd (example_tx_body (st_world w1))"
  obtain q rq' w' where finished: "commit_callback example_tx_env (Some ValueError) (rq, w1\<lparr>st_world := ?v\<rparr>) = (q, (rq', w'))"
    by (cases "commit_callback example_tx_env (Some ValueError) (rq, w1\<lparr>st_world := ?v\<rparr>)") auto
  from request_is_atomic[OF example_session(1) opened finished] example_session(2)
  have out: "r = Inr ()" "w1 = see_committed example_store" "w_effects (st_world w') = w_effects ?v"
    "q = Inr ()" "st_committed w' = st_committed example_store"
    by (auto split: if_splits)
  have "w_effects ?v = [''sent'']"
    by (simp add: out(2) example_tx_body_def run_sq see_committed_def example_store_def)
  with opened finished out show ?thesis by (auto simp: example_store_def)
qed

end
