(* ===== verification/Api.thy ===== *)
theory Api
  imports Deposit_Scan Tap_Scan Tap_Transfers Transactions
begin

text \<open>
  The HTTP API, from \<^verbatim>\<open>bridge_node/bridge/api/views.py\<close>, \<^verbatim>\<open>bridge_node/bridge/bridges/runes/views.py\<close> and,
  its client, \<^verbatim>\<open>bridge_node/bridge/api_client/__init__.py\<close>, and \<^verbatim>\<open>bridge_node/bridge/cors.py\<close>. A view is a program on the
  world of its bridge; what a request carries, the EVM node and \<open>eth_utils\<close> are parameters. The database
  transaction around a request is in theory \<open>Transactions\<close>.
\<close>

section \<open>The views of the Tap bridge\<close>

fun json_str :: "pyval \<Rightarrow> exn + string" where
  "json_str (PStr s) = Inr s"
| "json_str _ = Inl TypeError"

text \<open>
  The configuration of the views is a parameter, for the class says only of which type it is: what reading the attribute
  \<open>config\<close> gives, which is an exception if nothing has set it.
\<close>

record api_config =
  ac_enabled_bridges :: "string list"

record api_env =
  ae_lib :: tap_lib
  ae_registry :: asset_registry
  ae_client :: tap_client
  ae_server :: tap_server
  ae_is_hex :: "pyval \<Rightarrow> exn + bool"
  ae_is_hex_address :: "pyval \<Rightarrow> exn + bool"
  ae_is_connected :: "exn + bool"
  ae_get_code :: "exn + nat list"
  ae_is_federator :: "exn + bool"

definition is_bridge_enabled :: "exn + api_config \<Rightarrow> string \<Rightarrow> exn + bool" where
  "is_bridge_enabled config name = rbind config (\<lambda>config.
     Inr (''all'' \<in> set (ac_enabled_bridges config) \<or> name \<in> set (ac_enabled_bridges config)))"

definition stats_answer :: "bool \<Rightarrow> string option \<Rightarrow> pyval" where
  "stats_answer healthy reason =
     PDict [(''is_healthy'', PBool healthy), (''reason'', case reason of None \<Rightarrow> PNone | Some r \<Rightarrow> PStr r)]"

definition stats :: "api_env \<Rightarrow> exn + api_config \<Rightarrow> exn + pyval" where
  "stats env config =
     rbind (ae_is_connected env) (\<lambda>connected.
     if \<not> connected then Inr (stats_answer False (Some ''No connection to EVM node'')) else
     rbind (is_bridge_enabled config ''taprsk'') (\<lambda>enabled.
     if \<not> enabled then Inr (stats_answer True None) else
     rbind (ae_get_code env) (\<lambda>code.
     if code = [] then Inr (stats_answer False (Some ''Tap Bridge contract not deployed'')) else
     rbind (ae_is_federator env) (\<lambda>federator.
     if \<not> federator then Inr (stats_answer False (Some ''Not a federator (tap bridge)''))
     else Inr (stats_answer True None)))))"

text \<open>
  A query by a column that is a string: comparing it with \<open>None\<close> selects no row of a column that is never null, with any
  other JSON value it is an error of the database.
\<close>

definition by_text_column :: "pyval \<Rightarrow> (string \<Rightarrow> 'a list tap_prog) \<Rightarrow> 'a list tap_prog" where
  "by_text_column v query = (case v of PStr s \<Rightarrow> query s | PNone \<Rightarrow> in_tx (ok []) | _ \<Rightarrow> in_tx (throw (External ''sql'')))"

definition shown_transfer :: "int \<Rightarrow> pyval \<Rightarrow> string \<Rightarrow> pyval" where
  "shown_transfer db_id address status = PDict [(''id'', PInt db_id), (''address'', address), (''status'', PStr status)]"

definition require_tap_bridge :: "exn + api_config \<Rightarrow> unit tap_prog" where
  "require_tap_bridge config = bnd (lift_res (is_bridge_enabled config ''taprsk'')) (\<lambda>enabled. demand enabled ApiException)"

text \<open>\<open>self.request.json_body\<close> is the argument \<open>body\<close>, an exception if the body is no JSON.\<close>

definition tap_to_rsk_transfers :: "exn + api_config \<Rightarrow> exn + pyval \<Rightarrow> pyval tap_prog" where
  "tap_to_rsk_transfers config body =
     sq (require_tap_bridge config)
    (bnd (lift_res body) (\<lambda>data.
     bnd (lift_res (json_get data ''address'')) (\<lambda>address.
     bnd (by_text_column address (\<lambda>s. ttr_transfers_by_address (PStr s))) (\<lambda>transfers.
     ok (PDict [(''transfers'', PList (map (\<lambda>(address, i, status).
       shown_transfer i address (ttr_status_to_str status)) transfers))])))))"

definition rsk_to_tap_transfers :: "exn + api_config \<Rightarrow> exn + pyval \<Rightarrow> pyval tap_prog" where
  "rsk_to_tap_transfers config body =
     sq (require_tap_bridge config)
    (bnd (lift_res body) (\<lambda>data.
     bnd (lift_res (json_get data ''address'')) (\<lambda>address.
     bnd (by_text_column address rtt_transfers_by_address) (\<lambda>transfers.
     ok (PDict [(''transfers'', PList (map (\<lambda>(address, i, status).
       shown_transfer i (PStr address) (rtt_status_to_str (Some status))) transfers))])))))"

definition given :: "pyval \<Rightarrow> bool" where
  "given v \<longleftrightarrow> v \<noteq> PNone"

text \<open>\<open>v is not None and not p(v)\<close> raises \<open>ApiException\<close>.\<close>

definition check_given :: "(pyval \<Rightarrow> exn + bool) \<Rightarrow> pyval \<Rightarrow> exn + unit" where
  "check_given p v = (if given v then rbind (p v) (\<lambda>b. if b then Inr () else Inl ApiException) else Inr ())"

text \<open>\<open>int(v)\<close> of what is given, in the \<open>try\<close> that makes an \<open>ApiException\<close> of a \<open>ValueError\<close> only.\<close>

definition optional_int :: "pyval \<Rightarrow> exn + int option" where
  "optional_int v = (if given v then
       (case py_int v of Inr n \<Rightarrow> Inr (Some n) | Inl e \<Rightarrow> Inl (if e = ValueError then ApiException else e))
     else Inr None)"

definition optional_str :: "pyval \<Rightarrow> exn + string option" where
  "optional_str v = (if given v then rbind (json_str v) (\<lambda>s. Inr (Some s)) else Inr None)"

definition api_generate_tap_deposit_address :: "api_env \<Rightarrow> exn + api_config \<Rightarrow> exn + pyval \<Rightarrow> pyval tap_prog" where
  "api_generate_tap_deposit_address env config body =
     sq (require_tap_bridge config)
    (bnd (lift_res body) (\<lambda>data.
     bnd (lift_res (json_get data ''rsk_address'')) (\<lambda>rsk_address.
     sq (demand (truthy rsk_address) ApiException)
    (sq (lift_res (check_given (ae_is_hex_address env) rsk_address))
    (bnd (lift_res (json_get data ''rsk_token_address'')) (\<lambda>rsk_token_address.
     sq (lift_res (check_given (ae_is_hex_address env) rsk_token_address))
    (bnd (lift_res (json_get data ''tap_asset_id'')) (\<lambda>tap_asset_id.
     sq (lift_res (check_given (ae_is_hex env) tap_asset_id))
    (sq (demand (truthy tap_asset_id \<or> truthy rsk_token_address) ApiException)
    (sq (demand (\<not> (truthy tap_asset_id \<and> truthy rsk_token_address)) ApiException)
    (bnd (lift_res (json_get data ''tap_amount'')) (\<lambda>tap_amount.
     bnd (lift_res (json_get data ''rsk_amount'')) (\<lambda>rsk_amount.
     sq (demand (\<not> (given rsk_amount \<and> given tap_amount)) ApiException)
    (sq (demand (truthy rsk_amount \<or> truthy tap_amount) ApiException)
    (bnd (lift_res (optional_int rsk_amount)) (\<lambda>rsk_amount.
     bnd (lift_res (optional_int tap_amount)) (\<lambda>tap_amount.
     bnd (lift_res (json_str rsk_address)) (\<lambda>rsk_address.
     bnd (lift_res (optional_str tap_asset_id)) (\<lambda>tap_asset_id.
     bnd (lift_res (optional_str rsk_token_address)) (\<lambda>rsk_token_address.
     bnd (generate_tap_deposit_address (ae_lib env) (ae_registry env) (ae_client env) (ae_server env)
            rsk_address tap_amount tap_asset_id rsk_amount rsk_token_address) (\<lambda>address.
     ok (PDict [(''deposit_address'', tda_tap_address address)]))))))))))))))))))))))"

section \<open>The views of the Rune bridge\<close>

record rune_endpoint =
  ep_service :: rune_service
  ep_eth :: eth_utils
  ep_derive_address :: "int \<Rightarrow> string"
  ep_node :: deposit_node

record rune_api =
  ra_runesrsk :: rune_endpoint
  ra_runesbob :: rune_endpoint

record rune_views =
  rv_bridge_id :: int
  rv_bridge_name :: string

text \<open>The constructor; \<open>runes\<close> is the old name of \<open>runesrsk\<close>.\<close>

definition rune_views_init :: "string \<Rightarrow> rune_views rune_prog" where
  "rune_views_init name =
     (let name = (if name = ''runes'' then ''runesrsk'' else name) in
      bnd (query_first db_bridges (\<lambda>b. br_name b = name)) (\<lambda>bridge.
      case bridge of None \<Rightarrow> throw HTTPNotFound | Some b \<Rightarrow> ok \<lparr>rv_bridge_id = br_id b, rv_bridge_name = name\<rparr>))"

definition rune_get_service :: "rune_api \<Rightarrow> rune_views \<Rightarrow> exn + rune_endpoint" where
  "rune_get_service api views =
     (if rv_bridge_name views = ''runesrsk'' then Inr (ra_runesrsk api)
      else if rv_bridge_name views = ''runesbob'' then Inr (ra_runesbob api)
      else Inl ApiException)"

definition rune_api_generate_deposit_address :: "rune_api \<Rightarrow> rune_views \<Rightarrow> exn + pyval \<Rightarrow> string rune_prog" where
  "rune_api_generate_deposit_address api views body =
     bnd (lift_res body) (\<lambda>data.
     bnd (lift_res (json_get data ''evm_address'')) (\<lambda>evm_address.
     sq (demand (truthy evm_address) ApiException)
    (bnd (lift_res (rune_get_service api views)) (\<lambda>ep.
     bnd (lift_res (json_str evm_address)) (\<lambda>evm_address.
     generate_deposit_address (ep_service ep) (ep_eth ep) (ep_derive_address ep) evm_address)))))"

definition rune_api_last_scanned_block :: "rune_api \<Rightarrow> rune_views \<Rightarrow> jval rune_prog" where
  "rune_api_last_scanned_block api views =
     bnd (lift_res (rune_get_service api views)) (\<lambda>ep. get_last_scanned_bitcoin_block (ep_service ep))"

definition rune_api_deposits :: "rune_api \<Rightarrow> rune_views \<Rightarrow> string \<Rightarrow> string \<Rightarrow> rune_db \<Rightarrow> (block_caches, api_dict list) prog" where
  "rune_api_deposits api views evm_address lastblock db =
     bnd (lift_res (rune_get_service api views)) (\<lambda>ep.
     get_pending_deposits_for_evm_address (ep_service ep) (ep_eth ep) (ep_node ep) evm_address lastblock db)"

section \<open>The client\<close>

record http_answer =
  ha_status :: nat
  ha_json :: "exn + pyval"

text \<open>
  The result of a request is an exception or an answer, \<open>ConnectionError\<close> is \<open>External ''ConnectionError''\<close>, and
  \<open>raise_for_status\<close> raises for the statuses from 400 on.
\<close>

definition is_healthy :: "exn + http_answer \<Rightarrow> exn + bool" where
  "is_healthy response = (case response of
       Inl e \<Rightarrow> if e = External ''ConnectionError'' then Inr False else Inl e
     | Inr r \<Rightarrow> if ha_status r \<noteq> 200 then Inr False else
         (case ha_json r of
            Inl e \<Rightarrow> if e = ValueError then Inr False else Inl e
          | Inr data \<Rightarrow>
              rbind (json_get data ''is_healthy'') (\<lambda>healthy.
              rbind (json_get data ''reason'') (\<lambda>reason.
              Inr (truthy healthy)))))"

definition raise_for_status :: "http_answer \<Rightarrow> exn + unit" where
  "raise_for_status r = (if ha_status r \<ge> 400 then Inl (External ''HTTPError'') else Inr ())"

text \<open>\<open>response.json()[key]\<close>.\<close>

definition answer_item :: "exn + http_answer \<Rightarrow> string \<Rightarrow> exn + pyval" where
  "answer_item response k =
     rbind response (\<lambda>r. rbind (raise_for_status r) (\<lambda>_. rbind (ha_json r) (\<lambda>data. item data k)))"

definition optional_json :: "('a \<Rightarrow> pyval) \<Rightarrow> 'a option \<Rightarrow> pyval" where
  "optional_json f v = (case v of None \<Rightarrow> PNone | Some x \<Rightarrow> f x)"

definition client_generate_tap_deposit_address ::
  "(string \<Rightarrow> pyval \<Rightarrow> exn + http_answer) \<Rightarrow> string \<Rightarrow> string \<Rightarrow> string option \<Rightarrow> int option \<Rightarrow> string option \<Rightarrow> int option \<Rightarrow> exn + pyval" where
  "client_generate_tap_deposit_address post base_url rsk_address tap_asset_id tap_amount rsk_token_address rsk_amount =
     answer_item (post (base_url @ ''/api/v1/tap/deposit-addresses/'')
       (PDict [(''tap_asset_id'', optional_json PStr tap_asset_id), (''tap_amount'', optional_json PInt tap_amount),
               (''rsk_address'', PStr rsk_address), (''rsk_token_address'', optional_json PStr rsk_token_address),
               (''rsk_amount'', optional_json PInt rsk_amount)])) ''deposit_address''"

definition client_get_transfers :: "(string \<Rightarrow> pyval \<Rightarrow> exn + http_answer) \<Rightarrow> string \<Rightarrow> string \<Rightarrow> string \<Rightarrow> exn + pyval" where
  "client_get_transfers post base_url address transfer_type =
     answer_item (post (base_url @ ''/api/v1/'' @ (if transfer_type = ''tap_to_rsk'' then ''tap'' else ''rsk'') @ ''/transfers/'')
       (PDict [(''address'', PStr address)])) ''transfers''"

definition client_generate_rune_deposit_address :: "(string \<Rightarrow> pyval \<Rightarrow> exn + http_answer) \<Rightarrow> string \<Rightarrow> string \<Rightarrow> string \<Rightarrow> exn + pyval" where
  "client_generate_rune_deposit_address post base_url evm_address name =
     answer_item (post (base_url @ ''/api/v1/'' @ name @ ''/deposit-addresses/'')
       (PDict [(''evm_address'', PStr evm_address)])) ''deposit_address''"

section \<open>Cross-origin headers\<close>

text \<open>
  From \<^verbatim>\<open>bridge_node/bridge/cors.py\<close>; header names in the spelling of the code, which the framework compares
  without regard to case.
\<close>

definition is_cors_preflight :: "bool \<Rightarrow> string \<Rightarrow> (string \<times> string) list \<Rightarrow> bool" where
  "is_cors_preflight val method headers \<longleftrightarrow> val \<and> method = ''OPTIONS'' \<and> map_of headers ''Origin'' \<noteq> None \<and>
     map_of headers ''Access-Control-Request-Method'' \<noteq> None"

definition add_cors_to_response :: "(string \<times> string) list \<Rightarrow> (string \<times> string) list \<Rightarrow> (string \<times> string) list" where
  "add_cors_to_response request_headers headers =
     (case map_of request_headers ''Origin'' of None \<Rightarrow> headers | Some origin \<Rightarrow>
        dict_set ''Access-Control-Allow-Credentials'' ''true''
       (dict_set ''Access-Control-Allow-Origin'' origin
       (dict_set ''Access-Control-Expose-Headers''
          ''Content-Type,Date,Content-Length,Authorization,X-Request-ID,Set-Cookie,Cookie,Content-Disposition'' headers)))"

definition cors_options_view :: "(string \<times> string) list \<Rightarrow> (string \<times> string) list \<Rightarrow> (string \<times> string) list" where
  "cors_options_view request_headers headers =
     dict_set ''Access-Control-Allow-Headers''
       ''Content-Type,Accept,Accept-Language,Authorization,X-Request-ID,Set-Cookie,Cookie,Content-Disposition''
     (if map_of request_headers ''Access-Control-Request-Headers'' \<noteq> None
      then dict_set ''Access-Control-Allow-Methods'' ''OPTIONS,HEAD,GET,POST,PUT,DELETE'' headers else headers)"

section \<open>What an answer with a deposit address promises\<close>

lemma optional_strD:
  "optional_str v = Inr None \<Longrightarrow> v = PNone"
  "optional_str v = Inr (Some s) \<Longrightarrow> v = PStr s"
  by (cases v; simp add: optional_str_def given_def)+

lemma optional_intD:
  "optional_int v = Inr None \<Longrightarrow> v = PNone"
  "optional_int v = Inr (Some n) \<Longrightarrow> given v \<and> py_int v = Inr n"
  by (auto simp: optional_int_def given_def split: if_splits sum.splits)

lemma check_givenD: "check_given p v = Inr () \<Longrightarrow> given v \<Longrightarrow> p v = Inr True"
  by (auto simp: check_given_def rbind_eq_Inr split: if_splits)

text \<open>
  What a request asks for: an asset by exactly one of its two names, in hex, and exactly one of the two amounts.
\<close>

definition asks_for_asset :: "api_env \<Rightarrow> pyval \<Rightarrow> bridgeable_asset \<Rightarrow> bool" where
  "asks_for_asset env data asset \<longleftrightarrow>
     (\<exists>i. json_get data ''tap_asset_id'' = Inr (PStr i) \<and> i \<noteq> [] \<and> ae_is_hex env (PStr i) = Inr True \<and>
        json_get data ''rsk_token_address'' = Inr PNone \<and>
        get_bridgeable_asset (ae_lib env) (ae_registry env) None
          (Some (if take 2 i = ''0x'' then tl_remove_0x_prefix (ae_lib env) i else i)) = Inr asset) \<or>
     (\<exists>k. json_get data ''rsk_token_address'' = Inr (PStr k) \<and> k \<noteq> [] \<and> ae_is_hex_address env (PStr k) = Inr True \<and>
        json_get data ''tap_asset_id'' = Inr PNone \<and>
        get_bridgeable_asset (ae_lib env) (ae_registry env) (Some k) None = Inr asset)"

definition asks_for_amount :: "pyval \<Rightarrow> int \<Rightarrow> int \<Rightarrow> bool" where
  "asks_for_amount data tap_amount rsk_amount \<longleftrightarrow>
     (\<exists>v. json_get data ''tap_amount'' = Inr v \<and> py_int v = Inr tap_amount \<and> json_get data ''rsk_amount'' = Inr PNone) \<or>
     (\<exists>v. json_get data ''rsk_amount'' = Inr v \<and> py_int v = Inr rsk_amount \<and> json_get data ''tap_amount'' = Inr PNone)"

text \<open>
  C33. Whoever is given a Tap deposit address has asked for it properly: the bridge is enabled, the user's
  address is a hex address, the request names one asset, in one way, and one amount. And the address is the daemon's, for
  that asset and the Tap amount; the one row that is stored is of the user's checksummed address, and its two amounts are the one that
  was asked for and the other one, related by the divisor of the contract without a remainder.
\<close>

theorem tap_address_answer_sound:
  assumes "api_generate_tap_deposit_address env config body w = (Inr answer, w')"
  shows "\<exists>c data user asset response a.
    config = Inr c \<and> (''all'' \<in> set (ac_enabled_bridges c) \<or> ''taprsk'' \<in> set (ac_enabled_bridges c)) \<and> body = Inr data \<and>
    json_get data ''rsk_address'' = Inr (PStr user) \<and> ae_is_hex_address env (PStr user) = Inr True \<and>
    asks_for_asset env data asset \<and> asks_for_amount data (tda_tap_amount a) (tda_rsk_amount a) \<and>
    tda_rsk_amount a = tda_tap_amount a * ba_tap_amount_divisor asset \<and>
    create_address (ae_client env) (ae_server env) (ba_tap_asset_id asset) (tda_tap_amount a) None None = Inr response \<and>
    answer = PDict [(''deposit_address'', cr_address response)] \<and> tda_tap_address a = cr_address response \<and>
    tda_tap_asset_id a = ba_tap_asset_id asset \<and> tda_rsk_token_address a = ba_rsk_token asset \<and>
    tl_to_checksum_address (ae_lib env) user = Inr (tda_rsk_address a) \<and>
    td_addresses (w_db w') = td_addresses (w_db w) @ [a]"
proof -
  obtain data user k i t r rsk tap u asset_id token a where
    enabled: "is_bridge_enabled config ''taprsk'' = Inr True" and body: "body = Inr data" and
    fields: "json_get data ''rsk_address'' = Inr user" "json_get data ''rsk_token_address'' = Inr k"
      "json_get data ''tap_asset_id'' = Inr i" "json_get data ''tap_amount'' = Inr t" "json_get data ''rsk_amount'' = Inr r" and
    checks: "truthy user" "check_given (ae_is_hex_address env) user = Inr ()" "check_given (ae_is_hex_address env) k = Inr ()"
      "check_given (ae_is_hex env) i = Inr ()" "truthy i \<or> truthy k" and
    read: "optional_int r = Inr rsk" "optional_int t = Inr tap" "json_str user = Inr u" "optional_str i = Inr asset_id"
      "optional_str k = Inr token" and
    run: "generate_tap_deposit_address (ae_lib env) (ae_registry env) (ae_client env) (ae_server env) u tap asset_id rsk token w =
      (Inr a, w')" and answer: "answer = PDict [(''deposit_address'', tda_tap_address a)]"
    using assms unfolding api_generate_tap_deposit_address_def require_tap_bridge_def ran_ok by auto
  obtain c where c: "config = Inr c" "''all'' \<in> set (ac_enabled_bridges c) \<or> ''taprsk'' \<in> set (ac_enabled_bridges c)"
    using enabled by (auto simp: is_bridge_enabled_def rbind_eq_Inr)
  have user: "user = PStr u" using read(3) by (cases user) simp_all
  then have hex: "ae_is_hex_address env (PStr u) = Inr True" using checks(2) check_givenD[of _ user] by (simp add: given_def)
  have one: "tap \<noteq> None \<and> rsk = None \<or> tap = None \<and> rsk \<noteq> None" "asset_id \<noteq> None \<and> token = None \<or> asset_id = None \<and> token \<noteq> None"
    using run by (auto simp: generate_tap_deposit_address_def split: if_splits)
  from tap_deposit_amounts[OF run] obtain asset response where
    asset: "get_bridgeable_asset (ae_lib env) (ae_registry env) token (if token = None then map_option (\<lambda>i.
            if take 2 i = ''0x'' then tl_remove_0x_prefix (ae_lib env) i else i) asset_id else None) = Inr asset" and
    amounts: "tap = Some (tda_tap_amount a) \<or> rsk = Some (tda_rsk_amount a)" and
    rest: "tda_rsk_amount a = tda_tap_amount a * ba_tap_amount_divisor asset"
      "create_address (ae_client env) (ae_server env) (tda_tap_asset_id a) (tda_tap_amount a) None None = Inr response"
      "tda_tap_address a = cr_address response" "tda_tap_asset_id a = ba_tap_asset_id asset"
      "tda_rsk_token_address a = ba_rsk_token asset" "tl_to_checksum_address (ae_lib env) u = Inr (tda_rsk_address a)"
      "td_addresses (w_db w') = td_addresses (w_db w) @ [a]"
    by blast
  have "asks_for_amount data (tda_tap_amount a) (tda_rsk_amount a)"
    using one(1) amounts read(1,2) fields(4,5) by (auto simp: asks_for_amount_def dest!: optional_intD)
  moreover have "asks_for_asset env data asset"
    using one(2) asset read(4,5) fields(2,3) checks
    by (auto simp: asks_for_asset_def given_def dest!: optional_strD check_givenD)
  ultimately show ?thesis using c body fields(1) user hex rest answer by metis
qed

section \<open>An example\<close>

definition example_api_env :: api_env where
  "example_api_env = \<lparr>ae_lib = example_tap_lib, ae_registry = example_registry, ae_client = example_tap_client,
     ae_server = example_tap_server, ae_is_hex = (\<lambda>v. Inr True), ae_is_hex_address = (\<lambda>v. Inr (v = PStr ''0xU'')),
     ae_is_connected = Inr True, ae_get_code = Inr [1], ae_is_federator = Inr True\<rparr>"

theorem tap_address_answer_sound_witness:
  "\<exists>answer w' a. api_generate_tap_deposit_address example_api_env (Inr \<lparr>ac_enabled_bridges = [''taprsk'']\<rparr>)
       (Inr (PDict [(''rsk_address'', PStr ''0xU''), (''tap_asset_id'', PStr ''0xaa''), (''rsk_amount'', PStr ''500'')])) empty_tap_world =
     (Inr answer, w') \<and> td_addresses (w_db w') = [a] \<and> tda_rsk_amount a = 500"
proof -
  let ?data = "PDict [(''rsk_address'', PStr ''0xU''), (''tap_asset_id'', PStr ''0xaa''), (''rsk_amount'', PStr ''500'')]"
  let ?run = "api_generate_tap_deposit_address example_api_env (Inr \<lparr>ac_enabled_bridges = [''taprsk'']\<rparr>) (Inr ?data) empty_tap_world"
  have number: "py_int (PStr ''500'') = Inr 500" by code_simp
  obtain response where "create_address example_tap_client example_tap_server ''aa'' 5 None None = Inr response"
    using example_created_address by blast
  then have "\<exists>answer w'. ?run = (Inr answer, w')"
    by (simp add: api_generate_tap_deposit_address_def require_tap_bridge_def is_bridge_enabled_def example_api_env_def
        run_bnd run_sq run_demand check_given_def given_def optional_int_def optional_str_def number
        generate_tap_deposit_address_def example_lib example_asset both_amounts_def
        insert_tap_address_def run_next_id run_insert_row empty_tap_world_def del: py_int.simps)
  then obtain answer w' where run: "?run = (Inr answer, w')" by blast
  from tap_address_answer_sound[OF run] obtain a where
    "asks_for_amount ?data (tda_tap_amount a) (tda_rsk_amount a)" "td_addresses (w_db w') = td_addresses (w_db empty_tap_world) @ [a]"
    by blast
  then have "tda_rsk_amount a = 500" "td_addresses (w_db w') = [a]"
    by (auto simp: asks_for_amount_def number empty_tap_world_def simp del: py_int.simps(4))
  with run show ?thesis by blast
qed

end
