(* ===== verification/Monitor.thy ===== *)
theory Monitor
  imports Ord_Multisig Deposit_Scan
begin

text \<open>
  The monitoring pages, from \<^verbatim>\<open>bridge_node/bridge/api/monitor/views.py\<close>: the latest rows of
  the tables of a bridge, the balances of its multisig wallet, and the comparison of the runes it
  holds with the supply of their tokens. The token contracts are parameters.
\<close>

section \<open>The constructor\<close>

record monitor_views =
  mv_bridge_id :: int
  mv_bridge_name :: string

definition monitor_views_init :: "string \<Rightarrow> monitor_views rune_prog" where
  "monitor_views_init name =
     bnd (query_first db_bridges (\<lambda>b. br_name b = name)) (\<lambda>bridge.
     case bridge of None \<Rightarrow> throw HTTPNotFound | Some b \<Rightarrow> ok \<lparr>mv_bridge_id = br_id b, mv_bridge_name = name\<rparr>)"

text \<open>The service of the bridge, of the two that there are.\<close>

definition monitor_get_service :: "'a \<Rightarrow> 'a \<Rightarrow> monitor_views \<Rightarrow> exn + 'a" where
  "monitor_get_service runesrsk runesbob views =
     (if mv_bridge_name views = ''runesrsk'' then Inr runesrsk
      else if mv_bridge_name views = ''runesbob'' then Inr runesbob
      else Inl ApiException)"

section \<open>The latest rows\<close>

text \<open>\<open>order_by(key.desc()).limit(n)\<close>; the columns \<open>created_at\<close>, which the database fills, are arguments.\<close>

definition latest_rows :: "('r \<Rightarrow> int) \<Rightarrow> nat \<Rightarrow> 'r list \<Rightarrow> 'r list" where
  "latest_rows key n rows = take n (sort_key (\<lambda>r. - key r) rows)"

definition monitor_deposits ::
  "(rune_deposit \<Rightarrow> int) \<Rightarrow> (rune_token_deposit \<Rightarrow> int) \<Rightarrow> (incoming_btc_tx \<Rightarrow> int) \<Rightarrow> monitor_views \<Rightarrow>
   (rune_deposit list \<times> rune_token_deposit list \<times> incoming_btc_tx list) rune_prog" where
  "monitor_deposits rd_created rt_created it_created views = db_get (\<lambda>db.
     (latest_rows rd_created 100 (filter (\<lambda>d. rd_bridge_id d = mv_bridge_id views) (db_rune_deposits db)),
      latest_rows rt_created 100 (filter (\<lambda>d. rt_bridge_id d = mv_bridge_id views) (db_rune_token_deposits db)),
      latest_rows it_created 100 (filter (\<lambda>t. it_bridge_id t = mv_bridge_id views) (db_incoming_btc_txs db))))"

definition monitor_runes :: "monitor_views \<Rightarrow> rune list rune_prog" where
  "monitor_runes views = db_get (\<lambda>db.
     latest_rows ru_id 100 (filter (\<lambda>r. ru_bridge_id r = mv_bridge_id views) (db_runes db)))"

definition monitor_users :: "monitor_views \<Rightarrow> user list rune_prog" where
  "monitor_users views = db_get (\<lambda>db.
     sort_key (\<lambda>u. - us_id u) (filter (\<lambda>u. us_bridge_id u = mv_bridge_id views) (db_users db)))"

section \<open>The balances of the multisig wallet\<close>

text \<open>\<open>if name not in d: d[name] = 0\<close>, then \<open>d[name] += amount\<close>.\<close>

fun add_balance :: "pystr \<Rightarrow> int \<Rightarrow> (pystr \<times> int) list \<Rightarrow> (pystr \<times> int) list" where
  "add_balance rune_name amount [] = [(rune_name, 0 + amount)]"
| "add_balance rune_name amount ((k, v) # d) =
     (if k = rune_name then (k, v + amount) # d else (k, v) # add_balance rune_name amount d)"

definition add_balances :: "(pystr \<times> int) list \<Rightarrow> (pystr \<times> int) list \<Rightarrow> (pystr \<times> int) list" where
  "add_balances balances d = fold (\<lambda>(rune_name, amount). add_balance rune_name amount) balances d"

record multisig_totals =
  mt_rune_balances :: "(pystr \<times> int) list"
  mt_runic_sat :: int
  mt_cardinal_sat :: int
  mt_unindexed_sat :: int

definition add_output :: "utxo \<times> ord_output option \<Rightarrow> multisig_totals \<Rightarrow> multisig_totals" where
  "add_output = (\<lambda>(utxo, ord_output) t. case ord_output of
       None \<Rightarrow> t\<lparr>mt_unindexed_sat := mt_unindexed_sat t + ut_amount_satoshi utxo\<rparr>
     | Some out \<Rightarrow> if has_rune_balances out
         then t\<lparr>mt_rune_balances := add_balances (oo_rune_balances out) (mt_rune_balances t),
                mt_runic_sat := mt_runic_sat t + ut_amount_satoshi utxo\<rparr>
         else t\<lparr>mt_cardinal_sat := mt_cardinal_sat t + ut_amount_satoshi utxo\<rparr>)"

definition total_outputs :: "(utxo \<times> ord_output option) list \<Rightarrow> multisig_totals" where
  "total_outputs outputs = fold add_output outputs
     \<lparr>mt_rune_balances = [], mt_runic_sat = 0, mt_cardinal_sat = 0, mt_unindexed_sat = 0\<rparr>"

record multisig_page =
  mp_utxos_with_ord_outputs :: "(utxo \<times> ord_output option) list"
  mp_rune_balances :: "(pystr \<times> int) list"
  mp_runic_balance_btc :: decimal
  mp_cardinal_balance_btc :: decimal
  mp_unindexed_balance_btc :: decimal
  mp_rune_entries :: "(pystr \<times> rune_entry) list"

text \<open>\<open>rune_response["entry"]\<close>, of a rune that ord may not know.\<close>

definition monitor_rune_entry :: "ord_server \<Rightarrow> pystr \<Rightarrow> exn + pystr \<times> rune_entry" where
  "monitor_rune_entry ord rune_name = rbind (get_rune ord rune_name) (\<lambda>rune_response.
     case rune_response of None \<Rightarrow> Inl TypeError | Some r \<Rightarrow> Inr (rune_name, rr_entry r))"

definition btc_of_sat :: "int \<Rightarrow> exn + decimal" where
  "btc_of_sat sat = dec_div PRECISION (dec_of_int sat) (dec_of_int (10 ^ 8))"

definition monitor_multisig :: "ord_multisig \<Rightarrow> 's lookup \<Rightarrow> ('s, multisig_page) prog" where
  "monitor_multisig m lookup =
     bnd (list_utxos_with_ord_outputs m lookup) (\<lambda>outputs.
     let t = total_outputs outputs in
     bnd (lift_res (all_results (monitor_rune_entry (om_ord m)) (map fst (mt_rune_balances t)))) (\<lambda>rune_entries.
     bnd (lift_res (btc_of_sat (mt_runic_sat t))) (\<lambda>runic.
     bnd (lift_res (btc_of_sat (mt_cardinal_sat t))) (\<lambda>cardinal.
     bnd (lift_res (btc_of_sat (mt_unindexed_sat t))) (\<lambda>unindexed.
     ok \<lparr>mp_utxos_with_ord_outputs = outputs, mp_rune_balances = mt_rune_balances t,
         mp_runic_balance_btc = runic, mp_cardinal_balance_btc = cardinal,
         mp_unindexed_balance_btc = unindexed, mp_rune_entries = rune_entries\<rparr>)))))"

definition format_raw_rune_amount :: "(pystr \<times> rune_entry) list \<Rightarrow> pystr \<Rightarrow> int \<Rightarrow> exn + decimal" where
  "format_raw_rune_amount rune_entries rune raw =
     (case map_of rune_entries rune of None \<Rightarrow> Inl KeyError
      | Some e \<Rightarrow> dec_div PRECISION (dec_of_int raw) (dec_of_int (10 ^ re_divisibility e)))"

section \<open>The sanity check\<close>

text \<open>\<open>tc_token\<close> is the address \<open>getTokenByRune\<close> returns; the others are calls of the token at an address.\<close>

record token_calls =
  tc_is_registered :: "int \<Rightarrow> exn + bool"
  tc_token :: "int \<Rightarrow> exn + string"
  tc_decimals :: "string \<Rightarrow> exn + nat"
  tc_total_supply :: "string \<Rightarrow> exn + int"
  tc_name :: "string \<Rightarrow> exn + pystr"
  tc_symbol :: "string \<Rightarrow> exn + pystr"

definition get_rune_token :: "token_calls \<Rightarrow> int \<Rightarrow> exn + string" where
  "get_rune_token tc rune_number = tc_token tc rune_number"

definition get_rune_token_or_none :: "token_calls \<Rightarrow> int \<Rightarrow> exn + string option" where
  "get_rune_token_or_none tc rune_number = rbind (tc_is_registered tc rune_number) (\<lambda>is_registered.
     if \<not> is_registered then Inr None else rbind (get_rune_token tc rune_number) (\<lambda>t. Inr (Some t)))"

record shown_token =
  sk_address :: string
  sk_name :: pystr
  sk_symbol :: pystr
  sk_supply :: decimal

record sanity_entry =
  sy_rune_name :: pystr
  sy_balance :: decimal
  sy_token :: "shown_token option"
  sy_difference :: "decimal option"
  sy_difference_pct :: "decimal option"

definition sum_rune_balances_of :: "(utxo \<times> ord_output option) list \<Rightarrow> (pystr \<times> int) list" where
  "sum_rune_balances_of outputs =
     fold (\<lambda>(utxo, ord_output) d. case ord_output of None \<Rightarrow> d | Some out \<Rightarrow> add_balances (oo_rune_balances out) d) outputs []"

definition sanity_entry_of :: "token_calls \<Rightarrow> rune \<Rightarrow> int \<Rightarrow> exn + sanity_entry" where
  "sanity_entry_of tc rune balance_raw =
     rbind (dec_div PRECISION (dec_of_int balance_raw) (dec_of_int (10 ^ ru_divisibility rune))) (\<lambda>balance.
     rbind (get_rune_token_or_none tc (ru_n rune)) (\<lambda>token_contract.
     case token_contract of
       None \<Rightarrow> Inr \<lparr>sy_rune_name = ru_spaced_name rune, sy_balance = balance, sy_token = None,
                     sy_difference = None, sy_difference_pct = None\<rparr>
     | Some address \<Rightarrow>
         rbind (tc_decimals tc address) (\<lambda>decimals.
         rbind (tc_total_supply tc address) (\<lambda>total_supply.
         rbind (dec_div PRECISION (dec_of_int total_supply) (dec_of_int (10 ^ decimals))) (\<lambda>supply.
         let difference = dec_sub PRECISION balance supply in
         rbind (dec_div PRECISION difference balance) (\<lambda>quotient.
         rbind (tc_name tc address) (\<lambda>name.
         rbind (tc_symbol tc address) (\<lambda>symbol.
         Inr \<lparr>sy_rune_name = ru_spaced_name rune, sy_balance = balance,
              sy_token = Some \<lparr>sk_address = address, sk_name = name, sk_symbol = symbol, sk_supply = supply\<rparr>,
              sy_difference = Some difference,
              sy_difference_pct = Some (dec_mul PRECISION quotient (dec_of_int 100))\<rparr>))))))))"

text \<open>The rows for the runes that the outputs hold.\<close>

definition sanity_entries ::
  "token_calls \<Rightarrow> monitor_views \<Rightarrow> (utxo \<times> ord_output option) list \<Rightarrow> sanity_entry list rune_prog" where
  "sanity_entries tc views outputs =
     collect (sum_rune_balances_of outputs) (\<lambda>(rune_name, balance_raw).
     bnd (query_one db_runes (\<lambda>r. ru_bridge_id r = mv_bridge_id views \<and> ru_name r = rune_name)) (\<lambda>rune.
     lift_res (sanity_entry_of tc rune balance_raw)))"

text \<open>The whole view, on the state of the lookups and the world of the bridge: first the outputs of the wallet are listed.\<close>

definition monitor_sanity_check ::
  "ord_multisig \<Rightarrow> 's lookup \<Rightarrow> token_calls \<Rightarrow> monitor_views \<Rightarrow> ('s \<times> rune_world, sanity_entry list) prog" where
  "monitor_sanity_check m lookup tc views = (\<lambda>(s, w).
     case list_utxos_with_ord_outputs m lookup s of
       (Inl e, s) \<Rightarrow> (Inl e, (s, w))
     | (Inr outputs, s) \<Rightarrow> (case sanity_entries tc views outputs w of (r, w) \<Rightarrow> (r, (s, w))))"

section \<open>What the pages show\<close>

text \<open>How much of a rune the outputs hold, and the satoshis of those outputs for which \<open>p\<close> holds.\<close>

definition rune_held :: "pystr \<Rightarrow> (utxo \<times> ord_output option) list \<Rightarrow> int" where
  "rune_held rune_name outputs = sum_list (concat (map (\<lambda>(u, out). case out of None \<Rightarrow> []
     | Some out \<Rightarrow> map snd (filter (\<lambda>(k, v). k = rune_name) (oo_rune_balances out))) outputs))"

definition rune_names_held :: "(utxo \<times> ord_output option) list \<Rightarrow> pystr list" where
  "rune_names_held outputs = concat (map (\<lambda>(u, out). case out of None \<Rightarrow> [] | Some out \<Rightarrow> map fst (oo_rune_balances out)) outputs)"

definition sat_where :: "(ord_output option \<Rightarrow> bool) \<Rightarrow> (utxo \<times> ord_output option) list \<Rightarrow> int" where
  "sat_where p outputs = sum_list (map (ut_amount_satoshi \<circ> fst) (filter (p \<circ> snd) outputs))"

definition balance_of :: "pystr \<Rightarrow> (pystr \<times> int) list \<Rightarrow> int" where
  "balance_of rune_name d = (case map_of d rune_name of None \<Rightarrow> 0 | Some v \<Rightarrow> v)"

lemma balance_of_add_balance: "balance_of k (add_balance n a d) = balance_of k d + (if k = n then a else 0)"
  by (induction n a d rule: add_balance.induct) (auto simp: balance_of_def)

lemma balance_of_add_balances:
  "balance_of k (add_balances bs d) = balance_of k d + sum_list (map snd (filter (\<lambda>(n, v). n = k) bs))"
  by (induction bs arbitrary: d) (auto simp: add_balances_def balance_of_add_balance)

lemma keys_add_balance: "fst ` set (add_balance n a d) = insert n (fst ` set d)"
  by (induction n a d rule: add_balance.induct) auto

lemma keys_add_balances: "fst ` set (add_balances bs d) = fst ` set bs \<union> fst ` set d"
proof (induction bs arbitrary: d)
  case (Cons b bs)
  then show ?case using Cons.IH[of "add_balance (fst b) (snd b) d"]
    by (auto simp: add_balances_def keys_add_balance split_beta)
qed (simp add: add_balances_def)

lemma distinct_add_balance: "distinct (map fst (add_balance n a d)) \<longleftrightarrow> distinct (map fst d)"
proof (induction n a d rule: add_balance.induct)
  case (2 n a k v d)
  then show ?case using keys_add_balance[of n a d] by (auto simp flip: set_map)
qed simp

lemma distinct_add_balances: "distinct (map fst d) \<Longrightarrow> distinct (map fst (add_balances bs d))"
  by (induction bs arbitrary: d) (auto simp: add_balances_def distinct_add_balance)

lemma add_output_cases:
  "add_output (u, None) t = t\<lparr>mt_unindexed_sat := mt_unindexed_sat t + ut_amount_satoshi u\<rparr>"
  "has_rune_balances x \<Longrightarrow> add_output (u, Some x) t =
     t\<lparr>mt_rune_balances := add_balances (oo_rune_balances x) (mt_rune_balances t), mt_runic_sat := mt_runic_sat t + ut_amount_satoshi u\<rparr>"
  "\<not> has_rune_balances x \<Longrightarrow> add_output (u, Some x) t = t\<lparr>mt_cardinal_sat := mt_cardinal_sat t + ut_amount_satoshi u\<rparr>"
  by (simp_all add: add_output_def)

lemma fold_outputs:
  "let t' = fold add_output outputs t in
   (\<forall>k. balance_of k (mt_rune_balances t') = balance_of k (mt_rune_balances t) + rune_held k outputs) \<and>
   (distinct (map fst (mt_rune_balances t)) \<longrightarrow> distinct (map fst (mt_rune_balances t'))) \<and>
   fst ` set (mt_rune_balances t') = fst ` set (mt_rune_balances t) \<union> set (rune_names_held outputs) \<and>
   mt_runic_sat t' = mt_runic_sat t + sat_where (\<lambda>out. \<exists>x. out = Some x \<and> has_rune_balances x) outputs \<and>
   mt_cardinal_sat t' = mt_cardinal_sat t + sat_where (\<lambda>out. \<exists>x. out = Some x \<and> \<not> has_rune_balances x) outputs \<and>
   mt_unindexed_sat t' = mt_unindexed_sat t + sat_where (\<lambda>out. out = None) outputs"
proof (induction outputs arbitrary: t)
  case Nil
  show ?case by (simp add: rune_held_def rune_names_held_def sat_where_def)
next
  case (Cons p outputs)
  note IH = Cons.IH[of "add_output p t"]
  obtain u out where p: "p = (u, out)" by (cases p)
  consider "out = None" | x where "out = Some x" "has_rune_balances x" | x where "out = Some x" "\<not> has_rune_balances x"
    by (cases out) auto
  then show ?case
  proof cases
    case 1
    with p IH show ?thesis by (simp add: add_output_cases rune_held_def rune_names_held_def sat_where_def Let_def)
  next
    case (2 x)
    with p IH show ?thesis
      by (simp add: add_output_cases rune_held_def rune_names_held_def sat_where_def Let_def balance_of_add_balances
          keys_add_balances distinct_add_balances Un_ac)
  next
    case (3 x)
    with p IH show ?thesis
      by (simp add: add_output_cases rune_held_def rune_names_held_def sat_where_def Let_def has_rune_balances_def)
  qed
qed

lemma sat_where_bound: "\<bar>sat_where p outputs\<bar> \<le> sum_list (map (\<lambda>(u, out). \<bar>ut_amount_satoshi u\<bar>) outputs)"
  by (induction outputs) (auto simp: sat_where_def)

lemma sat_where_none:
  "sat_where (\<lambda>out. \<exists>x. out = Some x \<and> has_rune_balances x) outputs + sat_where (\<lambda>out. \<exists>x. out = Some x \<and> \<not> has_rune_balances x) outputs +
   sat_where (\<lambda>out. out = None) outputs = sum_list (map (ut_amount_satoshi \<circ> fst) outputs)"
proof (induction outputs)
  case (Cons p outputs)
  then show ?case by (cases "snd p") (auto simp: sat_where_def)
qed (simp add: sat_where_def)

lemma monitor_entries:
  assumes "all_results (monitor_rune_entry ord) ks = Inr entries"
  shows "map fst entries = ks \<and> (\<forall>(k, e) \<in> set entries. \<exists>r. get_rune ord k = Inr (Some r) \<and> e = rr_entry r)"
  using assms
proof (induction ks arbitrary: entries)
  case (Cons k ks)
  then obtain p rest where p: "monitor_rune_entry ord k = Inr p" and rest: "all_results (monitor_rune_entry ord) ks = Inr rest"
    and e: "entries = p # rest"
    by (auto simp: rbind_eq_Inr)
  from p obtain r where "get_rune ord k = Inr (Some r)" "p = (k, rr_entry r)"
    by (auto simp: monitor_rune_entry_def rbind_eq_Inr split: option.splits)
  with Cons.IH[OF rest] e show ?case by auto
qed simp

lemma btc_of_sat_exact:
  assumes "btc_of_sat n = Inr d" "\<bar>n\<bar> < 10 ^ PRECISION"
  shows "dec_val d = of_int n / 10 ^ 8"
proof -
  have "\<exists>d. dec_div PRECISION (dec_of_int n) (dec_of_int (10 ^ 8)) = Inr d \<and> dec_val d = of_int n * 10 powi (- 8)"
    by (rule dec_div_exact[OF _ _ assms(2)])
      (simp_all add: PRECISION_def dec_of_int_def dec_val_def power_int_minus field_simps)
  with assms(1) show ?thesis by (auto simp: btc_of_sat_def power_int_minus field_simps)
qed

text \<open>
  C27. The page of the multisig wallet accounts for every satoshi and every rune of the outputs it shows: its three
  balances are those of the outputs with runes, of those without and of those ord has not indexed, in whole bitcoins exactly, so
  that together they are all outputs; the runes it lists are those that some output holds, each once, with
  the sum of what the outputs hold of it, and for each there is the entry that ord has of it.
\<close>

theorem monitor_multisig_totals:
  assumes run: "monitor_multisig m lookup s = (Inr page, s')"
    and small: "sum_list (map (\<lambda>(u, out). \<bar>ut_amount_satoshi u\<bar>) (mp_utxos_with_ord_outputs page)) < 10 ^ PRECISION"
  shows "let outputs = mp_utxos_with_ord_outputs page in
    list_utxos_with_ord_outputs m lookup s = (Inr outputs, s') \<and>
    dec_val (mp_runic_balance_btc page) = of_int (sat_where (\<lambda>out. \<exists>x. out = Some x \<and> has_rune_balances x) outputs) / 10 ^ 8 \<and>
    dec_val (mp_cardinal_balance_btc page) = of_int (sat_where (\<lambda>out. \<exists>x. out = Some x \<and> \<not> has_rune_balances x) outputs) / 10 ^ 8 \<and>
    dec_val (mp_runic_balance_btc page) + dec_val (mp_cardinal_balance_btc page) + dec_val (mp_unindexed_balance_btc page) =
      of_int (sum_list (map (ut_amount_satoshi \<circ> fst) outputs)) / 10 ^ 8 \<and>
    distinct (map fst (mp_rune_balances page)) \<and> fst ` set (mp_rune_balances page) = set (rune_names_held outputs) \<and>
    (\<forall>(k, v) \<in> set (mp_rune_balances page). v = rune_held k outputs) \<and>
    map fst (mp_rune_entries page) = map fst (mp_rune_balances page) \<and>
    (\<forall>(k, e) \<in> set (mp_rune_entries page). \<exists>r. get_rune (om_ord m) k = Inr (Some r) \<and> e = rr_entry r)"
proof -
  obtain outputs u where out: "list_utxos_with_ord_outputs m lookup s = (Inr outputs, u)"
    using run by (auto simp: monitor_multisig_def bnd_eq_Inr)
  let ?t = "total_outputs outputs"
  obtain entries runic cardinal unindexed where
    entries: "all_results (monitor_rune_entry (om_ord m)) (map fst (mt_rune_balances ?t)) = Inr entries" and
    btc: "btc_of_sat (mt_runic_sat ?t) = Inr runic" "btc_of_sat (mt_cardinal_sat ?t) = Inr cardinal"
      "btc_of_sat (mt_unindexed_sat ?t) = Inr unindexed" and
    page: "page = \<lparr>mp_utxos_with_ord_outputs = outputs, mp_rune_balances = mt_rune_balances ?t, mp_runic_balance_btc = runic,
      mp_cardinal_balance_btc = cardinal, mp_unindexed_balance_btc = unindexed, mp_rune_entries = entries\<rparr>" and s': "s' = u"
    using run out by (auto simp: monitor_multisig_def bnd_eq_Inr Let_def)
  have t: "\<forall>k. balance_of k (mt_rune_balances ?t) = rune_held k outputs" "distinct (map fst (mt_rune_balances ?t))"
    "fst ` set (mt_rune_balances ?t) = set (rune_names_held outputs)"
    "mt_runic_sat ?t = sat_where (\<lambda>out. \<exists>x. out = Some x \<and> has_rune_balances x) outputs"
    "mt_cardinal_sat ?t = sat_where (\<lambda>out. \<exists>x. out = Some x \<and> \<not> has_rune_balances x) outputs"
    "mt_unindexed_sat ?t = sat_where (\<lambda>out. out = None) outputs"
    using fold_outputs[of outputs "\<lparr>mt_rune_balances = [], mt_runic_sat = 0, mt_cardinal_sat = 0, mt_unindexed_sat = 0\<rparr>"]
    by (simp_all add: total_outputs_def Let_def balance_of_def)
  have bound: "\<bar>sat_where p outputs\<bar> < 10 ^ PRECISION" for p
    using small sat_where_bound[of p outputs] by (simp add: page)
  have vals: "dec_val runic = of_int (mt_runic_sat ?t) / 10 ^ 8" "dec_val cardinal = of_int (mt_cardinal_sat ?t) / 10 ^ 8"
    "dec_val unindexed = of_int (mt_unindexed_sat ?t) / 10 ^ 8"
    by (rule btc_of_sat_exact[OF btc(1)], simp only: t bound, rule btc_of_sat_exact[OF btc(2)], simp only: t bound,
        rule btc_of_sat_exact[OF btc(3)], simp only: t bound)
  have "dec_val runic + dec_val cardinal + dec_val unindexed =
      of_int (mt_runic_sat ?t + mt_cardinal_sat ?t + mt_unindexed_sat ?t) / 10 ^ 8"
    by (simp add: vals add_divide_distrib)
  then have total: "dec_val runic + dec_val cardinal + dec_val unindexed = of_int (sum_list (map (ut_amount_satoshi \<circ> fst) outputs)) / 10 ^ 8"
    by (simp only: t sat_where_none)
  have held: "\<forall>(k, v) \<in> set (mt_rune_balances ?t). v = rune_held k outputs"
    using t(1,2) by (auto simp: balance_of_def dest: map_of_is_SomeI split: option.splits)
  have "map fst entries = map fst (mt_rune_balances ?t) \<and>
      (\<forall>(k, e) \<in> set entries. \<exists>r. get_rune (om_ord m) k = Inr (Some r) \<and> e = rr_entry r)"
    using entries by (rule monitor_entries)
  with out page s' t vals total held show ?thesis by (simp add: Let_def)
qed

text \<open>The quotient of a raw amount and its unit is exact.\<close>

lemma raw_amount_exact:
  assumes "dec_div PRECISION (dec_of_int n) (dec_of_int (10 ^ k)) = Inr d" "\<bar>n\<bar> < 10 ^ PRECISION"
  shows "dec_val d = of_int n / 10 ^ k"
proof -
  have "\<exists>d. dec_div PRECISION (dec_of_int n) (dec_of_int (10 ^ k)) = Inr d \<and> dec_val d = of_int n * 10 powi (- int k)"
    by (rule dec_div_exact[OF _ _ assms(2)])
      (simp_all add: PRECISION_def dec_of_int_def dec_val_def power_int_minus field_simps)
  with assms(1) show ?thesis by (auto simp: power_int_minus field_simps)
qed

definition compares_exactly :: "token_calls \<Rightarrow> rune \<Rightarrow> int \<Rightarrow> sanity_entry \<Rightarrow> bool" where
  "compares_exactly tc rune raw entry \<longleftrightarrow> (\<forall>address decimals issued k.
     tc_is_registered tc (ru_n rune) = Inr True \<longrightarrow> tc_token tc (ru_n rune) = Inr address \<longrightarrow>
     tc_decimals tc address = Inr decimals \<longrightarrow> tc_total_supply tc address = Inr issued \<longrightarrow>
     \<bar>raw\<bar> < 10 ^ PRECISION \<longrightarrow> \<bar>issued\<bar> < 10 ^ PRECISION \<longrightarrow> ru_divisibility rune \<le> k \<longrightarrow> decimals \<le> k \<longrightarrow>
     \<bar>raw * 10 ^ (k - ru_divisibility rune) - issued * 10 ^ (k - decimals)\<bar> < 10 ^ PRECISION \<longrightarrow>
     (\<exists>difference. sy_difference entry = Some difference \<and>
        dec_val difference = of_int raw / 10 ^ ru_divisibility rune - of_int issued / 10 ^ decimals))"

lemma sanity_entry_exact:
  assumes run: "sanity_entry_of tc rune raw = Inr entry"
  shows "compares_exactly tc rune raw entry"
  unfolding compares_exactly_def
proof (intro allI impI)
  fix address decimals issued k
  assume token: "tc_is_registered tc (ru_n rune) = Inr True" "tc_token tc (ru_n rune) = Inr address"
      "tc_decimals tc address = Inr decimals" "tc_total_supply tc address = Inr issued"
    and small: "\<bar>raw\<bar> < 10 ^ PRECISION" "\<bar>issued\<bar> < 10 ^ PRECISION"
    and le: "ru_divisibility rune \<le> k" "decimals \<le> k"
    and fits: "\<bar>raw * 10 ^ (k - ru_divisibility rune) - issued * 10 ^ (k - decimals)\<bar> < 10 ^ PRECISION"
  obtain balance shown where b: "dec_div PRECISION (dec_of_int raw) (dec_of_int (10 ^ ru_divisibility rune)) = Inr balance"
    and s: "dec_div PRECISION (dec_of_int issued) (dec_of_int (10 ^ decimals)) = Inr shown"
    and e: "sy_difference entry = Some (dec_sub PRECISION balance shown)"
    using run token by (auto simp: sanity_entry_of_def get_rune_token_or_none_def get_rune_token_def rbind_eq_Inr Let_def)
  note vals = raw_amount_exact[OF b small(1)] raw_amount_exact[OF s small(2)]
  have "dec_val balance - dec_val shown =
      of_int (raw * 10 ^ (k - ru_divisibility rune) - issued * 10 ^ (k - decimals)) * 10 powi (- int k)"
    using power_diff[of "10 :: rat", OF _ le(1)] power_diff[of "10 :: rat", OF _ le(2)]
    by (simp add: vals power_int_minus field_simps)
  from representableI[OF this fits] have "dec_val (dec_sub PRECISION balance shown) = dec_val balance - dec_val shown"
    by (intro dec_sub_exact) (simp_all add: PRECISION_def)
  with e vals show "\<exists>difference. sy_difference entry = Some difference \<and>
      dec_val difference = of_int raw / 10 ^ ru_divisibility rune - of_int issued / 10 ^ decimals" by simp
qed

lemma sum_rune_balances_held:
  "distinct (map fst (sum_rune_balances_of outputs)) \<and> fst ` set (sum_rune_balances_of outputs) = set (rune_names_held outputs) \<and>
   (\<forall>(k, v) \<in> set (sum_rune_balances_of outputs). v = rune_held k outputs)"
proof -
  let ?step = "\<lambda>(utxo, ord_output) d. case ord_output of None \<Rightarrow> d | Some out \<Rightarrow> add_balances (oo_rune_balances out) d"
  have fold: "(\<forall>k. balance_of k (fold ?step outputs d) = balance_of k d + rune_held k outputs) \<and>
     (distinct (map fst d) \<longrightarrow> distinct (map fst (fold ?step outputs d))) \<and>
     fst ` set (fold ?step outputs d) = fst ` set d \<union> set (rune_names_held outputs)" for d :: "(pystr \<times> int) list"
  proof (induction outputs arbitrary: d)
    case (Cons p outputs)
    obtain u out where p: "p = (u, out)" by (cases p)
    with Cons.IH[of "?step p d"] show ?case
      by (cases out) (simp_all add: rune_held_def rune_names_held_def balance_of_add_balances keys_add_balances distinct_add_balances Un_ac)
  qed (simp add: rune_held_def rune_names_held_def)
  from fold[of "[]"] show ?thesis
    by (auto simp: sum_rune_balances_of_def balance_of_def dest: map_of_is_SomeI split: option.splits)
qed

lemma sanity_entry_name:
  assumes "sanity_entry_of tc rune raw = Inr entry"
  shows "sy_rune_name entry = ru_spaced_name rune"
proof -
  from assms obtain balance token where "get_rune_token_or_none tc (ru_n rune) = Inr token"
    "dec_div PRECISION (dec_of_int raw) (dec_of_int (10 ^ ru_divisibility rune)) = Inr balance"
    unfolding sanity_entry_of_def rbind_eq_Inr by blast
  with assms show ?thesis by (cases token) (auto simp: sanity_entry_of_def rbind_eq_Inr Let_def)
qed

lemma checked_entry:
  assumes "(case p of (rune_name, balance_raw) \<Rightarrow>
      bnd (query_one db_runes (\<lambda>r. ru_bridge_id r = bid \<and> ru_name r = rune_name))
        (\<lambda>rune. lift_res (sanity_entry_of tc rune balance_raw))) s = (Inr entry, t)"
  shows "t = s \<and> (case p of (rune_name, held) \<Rightarrow> \<lambda>entry. \<exists>rune.
      filter (\<lambda>r. ru_bridge_id r = bid \<and> ru_name r = rune_name) (db_runes (w_db s)) = [rune] \<and>
      sy_rune_name entry = ru_spaced_name rune \<and> compares_exactly tc rune held entry) entry"
proof (cases p)
  case (Pair rune_name raw)
  with assms obtain rune where
    "exactly_one (filter (\<lambda>r. ru_bridge_id r = bid \<and> ru_name r = rune_name) (db_runes (w_db s))) = Inr rune"
    "sanity_entry_of tc rune raw = Inr entry" "t = s"
    by (auto simp: bnd_eq_Inr run_query_one)
  with Pair show ?thesis by (auto simp: exactly_one_Inr sanity_entry_name sanity_entry_exact)
qed

lemma collect_reads:
  assumes "collect xs f s = (Inr ys, t)" "\<And>x y s t. f x s = (Inr y, t) \<Longrightarrow> t = s \<and> P s x y"
  shows "t = s \<and> list_all2 (P s) xs ys"
  using assms(1) by (induction xs arbitrary: ys s) (auto simp: bnd_eq_Inr dest!: assms(2))

text \<open>
  C28. The sanity check reports each rune that the outputs of the wallet hold once, with all that they hold of it: the
  entry is about the bridge's one row of that name, and if that rune has a token, the difference it shows is exactly the amount
  held minus the token's supply, each in its own unit, as long as the numbers fit the precision; so it is 0
  exactly if the token is backed. The outputs are those that the wallet lists, and the check changes nothing in the database.
\<close>

theorem sanity_check_exact:
  assumes "monitor_sanity_check m lookup tc views (s, w) = (Inr entries, (s', w'))"
  shows "\<exists>outputs. list_utxos_with_ord_outputs m lookup s = (Inr outputs, s') \<and>
    w' = w \<and> distinct (map fst (sum_rune_balances_of outputs)) \<and>
    fst ` set (sum_rune_balances_of outputs) = set (rune_names_held outputs) \<and>
    list_all2 (\<lambda>(rune_name, held) entry. held = rune_held rune_name outputs \<and> (\<exists>rune.
      filter (\<lambda>r. ru_bridge_id r = mv_bridge_id views \<and> ru_name r = rune_name) (db_runes (w_db w)) = [rune] \<and>
      sy_rune_name entry = ru_spaced_name rune \<and> compares_exactly tc rune held entry)) (sum_rune_balances_of outputs) entries"
proof -
  obtain outputs where listed: "list_utxos_with_ord_outputs m lookup s = (Inr outputs, s')"
      and run: "sanity_entries tc views outputs w = (Inr entries, w')"
    using assms by (auto simp: monitor_sanity_check_def split: prod.splits sum.splits)
  let ?find = "\<lambda>w rune_name. filter (\<lambda>r. ru_bridge_id r = mv_bridge_id views \<and> ru_name r = rune_name) (db_runes (w_db w))"
  let ?P = "\<lambda>w (rune_name, held) entry. \<exists>rune. ?find w rune_name = [rune] \<and>
      sy_rune_name entry = ru_spaced_name rune \<and> compares_exactly tc rune held entry"
  have "w' = w \<and> list_all2 (?P w) (sum_rune_balances_of outputs) entries"
  proof (rule collect_reads[OF run[unfolded sanity_entries_def]])
    fix p entry s t
    assume "(case p of (rune_name, balance_raw) \<Rightarrow>
      bnd (query_one db_runes (\<lambda>r. ru_bridge_id r = mv_bridge_id views \<and> ru_name r = rune_name))
        (\<lambda>rune. lift_res (sanity_entry_of tc rune balance_raw))) s = (Inr entry, t)"
    then show "t = s \<and> ?P s p entry" by (rule checked_entry)
  qed
  then have eq: "w' = w" and all: "list_all2 (?P w) (sum_rune_balances_of outputs) entries" by simp_all
  note held = sum_rune_balances_held[of outputs]
  from all have "list_all2 (\<lambda>(rune_name, held) entry. held = rune_held rune_name outputs \<and> ?P w (rune_name, held) entry)
      (sum_rune_balances_of outputs) entries"
    by (rule list.rel_mono_strong) (use held in auto)
  with listed eq held show ?thesis by (intro exI[of _ outputs]) simp
qed

section \<open>Instances\<close>

definition example_shown :: "(utxo \<times> ord_output option) list" where
  "example_shown =
     [(example_utxo ''aa'' 10000, Some \<lparr>oo_txid = ''aa'', oo_vout = 0, oo_amount_satoshi = 10000,
         oo_rune_balances = [([65], 100)], oo_inscriptions = []\<rparr>),
      (example_utxo ''bb'' 100000000, Some \<lparr>oo_txid = ''bb'', oo_vout = 0, oo_amount_satoshi = 10000,
         oo_rune_balances = [], oo_inscriptions = []\<rparr>)]"

lemma example_list: "list_utxos_with_ord_outputs example_multisig (plain_lookup example_multisig) s = (Inr example_shown, s)"
  using example_lookup
  by (simp add: list_utxos_with_ord_outputs_def example_list_utxos run_bnd run_catch plain_lookup_def output_of_def example_shown_def)

lemma example_totals:
  "total_outputs example_shown =
     \<lparr>mt_rune_balances = [([65], 100)], mt_runic_sat = 10000, mt_cardinal_sat = 100000000, mt_unindexed_sat = 0\<rparr>"
  by (simp add: total_outputs_def example_shown_def add_output_def has_rune_balances_def add_balances_def example_utxo_def)

lemma example_entries: "monitor_rune_entry (om_ord example_multisig) [65] =
    Inr (([65], \<lparr>re_spaced_rune = [65], re_symbol = [65], re_divisibility = 0, re_turbo = False\<rparr>))"
  by (simp add: monitor_rune_entry_def get_rune_def ord_request_def http_ok_def example_multisig_def example_outputs_ord_def)

theorem monitor_multisig_totals_witness:
  "\<exists>page. monitor_multisig example_multisig (plain_lookup example_multisig) () = (Inr page, ()) \<and> mp_rune_balances page = [([65], 100)] \<and>
     dec_val (mp_runic_balance_btc page) = 1 / 10000 \<and> dec_val (mp_cardinal_balance_btc page) = 1"
proof -
  have "\<exists>d. btc_of_sat n = Inr d" for n
    unfolding btc_of_sat_def by (rule dec_div_Inr) (simp add: dec_of_int_def)
  then obtain a b c where "btc_of_sat 10000 = Inr a" "btc_of_sat 100000000 = Inr b" "btc_of_sat 0 = Inr c" by metis
  then obtain page where run: "monitor_multisig example_multisig (plain_lookup example_multisig) () = (Inr page, ())"
    and page: "mp_utxos_with_ord_outputs page = example_shown" "mp_rune_balances page = [([65], 100)]"
    by (auto simp: monitor_multisig_def run_bnd example_list example_totals example_entries Let_def)
  have "sum_list (map (\<lambda>(u, out). \<bar>ut_amount_satoshi u\<bar>) (mp_utxos_with_ord_outputs page)) < 10 ^ PRECISION"
    by (simp add: page example_shown_def example_utxo_def PRECISION_def)
  from monitor_multisig_totals[OF run this] have
    "dec_val (mp_runic_balance_btc page) = of_int (sat_where (\<lambda>out. \<exists>x. out = Some x \<and> has_rune_balances x) example_shown) / 10 ^ 8"
    "dec_val (mp_cardinal_balance_btc page) = of_int (sat_where (\<lambda>out. \<exists>x. out = Some x \<and> \<not> has_rune_balances x) example_shown) / 10 ^ 8"
    by (simp_all only: Let_def page)
  with run page show ?thesis
    by (intro exI[of _ page]) (simp add: sat_where_def example_shown_def has_rune_balances_def example_utxo_def)
qed

definition example_tokens :: token_calls where
  "example_tokens = \<lparr>tc_is_registered = (\<lambda>n. Inr True), tc_token = (\<lambda>n. Inr ''0x1''), tc_decimals = (\<lambda>a. Inr 2),
     tc_total_supply = (\<lambda>a. Inr 9950), tc_name = (\<lambda>a. Inr [65]), tc_symbol = (\<lambda>a. Inr [65])\<rparr>"

definition example_monitored :: rune where
  "example_monitored = \<lparr>ru_id = 1, ru_bridge_id = 1, ru_n = 0, ru_name = [65], ru_spaced_name = [65], ru_symbol = [65],
     ru_divisibility = 0, ru_turbo = False\<rparr>"

definition example_monitor_world :: rune_world where
  "example_monitor_world = \<lparr>w_db = \<lparr>db_kv = (\<lambda>k. None), db_bridges = [], db_users = [], db_deposit_addresses = [],
     db_incoming_btc_txs = [], db_runes = [example_monitored], db_rune_deposits = [], db_rune_token_deposits = []\<rparr>,
     w_seqs = (\<lambda>t. 1), w_effects = []\<rparr>"

text \<open>100 units of the rune, and tokens for 99.50.\<close>

theorem sanity_check_exact_witness:
  "\<exists>entry difference. monitor_sanity_check example_multisig (plain_lookup example_multisig) example_tokens
       \<lparr>mv_bridge_id = 1, mv_bridge_name = ''runesrsk''\<rparr> ((), example_monitor_world) = (Inr [entry], ((), example_monitor_world)) \<and>
     sy_difference entry = Some difference \<and> dec_val difference = 1 / 2"
proof -
  let ?run = "monitor_sanity_check example_multisig (plain_lookup example_multisig) example_tokens
       \<lparr>mv_bridge_id = 1, mv_bridge_name = ''runesrsk''\<rparr> ((), example_monitor_world)"
  have held: "sum_rune_balances_of example_shown = [([65], 100)]"
    by (simp add: sum_rune_balances_of_def example_shown_def add_balances_def)
  obtain a where a: "dec_div PRECISION (dec_of_int 100) (dec_of_int 1) = Inr a"
    using dec_div_Inr[of "dec_of_int 1"] by (auto simp: dec_of_int_def)
  obtain b where b: "dec_div PRECISION (dec_of_int 9950) (dec_of_int 100) = Inr b"
    using dec_div_Inr[of "dec_of_int 100"] by (auto simp: dec_of_int_def)
  have "dec_val a = 100" using raw_amount_exact[of 100 0 a] a by (simp add: PRECISION_def)
  then have nz: "coeff a \<noteq> 0" by (auto simp: dec_val_def)
  obtain q where "dec_div PRECISION (dec_sub PRECISION a b) a = Inr q" using dec_div_Inr[OF nz] by blast
  with a b have "\<exists>entry. ?run = (Inr [entry], ((), example_monitor_world))"
    by (simp add: monitor_sanity_check_def sanity_entries_def example_list held run_bnd run_query_one example_monitor_world_def example_monitored_def
        sanity_entry_of_def get_rune_token_or_none_def get_rune_token_def example_tokens_def Let_def)
  then obtain entry where run: "?run = (Inr [entry], ((), example_monitor_world))" by blast
  from sanity_check_exact[OF run] have "compares_exactly example_tokens example_monitored 100 entry"
    by (auto simp: example_list held example_monitor_world_def example_monitored_def)
  from this[unfolded compares_exactly_def, rule_format, of "''0x1''" 2 9950 2]
  obtain d where "sy_difference entry = Some d" "dec_val d = 1 / 2"
    by (auto simp: example_tokens_def example_monitored_def PRECISION_def)
  with run show ?thesis by blast
qed

end
