(* ===== verification/Btc_Rpc.thy ===== *)
theory Btc_Rpc
  imports Tap_Client
begin

text \<open>
  The client of the Bitcoin node, from \<^verbatim>\<open>bridge_node/bridge/common/btc/rpc.py\<close>: how a request is
  numbered and encoded, and what of its answer is a result and what an error. The node is a parameter, a
  function from requests to answers; as no two requests of a client have the same number, it may
  answer as it likes.
\<close>

section \<open>Encoding\<close>

text \<open>What \<open>json.dumps\<close> writes; a number with a fraction is a float.\<close>

datatype wire = WNull | WBool bool | WInt int | WFloat rat | WStr string | WList "wire list" | WDict "(string \<times> wire) list"

text \<open>
  \<open>DecimalJSONEncoder.default\<close>, called for what JSON has no notation for. Two numbers are the same to eight
  places if they are the same multiple of \<open>10\<^sup>-\<^sup>8\<close> after rounding half to even.
\<close>

definition eight_places :: "rat \<Rightarrow> int" where
  "eight_places v = round_half_even (v * 10 ^ 8)"

definition encode_decimal :: "decimal \<Rightarrow> exn + rat" where
  "encode_decimal d = (let r = round_double (dec_val d) in
     if eight_places r \<noteq> eight_places (dec_val d) then Inl TypeError else Inr r)"

fun encode_value :: "pyval \<Rightarrow> exn + wire"
and encode_values :: "pyval list \<Rightarrow> exn + wire list"
and encode_items :: "(string \<times> pyval) list \<Rightarrow> exn + (string \<times> wire) list" where
  "encode_value PNone = Inr WNull"
| "encode_value (PBool b) = Inr (WBool b)"
| "encode_value (PInt n) = Inr (WInt n)"
| "encode_value (PStr s) = Inr (WStr s)"
| "encode_value (PDecimal d) = rbind (encode_decimal d) (\<lambda>r. Inr (WFloat r))"
| "encode_value (PList vs) = rbind (encode_values vs) (\<lambda>ws. Inr (WList ws))"
| "encode_value (PDict kvs) = rbind (encode_items kvs) (\<lambda>ws. Inr (WDict ws))"
| "encode_value (PData n kvs) = Inl TypeError"
| "encode_value (PNamespace kvs) = Inl TypeError"
| "encode_values [] = Inr []"
| "encode_values (v # vs) = rbind (encode_value v) (\<lambda>w. rbind (encode_values vs) (\<lambda>ws. Inr (w # ws)))"
| "encode_items [] = Inr []"
| "encode_items ((k, v) # kvs) = rbind (encode_value v) (\<lambda>w. rbind (encode_items kvs) (\<lambda>ws. Inr ((k, w) # ws)))"

section \<open>Calls\<close>

record rpc_request =
  rpc_id :: int
  rpc_method :: string
  rpc_params :: "wire list"

text \<open>\<open>rpc_json\<close> is what \<open>json.loads\<close> makes of the body, \<open>JSONDecodeError\<close> being a \<open>ValueError\<close>.\<close>

record rpc_response =
  rpc_ok :: bool
  rpc_json :: "exn + pyval"

type_synonym rpc_server = "rpc_request \<Rightarrow> exn + rpc_response"

text \<open>The counter of a client, and what it has posted, newest first.\<close>

record rpc_client =
  id_count :: int
  rpc_posts :: "rpc_request list"

definition classify_response :: "rpc_response \<Rightarrow> exn + pyval" where
  "classify_response response =
     (case rpc_json response of
        Inl e \<Rightarrow> Inl (if e = ValueError then JSONRPCError else e)
      | Inr response_json \<Rightarrow>
          rbind (json_get response_json ''error'') (\<lambda>error.
          if error \<noteq> PNone \<or> \<not> rpc_ok response
          then (case error of
                  PDict _ \<Rightarrow> rbind (item error ''message'') (\<lambda>_. rbind (item error ''code'') (\<lambda>_. Inl JSONRPCError))
                | _ \<Rightarrow> Inl JSONRPCError)
          else rbind (py_contains ''result'' response_json) (\<lambda>has_result.
               if \<not> has_result then Inl JSONRPCError else item response_json ''result'')))"

definition jsonrpc_call :: "rpc_server \<Rightarrow> string \<Rightarrow> pyval list \<Rightarrow> (rpc_client, pyval) prog" where
  "jsonrpc_call server method params =
     sq (modify (\<lambda>c. c\<lparr>id_count := id_count c + 1\<rparr>))
    (bnd (lift_res (encode_values params)) (\<lambda>encoded.
     bnd (reads id_count) (\<lambda>i.
     let request = \<lparr>rpc_id = i, rpc_method = method, rpc_params = encoded\<rparr> in
     sq (modify (\<lambda>c. c\<lparr>rpc_posts := request # rpc_posts c\<rparr>))
    (bnd (lift_res (server request)) (\<lambda>response.
     lift_res (classify_response response))))))"

definition rpc_call :: "rpc_server \<Rightarrow> string \<Rightarrow> pyval list \<Rightarrow> (rpc_client, pyval) prog" where
  "rpc_call server service_name args = jsonrpc_call server service_name args"

text \<open>\<open>rpc.name(*args)\<close>.\<close>

definition rpc_getattr_call :: "rpc_server \<Rightarrow> string \<Rightarrow> pyval list \<Rightarrow> (rpc_client, pyval) prog" where
  "rpc_getattr_call server name args =
     (if take 1 name = ''_'' then throw AttributeError else rpc_call server name args)"

definition mine_blocks :: "rpc_server \<Rightarrow> int \<Rightarrow> string option \<Rightarrow> (rpc_client, pyval) prog" where
  "mine_blocks server num to_address =
     (let to_address = (case to_address of None \<Rightarrow> ''bcrt1qtxysk2megp39dnpw9va32huk5fesrlvutl0zdpc29asar4hfkrlqs2kzv5'' | Some a \<Rightarrow> a)
      in rpc_call server ''generatetoaddress'' [PInt num, PStr to_address])"

section \<open>Amounts\<close>

lemma round_half_even_near:
  assumes "\<bar>x - of_int n\<bar> < 1 / 2"
  shows "round_half_even x = n"
proof -
  have "of_int (round_half_even x) - x \<le> 1 / 2" "x - of_int (round_half_even x) \<le> 1 / 2"
    using round_half_even_error[of x] by linarith+
  moreover have "x - of_int n < 1 / 2" "of_int n - x < 1 / 2" using assms by linarith+
  ultimately have "of_int (round_half_even x) < (of_int (n + 1) :: rat)" "of_int n < (of_int (round_half_even x + 1) :: rat)"
    by simp_all
  then have "round_half_even x < n + 1" "n < round_half_even x + 1" by (simp_all only: of_int_less_iff)
  then show ?thesis by simp
qed

text \<open>
  An amount in bitcoins is never refused by the encoder: if it is a whole number of satoshis, and no more than twice
  the 21 million bitcoins there will ever be, the float that is sent is nearer to it than half a satoshi, so
  that a node that reads it to eight places reads the amount.
\<close>

theorem bitcoin_amount_encoded:
  assumes d: "dec_val d = of_int n / 10 ^ 8" and n: "\<bar>n\<bar> \<le> 42 * 10 ^ 14"
  shows "\<exists>r. encode_value (PDecimal d) = Inr (WFloat r) \<and> \<bar>r - of_int n / 10 ^ 8\<bar> < 1 / (2 * 10 ^ 8) \<and> eight_places r = n"
proof -
  define r where "r = round_double (dec_val d)"
  have "\<bar>r - dec_val d\<bar> \<le> \<bar>dec_val d\<bar> / 2 ^ 53" unfolding r_def by (rule round_double_error)
  also have "\<bar>dec_val d\<bar> \<le> 42 * 10 ^ 14 / 10 ^ 8"
    using n of_int_le_iff[of "\<bar>n\<bar>" "42 * 10 ^ 14", where ?'a = rat] by (simp add: d)
  finally have near: "\<bar>r - of_int n / 10 ^ 8\<bar> < 1 / (2 * 10 ^ 8)" by (simp add: d divide_right_mono)
  have "\<bar>r * 10 ^ 8 - of_int n\<bar> = \<bar>r - of_int n / 10 ^ 8\<bar> * 10 ^ 8" by (simp add: abs_if field_simps)
  with near have "\<bar>r * 10 ^ 8 - of_int n\<bar> < 1 / 2" by simp
  then have places: "eight_places r = n" unfolding eight_places_def by (rule round_half_even_near)
  moreover have "eight_places (dec_val d) = n" by (simp add: eight_places_def d)
  ultimately have "encode_decimal d = Inr r" by (simp add: encode_decimal_def r_def Let_def)
  with near places show ?thesis by simp
qed

theorem bitcoin_amount_encoded_witness:
  "\<exists>r. encode_value (PDecimal (Dec 2100000000000001 (- 8))) = Inr (WFloat r) \<and> eight_places r = 2100000000000001"
  using bitcoin_amount_encoded[of "Dec 2100000000000001 (- 8)" 2100000000000001] by (auto simp: dec_val_def power_int_minus)

section \<open>Answers\<close>

text \<open>A call returns exactly what a successful answer without an error has as its result.\<close>

definition successful :: "rpc_response \<Rightarrow> pyval \<Rightarrow> bool" where
  "successful response v \<longleftrightarrow> rpc_ok response \<and> (\<exists>kvs. rpc_json response = Inr (PDict kvs) \<and>
     map_of kvs ''error'' \<in> {None, Some PNone} \<and> map_of kvs ''result'' = Some v)"

lemma classify_successful: "classify_response response = Inr v \<longleftrightarrow> successful response v"
proof (cases "rpc_json response")
  case (Inr json)
  show ?thesis
  proof (cases json)
    case (PDict kvs)
    consider "map_of kvs ''error'' \<in> {None, Some PNone}" | e where "map_of kvs ''error'' = Some e" "e \<noteq> PNone"
      by (cases "map_of kvs ''error''") auto
    then show ?thesis
    proof cases
      case 1
      then have "json_get json ''error'' = Inr PNone" by (auto simp: PDict)
      moreover have "py_contains ''result'' (PDict kvs) = Inr (map_of kvs ''result'' \<noteq> None)"
        by (simp add: map_of_eq_None_iff)
      ultimately show ?thesis using 1 Inr PDict
        by (cases "map_of kvs ''result''") (simp_all del: py_contains.simps add: classify_response_def successful_def)
    next
      case (2 e)
      have "(case e of PDict _ \<Rightarrow> rbind (item e ''message'') (\<lambda>_. rbind (item e ''code'') (\<lambda>_. Inl JSONRPCError))
          | _ \<Rightarrow> Inl JSONRPCError) \<noteq> (Inr v :: exn + pyval)"
        by (cases e) (auto simp: rbind_def split: sum.splits)
      with 2 Inr PDict show ?thesis by (simp add: classify_response_def successful_def)
    qed
  qed (simp_all add: classify_response_def successful_def Inr)
qed (simp add: classify_response_def successful_def)

lemma getattr_unsuccessful: "take 1 name = ''_'' \<Longrightarrow> rpc_getattr_call server name args c = (Inl AttributeError, c)"
  by (simp add: rpc_getattr_call_def)

text \<open>The numbers of the requests of a client: different, and none above the counter.\<close>

definition numbered :: "rpc_client \<Rightarrow> bool" where
  "numbered c \<longleftrightarrow> distinct (map rpc_id (rpc_posts c)) \<and> (\<forall>r \<in> set (rpc_posts c). rpc_id r \<le> id_count c)"

lemma call_numbered: "keeps numbered (rpc_call server name args)"
  by (rule keepsI) (auto simp: numbered_def rpc_call_def jsonrpc_call_def run_bnd run_sq Let_def split: sum.splits dest: bspec)

text \<open>
  C26. A call returns a value exactly if its arguments can be encoded, and the node's answer to the one request that is
  then posted, which has a number of its own, is a success with that value as its result and no error; in every
  other case it raises, and what was posted before is untouched.
\<close>

theorem rpc_call_result:
  assumes "numbered c"
  shows "let (r, c') = rpc_call server name args c in
    numbered c' \<and>
    (case encode_values args of
       Inl e \<Rightarrow> r = Inl e \<and> rpc_posts c' = rpc_posts c
     | Inr encoded \<Rightarrow> (\<exists>request. rpc_posts c' = request # rpc_posts c \<and> request = \<lparr>rpc_id = id_count c + 1, rpc_method = name, rpc_params = encoded\<rparr> \<and>
         (\<forall>v. r = Inr v \<longleftrightarrow> (\<exists>response. server request = Inr response \<and> successful response v))))"
proof -
  obtain r c' where run: "rpc_call server name args c = (r, c')" by (cases "rpc_call server name args c")
  from keepsD'[OF call_numbered assms run] have "numbered c'" .
  moreover have "case encode_values args of
       Inl e \<Rightarrow> r = Inl e \<and> rpc_posts c' = rpc_posts c
     | Inr encoded \<Rightarrow> (\<exists>request. rpc_posts c' = request # rpc_posts c \<and> request = \<lparr>rpc_id = id_count c + 1, rpc_method = name, rpc_params = encoded\<rparr> \<and>
         (\<forall>v. r = Inr v \<longleftrightarrow> (\<exists>response. server request = Inr response \<and> successful response v)))"
  proof (cases "encode_values args")
    case (Inr encoded)
    let ?request = "\<lparr>rpc_id = id_count c + 1, rpc_method = name, rpc_params = encoded\<rparr>"
    have "r = rbind (server ?request) classify_response" "rpc_posts c' = ?request # rpc_posts c"
      using run Inr by (auto simp: rpc_call_def jsonrpc_call_def run_bnd run_sq Let_def rbind_def split: sum.splits)
    then show ?thesis using Inr by (auto simp: rbind_eq_Inr classify_successful)
  qed (use run in \<open>auto simp: rpc_call_def jsonrpc_call_def run_bnd run_sq\<close>)
  ultimately show ?thesis by (simp add: run)
qed

text \<open>A node that answers every request with the number 7.\<close>

theorem rpc_call_result_witness:
  "\<exists>c'. rpc_call (\<lambda>request. Inr \<lparr>rpc_ok = True, rpc_json = Inr (PDict [(''error'', PNone), (''result'', PInt 7)])\<rparr>) ''getblockcount'' []
     \<lparr>id_count = 0, rpc_posts = []\<rparr> = (Inr (PInt 7), c')"
proof -
  let ?server = "\<lambda>request :: rpc_request. Inr \<lparr>rpc_ok = True, rpc_json = Inr (PDict [(''error'', PNone), (''result'', PInt 7)])\<rparr> :: exn + rpc_response"
  obtain r c' where run: "rpc_call ?server ''getblockcount'' [] \<lparr>id_count = 0, rpc_posts = []\<rparr> = (r, c')"
    by (cases "rpc_call ?server ''getblockcount'' [] \<lparr>id_count = 0, rpc_posts = []\<rparr>")
  have "numbered \<lparr>id_count = 0, rpc_posts = []\<rparr>" by (simp add: numbered_def)
  from rpc_call_result[OF this, of ?server "''getblockcount''" "[]"] have "r = Inr (PInt 7)"
    unfolding run by (auto simp: successful_def)
  with run show ?thesis by blast
qed

end
