(* ===== verification/Messengers.thy ===== *)
theory Messengers
  imports Ord_Types
begin

text \<open>
  The messengers, from \<^verbatim>\<open>bridge_node/bridge/common/messengers/__init__.py\<close> and their choice from the
  configuration, from \<^verbatim>\<open>anemic.py\<close>. The web services they post to are parameters, and the
  state is what has been posted, newest first.
\<close>

section \<open>Messengers\<close>

record discord_messenger =
  dm_webhook_url :: string
  dm_username :: pystr

record slack_messenger =
  sm_webhook_url :: string
  sm_username :: pystr
  sm_channel :: pystr

datatype messenger =
    NullMessenger
  | DiscordMessenger discord_messenger
  | SlackMessenger slack_messenger
  | CombinedMessenger "messenger list"

text \<open>What is posted: to Discord a user name and a content, to Slack also an icon, a channel, and blocks.\<close>

datatype slack_block = Header pystr | Section pystr

record slack_data =
  sd_username :: pystr
  sd_icon_emoji :: string
  sd_channel :: pystr
  sd_blocks :: "slack_block list"

datatype post = DiscordPost string pystr pystr | SlackPost string slack_data

type_synonym web = "post \<Rightarrow> exn + bool"

definition ALERT :: pystr where
  "ALERT = [128680] @ pys '' Alert! '' @ [128680]"

definition discord_content :: "pystr \<Rightarrow> pystr \<Rightarrow> bool \<Rightarrow> pystr" where
  "discord_content title message alert =
     (let content = (if alert then pys ''# '' @ ALERT @ [10] else []);
          content = (if title \<noteq> [] then content @ pys ''## '' @ title @ [10] else content)
      in content @ message)"

definition slack_data_of :: "slack_messenger \<Rightarrow> pystr \<Rightarrow> pystr \<Rightarrow> bool \<Rightarrow> slack_data" where
  "slack_data_of m title message alert =
     (let title = (if alert then ALERT @ pys '' '' @ title else title) in
      \<lparr>sd_username = sm_username m, sd_icon_emoji = (if alert then '':fire:'' else '':robot_face:''), sd_channel = sm_channel m,
       sd_blocks = (if title \<noteq> [] then [Header title] else []) @ [Section message]\<rparr>)"

text \<open>\<open>requests.post\<close>; an answer that is not a success is only logged.\<close>

definition post_message :: "web \<Rightarrow> post \<Rightarrow> (post list, unit) prog" where
  "post_message web p = sq (modify (\<lambda>posts. p # posts)) (bnd (lift_res (web p)) (\<lambda>success. ok ()))"

definition discord_send :: "web \<Rightarrow> discord_messenger \<Rightarrow> pystr \<Rightarrow> pystr \<Rightarrow> bool \<Rightarrow> (post list, unit) prog" where
  "discord_send web m title message alert =
     post_message web (DiscordPost (dm_webhook_url m) (dm_username m) (discord_content title message alert))"

definition slack_send :: "web \<Rightarrow> slack_messenger \<Rightarrow> pystr \<Rightarrow> pystr \<Rightarrow> bool \<Rightarrow> (post list, unit) prog" where
  "slack_send web m title message alert =
     post_message web (SlackPost (sm_webhook_url m) (slack_data_of m title message alert))"

fun send_message :: "web \<Rightarrow> messenger \<Rightarrow> pystr \<Rightarrow> pystr \<Rightarrow> bool \<Rightarrow> (post list, unit) prog"
and send_messages :: "web \<Rightarrow> messenger list \<Rightarrow> pystr \<Rightarrow> pystr \<Rightarrow> bool \<Rightarrow> (post list, unit) prog" where
  "send_message web NullMessenger title message alert = ok ()"
| "send_message web (DiscordMessenger m) title message alert = catch (discord_send web m title message alert) (\<lambda>e. ok ())"
| "send_message web (SlackMessenger m) title message alert = catch (slack_send web m title message alert) (\<lambda>e. ok ())"
| "send_message web (CombinedMessenger ms) title message alert = send_messages web ms title message alert"
| "send_messages web [] title message alert = ok ()"
| "send_messages web (m # ms) title message alert =
     sq (send_message web m title message alert) (send_messages web ms title message alert)"

section \<open>The messenger of a node\<close>

record messenger_config =
  mc_btc_network :: string
  mc_slack_webhook_url :: string
  mc_slack_webhook_channel :: pystr
  mc_discord_webhook_url :: string

definition messenger_factory :: "messenger_config \<Rightarrow> messenger" where
  "messenger_factory config =
     (let username = pys (''NBTEBridge ['' @ mc_btc_network config @ '']'') in
      if mc_slack_webhook_url config = [] \<and> mc_discord_webhook_url config = [] then NullMessenger else
      let messengers = [];
          messengers = (if mc_slack_webhook_url config \<noteq> []
            then messengers @ [SlackMessenger \<lparr>sm_webhook_url = mc_slack_webhook_url config, sm_username = username,
                                                sm_channel = mc_slack_webhook_channel config\<rparr>] else messengers);
          messengers = (if mc_discord_webhook_url config \<noteq> []
            then messengers @ [DiscordMessenger \<lparr>dm_webhook_url = mc_discord_webhook_url config, dm_username = username\<rparr>] else messengers)
      in CombinedMessenger messengers)"

section \<open>Sending\<close>

text \<open>The posts of a message, one for every service, in order.\<close>

fun posts_of :: "messenger \<Rightarrow> pystr \<Rightarrow> pystr \<Rightarrow> bool \<Rightarrow> post list" where
  "posts_of NullMessenger title message alert = []"
| "posts_of (DiscordMessenger m) title message alert =
     [DiscordPost (dm_webhook_url m) (dm_username m) (discord_content title message alert)]"
| "posts_of (SlackMessenger m) title message alert = [SlackPost (sm_webhook_url m) (slack_data_of m title message alert)]"
| "posts_of (CombinedMessenger ms) title message alert = concat (map (\<lambda>m. posts_of m title message alert) ms)"

lemma run_discord_send: "snd (discord_send web m title message alert posts) =
    DiscordPost (dm_webhook_url m) (dm_username m) (discord_content title message alert) # posts"
  by (simp add: discord_send_def post_message_def run_bnd run_sq split: sum.splits)

lemma run_slack_send: "snd (slack_send web m title message alert posts) =
    SlackPost (sm_webhook_url m) (slack_data_of m title message alert) # posts"
  by (simp add: slack_send_def post_message_def run_bnd run_sq split: sum.splits)

lemma caught: "catch m (\<lambda>e. ok ()) s = (Inr (), snd (m s))"
  by (simp add: run_catch split: prod.splits sum.splits)

lemma run_send_message:
  "send_message web m title message alert posts = (Inr (), rev (posts_of m title message alert) @ posts)"
  "send_messages web ms title message alert posts = (Inr (), rev (concat (map (\<lambda>m. posts_of m title message alert) ms)) @ posts)"
  by (induction web m title message alert and web ms title message alert arbitrary: posts and posts
      rule: send_message_send_messages.induct)
    (simp_all add: caught run_discord_send run_slack_send run_sq)

text \<open>
  C34. Sending a message never raises, whatever the web services do, and each service that the configuration
  names is posted to exactly once, Slack first, whether or not the other one failed, under the name of the
  bridge and its network; an alert is marked as such in the text, so that it
  has a title even when none is given, and the message itself is always there.
\<close>

theorem message_reaches_every_service:
  "\<exists>username slack discord. username = pys (''NBTEBridge ['' @ mc_btc_network config @ '']'') \<and>
     send_message web (messenger_factory config) title message alert posts = (Inr (), discord @ slack @ posts) \<and>
     slack = (if mc_slack_webhook_url config = [] then [] else [SlackPost (mc_slack_webhook_url config)
       \<lparr>sd_username = username, sd_icon_emoji = (if alert then '':fire:'' else '':robot_face:''),
        sd_channel = mc_slack_webhook_channel config,
        sd_blocks = (if alert then [Header (ALERT @ [32] @ title)] else if title = [] then [] else [Header title]) @ [Section message]\<rparr>]) \<and>
     discord = (if mc_discord_webhook_url config = [] then [] else [DiscordPost (mc_discord_webhook_url config) username
       ((if alert then pys ''# '' @ ALERT @ [10] else []) @ (if title = [] then [] else pys ''## '' @ title @ [10]) @ message)])"
proof -
  have blank: "pys '' '' = [32]" by (simp add: pys_def)
  have "ALERT \<noteq> []" by (simp add: ALERT_def)
  then show ?thesis
    by (auto simp: run_send_message messenger_factory_def Let_def slack_data_of_def discord_content_def blank)
qed

end
