(* ===== verification/Configuration.thy ===== *)
theory Configuration
  imports Prelude Py_Show
begin

text \<open>
  Reading the configuration, from \<^verbatim>\<open>bridge_node/bridge/config/__init__.py\<close> and
  \<^verbatim>\<open>bridge_node/bridge/config/secrets.py\<close>: lists separated by commas, the peers, and secrets.
  Asking for the secrets and parsing their JSON is outside of the model, as is \<open>environ\<close>, which reads the other
  variables.
\<close>

section \<open>Lists\<close>

text \<open>The blanks that \<open>strip\<close> removes, of the characters that Isabelle's \<open>char\<close> has, which are the first 256.\<close>

definition is_blank :: "char \<Rightarrow> bool" where
  "is_blank c \<longleftrightarrow> (let n = of_char c :: nat in 9 \<le> n \<and> n \<le> 13 \<or> 28 \<le> n \<and> n \<le> 32 \<or> n = 133 \<or> n = 160)"

definition strip :: "string \<Rightarrow> string" where
  "strip s = rev (dropWhile is_blank (rev (dropWhile is_blank s)))"

definition comma_separated :: "string \<Rightarrow> string list" where
  "comma_separated s = map strip (filter (\<lambda>x. strip x \<noteq> []) (split_on (CHR '','') s))"

text \<open>The converter of \<open>peers\<close>.\<close>

definition parse_peers :: "string \<Rightarrow> string list list" where
  "parse_peers s = map (split_on (CHR ''@'')) (comma_separated s)"

section \<open>Secrets\<close>

text \<open>
  A default of \<open>None\<close> is \<open>RAISE\<close>. The value is a secret, the default, or a variable of the environment, which is read later.
\<close>

datatype 'd setting = SecretValue string | DefaultValue 'd | EnvironVar "'d option"

definition secret :: "bool \<Rightarrow> (string \<Rightarrow> string option) \<Rightarrow> string \<Rightarrow> 'd option \<Rightarrow> exn + 'd setting" where
  "secret enabled secrets name dflt =
     (if enabled
      then (case secrets name of Some v \<Rightarrow> Inr (SecretValue v)
            | None \<Rightarrow> (case dflt of None \<Rightarrow> Inl ValueError | Some d \<Rightarrow> Inr (DefaultValue d)))
      else Inr (EnvironVar dflt))"

section \<open>Reading back what is written\<close>

text \<open>An item that can be written in a list: not empty, without commas, and without blanks at its ends.\<close>

definition plain_item :: "string \<Rightarrow> bool" where
  "plain_item x \<longleftrightarrow> x \<noteq> [] \<and> CHR '','' \<notin> set x \<and> \<not> is_blank (hd x) \<and> \<not> is_blank (last x)"

text \<open>A list as somebody writes it: items between commas, with any blanks around each.\<close>

fun written_list :: "(string \<times> string \<times> string) list \<Rightarrow> string" where
  "written_list [] = []"
| "written_list [(before, x, after)] = before @ x @ after"
| "written_list ((before, x, after) # xs) = before @ x @ after @ [CHR '',''] @ written_list xs"

lemma split_on_ne: "split_on sep s \<noteq> []"
  by (induction s) (auto split: list.splits)

lemma split_on_plain: "sep \<notin> set s \<Longrightarrow> split_on sep s = [s]"
  by (induction s) auto

lemma split_on_append: "sep \<notin> set s \<Longrightarrow> split_on sep (s @ sep # t) = s # split_on sep t"
  by (induction s) auto

lemma strip_plain:
  assumes "\<forall>c \<in> set before \<union> set after. is_blank c" "x \<noteq> []" "\<not> is_blank (hd x)" "\<not> is_blank (last x)"
  shows "strip (before @ x @ after) = x"
proof -
  have front: "dropWhile is_blank (ys @ zs) = zs" if "\<forall>c \<in> set ys. is_blank c" "zs = [] \<or> \<not> is_blank (hd zs)" for ys zs
    using that by (induction ys) (cases zs; auto)+
  have "dropWhile is_blank (before @ x @ after) = x @ after" using assms by (intro front) auto
  moreover have "dropWhile is_blank (rev after @ rev x) = rev x" using assms by (intro front) (auto simp: hd_rev)
  ultimately show ?thesis by (simp add: strip_def)
qed

lemma not_blank_comma: "\<not> is_blank (CHR '','')"
  by (simp add: is_blank_def Let_def)

text \<open>
  A list of plain items separated by commas, with any blanks around the items, is read as those items.
\<close>

theorem comma_separated_written:
  assumes "\<forall>(before, x, after) \<in> set items. plain_item x \<and> (\<forall>c \<in> set before \<union> set after. is_blank c)"
  shows "comma_separated (written_list items) = map (\<lambda>(before, x, after). x) items"
  using assms
proof (induction items rule: written_list.induct)
  case 1
  show ?case by (simp add: comma_separated_def strip_def)
next
  case (2 before x after)
  then have x: "plain_item x" and blank: "\<forall>c \<in> set before \<union> set after. is_blank c" by auto
  then have "CHR '','' \<notin> set (before @ x @ after)" using not_blank_comma by (auto simp: plain_item_def)
  moreover have "strip (before @ x @ after) = x" using x blank by (intro strip_plain) (auto simp: plain_item_def)
  ultimately show ?case using x by (simp add: comma_separated_def split_on_plain plain_item_def)
next
  case (3 before x after y ys)
  then have x: "plain_item x" and blank: "\<forall>c \<in> set before \<union> set after. is_blank c" by auto
  then have "CHR '','' \<notin> set (before @ x @ after)" using not_blank_comma by (auto simp: plain_item_def)
  then have "split_on (CHR '','') ((before @ x @ after) @ CHR '','' # written_list (y # ys)) =
      (before @ x @ after) # split_on (CHR '','') (written_list (y # ys))" by (rule split_on_append)
  moreover have "strip (before @ x @ after) = x" using x blank by (intro strip_plain) (auto simp: plain_item_def)
  moreover have "comma_separated (written_list (y # ys)) = map (\<lambda>(before, x, after). x) (y # ys)" using 3 by auto
  ultimately show ?case using x by (simp add: comma_separated_def plain_item_def)
qed

theorem comma_separated_written_witness:
  "comma_separated (written_list [('''', ''runesrsk'', '' ''), ('' '', ''taprsk'', '''')]) = [''runesrsk'', ''taprsk'']"
  using comma_separated_written[of "[('''', ''runesrsk'', '' ''), ('' '', ''taprsk'', '''')]"]
  by (simp add: plain_item_def is_blank_def Let_def)

end
