(* ===== verification/Spec2Isabelle.thy ===== *)
theory Spec2Isabelle
  imports Descriptors Evm_Events Deposit_Send Btc_Types Multisig_Utils Ord_Multisig Fees Token_Deposits
    Network Handshake Proxy Payouts Rune_Lifecycle Rune_Bridge
    Tap_Client Tap_Models Tap_Scan Tap_Transfers Tap_Lifecycle Simple_Wallet Transactions Api Monitor Btc_Rpc Messengers Configuration
begin

text \<open>
  A model of the bridge node of this repository, \<^verbatim>\<open>src/bridge_node/bridge/\<close>: the program that a
  federation runs to move Runes between Bitcoin and EVM chains, and assets between Taproot
  Assets and Rootstock. This theory imports all others. Paths below are relative to that directory.

  \<^bold>\<open>The program.\<close> Every node runs the main loop (\<^verbatim>\<open>main_bridge.py\<close>), in which each bridge has its
  turn (\<^verbatim>\<open>bridges/runes/bridge.py\<close>, \<^verbatim>\<open>bridges/tap_rsk/bridge.py\<close>). All nodes scan the chains and write what
  they find into their own databases. The leader alone acts on it: it asks the other nodes over
  the network (\<^verbatim>\<open>common/p2p/\<close>) for signatures, which they give after the checks listed below, and
  then sends the EVM transaction, or the Bitcoin transaction of the multisig
  wallet (\<^verbatim>\<open>common/ord/multisig.py\<close>), or the Tap assets. The status of a row says how far it got; it is committed before
  anything is sent. The HTTP API (\<^verbatim>\<open>api/\<close>, \<^verbatim>\<open>bridges/runes/views.py\<close>) hands out deposit addresses and shows
  transfers, the monitoring pages show balances.

  \<^bold>\<open>What a node checks before it signs\<close> differs between the three flows, in the code as in the model. A transfer of
  tokens to Bitcoin is looked up in the node's own database, and the transaction is compared with it
  (\<open>answer_sign_rune_token_to_btc_transfer_question\<close>). A transfer of runes to the EVM chain is checked against ord, the contract
  and the amounts computed from them, not against the database: that check is commented out in \<^verbatim>\<open>service.py\<close>, so the
  receiver and the uniqueness of the transfer are the leader's word and the contract's concern
  (\<open>answer_sign_rune_to_evm_transfer_question\<close>, which takes no database). A transfer from Tap to Rootstock
  is checked only for not being processed by the contract yet, and otherwise accepted blindly, as the comment in
  \<^verbatim>\<open>tap_to_rsk.py\<close> says (\<open>answer_sign_transfer_batch\<close>). The transfers in the other direction of that bridge ask for no
  signatures.

  \<^bold>\<open>How it is modelled.\<close> A method is a program (theory \<open>Prelude\<close>): a function from a state to a
  value or an exception, and a state. The state of a bridge is a \<open>world\<close>: its database, its
  sequences, and the list of effects on the outside, newest first. Tables are lists of records in order of insertion
  (theory \<open>Tables\<close>), so rows that a query does not order, and ties, come in that order. \<open>in_tx\<close> is a block in a
  database transaction; theory \<open>Transactions\<close> proves that it is what the transaction manager does. Python's integers are \<open>int\<close>,
  its \<open>Decimal\<close> is a coefficient and an exponent with the program's precision of 80 digits (\<open>Decimal\<close>), its floats are
  rationals rounded to 53 bits (\<open>Py_Float\<close>), JSON and Pyro values are \<open>pyval\<close> (\<open>Network\<close>), text that
  may not be ASCII is a list of code points (\<open>pystr\<close>). What is not under \<^verbatim>\<open>src/\<close> is a parameter: the
  Bitcoin node, ord, the EVM nodes and contracts, the Taproot daemon, mempool.space, clocks, sockets, and the
  libraries (\<open>bitcointx\<close>, \<open>pyord\<close>, \<open>eth_account\<close>, \<open>eth_utils\<close>, the Unicode tables). A parameter that may answer differently each
  time takes the number of the attempt.

  \<^bold>\<open>The theories.\<close>
  \<^item> \<open>Prelude\<close>, \<open>Tables\<close>: programs, exceptions, transactions, tables, and rules for what a
    program keeps (\<open>keeps_intros\<close>). The locale \<open>table_laws\<close> says what makes table invariants survive inserts, updates and
    roll backs; it is interpreted for both databases (\<open>rune\<close>, \<open>tap\<close>).
  \<^item> \<open>Key_Value_Store\<close>, \<open>Lru_Cache\<close>, \<open>Decimal\<close>, \<open>Py_Float\<close>, \<open>Py_Show\<close>: \<^verbatim>\<open>common/services/key_value_store.py\<close>, the
    caches, arithmetic and \<open>str\<close>. The locale \<open>position_store\<close> is the contract of the store with the scanners.
  \<^item> \<open>Descriptors\<close>: \<^verbatim>\<open>common/btc/descriptors.py\<close>; the checksum round trip and the detection of any wrong character,
    from the linearity of the polynomial code.
  \<^item> \<open>Btc_Types\<close>, \<open>Multisig_Utils\<close>, \<open>Fees\<close>, \<open>Btc_Rpc\<close>: the rest of \<^verbatim>\<open>common/btc/\<close>: amounts, outputs, descriptors and
    scripts of the multisig wallet, fee estimation with its cache and its float computation, the JSON-RPC client.
  \<^item> \<open>Evm_Events\<close>: \<^verbatim>\<open>common/evm/\<close>; batched, retried queries and the scanner, whose runs handle every event once.
  \<^item> \<open>Ord_Types\<close>, \<open>Ord_Sync\<close>, \<open>Ord_Multisig\<close>, \<open>Simple_Wallet\<close>: \<^verbatim>\<open>common/ord/\<close>; rune names and outputs, waiting for
    ord, the wallet that creates rune transactions (which coins, which outputs, balanced to the satoshi), the
    wallet without multisig.
  \<^item> \<open>Rune_Models\<close>, \<open>Rune_Amounts\<close>, \<open>Deposit_Scan\<close>, \<open>Deposit_Send\<close>, \<open>Token_Deposits\<close>: \<^verbatim>\<open>bridges/runes/models.py\<close> and
    \<^verbatim>\<open>service.py\<close>: tables, amounts, scanning deposits, transferring them to the EVM chain, paying token
    deposits on Bitcoin, and what a node checks before it signs either.
  \<^item> \<open>Network\<close>, \<open>Handshake\<close>, \<open>Proxy\<close>: \<^verbatim>\<open>common/p2p/\<close>; serialization and asking the peers, the signed
    challenge, the fork of Pyro's proxy with its connections, handshake and retries.
  \<^item> \<open>Payouts\<close>: the locale \<open>payouts\<close>, a state with entries that get settled and a history of payments; its lemma says that
    over any run every entry is paid at most once. Interpreted four times: \<open>deposits\<close>, \<open>tokens\<close>, \<open>to_tap\<close>, \<open>to_rsk\<close>.
  \<^item> \<open>Rune_Lifecycle\<close>, \<open>Rune_Bridge\<close>: all operations as one step relation with its invariants; the
    iteration of a bridge and the main loop, which are runs of it.
  \<^item> \<open>Tap_Client\<close>, \<open>Tap_Models\<close>, \<open>Tap_Scan\<close>, \<open>Tap_Transfers\<close>, \<open>Tap_Lifecycle\<close>: \<^verbatim>\<open>common/tap/client.py\<close> and
    \<^verbatim>\<open>bridges/tap_rsk/\<close>, in the same layers.
  \<^item> \<open>Transactions\<close>, \<open>Api\<close>, \<open>Monitor\<close>, \<open>Messengers\<close>, \<open>Configuration\<close>: \<^verbatim>\<open>common/services/transactions.py\<close> with the transaction
    of a request, the views and their client, the monitoring pages, \<^verbatim>\<open>common/messengers/\<close>, and the lists and
    secrets of \<^verbatim>\<open>config/\<close>.

  \<^bold>\<open>What is shown.\<close> Over any run of operations, in any order, with any answers from outside: each deposit, token deposit and Tap
  transfer is paid at most once, statuses follow their state machines, and the tables keep their keys and types. What a scan stores is
  backed by the chain. A node that signs a transfer of tokens to Bitcoin has it in its database, with the same
  receiver and amount; nothing of the kind holds of the other two flows, and nothing of the kind is claimed. The signatures that a leader
  collects for a deposit or a Tap batch are verified to be of federators, those for a deposit of different ones. Only the leader of
  a bridge that is not frozen sends. Something also happens: an accepted deposit is sent when the bridge is in order,
  a deposit that fails does not keep the next from being handled, the wait for ord ends. Amounts are exact floors with nothing lost, created
  transactions balance. The order in which the keys of the wallet are given makes no difference to its addresses. Where the code does not do what it
  means to, a theorem says what it does instead: deposits and batches that
  get stuck, an amount of zero that sends everything.

  \<^bold>\<open>Bounds.\<close> Loops that the code bounds by a count of attempts recurse on that count. The wait for ord ends by its clock: 61
  tests suffice for 60 seconds when each sleep takes its second. The main loop runs for as many iterations as an argument says, and what is
  proved holds for every number. A proxy reconnects as often as its argument says.

  \<^bold>\<open>Hypotheses.\<close> Most say which operation ran, from which state and with which outcome. Those about code that is not here are what
  that code documents: \<open>session_laws\<close> (theory \<open>Transactions\<close>) of a session of SQLAlchemy, \<open>pyro_delivers\<close> (theory \<open>Network\<close>) of a
  call over Pyro, the clock of a wait. Each
  property with hypotheses has a witness, a concrete case in which they hold.

  \<^bold>\<open>Not modelled.\<close> Wiring: the command line, the dependency container, factories of clients and contracts, logging, Sentry,
  routes, templates and the web server, which have no logic of their own; what Pyramid does around a view
  (dispatch, error pages, the order of its callbacks); reading the environment and asking for
  secrets; database migrations, the EVM contracts (Solidity), and the tests and development scripts. Of Pyro's proxy: pickling, copying, blobs, batches,
  timeouts and iteration, which the bridge does not use. The text of log messages and of \<open>repr\<close>. The cache of ord's outputs is defined
  (\<open>cached_lookup\<close>), but the bridge of the model asks ord each time, and so does every wallet the properties are about; messengers never
  raise (theory \<open>Messengers\<close>). Isolation between
  concurrent transactions: operations are steps, one after the other. Infinities, NaN and overflow of floats.
\<close>

end
